(* ===== verification/Mux_Prelude.thy ===== *)
theory Mux_Prelude
  imports Main "HOL-Library.Word" "HOL-Library.AList" "HOL-Library.Multiset"
    "HOL-Library.Char_ord" "HOL-Library.List_Lexorder" "HOL-Library.Code_Target_Nat"
begin

text \<open>
  The vocabulary the components share.  Rust's \<open>u64\<close> and \<open>u32\<close> are words of that width, a
  \<open>usize\<close> that only counts the elements of a container is a natural number, a \<open>String\<close> is the
  list of its UTF-8 bytes, and \<open>Duration\<close> and \<open>Instant\<close> are natural numbers of nanoseconds.
  A \<open>HashMap\<close> is an association list with distinct keys: the order of the list stands for the
  iteration order, which Rust leaves unspecified, so no property below depends on it.
\<close>

section \<open>Types and collections of facts\<close>

type_synonym u64 = "64 word"
type_synonym u32 = "32 word"
type_synonym instant = nat
type_synonym duration = nat
type_synonym ('k, 'v) hashmap = "('k \<times> 'v) list"

named_theorems fmt_simps \<open>evaluation of formatted strings\<close>
named_theorems map_simps \<open>lookups after an update of a hash map\<close>

section \<open>Durations\<close>

definition from_millis :: "u64 \<Rightarrow> duration" where
  "from_millis ms = unat ms * 1000000"

definition from_secs :: "nat \<Rightarrow> duration" where
  "from_secs s = s * 1000000000"

definition as_millis_u64 :: "duration \<Rightarrow> u64" where
  "as_millis_u64 d = of_nat (d div 1000000)"

lemma as_millis_from_millis [simp]: "as_millis_u64 (from_millis ms) = ms"
  by (simp add: as_millis_u64_def from_millis_def)

section \<open>Saturating and wrapping arithmetic\<close>

definition saturating_add_u64 :: "u64 \<Rightarrow> u64 \<Rightarrow> u64" where
  "saturating_add_u64 a b = (if unat a + unat b < 2 ^ 64 then a + b else 18446744073709551615)"

definition saturating_sub_u64 :: "u64 \<Rightarrow> u64 \<Rightarrow> u64" where
  "saturating_sub_u64 a b = (if b \<le> a then a - b else 0)"

lemma unat_saturating_add_u64: "unat (saturating_add_u64 a b) = min (unat a + unat b) (2 ^ 64 - 1)"
proof (cases "unat a + unat b < 2 ^ 64")
  case True
  then have "unat (a + b) = unat a + unat b"
    by (simp add: unat_word_ariths)
  with True show ?thesis by (simp add: saturating_add_u64_def)
next
  case False
  then show ?thesis by (simp add: saturating_add_u64_def)
qed

lemma unat_saturating_sub_u64: "unat (saturating_sub_u64 a b) = unat a - unat b"
  by (simp add: saturating_sub_u64_def unat_sub word_le_nat_alt)

lemma unat_Suc_u64: "unat a < 2 ^ 64 - 1 \<Longrightarrow> unat (a + 1 :: u64) = Suc (unat a)"
  by (simp add: unat_word_ariths)

section \<open>Decimal formatting\<close>

definition digit_char :: "nat \<Rightarrow> char" where
  "digit_char d = ''0123456789'' ! d"

text \<open>\<open>format!("{n}")\<close> of an unsigned integer.\<close>

fun nat_str :: "nat \<Rightarrow> string" where
  "nat_str n = (if n < 10 then [digit_char n] else nat_str (n div 10) @ [digit_char (n mod 10)])"

declare nat_str.simps [simp del]

definition digits :: "char set" where
  "digits = set ''0123456789''"

lemma digit_char_in [simp]: "d < 10 \<Longrightarrow> digit_char d \<in> digits"
  unfolding digit_char_def digits_def by (rule nth_mem) simp

lemma digit_char_inj: "d < 10 \<Longrightarrow> e < 10 \<Longrightarrow> digit_char d = digit_char e \<Longrightarrow> d = e"
proof -
  assume "d < 10" "e < 10" "digit_char d = digit_char e"
  moreover have "distinct ''0123456789''" by simp
  ultimately show "d = e"
    unfolding digit_char_def by (subst (asm) nth_eq_iff_index_eq) auto
qed

lemma nat_str_nonempty [simp]: "nat_str n \<noteq> []"
  by (subst nat_str.simps) simp

lemma nat_str_digits: "set (nat_str n) \<subseteq> digits"
proof (induction n rule: nat_str.induct)
  case (1 n)
  show ?case
  proof (cases "n < 10")
    case True
    then show ?thesis by (subst nat_str.simps) simp
  next
    case False
    with "1.IH" show ?thesis by (subst nat_str.simps) simp
  qed
qed

lemma nat_str_inj: "nat_str m = nat_str n \<Longrightarrow> m = n"
proof (induction m arbitrary: n rule: nat_str.induct)
  case (1 m)
  have unfold: "nat_str k = (if k < 10 then [digit_char k]
      else nat_str (k div 10) @ [digit_char (k mod 10)])" for k
    by (rule nat_str.simps)
  have lens: "length (nat_str k) = 1 \<longleftrightarrow> k < 10" for k
    by (subst unfold) simp
  show ?case
  proof (cases "m < 10")
    case True
    with lens [of m] lens [of n] "1.prems" have n: "n < 10" by simp
    with True "1.prems" show ?thesis
      by (simp add: unfold [of m] unfold [of n] digit_char_inj)
  next
    case False
    with lens [of m] lens [of n] "1.prems" have n: "\<not> n < 10" by simp
    with False "1.prems" have eq: "nat_str (m div 10) = nat_str (n div 10)"
        and "digit_char (m mod 10) = digit_char (n mod 10)"
      by (simp_all add: unfold [of m] unfold [of n])
    then have "m mod 10 = n mod 10" by (simp add: digit_char_inj)
    moreover have "m div 10 = n div 10" using "1.IH" [OF False] eq by simp
    ultimately show ?thesis by (metis div_mult_mod_eq)
  qed
qed

lemma nat_str_eq_iff [simp]: "nat_str m = nat_str n \<longleftrightarrow> m = n"
  using nat_str_inj by blast

section \<open>Strings\<close>

definition starts_with :: "string \<Rightarrow> string \<Rightarrow> bool" where
  "starts_with s p \<longleftrightarrow> take (length p) s = p"

lemma starts_with_append [simp]: "starts_with (p @ s) p"
  by (simp add: starts_with_def)

lemma starts_with_iff: "starts_with s p \<longleftrightarrow> (\<exists>t. s = p @ t)"
  by (metis append_eq_conv_conj starts_with_def append_take_drop_id)

text \<open>\<open>str::contains\<close>.\<close>

fun str_contains :: "string \<Rightarrow> string \<Rightarrow> bool" where
  "str_contains [] p \<longleftrightarrow> p = []"
| "str_contains (c # cs) p \<longleftrightarrow> starts_with (c # cs) p \<or> str_contains cs p"

lemma str_contains_iff: "str_contains s p \<longleftrightarrow> (\<exists>u v. s = u @ p @ v)"
proof (induction s)
  case Nil
  then show ?case by auto
next
  case (Cons c cs)
  show ?case
  proof
    assume "str_contains (c # cs) p"
    then consider "starts_with (c # cs) p" | "str_contains cs p" by auto
    then show "\<exists>u v. c # cs = u @ p @ v"
    proof cases
      case 1
      then show ?thesis by (metis append_Nil starts_with_iff)
    next
      case 2
      then show ?thesis using Cons.IH by (metis append_Cons)
    qed
  next
    assume "\<exists>u v. c # cs = u @ p @ v"
    then obtain u v where e: "c # cs = u @ p @ v" by blast
    show "str_contains (c # cs) p"
    proof (cases u)
      case Nil
      with e have "starts_with (c # cs) p" by (simp add: starts_with_iff)
      then show ?thesis by simp
    next
      case (Cons d ds)
      with e have "cs = ds @ p @ v" by simp
      then show ?thesis using Cons.IH by auto
    qed
  qed
qed

text \<open>\<open>[String]::join\<close>.\<close>

fun join :: "string \<Rightarrow> string list \<Rightarrow> string" where
  "join sep [] = []"
| "join sep [x] = x"
| "join sep (x # y # zs) = x @ sep @ join sep (y # zs)"

text \<open>
  \<open>to_ascii_lowercase\<close>; bytes of multi-byte characters are above 127 and stay.
\<close>

definition lower_char :: "char \<Rightarrow> char" where
  "lower_char c = (let n = of_char c :: nat in if 65 \<le> n \<and> n \<le> 90 then char_of (n + 32) else c)"

definition to_ascii_lowercase :: "string \<Rightarrow> string" where
  "to_ascii_lowercase s = map lower_char s"

text \<open>\<open>str::trim\<close> on the ASCII white space.\<close>

definition is_space :: "char \<Rightarrow> bool" where
  "is_space c = (let n = of_char c :: nat in n = 32 \<or> (9 \<le> n \<and> n \<le> 13))"

definition trim :: "string \<Rightarrow> string" where
  "trim s = rev (dropWhile is_space (rev (dropWhile is_space s)))"

section \<open>Hash maps as association lists\<close>

abbreviation hm_get :: "('k, 'v) hashmap \<Rightarrow> 'k \<Rightarrow> 'v option" where
  "hm_get \<equiv> map_of"

abbreviation hm_insert :: "'k \<Rightarrow> 'v \<Rightarrow> ('k, 'v) hashmap \<Rightarrow> ('k, 'v) hashmap" where
  "hm_insert \<equiv> AList.update"

abbreviation hm_remove :: "'k \<Rightarrow> ('k, 'v) hashmap \<Rightarrow> ('k, 'v) hashmap" where
  "hm_remove \<equiv> AList.delete"

abbreviation hm_keys :: "('k, 'v) hashmap \<Rightarrow> 'k set" where
  "hm_keys m \<equiv> fst ` set m"

abbreviation hm_ok :: "('k, 'v) hashmap \<Rightarrow> bool" where
  "hm_ok m \<equiv> distinct (map fst m)"

text \<open>\<open>if let Some(v) = map.get_mut(k) { f(v) }\<close>.\<close>

definition hm_modify :: "'k \<Rightarrow> ('v \<Rightarrow> 'v) \<Rightarrow> ('k, 'v) hashmap \<Rightarrow> ('k, 'v) hashmap" where
  "hm_modify k f m = (case map_of m k of None \<Rightarrow> m | Some v \<Rightarrow> AList.update k (f v) m)"

lemma hm_get_insert [map_simps]: "hm_get (hm_insert k v m) j = (if j = k then Some v else hm_get m j)"
  by (simp add: update_conv')

lemma hm_get_remove [map_simps]: "hm_get (hm_remove k m) j = (if j = k then None else hm_get m j)"
  by (simp add: delete_conv')

lemma hm_get_modify [map_simps]:
  "hm_get (hm_modify k f m) j = (if j = k then map_option f (hm_get m k) else hm_get m j)"
  by (auto simp: hm_modify_def update_conv' split: option.splits)

lemma hm_ok_insert [simp]: "hm_ok m \<Longrightarrow> hm_ok (hm_insert k v m)"
  by (rule distinct_update)

lemma hm_ok_remove [simp]: "hm_ok m \<Longrightarrow> hm_ok (hm_remove k m)"
  by (rule distinct_delete)

lemma hm_ok_modify [simp]: "hm_ok m \<Longrightarrow> hm_ok (hm_modify k f m)"
  by (auto simp: hm_modify_def distinct_update split: option.splits)

lemma hm_ok_filter [simp]: "hm_ok m \<Longrightarrow> hm_ok (filter P m)"
  by (rule distinct_map_filter)

lemma hm_keys_insert [simp]: "hm_keys (hm_insert k v m) = insert k (hm_keys m)"
  by (simp add: dom_update flip: dom_map_of_conv_image_fst) (simp add: update_conv' dom_fun_upd)

lemma hm_keys_remove [simp]: "hm_keys (hm_remove k m) = hm_keys m - {k}"
  by (simp add: delete_conv' dom_map_of_conv_image_fst [symmetric])

lemma hm_get_None: "hm_get m k = None \<longleftrightarrow> k \<notin> hm_keys m"
  by (rule map_of_eq_None_iff)

lemma hm_get_SomeD: "hm_get m k = Some v \<Longrightarrow> k \<in> hm_keys m"
  using hm_get_None [of m k] by auto

lemma hm_keys_modify [simp]: "hm_keys (hm_modify k f m) = hm_keys m"
  by (auto simp: hm_modify_def insert_absorb hm_get_SomeD simp del: update_conv split: option.splits)

lemma hm_get_filter:
  "hm_ok m \<Longrightarrow> hm_get (filter (\<lambda>(k, v). P k v) m) j =
     (case hm_get m j of None \<Rightarrow> None | Some v \<Rightarrow> if P j v then Some v else None)"
  by (induction m) (auto split: option.splits simp: map_of_eq_None_iff image_iff)

lemma hm_get_in_set: "hm_ok m \<Longrightarrow> hm_get m k = Some v \<longleftrightarrow> (k, v) \<in> set m"
  by (rule map_of_eq_Some_iff)

lemma length_hm_insert: "length (hm_insert k v m) = (if k \<in> hm_keys m then length m else Suc (length m))"
  by (induction m) auto

lemma length_hm_modify [simp]: "length (hm_modify k f m) = length m"
proof (cases "hm_get m k")
  case None
  then show ?thesis by (simp add: hm_modify_def)
next
  case (Some v)
  then show ?thesis by (simp add: hm_modify_def length_hm_insert hm_get_SomeD)
qed

lemma map_fst_hm_modify [simp]: "map fst (hm_modify k f m) = map fst m"
proof (cases "hm_get m k")
  case (Some v)
  then have "k \<in> set (map fst m)" using hm_get_SomeD [of m k v] by simp
  then show ?thesis using Some by (simp add: hm_modify_def update_keys)
qed (simp add: hm_modify_def)

section \<open>Predicates and sums over hash maps\<close>

definition hm_all :: "('k \<Rightarrow> 'v \<Rightarrow> bool) \<Rightarrow> ('k, 'v) hashmap \<Rightarrow> bool" where
  "hm_all P m \<longleftrightarrow> (\<forall>(k, v) \<in> set m. P k v)"

definition hm_sum :: "('v \<Rightarrow> nat) \<Rightarrow> ('k, 'v) hashmap \<Rightarrow> nat" where
  "hm_sum f m = sum_list (map (f \<circ> snd) m)"

lemma set_hm_insert_subset: "set (hm_insert k v m) \<subseteq> insert (k, v) (set m)"
  by (induction m) auto

lemma hm_all_Nil [simp]: "hm_all P []"
  by (simp add: hm_all_def)

lemma hm_all_insert [intro]: "hm_all P m \<Longrightarrow> P k v \<Longrightarrow> hm_all P (hm_insert k v m)"
  unfolding hm_all_def using set_hm_insert_subset [of k v m] by auto

lemma hm_all_filter [intro]: "hm_all P m \<Longrightarrow> hm_all P (filter Q m)"
  by (auto simp: hm_all_def)

lemma hm_all_remove [intro]: "hm_all P m \<Longrightarrow> hm_all P (hm_remove k m)"
  unfolding AList.delete_eq by (rule hm_all_filter)

lemma hm_all_get: "hm_all P m \<Longrightarrow> hm_get m k = Some v \<Longrightarrow> P k v"
  by (auto simp: hm_all_def dest: map_of_SomeD)

lemma hm_all_modify:
  "hm_all P m \<Longrightarrow> (\<And>v. P k v \<Longrightarrow> P k (f v)) \<Longrightarrow> hm_all P (hm_modify k f m)"
  unfolding hm_modify_def by (auto split: option.splits dest: hm_all_get)

lemma hm_all_mono: "hm_all P m \<Longrightarrow> (\<And>k v. P k v \<Longrightarrow> Q k v) \<Longrightarrow> hm_all Q m"
  by (auto simp: hm_all_def)

lemma hm_sum_Nil [simp]: "hm_sum f [] = 0"
  by (simp add: hm_sum_def)

lemma hm_sum_insert:
  "hm_sum f (hm_insert k v m) + (case hm_get m k of None \<Rightarrow> 0 | Some u \<Rightarrow> f u) = hm_sum f m + f v"
  by (induction m) (auto simp: hm_sum_def)

lemma hm_sum_filter_le: "hm_sum f (filter Q m) \<le> hm_sum f m"
  by (induction m) (auto simp: hm_sum_def)

lemma hm_sum_remove_le: "hm_sum f (hm_remove k m) \<le> hm_sum f m"
  unfolding AList.delete_eq by (rule hm_sum_filter_le)

lemma hm_sum_modify:
  "hm_sum f (hm_modify k g m) = (case hm_get m k of None \<Rightarrow> hm_sum f m
     | Some u \<Rightarrow> hm_sum f m + f (g u) - f u)"
  using hm_sum_insert [of f k "g u" m for u]
  by (auto simp: hm_modify_def split: option.splits) (metis add_diff_cancel_right' option.simps(5))

lemma hm_sum_get_le: "hm_get m k = Some v \<Longrightarrow> f v \<le> hm_sum f m"
  by (induction m) (auto simp: hm_sum_def split: if_splits)

lemma length_hm_remove_le: "length (hm_remove k m) \<le> length m"
  unfolding AList.delete_eq by (rule length_filter_le)

section \<open>Sources of fresh ids\<close>

text \<open>
  The daemon hands out client ids, request ids and heartbeat ids from counters.  The contract
  they share: the id comes from the number issued so far, the number grows by one, and numbers
  below the limit give different ids.  Whoever draws \<open>n\<close> ids within the limit gets \<open>n\<close>
  different ones.
\<close>

locale id_source =
  fixes issue :: "'s \<Rightarrow> 'i \<times> 's"
    and ident :: "nat \<Rightarrow> 'i"
    and used :: "'s \<Rightarrow> nat"
    and lim :: nat
  assumes issue_ident: "used s < lim \<Longrightarrow> fst (issue s) = ident (used s)"
    and issue_used: "used s < lim \<Longrightarrow> used (snd (issue s)) = Suc (used s)"
    and ident_inj: "m < lim \<Longrightarrow> n < lim \<Longrightarrow> ident m = ident n \<Longrightarrow> m = n"
begin

primrec issue_n :: "nat \<Rightarrow> 's \<Rightarrow> 'i list" where
  "issue_n 0 s = []"
| "issue_n (Suc n) s = fst (issue s) # issue_n n (snd (issue s))"

lemma issue_n_idents: "used s + n \<le> lim \<Longrightarrow> issue_n n s = map ident [used s..<used s + n]"
proof (induction n arbitrary: s)
  case (Suc n)
  then have "issue_n n (snd (issue s)) = map ident [Suc (used s)..<Suc (used s) + n]"
    by (simp add: issue_used)
  with Suc.prems show ?case by (simp add: issue_ident upt_conv_Cons del: upt_Suc)
qed simp

lemma issue_n_distinct: "used s + n \<le> lim \<Longrightarrow> distinct (issue_n n s)"
  by (simp add: issue_n_idents distinct_map inj_on_def ident_inj)

end

lemma find_distinct_key:
  "distinct (map f xs) \<Longrightarrow> x \<in> set xs \<Longrightarrow> find (\<lambda>y. f y = f x) xs = Some x"
  by (induction xs) auto

section \<open>Dictionaries\<close>

text \<open>
  What the program relies on of a map it fills entry by entry, be it a \<open>HashMap\<close> or the sorted
  object of a JSON document: the last value inserted under a key is found.
\<close>

locale dictionary =
  fixes get :: "'m \<Rightarrow> 'k \<Rightarrow> 'v option"
    and ins :: "'k \<Rightarrow> 'v \<Rightarrow> 'm \<Rightarrow> 'm"
  assumes get_ins: "get (ins k v m) j = (if j = k then Some v else get m j)"
begin

lemma get_fill:
  "get (fold (\<lambda>x m. ins (key x) (val x) m) xs m) j =
     (case find (\<lambda>x. key x = j) (rev xs) of Some x \<Rightarrow> Some (val x) | None \<Rightarrow> get m j)"
  by (induction xs rule: rev_induct) (auto simp: get_ins)

lemma get_fill_distinct:
  assumes "distinct (map key xs)"
  shows "get (fold (\<lambda>x m. ins (key x) (val x) m) xs m) j =
     (case find (\<lambda>x. key x = j) xs of Some x \<Rightarrow> Some (val x) | None \<Rightarrow> get m j)"
  using assms
proof (induction xs arbitrary: m)
  case (Cons x xs)
  have "find (\<lambda>y. key y = key x) xs = None"
    using Cons.prems by (auto simp: find_None_iff) (metis image_eqI)
  with Cons show ?case by (auto simp: get_ins split: option.splits)
qed simp

lemma get_fill_from:
  assumes "get m j = None" and "get (fold (\<lambda>x m. ins (key x) (val x) m) xs m) j = Some v"
  shows "\<exists>x \<in> set xs. key x = j \<and> v = val x"
  using assms unfolding get_fill by (auto simp: find_Some_iff split: option.splits) (metis nth_mem set_rev length_rev)

end

interpretation hash_dict: dictionary hm_get hm_insert
  by unfold_locales (simp add: hm_get_insert)

end
