(* ===== verification/Mux_Json.thy ===== *)
theory Mux_Json
  imports Mux_Prelude
begin

text \<open>
  JSON values as \<open>serde_json::Value\<close> has them, and the two helpers of \<open>mux-agent/src/state.rs\<close>
  that build and patch JSON-RPC messages.  \<open>serde_json\<close> is built without \<open>preserve_order\<close>, so
  an object is a map sorted by its keys.  A number is an integer or a finite double, given by
  mantissa and exponent.
\<close>

datatype json =
    JNull
  | JBool bool
  | JInt int
  | JFloat int int
  | JStr string
  | JArr "json list"
  | JObj "(string \<times> json) list"

section \<open>Objects\<close>

text \<open>\<open>Map::insert\<close> of a key into a sorted map.\<close>

fun obj_insert :: "string \<Rightarrow> 'v \<Rightarrow> (string \<times> 'v) list \<Rightarrow> (string \<times> 'v) list" where
  "obj_insert k v [] = [(k, v)]"
| "obj_insert k v ((k', v') # m) =
     (if k = k' then (k, v) # m
      else if k < k' then (k, v) # (k', v') # m
      else (k', v') # obj_insert k v m)"

definition obj_of :: "(string \<times> 'v) list \<Rightarrow> (string \<times> 'v) list" where
  "obj_of kvs = fold (\<lambda>(k, v) m. obj_insert k v m) kvs []"

abbreviation obj_ok :: "(string \<times> 'v) list \<Rightarrow> bool" where
  "obj_ok m \<equiv> sorted_wrt (<) (map fst m)"

lemma map_of_obj_insert [map_simps]:
  "map_of (obj_insert k v m) j = (if j = k then Some v else map_of m j)"
  by (induction m) auto

interpretation obj_dict: dictionary map_of obj_insert
  by unfold_locales (rule map_of_obj_insert)

lemma keys_obj_insert [simp]: "fst ` set (obj_insert k v m) = insert k (fst ` set m)"
  by (induction k v m rule: obj_insert.induct) (simp_all add: insert_commute)

lemma obj_ok_insert [simp]: "obj_ok m \<Longrightarrow> obj_ok (obj_insert k v m)"
proof (induction m)
  case Nil
  then show ?case by simp
next
  case (Cons kv m)
  obtain k' v' where kv: "kv = (k', v')" by (cases kv)
  from Cons.prems have tail: "obj_ok m" and above: "\<And>j. j \<in> fst ` set m \<Longrightarrow> k' < j"
    by (auto simp: kv)
  consider "k = k'" | "k < k'" | "k' < k" by (metis linorder_less_linear)
  then show ?case
  proof cases
    case 1
    with Cons.prems show ?thesis by (simp add: kv)
  next
    case 2
    have "k < j" if "j \<in> fst ` set m" for j
      using 2 above [OF that] by (rule less_trans)
    with 2 Cons.prems show ?thesis by (auto simp: kv)
  next
    case 3
    then have ne: "k \<noteq> k'" and nlt: "\<not> k < k'" by auto
    have "\<forall>j \<in> fst ` set (obj_insert k v m). k' < j"
      using 3 above by simp
    with Cons.IH [OF tail] ne nlt show ?thesis by (simp add: kv)
  qed
qed

section \<open>Accessors\<close>

definition jget :: "json \<Rightarrow> string \<Rightarrow> json option" where
  "jget v k = (case v of JObj m \<Rightarrow> map_of m k | _ \<Rightarrow> None)"

fun as_str :: "json \<Rightarrow> string option" where
  "as_str (JStr s) = Some s"
| "as_str _ = None"

fun as_i64 :: "json \<Rightarrow> int option" where
  "as_i64 (JInt n) = (if - (2 ^ 63) \<le> n \<and> n < 2 ^ 63 then Some n else None)"
| "as_i64 _ = None"

fun as_u64 :: "json \<Rightarrow> nat option" where
  "as_u64 (JInt n) = (if 0 \<le> n \<and> n < 2 ^ 64 then Some (nat n) else None)"
| "as_u64 _ = None"

definition int_str :: "int \<Rightarrow> string" where
  "int_str n = (if n < 0 then ''-'' @ nat_str (nat (- n)) else nat_str (nat n))"

section \<open>Messages\<close>

definition set_id :: "json \<Rightarrow> json \<Rightarrow> json" where
  "set_id msg i = (case msg of JObj m \<Rightarrow> JObj (obj_insert ''id'' i m) | v \<Rightarrow> v)"

definition error_response :: "json \<Rightarrow> string \<Rightarrow> json" where
  "error_response i message =
     JObj (obj_of [(''jsonrpc'', JStr ''2.0''), (''id'', i),
       (''error'', JObj (obj_of [(''code'', JInt (- 32000)), (''message'', JStr message)]))])"

lemma jget_set_id:
  "jget (set_id msg i) k =
     (if k = ''id'' \<and> (\<exists>m. msg = JObj m) then Some i else jget msg k)"
  by (auto simp: set_id_def jget_def map_of_obj_insert split: json.splits)

lemma jget_Some_obj: "jget msg k = Some v \<Longrightarrow> \<exists>m. msg = JObj m"
  by (auto simp: jget_def split: json.splits)

lemma jget_set_id_id: "jget msg k = Some v \<Longrightarrow> jget (set_id msg i) ''id'' = Some i"
  by (auto simp: jget_set_id dest: jget_Some_obj)

lemma obj_insert_idem: "obj_insert k v (obj_insert k w m) = obj_insert k v m"
  by (induction m) auto

lemma obj_insert_same: "obj_ok m \<Longrightarrow> map_of m k = Some v \<Longrightarrow> obj_insert k v m = m"
proof (induction m)
  case (Cons kv m)
  obtain k' v' where kv: "kv = (k', v')" by (cases kv)
  show ?case
  proof (cases "k = k'")
    case False
    with Cons.prems have "k \<in> fst ` set m" by (auto simp: kv intro: hm_get_SomeD)
    with Cons.prems have "k' < k" by (auto simp: kv)
    with False Cons show ?thesis by (auto simp: kv)
  qed (use Cons.prems kv in simp)
qed simp

lemma set_id_set_id: "set_id (set_id msg i) j = set_id msg j"
  by (cases msg) (auto simp: set_id_def obj_insert_idem)

text \<open>Rewriting the id and restoring the original one gives back the message itself.\<close>

definition json_ok :: "json \<Rightarrow> bool" where
  "json_ok v = (case v of JObj m \<Rightarrow> obj_ok m | _ \<Rightarrow> True)"

lemma set_id_restore:
  "json_ok msg \<Longrightarrow> jget msg ''id'' = Some l \<Longrightarrow> set_id (set_id msg g) l = msg"
  unfolding set_id_set_id
  by (cases msg) (auto simp: set_id_def jget_def json_ok_def obj_insert_same)

lemma jget_error_response_id [simp]: "jget (error_response i m) ''id'' = Some i"
  by (simp add: error_response_def jget_def obj_of_def map_of_obj_insert)

lemma error_response_inj [simp]:
  "error_response i m = error_response j n \<longleftrightarrow> i = j \<and> m = n"
  by (auto simp: error_response_def obj_of_def dest: arg_cong [where f = "\<lambda>v. jget v ''id''"])

end
