(* ===== verification/Mux_State.thy ===== *)
theory Mux_State
  imports Mux_Json
begin

text \<open>
  The shared state of one mux daemon (\<open>mux-agent/src/state.rs\<close>): clients, pending requests,
  handshakes, the status snapshot, and the operations on them.  \<open>mux_state\<close> is the content of
  the \<open>Arc<Mutex<MuxState>>\<close>; \<open>mux_world\<close> adds what the handlers reach besides it: the permits
  of the client semaphore, the watch channel with the published snapshot, and the bounded
  channel to the server process.  A client's unbounded sender is the list of the messages sent
  through it, so \<open>send_to\<close> appends.
\<close>

section \<open>Data\<close>

datatype server_status =
    StStarting | StRunning | StRestarting | StFailed string | StStopped | StLazy | StBackoff

datatype status_level = LevelOk | LevelWarn | LevelError | LevelLazy

datatype ipc_event =
    StateChange string string string
  | RouteUpdate string string u64 u64
  | ServerHealth string u64 u64 "string option"
  | ClientDrift string "string list"

definition HANDSHAKE_TIMEOUT :: duration where
  "HANDSHAKE_TIMEOUT = from_secs 10"

definition MAX_QUEUE :: nat where
  "MAX_QUEUE = 1024"

definition MAX_PENDING :: nat where
  "MAX_PENDING = 2048"

record heartbeat_metrics =
  hbm_enabled :: bool
  hbm_latency_ms :: "u64 option"
  hbm_last_heartbeat_ms :: "u64 option"
  hbm_avg_response_ms :: "u64 option"
  hbm_total_success :: u64
  hbm_total_failures :: u64
  hbm_consecutive_failures :: u32

definition heartbeat_metrics_default :: heartbeat_metrics where
  "heartbeat_metrics_default = \<lparr>hbm_enabled = False, hbm_latency_ms = None,
     hbm_last_heartbeat_ms = None, hbm_avg_response_ms = None, hbm_total_success = 0,
     hbm_total_failures = 0, hbm_consecutive_failures = 0\<rparr>"

record pending_req =
  p_client_id :: u64
  p_local_id :: json
  p_is_initialize :: bool
  p_started_at :: instant

record client_handshake =
  hs_connected_at :: instant
  hs_initialized :: bool
  hs_initialize_pending :: bool
  hs_buffered_messages :: "json list"

record status_snapshot =
  ss_service_name :: string
  ss_name :: string
  ss_server_status :: server_status
  ss_status_text :: string
  ss_level :: status_level
  ss_restarts :: u64
  ss_connected_clients :: nat
  ss_active_clients :: nat
  ss_max_active_clients :: nat
  ss_pending_requests :: nat
  ss_cached_initialize :: bool
  ss_initializing :: bool
  ss_last_reset :: "string option"
  ss_queue_depth :: nat
  ss_child_pid :: "u32 option"
  ss_max_request_bytes :: nat
  ss_health_status :: server_status
  ss_heartbeat_latency_ms :: "u64 option"
  ss_heartbeat :: heartbeat_metrics
  ss_uptime_ms :: u64
  ss_in_backoff :: bool
  ss_restart_backoff_ms :: u64
  ss_restart_backoff_max_ms :: u64
  ss_max_restarts :: u64

record mux_state =
  ms_next_client_id :: u64
  ms_next_global_id :: u64
  ms_clients :: "(u64, json list) hashmap"
  ms_pending :: "(string, pending_req) hashmap"
  ms_cached_initialize :: "json option"
  ms_init_waiting :: "(u64 \<times> json) list"
  ms_initializing :: bool
  ms_server_status :: server_status
  ms_restarts :: u64
  ms_last_reset :: "string option"
  ms_max_active_clients :: nat
  ms_service_name :: string
  ms_max_request_bytes :: nat
  ms_request_timeout :: duration
  ms_restart_backoff :: duration
  ms_restart_backoff_max :: duration
  ms_max_restarts :: u64
  ms_queue_depth :: nat
  ms_child_pid :: "u32 option"
  ms_heartbeat_metrics :: heartbeat_metrics
  ms_client_handshakes :: "(u64, client_handshake) hashmap"
  ms_server_initialized :: bool
  ms_started_at :: "instant option"
  ms_in_backoff :: bool
  ms_event_tx :: "ipc_event list option"

record mux_state_config =
  mc_max_active_clients :: nat
  mc_service_name :: string
  mc_max_request_bytes :: nat
  mc_request_timeout :: duration
  mc_restart_backoff :: duration
  mc_restart_backoff_max :: duration
  mc_max_restarts :: u64
  mc_queue_depth :: nat
  mc_child_pid :: "u32 option"
  mc_event_tx :: "ipc_event list option"

record mux_world =
  w_state :: mux_state
  w_permits :: nat
  w_status :: status_snapshot
  w_to_server :: "json list"
  w_to_server_open :: bool

section \<open>Operations of MuxState\<close>

definition mux_state_new :: "mux_state_config \<Rightarrow> mux_state" where
  "mux_state_new c = \<lparr>
     ms_next_client_id = 1, ms_next_global_id = 1, ms_clients = [], ms_pending = [],
     ms_cached_initialize = None, ms_init_waiting = [], ms_initializing = False,
     ms_server_status = StStarting, ms_restarts = 0, ms_last_reset = None,
     ms_max_active_clients = mc_max_active_clients c, ms_service_name = mc_service_name c,
     ms_max_request_bytes = mc_max_request_bytes c, ms_request_timeout = mc_request_timeout c,
     ms_restart_backoff = mc_restart_backoff c, ms_restart_backoff_max = mc_restart_backoff_max c,
     ms_max_restarts = mc_max_restarts c, ms_queue_depth = mc_queue_depth c,
     ms_child_pid = mc_child_pid c, ms_heartbeat_metrics = heartbeat_metrics_default,
     ms_client_handshakes = [], ms_server_initialized = False, ms_started_at = None,
     ms_in_backoff = False, ms_event_tx = mc_event_tx c\<rparr>"

definition register_client :: "instant \<Rightarrow> mux_state \<Rightarrow> u64 \<times> mux_state" where
  "register_client now st =
     (let i = ms_next_client_id st in
      (i, st\<lparr>ms_next_client_id := i + 1,
             ms_clients := hm_insert i [] (ms_clients st),
             ms_client_handshakes := hm_insert i
               \<lparr>hs_connected_at = now, hs_initialized = False, hs_initialize_pending = False,
                hs_buffered_messages = []\<rparr> (ms_client_handshakes st)\<rparr>))"

definition unregister_client :: "u64 \<Rightarrow> mux_state \<Rightarrow> mux_state" where
  "unregister_client cid st =
     st\<lparr>ms_clients := hm_remove cid (ms_clients st),
        ms_client_handshakes := hm_remove cid (ms_client_handshakes st),
        ms_pending := filter (\<lambda>(g, p). p_client_id p \<noteq> cid) (ms_pending st),
        ms_init_waiting := filter (\<lambda>(c, l). c \<noteq> cid) (ms_init_waiting st)\<rparr>"

definition next_request_id :: "mux_state \<Rightarrow> u64 \<times> mux_state" where
  "next_request_id st =
     (let i = ms_next_global_id st in (i, st\<lparr>ms_next_global_id := i + 1\<rparr>))"

definition mark_handshake_complete :: "u64 \<Rightarrow> mux_state \<Rightarrow> json list \<times> mux_state" where
  "mark_handshake_complete cid st =
     (case hm_get (ms_client_handshakes st) cid of
        Some h \<Rightarrow>
          (hs_buffered_messages h,
           st\<lparr>ms_client_handshakes := hm_insert cid
                (h\<lparr>hs_initialized := True, hs_buffered_messages := []\<rparr>) (ms_client_handshakes st)\<rparr>)
      | None \<Rightarrow> ([], st))"

definition complete_handshake :: "u64 \<Rightarrow> mux_state \<Rightarrow> json list \<times> mux_state" where
  "complete_handshake cid st = mark_handshake_complete cid st"

definition is_handshake_complete :: "u64 \<Rightarrow> mux_state \<Rightarrow> bool" where
  "is_handshake_complete cid st =
     (case hm_get (ms_client_handshakes st) cid of None \<Rightarrow> True | Some h \<Rightarrow> hs_initialized h)"

definition is_handshake_timed_out :: "instant \<Rightarrow> u64 \<Rightarrow> mux_state \<Rightarrow> bool" where
  "is_handshake_timed_out now cid st =
     (case hm_get (ms_client_handshakes st) cid of
        None \<Rightarrow> False
      | Some h \<Rightarrow> \<not> hs_initialized h \<and> now - hs_connected_at h > HANDSHAKE_TIMEOUT)"

definition buffer_message :: "u64 \<Rightarrow> json \<Rightarrow> mux_state \<Rightarrow> mux_state" where
  "buffer_message cid msg st =
     st\<lparr>ms_client_handshakes :=
          hm_modify cid (\<lambda>h. h\<lparr>hs_buffered_messages := hs_buffered_messages h @ [msg]\<rparr>)
            (ms_client_handshakes st)\<rparr>"

text \<open>\<open>if let Some(tx) = st.clients.get(&cid) { tx.send(msg).ok(); }\<close>\<close>

definition send_to :: "u64 \<Rightarrow> json \<Rightarrow> mux_state \<Rightarrow> mux_state" where
  "send_to cid msg st = st\<lparr>ms_clients := hm_modify cid (\<lambda>out. out @ [msg]) (ms_clients st)\<rparr>"

section \<open>Snapshots and their publication\<close>

text \<open>\<open>format!("{:?}", s)\<close> of a string: quotes and the ASCII control characters are escaped.\<close>

definition hex_digit :: "nat \<Rightarrow> char" where
  "hex_digit d = ''0123456789abcdef'' ! d"

definition debug_char :: "char \<Rightarrow> string" where
  "debug_char c = (let n = of_char c :: nat in
     if n = 34 then [char_of (92::nat), c]
     else if n = 92 then [c, c]
     else if n = 10 then [char_of (92::nat), CHR ''n'']
     else if n = 13 then [char_of (92::nat), CHR ''r'']
     else if n = 9 then [char_of (92::nat), CHR ''t'']
     else if n = 0 then [char_of (92::nat), CHR ''0'']
     else if n < 16 then [char_of (92::nat)] @ ''u{'' @ [hex_digit n] @ ''}''
     else if n < 32 \<or> n = 127 then
       [char_of (92::nat)] @ ''u{'' @ [hex_digit (n div 16), hex_digit (n mod 16)] @ ''}''
     else [c])"

definition debug_str :: "string \<Rightarrow> string" where
  "debug_str s = [char_of (34::nat)] @ concat (map debug_char s) @ [char_of (34::nat)]"

fun server_status_debug :: "server_status \<Rightarrow> string" where
  "server_status_debug StStarting = ''Starting''"
| "server_status_debug StRunning = ''Running''"
| "server_status_debug StRestarting = ''Restarting''"
| "server_status_debug (StFailed r) = ''Failed('' @ debug_str r @ '')''"
| "server_status_debug StStopped = ''Stopped''"
| "server_status_debug StLazy = ''Lazy''"
| "server_status_debug StBackoff = ''Backoff''"

definition snapshot_for_state :: "instant \<Rightarrow> mux_state \<Rightarrow> nat \<Rightarrow> status_snapshot" where
  "snapshot_for_state now st active = \<lparr>
     ss_service_name = ms_service_name st, ss_name = ms_service_name st,
     ss_server_status = ms_server_status st,
     ss_status_text = server_status_debug (ms_server_status st),
     ss_level = LevelOk, ss_restarts = ms_restarts st,
     ss_connected_clients = length (ms_clients st), ss_active_clients = active,
     ss_max_active_clients = ms_max_active_clients st,
     ss_pending_requests = length (ms_pending st),
     ss_cached_initialize = (ms_cached_initialize st \<noteq> None),
     ss_initializing = ms_initializing st, ss_last_reset = ms_last_reset st,
     ss_queue_depth = ms_queue_depth st, ss_child_pid = ms_child_pid st,
     ss_max_request_bytes = ms_max_request_bytes st, ss_health_status = ms_server_status st,
     ss_heartbeat_latency_ms = hbm_latency_ms (ms_heartbeat_metrics st),
     ss_heartbeat = ms_heartbeat_metrics st,
     ss_uptime_ms = (case ms_started_at st of Some t \<Rightarrow> as_millis_u64 (now - t) | None \<Rightarrow> 0),
     ss_in_backoff = ms_in_backoff st,
     ss_restart_backoff_ms = as_millis_u64 (ms_restart_backoff st),
     ss_restart_backoff_max_ms = as_millis_u64 (ms_restart_backoff_max st),
     ss_max_restarts = ms_max_restarts st\<rparr>"

definition emit_event :: "ipc_event \<Rightarrow> mux_state \<Rightarrow> mux_state" where
  "emit_event ev st = st\<lparr>ms_event_tx := map_option (\<lambda>evs. evs @ [ev]) (ms_event_tx st)\<rparr>"

definition publish_status :: "instant \<Rightarrow> mux_world \<Rightarrow> mux_world" where
  "publish_status now w =
     (let st = w_state w; active = ms_max_active_clients st - w_permits w in
      w\<lparr>w_state := emit_event (StateChange (ms_service_name st) ''Unknown''
            (server_status_debug (ms_server_status st))) st,
        w_status := snapshot_for_state now st active\<rparr>)"

definition reset_state :: "instant \<Rightarrow> string \<Rightarrow> mux_world \<Rightarrow> mux_world" where
  "reset_state now reason w =
     (let st = w_state w;
          pend = ms_pending st;
          waiters = ms_init_waiting st;
          st1 = st\<lparr>ms_pending := [], ms_init_waiting := [], ms_cached_initialize := None,
                   ms_initializing := False, ms_last_reset := Some reason,
                   ms_queue_depth := 0, ms_child_pid := None\<rparr>;
          st2 = fold (\<lambda>(g, p). send_to (p_client_id p) (error_response (p_local_id p) reason))
                  pend st1;
          st3 = fold (\<lambda>(c, l). send_to c (error_response l reason)) waiters st2
      in publish_status now (w\<lparr>w_state := st3\<rparr>))"

section \<open>Mailboxes\<close>

text \<open>
  What the handlers rely on when they answer clients: sending to one mailbox appends there and
  nowhere else.  Every fan-out of the daemon (reset, reaper, initialize waiters) is a sequence
  of sends, so its effect on each mailbox follows once and for all.
\<close>

locale mailbox =
  fixes send :: "'c \<Rightarrow> 'm \<Rightarrow> 's \<Rightarrow> 's"
    and box :: "'s \<Rightarrow> 'c \<Rightarrow> 'm list option"
  assumes box_send: "box (send c m s) d = (if d = c then map_option (\<lambda>b. b @ [m]) (box s c) else box s d)"
begin

lemma box_fold:
  "box (fold (\<lambda>(c, m). send c m) ms s) d =
     map_option (\<lambda>b. b @ map snd (filter (\<lambda>(c, m). c = d) ms)) (box s d)"
proof (induction ms arbitrary: s)
  case Nil
  then show ?case by (simp add: option.map_ident)
next
  case (Cons cm ms)
  obtain c m where cm: "cm = (c, m)" by (cases cm)
  show ?case
    by (cases "box s d") (auto simp: cm Cons.IH box_send)
qed

lemma box_fold_other:
  "d \<notin> fst ` set ms \<Longrightarrow> box (fold (\<lambda>(c, m). send c m) ms s) d = box s d"
proof -
  assume "d \<notin> fst ` set ms"
  then have "filter (\<lambda>(c, m). c = d) ms = []" by (force simp: filter_empty_conv)
  then show ?thesis by (simp add: box_fold option.map_ident)
qed

end

abbreviation outbox :: "mux_state \<Rightarrow> u64 \<Rightarrow> json list option" where
  "outbox st \<equiv> hm_get (ms_clients st)"

interpretation client_box: mailbox send_to outbox
  by unfold_locales (simp add: send_to_def hm_get_modify)

section \<open>Fields the operations leave alone\<close>

definition deliver :: "(u64 \<times> json) list \<Rightarrow> (u64, json list) hashmap \<Rightarrow> (u64, json list) hashmap" where
  "deliver ms cl = fold (\<lambda>(c, m). hm_modify c (\<lambda>out. out @ [m])) ms cl"

lemma fold_send_to: "fold (\<lambda>(c, m). send_to c m) ms st = st\<lparr>ms_clients := deliver ms (ms_clients st)\<rparr>"
proof (induction ms arbitrary: st)
  case Nil
  show ?case by (simp add: deliver_def)
next
  case (Cons cm ms)
  obtain c m where "cm = (c, m)" by (cases cm)
  then show ?case by (simp add: Cons.IH) (simp add: send_to_def deliver_def)
qed

lemma map_fst_deliver [simp]: "map fst (deliver ms cl) = map fst cl"
  unfolding deliver_def by (induction ms arbitrary: cl) auto

lemma hm_keys_deliver [simp]: "hm_keys (deliver ms cl) = hm_keys cl"
  using map_fst_deliver [of ms cl] by (metis list.set_map)

lemma length_deliver [simp]: "length (deliver ms cl) = length cl"
  using map_fst_deliver [of ms cl] by (metis length_map)

lemma hm_get_deliver:
  "hm_get (deliver ms cl) d = map_option (\<lambda>b. b @ map snd (filter (\<lambda>(c, m). c = d) ms)) (hm_get cl d)"
proof -
  define st where "st = (undefined :: mux_state)\<lparr>ms_clients := cl\<rparr>"
  show ?thesis
    using client_box.box_fold [of ms st d] by (simp add: fold_send_to st_def)
qed

lemma fold_send_to_map:
  "fold (\<lambda>(g, p). send_to (f p) (h p)) xs st =
     st\<lparr>ms_clients := deliver (map (\<lambda>(g, p). (f p, h p)) xs) (ms_clients st)\<rparr>"
proof -
  have "fold (\<lambda>(c, m). send_to c m) (map (\<lambda>(g, p). (f p, h p)) xs) st =
      fold (\<lambda>(g, p). send_to (f p) (h p)) xs st"
    by (simp add: fold_map comp_def case_prod_unfold)
  then show ?thesis by (simp add: fold_send_to)
qed

lemma fold_send_to_pairs:
  "fold (\<lambda>(c, l). send_to c (h l)) xs st =
     st\<lparr>ms_clients := deliver (map (\<lambda>(c, l). (c, h l)) xs) (ms_clients st)\<rparr>"
proof -
  have "fold (\<lambda>(c, m). send_to c m) (map (\<lambda>(c, l). (c, h l)) xs) st =
      fold (\<lambda>(c, l). send_to c (h l)) xs st"
    by (simp add: fold_map comp_def case_prod_unfold)
  then show ?thesis by (simp add: fold_send_to)
qed

named_theorems mux_frame \<open>fields an operation does not change\<close>

lemma send_to_alt: "send_to c m st = st\<lparr>ms_clients := deliver [(c, m)] (ms_clients st)\<rparr>"
  by (simp add: send_to_def deliver_def)

lemma w_state_publish [simp]:
  "w_state (publish_status now w) = emit_event (StateChange (ms_service_name (w_state w)) ''Unknown''
     (server_status_debug (ms_server_status (w_state w)))) (w_state w)"
  by (simp add: publish_status_def Let_def)

lemma publish_frame [simp]:
  "w_permits (publish_status now w) = w_permits w"
  "w_to_server (publish_status now w) = w_to_server w"
  "w_to_server_open (publish_status now w) = w_to_server_open w"
  by (simp_all add: publish_status_def Let_def)

lemma emit_event_frame [simp]:
  "ms_next_client_id (emit_event ev st) = ms_next_client_id st"
  "ms_next_global_id (emit_event ev st) = ms_next_global_id st"
  "ms_clients (emit_event ev st) = ms_clients st"
  "ms_pending (emit_event ev st) = ms_pending st"
  "ms_cached_initialize (emit_event ev st) = ms_cached_initialize st"
  "ms_init_waiting (emit_event ev st) = ms_init_waiting st"
  "ms_initializing (emit_event ev st) = ms_initializing st"
  "ms_server_status (emit_event ev st) = ms_server_status st"
  "ms_restarts (emit_event ev st) = ms_restarts st"
  "ms_last_reset (emit_event ev st) = ms_last_reset st"
  "ms_max_active_clients (emit_event ev st) = ms_max_active_clients st"
  "ms_service_name (emit_event ev st) = ms_service_name st"
  "ms_max_request_bytes (emit_event ev st) = ms_max_request_bytes st"
  "ms_request_timeout (emit_event ev st) = ms_request_timeout st"
  "ms_queue_depth (emit_event ev st) = ms_queue_depth st"
  "ms_child_pid (emit_event ev st) = ms_child_pid st"
  "ms_heartbeat_metrics (emit_event ev st) = ms_heartbeat_metrics st"
  "ms_client_handshakes (emit_event ev st) = ms_client_handshakes st"
  "ms_server_initialized (emit_event ev st) = ms_server_initialized st"
  by (simp_all add: emit_event_def)

lemma reset_state_alt:
  "w_state (reset_state now reason w) =
     emit_event (StateChange (ms_service_name (w_state w)) ''Unknown''
       (server_status_debug (ms_server_status (w_state w))))
     ((w_state w)\<lparr>ms_pending := [], ms_init_waiting := [], ms_cached_initialize := None,
        ms_initializing := False, ms_last_reset := Some reason, ms_queue_depth := 0,
        ms_child_pid := None,
        ms_clients := deliver
          (map (\<lambda>(g, p). (p_client_id p, error_response (p_local_id p) reason)) (ms_pending (w_state w)) @
           map (\<lambda>(c, l). (c, error_response l reason)) (ms_init_waiting (w_state w)))
          (ms_clients (w_state w))\<rparr>)"
  by (simp add: reset_state_def Let_def fold_send_to_map fold_send_to_pairs deliver_def)

lemma reset_state_frame [simp]:
  "w_permits (reset_state now reason w) = w_permits w"
  "w_to_server (reset_state now reason w) = w_to_server w"
  "w_to_server_open (reset_state now reason w) = w_to_server_open w"
  by (simp_all add: reset_state_def Let_def)

section \<open>Fresh ids\<close>

interpretation request_ids: id_source next_request_id "of_nat :: nat \<Rightarrow> u64"
    "\<lambda>st. unat (ms_next_global_id st)" "2 ^ 64 - 1"
  by unfold_locales
    (simp_all add: next_request_id_def Let_def unat_Suc_u64 word_unat_eq_iff unat_of_nat)

interpretation client_ids: id_source "register_client now" "of_nat :: nat \<Rightarrow> u64"
    "\<lambda>st. unat (ms_next_client_id st)" "2 ^ 64 - 1" for now
  by unfold_locales
    (simp_all add: register_client_def Let_def unat_Suc_u64 word_unat_eq_iff unat_of_nat)

end
