(* ===== verification/Mux_Client.thy ===== *)
theory Mux_Client
  imports Mux_State
begin

text \<open>
  Messages from clients to the server (\<open>mux-agent/src/runtime/client.rs\<close>).  The bounded
  channel \<open>to_server_tx\<close> is the list of what its receiver will get, in order: the first
  \<open>MAX_QUEUE\<close> entries are buffered, later ones belong to senders parked in \<open>send().await\<close>, which
  tokio serves first come first served.  \<open>try_send\<close> refuses when no slot is free; both refuse
  once the receiver is gone.  The length of the encoded message comes from \<open>serde_json\<close> and is
  the parameter \<open>enc_len\<close>.
\<close>

section \<open>The channel to the server\<close>

definition chan_try_send :: "json \<Rightarrow> mux_world \<Rightarrow> mux_world option" where
  "chan_try_send msg w =
     (if w_to_server_open w \<and> length (w_to_server w) < MAX_QUEUE
      then Some (w\<lparr>w_to_server := w_to_server w @ [msg]\<rparr>) else None)"

definition chan_send :: "json \<Rightarrow> mux_world \<Rightarrow> mux_world option" where
  "chan_send msg w =
     (if w_to_server_open w then Some (w\<lparr>w_to_server := w_to_server w @ [msg]\<rparr>) else None)"

text \<open>\<open>max_capacity() - capacity()\<close> counts the occupied slots, never more than \<open>MAX_QUEUE\<close>.\<close>

definition update_queue_depth :: "mux_world \<Rightarrow> mux_world" where
  "update_queue_depth w =
     w\<lparr>w_state := (w_state w)\<lparr>ms_queue_depth := min (length (w_to_server w)) MAX_QUEUE\<rparr>\<rparr>"

section \<open>Forwarding\<close>

text \<open>\<open>format!("c{client_id}:{}", st.next_request_id())\<close>\<close>

definition global_id :: "u64 \<Rightarrow> u64 \<Rightarrow> string" where
  "global_id cid n = ''c'' @ nat_str (unat cid) @ '':'' @ nat_str (unat n)"

definition add_pending :: "instant \<Rightarrow> u64 \<Rightarrow> json \<Rightarrow> bool \<Rightarrow> mux_state \<Rightarrow> string \<times> mux_state" where
  "add_pending now cid local_id is_init st =
     (let (n, st1) = next_request_id st; gid = global_id cid n in
      (gid, st1\<lparr>ms_pending := hm_insert gid
         \<lparr>p_client_id = cid, p_local_id = local_id, p_is_initialize = is_init, p_started_at = now\<rparr>
         (ms_pending st1)\<rparr>))"

definition overloaded_msg :: string where
  "overloaded_msg = ''mux overloaded (too many pending)''"

definition enqueue_request ::
  "instant \<Rightarrow> u64 \<Rightarrow> json \<Rightarrow> json \<Rightarrow> bool \<Rightarrow> mux_world \<Rightarrow> (string + unit) \<times> mux_world" where
  "enqueue_request now cid local_id msg is_init w =
     (let st = w_state w in
      if MAX_PENDING \<le> length (ms_pending st)
      then (Inr (), w\<lparr>w_state := send_to cid (error_response local_id overloaded_msg) st\<rparr>)
      else let (gid, st1) = add_pending now cid local_id is_init st;
               w1 = w\<lparr>w_state := st1\<rparr> in
           (case chan_send (set_id msg (JStr gid)) w1 of
              None \<Rightarrow> (Inl ''server channel closed'', w1)
            | Some w2 \<Rightarrow> (Inr (), publish_status now (update_queue_depth w2))))"

definition forward_request ::
  "instant \<Rightarrow> u64 \<Rightarrow> json \<Rightarrow> mux_world \<Rightarrow> (string + unit) \<times> mux_world" where
  "forward_request now cid msg w =
     (case jget msg ''id'' of
        None \<Rightarrow> (Inl ''missing id'', w)
      | Some local_id \<Rightarrow> enqueue_request now cid local_id msg False w)"

text \<open>The loop over the buffered messages: a failure is logged and the next one is tried.\<close>

fun flush_buffered :: "instant \<Rightarrow> u64 \<Rightarrow> json list \<Rightarrow> mux_world \<Rightarrow> mux_world" where
  "flush_buffered now cid [] w = w"
| "flush_buffered now cid (m # ms) w =
     flush_buffered now cid ms (snd (forward_request now cid m w))"

section \<open>One message of a client\<close>

definition msg_method :: "json \<Rightarrow> string" where
  "msg_method msg = (case Option.bind (jget msg ''method'') as_str of None \<Rightarrow> [] | Some m \<Rightarrow> m)"

text \<open>Only the first \<open>notifications/initialized\<close> of the daemon's life goes to the server.\<close>

definition forward_initialized :: "json \<Rightarrow> mux_world \<Rightarrow> mux_world" where
  "forward_initialized msg w =
     (if \<not> ms_server_initialized (w_state w)
      then let w1 = w\<lparr>w_state := (w_state w)\<lparr>ms_server_initialized := True\<rparr>\<rparr>
           in (case chan_try_send msg w1 of None \<Rightarrow> w1 | Some w2 \<Rightarrow> w2)
      else w)"

definition handle_initialized :: "instant \<Rightarrow> u64 \<Rightarrow> json \<Rightarrow> mux_world \<Rightarrow> mux_world" where
  "handle_initialized now cid msg w =
     (let w1 = forward_initialized msg w;
          (buffered, st) = complete_handshake cid (w_state w1);
          w2 = flush_buffered now cid buffered (w1\<lparr>w_state := st\<rparr>)
      in publish_status now (update_queue_depth w2))"

definition handle_initialize ::
  "instant \<Rightarrow> u64 \<Rightarrow> json \<Rightarrow> json \<Rightarrow> mux_world \<Rightarrow> (string + unit) \<times> mux_world" where
  "handle_initialize now cid local_id msg w =
     (let st = (w_state w)\<lparr>ms_client_handshakes :=
            hm_modify cid (\<lambda>h. h\<lparr>hs_initialize_pending := True\<rparr>)
              (ms_client_handshakes (w_state w))\<rparr>;
          w1 = w\<lparr>w_state := st\<rparr>
      in case ms_cached_initialize st of
           Some cached \<Rightarrow> (Inr (), w1\<lparr>w_state := send_to cid (set_id cached local_id) st\<rparr>)
         | None \<Rightarrow>
             if ms_initializing st
             then (Inr (), w1\<lparr>w_state :=
                     st\<lparr>ms_init_waiting := ms_init_waiting st @ [(cid, local_id)]\<rparr>\<rparr>)
             else enqueue_request now cid local_id msg True w1)"

definition handle_client_message ::
  "(json \<Rightarrow> nat) \<Rightarrow> instant \<Rightarrow> u64 \<Rightarrow> json \<Rightarrow> nat \<Rightarrow> mux_world \<Rightarrow> (string + unit) \<times> mux_world" where
  "handle_client_message enc_len now cid msg max_request_bytes w =
     (if max_request_bytes < enc_len msg
      then (Inr (), w\<lparr>w_state := send_to cid
              (error_response (case jget msg ''id'' of None \<Rightarrow> JNull | Some i \<Rightarrow> i)
                 ''request too large'') (w_state w)\<rparr>)
      else if msg_method msg = ''notifications/initialized''
      then (Inr (), handle_initialized now cid msg w)
      else case jget msg ''id'' of
        None \<Rightarrow>
          (let w1 = (case chan_try_send msg w of None \<Rightarrow> w | Some w' \<Rightarrow> w')
           in (Inr (), publish_status now (update_queue_depth w1)))
      | Some local_id \<Rightarrow>
          if msg_method msg = ''initialize'' then handle_initialize now cid local_id msg w
          else if \<not> is_handshake_complete cid (w_state w)
          then (Inr (), w\<lparr>w_state := buffer_message cid msg (w_state w)\<rparr>)
          else forward_request now cid msg w)"

section \<open>One connection\<close>

text \<open>
  \<open>handle_client\<close>: a permit of the semaphore is taken before the client is registered, every
  frame goes to \<open>handle_client_message\<close>, the one-second tick ends a connection whose handshake
  timed out, and leaving the loop unregisters the client and gives the permit back.  Waiting
  for a permit is \<open>None\<close>.
\<close>

definition client_connect :: "instant \<Rightarrow> mux_world \<Rightarrow> (u64 \<times> mux_world) option" where
  "client_connect now w =
     (if w_permits w = 0 then None
      else let (cid, st) = register_client now (w_state w) in
           Some (cid, publish_status now (w\<lparr>w_permits := w_permits w - 1, w_state := st\<rparr>)))"

definition client_writer_closed :: "instant \<Rightarrow> u64 \<Rightarrow> mux_world \<Rightarrow> mux_world" where
  "client_writer_closed now cid w =
     publish_status now (w\<lparr>w_state := unregister_client cid (w_state w)\<rparr>)"

definition client_disconnect :: "instant \<Rightarrow> u64 \<Rightarrow> mux_world \<Rightarrow> mux_world" where
  "client_disconnect now cid w =
     (publish_status now (w\<lparr>w_state := unregister_client cid (w_state w)\<rparr>))
       \<lparr>w_permits := Suc (w_permits w)\<rparr>"

text \<open>A frame that does not decode: \<open>frame?\<close> leaves \<open>handle_client\<close> at once, so only the permit
  is given back.\<close>

definition client_decode_error :: "u64 \<Rightarrow> mux_world \<Rightarrow> mux_world" where
  "client_decode_error cid w = w\<lparr>w_permits := Suc (w_permits w)\<rparr>"

definition handshake_tick :: "instant \<Rightarrow> u64 \<Rightarrow> mux_world \<Rightarrow> mux_world" where
  "handshake_tick now cid w =
     (if is_handshake_timed_out now cid (w_state w)
      then client_disconnect now cid (w\<lparr>w_state := send_to cid (error_response JNull
             ''handshake timeout: initialize/initialized sequence not completed'') (w_state w)\<rparr>)
      else w)"

definition client_frame ::
  "(json \<Rightarrow> nat) \<Rightarrow> instant \<Rightarrow> u64 \<Rightarrow> json \<Rightarrow> mux_world \<Rightarrow> mux_world" where
  "client_frame enc_len now cid msg w =
     snd (handle_client_message enc_len now cid msg (ms_max_request_bytes (w_state w)) w)"

end
