(* ===== verification/Mux_Server.thy ===== *)
theory Mux_Server
  imports Mux_Client
begin

text \<open>
  Messages from the server to the clients: \<open>handle_server_message\<close> of
  \<open>mux-agent/src/runtime/server.rs\<close>, the router with its heartbeat filter and the timeout
  reaper of \<open>mux-agent/src/runtime/mod.rs\<close>.
\<close>

definition broadcast :: "json \<Rightarrow> mux_state \<Rightarrow> mux_state" where
  "broadcast msg st = st\<lparr>ms_clients := map (\<lambda>(c, out). (c, out @ [msg])) (ms_clients st)\<rparr>"

text \<open>The key of the pending table that an id of a response names.\<close>

definition response_key :: "json \<Rightarrow> string option" where
  "response_key i =
     (case as_str i of
        Some s \<Rightarrow> Some s
      | None \<Rightarrow> (case as_i64 i of
          Some n \<Rightarrow> Some (int_str n)
        | None \<Rightarrow> (case as_u64 i of Some n \<Rightarrow> Some (nat_str n) | None \<Rightarrow> None)))"

definition cache_initialize :: "json \<Rightarrow> mux_state \<Rightarrow> mux_state" where
  "cache_initialize msg st =
     (let waiters = ms_init_waiting st;
          st1 = st\<lparr>ms_cached_initialize := Some msg, ms_initializing := False,
                   ms_init_waiting := []\<rparr>
      in fold (\<lambda>(c, l). send_to c (set_id msg l)) waiters st1)"

definition handle_server_message ::
  "instant \<Rightarrow> json \<Rightarrow> mux_world \<Rightarrow> (string + unit) \<times> mux_world" where
  "handle_server_message now msg w =
     (case jget msg ''id'' of
        None \<Rightarrow> (Inr (), w\<lparr>w_state := broadcast msg (w_state w)\<rparr>)
      | Some i \<Rightarrow>
          if i = JNull then (Inr (), w\<lparr>w_state := broadcast msg (w_state w)\<rparr>)
          else case response_key i of
            None \<Rightarrow> (Inl ''unsupported id type'', w)
          | Some key \<Rightarrow>
              (case hm_get (ms_pending (w_state w)) key of
                 None \<Rightarrow> (Inr (), w)
               | Some p \<Rightarrow>
                   (let st1 = (w_state w)\<lparr>ms_pending := hm_remove key (ms_pending (w_state w))\<rparr>;
                        st2 = (if p_is_initialize p then cache_initialize msg st1 else st1);
                        st3 = send_to (p_client_id p) (set_id msg (p_local_id p)) st2
                    in (Inr (), publish_status now (w\<lparr>w_state := st3\<rparr>)))))"

section \<open>The router\<close>

datatype server_event = Message json | Reset string

definition is_heartbeat_response :: "string \<Rightarrow> bool" where
  "is_heartbeat_response i = starts_with i ''__heartbeat_''"

text \<open>
  \<open>handle_server_events_with_heartbeat\<close>: the id of a heartbeat response goes to the inspector,
  every other message to the clients.
\<close>

definition route_event ::
  "instant \<Rightarrow> server_event \<Rightarrow> mux_world \<Rightarrow> string option \<times> mux_world" where
  "route_event now ev w =
     (case ev of
        Message msg \<Rightarrow>
          (case Option.bind (jget msg ''id'') as_str of
             Some i \<Rightarrow> if is_heartbeat_response i then (Some i, w)
                       else (None, snd (handle_server_message now msg w))
           | None \<Rightarrow> (None, snd (handle_server_message now msg w)))
      | Reset reason \<Rightarrow> (None, reset_state now reason w))"

section \<open>Heartbeat probes\<close>

text \<open>The probe of the inspector, and when it is sent; the ids come from a counter.\<close>

definition heartbeat_id :: "u64 \<Rightarrow> string" where
  "heartbeat_id i = ''__heartbeat_'' @ nat_str (unat i)"

definition probe_message :: "string \<Rightarrow> json" where
  "probe_message i = JObj (obj_of [(''jsonrpc'', JStr ''2.0''), (''id'', JStr i),
     (''method'', JStr ''ping''), (''params'', JObj [])])"

definition probe_ready :: "mux_state \<Rightarrow> bool" where
  "probe_ready st \<longleftrightarrow> ms_server_status st = StRunning \<and> ms_server_initialized st"

lemma heartbeat_id_recognised [simp]: "is_heartbeat_response (heartbeat_id i)"
  by (simp add: is_heartbeat_response_def heartbeat_id_def starts_with_def)

section \<open>The reaper\<close>

definition expired :: "instant \<Rightarrow> duration \<Rightarrow> pending_req \<Rightarrow> bool" where
  "expired now timeout p \<longleftrightarrow> now - p_started_at p > timeout"

definition reap_timeouts :: "instant \<Rightarrow> mux_world \<Rightarrow> mux_world" where
  "reap_timeouts now w =
     (let st = w_state w;
          timeout = ms_request_timeout st;
          gone = filter (\<lambda>(g, p). expired now timeout p) (ms_pending st);
          st1 = st\<lparr>ms_pending := filter (\<lambda>(g, p). \<not> expired now timeout p) (ms_pending st)\<rparr>;
          st2 = fold (\<lambda>(g, p). send_to (p_client_id p)
                  (error_response (p_local_id p) ''request timeout'')) gone st1
      in publish_status now (w\<lparr>w_state := st2\<rparr>))"

end
