(* ===== verification/Mux_Inv.thy ===== *)
theory Mux_Inv
  imports Mux_Server
begin

text \<open>
  The invariant of the shared state and its preservation by every operation and handler.  The
  two numbers bound the ids handed out: \<open>nc\<close> for client ids, \<open>ng\<close> for request ids together
  with the buffered messages, each of which will still need one.  As long as they stay below
  \<open>2 ^ 64\<close> neither counter wraps around.
\<close>

section \<open>Request ids\<close>

lemma global_id_inj: "global_id c m = global_id d n \<Longrightarrow> c = d \<and> m = n"
proof -
  assume "global_id c m = global_id d n"
  then have eq: "nat_str (unat c) @ CHR '':'' # nat_str (unat m) =
      nat_str (unat d) @ CHR '':'' # nat_str (unat n)"
    by (simp add: global_id_def)
  have notin: "CHR '':'' \<notin> set (nat_str k)" for k
    using nat_str_digits [of k] by (auto simp: digits_def)
  from eq have "nat_str (unat c) = nat_str (unat d) \<and> nat_str (unat m) = nat_str (unat n)"
    using append_Cons_eq_iff [OF notin notin, of "unat c" "unat m"] by blast
  then show ?thesis by (simp add: word_unat_eq_iff)
qed

lemma global_id_eq_iff [simp]: "global_id c m = global_id d n \<longleftrightarrow> c = d \<and> m = n"
  using global_id_inj by blast

lemma global_id_not_heartbeat [simp]: "\<not> is_heartbeat_response (global_id c n)"
  by (simp add: is_heartbeat_response_def starts_with_def global_id_def)

section \<open>The invariant\<close>

definition total_buffered :: "mux_state \<Rightarrow> nat" where
  "total_buffered st = hm_sum (\<lambda>h. length (hs_buffered_messages h)) (ms_client_handshakes st)"

definition handshake_ok :: "client_handshake \<Rightarrow> bool" where
  "handshake_ok h \<longleftrightarrow> (hs_initialized h \<longrightarrow> hs_buffered_messages h = []) \<and>
     (\<forall>m \<in> set (hs_buffered_messages h). jget m ''id'' \<noteq> None)"

definition pending_ok :: "u64 \<Rightarrow> string \<Rightarrow> pending_req \<Rightarrow> bool" where
  "pending_ok lim g p \<longleftrightarrow> (\<exists>k. g = global_id (p_client_id p) k \<and> unat k < unat lim)"

definition st_inv :: "nat \<Rightarrow> nat \<Rightarrow> mux_state \<Rightarrow> bool" where
  "st_inv nc ng st \<longleftrightarrow>
     hm_ok (ms_clients st) \<and> hm_ok (ms_client_handshakes st) \<and> hm_ok (ms_pending st) \<and>
     hm_keys (ms_client_handshakes st) = hm_keys (ms_clients st) \<and>
     (\<forall>c \<in> hm_keys (ms_clients st). unat c < unat (ms_next_client_id st)) \<and>
     hm_all (pending_ok (ms_next_global_id st)) (ms_pending st) \<and>
     length (ms_pending st) \<le> MAX_PENDING \<and>
     \<not> ms_initializing st \<and> ms_init_waiting st = [] \<and>
     hm_all (\<lambda>_. handshake_ok) (ms_client_handshakes st) \<and>
     unat (ms_next_client_id st) \<le> nc \<and>
     unat (ms_next_global_id st) + total_buffered st \<le> ng"

lemma st_invD:
  assumes "st_inv nc ng st"
  shows "hm_ok (ms_clients st)" "hm_ok (ms_client_handshakes st)" "hm_ok (ms_pending st)"
    "hm_keys (ms_client_handshakes st) = hm_keys (ms_clients st)"
    "\<And>c. c \<in> hm_keys (ms_clients st) \<Longrightarrow> unat c < unat (ms_next_client_id st)"
    "hm_all (pending_ok (ms_next_global_id st)) (ms_pending st)"
    "length (ms_pending st) \<le> MAX_PENDING"
    "\<not> ms_initializing st" "ms_init_waiting st = []"
    "hm_all (\<lambda>_. handshake_ok) (ms_client_handshakes st)"
    "unat (ms_next_client_id st) \<le> nc"
    "unat (ms_next_global_id st) + total_buffered st \<le> ng"
  using assms unfolding st_inv_def by blast+

lemma st_inv_mono: "st_inv nc ng st \<Longrightarrow> nc \<le> nc' \<Longrightarrow> ng \<le> ng' \<Longrightarrow> st_inv nc' ng' st"
  unfolding st_inv_def by auto

lemma st_inv_new: "1 \<le> nc \<Longrightarrow> 1 \<le> ng \<Longrightarrow> st_inv nc ng (mux_state_new c)"
  by (simp add: st_inv_def mux_state_new_def total_buffered_def)

text \<open>The fields the invariant does not read.\<close>

lemma st_inv_cong:
  assumes "ms_clients st' = ms_clients st" "ms_client_handshakes st' = ms_client_handshakes st"
    "ms_pending st' = ms_pending st" "ms_next_client_id st' = ms_next_client_id st"
    "ms_next_global_id st' = ms_next_global_id st" "ms_initializing st' = ms_initializing st"
    "ms_init_waiting st' = ms_init_waiting st"
  shows "st_inv nc ng st' = st_inv nc ng st"
  unfolding st_inv_def total_buffered_def assms ..

lemma st_inv_emit [simp]: "st_inv nc ng (emit_event ev st) = st_inv nc ng st"
  by (rule st_inv_cong) simp_all

lemma st_inv_publish [simp]: "st_inv nc ng (w_state (publish_status now w)) = st_inv nc ng (w_state w)"
  by simp

lemma st_inv_queue_depth [simp]:
  "st_inv nc ng (w_state (update_queue_depth w)) = st_inv nc ng (w_state w)"
  unfolding update_queue_depth_def by simp (rule st_inv_cong, simp_all)

lemma st_inv_deliver:
  "st_inv nc ng st \<Longrightarrow> st_inv nc ng (st\<lparr>ms_clients := deliver ms (ms_clients st)\<rparr>)"
  unfolding st_inv_def total_buffered_def by simp

lemma st_inv_send_to: "st_inv nc ng st \<Longrightarrow> st_inv nc ng (send_to c m st)"
  unfolding send_to_alt by (rule st_inv_deliver)

section \<open>Operations\<close>

lemma st_inv_register:
  assumes inv: "st_inv nc ng st" and lim: "nc < 2 ^ 64 - 1"
  shows "st_inv (Suc nc) ng (snd (register_client now st))"
proof -
  note d = st_invD [OF inv]
  let ?i = "ms_next_client_id st"
  have fresh: "?i \<notin> hm_keys (ms_clients st)" using d(5) by blast
  then have none: "hm_get (ms_client_handshakes st) ?i = None"
    using d(4) by (simp add: hm_get_None)
  have suc: "unat (?i + 1) = Suc (unat ?i)"
    using d(11) lim by (intro unat_Suc_u64) simp
  have tot: "total_buffered (snd (register_client now st)) = total_buffered st"
    using none hm_sum_insert [of "\<lambda>h. length (hs_buffered_messages h)" ?i _ "ms_client_handshakes st"]
    by (simp add: register_client_def Let_def total_buffered_def)
  have all: "hm_all (\<lambda>_. handshake_ok) (ms_client_handshakes (snd (register_client now st)))"
    using d(10) by (auto simp: register_client_def Let_def handshake_ok_def)
  show ?thesis
    unfolding st_inv_def tot
    using d all suc by (auto simp: register_client_def Let_def less_Suc_eq)
qed

lemma st_inv_unregister:
  assumes inv: "st_inv nc ng st"
  shows "st_inv nc ng (unregister_client cid st)"
proof -
  note d = st_invD [OF inv]
  have tot: "total_buffered (unregister_client cid st) \<le> total_buffered st"
    by (simp add: unregister_client_def total_buffered_def hm_sum_remove_le)
  have len: "length (ms_pending (unregister_client cid st)) \<le> MAX_PENDING"
    using d(7) by (auto simp: unregister_client_def intro: le_trans [OF length_filter_le])
  show ?thesis
    using d tot len unfolding st_inv_def by (auto simp: unregister_client_def)
qed

lemma st_inv_add_pending:
  assumes inv: "st_inv nc ng st" and lim: "ng < 2 ^ 64 - 1"
    and room: "length (ms_pending st) < MAX_PENDING"
  shows "st_inv nc (Suc ng) (snd (add_pending now cid l b st))"
proof -
  note d = st_invD [OF inv]
  let ?n = "ms_next_global_id st"
  have suc: "unat (?n + 1) = Suc (unat ?n)"
    using d(12) lim by (intro unat_Suc_u64) simp
  have mono: "hm_all (pending_ok (?n + 1)) (ms_pending st)"
    using d(6) by (rule hm_all_mono) (use suc in \<open>auto simp: pending_ok_def\<close>)
  have all: "hm_all (pending_ok (?n + 1)) (ms_pending (snd (add_pending now cid l b st)))"
    using mono suc by (auto simp: add_pending_def next_request_id_def pending_ok_def Let_def)
  have tot: "total_buffered (snd (add_pending now cid l b st)) = total_buffered st"
    by (simp add: add_pending_def next_request_id_def total_buffered_def Let_def)
  have len: "length (ms_pending (snd (add_pending now cid l b st))) \<le> MAX_PENDING"
    using room by (simp add: add_pending_def next_request_id_def length_hm_insert Let_def)
  show ?thesis
    unfolding st_inv_def tot
    using d all len suc by (simp add: add_pending_def next_request_id_def Let_def)
qed

lemma st_inv_complete_handshake:
  assumes inv: "st_inv nc ng st" and c: "complete_handshake cid st = (bs, st')"
  shows "length bs \<le> ng \<and> st_inv nc (ng - length bs) st'"
proof (cases "hm_get (ms_client_handshakes st) cid")
  case None
  with inv c show ?thesis by (auto simp: complete_handshake_def mark_handshake_complete_def)
next
  case (Some h)
  note d = st_invD [OF inv]
  let ?h = "h\<lparr>hs_initialized := True, hs_buffered_messages := []\<rparr>"
  from Some c have bs: "bs = hs_buffered_messages h"
    and st': "st' = st\<lparr>ms_client_handshakes := hm_insert cid ?h (ms_client_handshakes st)\<rparr>"
    by (auto simp: complete_handshake_def mark_handshake_complete_def)
  have tot: "total_buffered st' + length bs = total_buffered st"
    using hm_sum_insert [of "\<lambda>h. length (hs_buffered_messages h)" cid ?h "ms_client_handshakes st"] Some
    by (simp add: total_buffered_def bs st')
  have keys: "insert cid (hm_keys (ms_clients st)) = hm_keys (ms_clients st)"
    using Some d(4) by (metis hm_get_SomeD insert_absorb)
  have all: "hm_all (\<lambda>_. handshake_ok) (ms_client_handshakes st')"
    using d(10) by (auto simp: st' handshake_ok_def)
  show ?thesis
    using d tot keys all unfolding st_inv_def by (auto simp: st')
qed

lemma st_inv_buffer:
  assumes inv: "st_inv nc ng st" and h: "jget msg ''id'' \<noteq> None"
    and nc: "\<not> is_handshake_complete cid st"
  shows "st_inv nc (Suc ng) (buffer_message cid msg st)"
proof -
  note d = st_invD [OF inv]
  from nc obtain hs where hs: "hm_get (ms_client_handshakes st) cid = Some hs" "\<not> hs_initialized hs"
    by (auto simp: is_handshake_complete_def split: option.splits)
  have ok: "handshake_ok hs" using hm_all_get [OF d(10) hs(1)] .
  have all: "hm_all (\<lambda>_. handshake_ok) (ms_client_handshakes (buffer_message cid msg st))"
    using d(10) ok hs h by (auto simp: buffer_message_def hm_modify_def handshake_ok_def)
  have tot: "total_buffered (buffer_message cid msg st) = Suc (total_buffered st)"
    using hs by (simp add: buffer_message_def total_buffered_def hm_sum_modify)
  show ?thesis
    using d all tot unfolding st_inv_def by (simp add: buffer_message_def)
qed

lemma st_inv_reset: "st_inv nc ng (w_state w) \<Longrightarrow> st_inv nc ng (w_state (reset_state now r w))"
  unfolding reset_state_alt st_inv_emit
  by (auto simp: st_inv_def total_buffered_def)

lemma map_fst_broadcast [simp]: "map fst (ms_clients (broadcast msg st)) = map fst (ms_clients st)"
  by (simp add: broadcast_def case_prod_unfold)

lemma st_inv_broadcast:
  assumes inv: "st_inv nc ng st"
  shows "st_inv nc ng (broadcast msg st)"
proof -
  have "hm_keys (ms_clients (broadcast msg st)) = hm_keys (ms_clients st)"
    using map_fst_broadcast by (metis list.set_map)
  moreover have "ms_client_handshakes (broadcast msg st) = ms_client_handshakes st"
    "ms_pending (broadcast msg st) = ms_pending st"
    "ms_next_client_id (broadcast msg st) = ms_next_client_id st"
    "ms_next_global_id (broadcast msg st) = ms_next_global_id st"
    "ms_initializing (broadcast msg st) = ms_initializing st"
    "ms_init_waiting (broadcast msg st) = ms_init_waiting st"
    by (simp_all add: broadcast_def)
  ultimately show ?thesis using inv unfolding st_inv_def total_buffered_def by simp
qed

end
