(* ===== verification/Mux_Manager.thy ===== *)
theory Mux_Manager
  imports Mux_Inv
begin

text \<open>
  \<open>server_manager\<close> of \<open>mux-agent/src/runtime/server.rs\<close>: it spawns the MCP server, feeds it from
  the channel, and restarts it with exponential backoff.  The mutex around the shared state is
  tokio's, which is not reentrant: a task that locks it while it still holds the guard waits for
  itself.  The flag of \<open>guarded\<close> says whether the running task holds the guard, and an
  operation that would wait for its own guard is \<open>None\<close>.
  What the operating system and the other tasks decide (does the spawn succeed, why does the
  write loop end) comes in as a list of \<open>child_run\<close>s, one per turn of the loop.
\<close>

section \<open>The mutex\<close>

type_synonym guarded = "bool \<times> mux_world"

definition acquire :: "guarded \<Rightarrow> guarded option" where
  "acquire gw = (if fst gw then None else Some (True, snd gw))"

text \<open>\<open>{ let mut st = state.lock().await; ... }\<close>: the guard is dropped at the end of the block.\<close>

definition with_state :: "(mux_state \<Rightarrow> mux_state) \<Rightarrow> guarded \<Rightarrow> guarded option" where
  "with_state f gw =
     (case acquire gw of None \<Rightarrow> None
      | Some (_, w) \<Rightarrow> Some (False, w\<lparr>w_state := f (w_state w)\<rparr>))"

definition publish_guarded :: "instant \<Rightarrow> guarded \<Rightarrow> guarded option" where
  "publish_guarded now gw =
     (case acquire gw of None \<Rightarrow> None | Some (_, w) \<Rightarrow> Some (False, publish_status now w))"

definition queue_depth_guarded :: "guarded \<Rightarrow> guarded option" where
  "queue_depth_guarded gw =
     (case acquire gw of None \<Rightarrow> None | Some (_, w) \<Rightarrow> Some (False, update_queue_depth w))"

section \<open>Why a child run ends\<close>

datatype exit_cause =
    ChannelClosed
  | WriteFailed string
  | ChildExited
  | WaitError string
  | JoinError
  | HeartbeatRestart string
  | ShutdownCancelled

record manager_config =
  mg_cmd :: string
  mg_args :: "string list"
  mg_cwd :: "string option"
  mg_env :: "(string, string) hashmap"
  mg_lazy_start :: bool
  mg_restart_backoff :: duration
  mg_restart_backoff_max :: duration
  mg_max_restarts :: u64

record child_run =
  cr_shutdown_before :: bool
  cr_first_msg :: "json option"
  cr_spawn_ok :: bool
  cr_pid :: "u32 option"
  cr_cause :: exit_cause
  cr_shutdown_after :: bool
  cr_now :: instant

definition should_restart :: "exit_cause \<Rightarrow> bool" where
  "should_restart c = (c \<noteq> ChannelClosed)"

section \<open>One turn of the loop\<close>

definition mark_running :: "u32 option \<Rightarrow> mux_state \<Rightarrow> mux_state" where
  "mark_running pid st = st\<lparr>ms_server_status := StRunning, ms_child_pid := pid\<rparr>"

text \<open>The branch that gives up: the guard \<open>st\<close> lives until after \<open>publish_status\<close>.\<close>

definition give_up :: "instant \<Rightarrow> guarded \<Rightarrow> guarded option" where
  "give_up now gw =
     (case acquire gw of None \<Rightarrow> None
      | Some (g, w) \<Rightarrow>
          publish_guarded now (g, w\<lparr>w_state := (w_state w)
            \<lparr>ms_server_status := StFailed ''max restarts reached'',
             ms_last_reset := Some ''max restarts reached'', ms_child_pid := None\<rparr>\<rparr>))"

text \<open>What the \<open>select!\<close> arm that left the write loop does to the state.\<close>

definition leave_write_loop :: "instant \<Rightarrow> exit_cause \<Rightarrow> guarded \<Rightarrow> guarded option" where
  "leave_write_loop now c gw =
     (case c of
        ChannelClosed \<Rightarrow> queue_depth_guarded gw
      | WriteFailed e \<Rightarrow> Option.bind (queue_depth_guarded gw) (\<lambda>gw1.
          Option.bind (with_state (\<lambda>st. st\<lparr>ms_server_status := StFailed e,
                                           ms_last_reset := Some ''write failure''\<rparr>) gw1)
            (publish_guarded now))
      | ChildExited \<Rightarrow> publish_guarded now gw
      | WaitError e \<Rightarrow> Option.bind (with_state (\<lambda>st. st\<lparr>ms_server_status := StFailed e,
                                                       ms_last_reset := Some ''wait error''\<rparr>) gw)
          (publish_guarded now)
      | JoinError \<Rightarrow> publish_guarded now gw
      | HeartbeatRestart reason \<Rightarrow>
          Option.bind (with_state (\<lambda>st. st\<lparr>ms_server_status := StFailed reason,
                                           ms_last_reset := Some reason\<rparr>) gw)
            (publish_guarded now)
      | ShutdownCancelled \<Rightarrow> Some gw)"

definition cleanup_state :: "bool \<Rightarrow> mux_state \<Rightarrow> mux_state" where
  "cleanup_state stopping st =
     (let st1 = st\<lparr>ms_cached_initialize := None, ms_initializing := False, ms_child_pid := None\<rparr>
      in if stopping then st1\<lparr>ms_server_status := StStopped\<rparr>
         else st1\<lparr>ms_server_status := StRestarting,
                  ms_restarts := saturating_add_u64 (ms_restarts st1) 1\<rparr>)"

definition run_child :: "child_run \<Rightarrow> guarded \<Rightarrow> guarded option" where
  "run_child r gw =
     (let stopping = (cr_shutdown_after r \<or> \<not> should_restart (cr_cause r)) in
      Option.bind (with_state (mark_running (cr_pid r)) gw) (\<lambda>gw1.
      Option.bind (publish_guarded (cr_now r) gw1) (\<lambda>gw2.
      Option.bind (leave_write_loop (cr_now r) (cr_cause r) gw2) (\<lambda>gw3.
      Option.bind (with_state (cleanup_state stopping) gw3) (\<lambda>gw4.
      Option.bind (queue_depth_guarded gw4) (publish_guarded (cr_now r)))))))"

section \<open>The loop\<close>

text \<open>
  \<open>Stopped\<close>, \<open>SpawnError\<close>: the task ended.  \<open>GaveUp\<close>: it ended in the branch for too many
  restarts.  \<open>SelfDeadlock\<close>: it waits for its own guard.  \<open>Alive\<close>: the list of child runs is
  used up and the task is about to start another turn.  \<open>resets\<close> counts the \<open>Reset\<close> events sent
  to the router and \<open>sleeps\<close> are the backoff delays, oldest first.
\<close>

datatype manager_end = Stopped | SpawnError | GaveUp | SelfDeadlock | Alive

record manager_state =
  mgr_backoff :: duration
  mgr_restarts :: u64
  mgr_world :: guarded
  mgr_sleeps :: "duration list"
  mgr_resets :: nat

fun manager_loop ::
  "manager_config \<Rightarrow> child_run list \<Rightarrow> manager_state \<Rightarrow> manager_end \<times> manager_state" where
  "manager_loop cfg [] s = (Alive, s)"
| "manager_loop cfg (r # rs) s =
     (if cr_shutdown_before r then (Stopped, s)
      else if mg_lazy_start cfg \<and> mgr_restarts s = 0 \<and> cr_first_msg r = None then (Stopped, s)
      else case (if mg_lazy_start cfg \<and> mgr_restarts s = 0
                 then queue_depth_guarded (mgr_world s) else Some (mgr_world s)) of
        None \<Rightarrow> (SelfDeadlock, s)
      | Some gw \<Rightarrow>
          if 0 < mg_max_restarts cfg \<and> mg_max_restarts cfg \<le> mgr_restarts s
          then (case give_up (cr_now r) gw of
                  None \<Rightarrow> (SelfDeadlock, s\<lparr>mgr_world := gw\<rparr>)
                | Some gw' \<Rightarrow> (GaveUp, s\<lparr>mgr_world := gw'\<rparr>))
          else if \<not> cr_spawn_ok r then (SpawnError, s\<lparr>mgr_world := gw\<rparr>)
          else (case run_child r gw of
            None \<Rightarrow> (SelfDeadlock, s\<lparr>mgr_world := gw\<rparr>)
          | Some gw' \<Rightarrow>
              (let s1 = s\<lparr>mgr_world := gw', mgr_resets := Suc (mgr_resets s)\<rparr> in
               if cr_shutdown_after r \<or> \<not> should_restart (cr_cause r) then (Stopped, s1)
               else manager_loop cfg rs
                 (s1\<lparr>mgr_restarts := saturating_add_u64 (mgr_restarts s) 1,
                     mgr_sleeps := mgr_sleeps s @ [mgr_backoff s],
                     mgr_backoff := min (mgr_backoff s * 2) (mg_restart_backoff_max cfg)\<rparr>))))"

definition manager_start :: "manager_config \<Rightarrow> mux_world \<Rightarrow> manager_state" where
  "manager_start cfg w = \<lparr>mgr_backoff = mg_restart_backoff cfg, mgr_restarts = 0,
     mgr_world = (False, w), mgr_sleeps = [], mgr_resets = 0\<rparr>"

section \<open>What the loop does\<close>

lemma guarded_simps [simp]:
  "with_state f (False, w) = Some (False, w\<lparr>w_state := f (w_state w)\<rparr>)"
  "publish_guarded now (False, w) = Some (False, publish_status now w)"
  "queue_depth_guarded (False, w) = Some (False, update_queue_depth w)"
  "with_state f (True, w) = None"
  "publish_guarded now (True, w) = None"
  "queue_depth_guarded (True, w) = None"
  by (simp_all add: with_state_def publish_guarded_def queue_depth_guarded_def acquire_def)

lemma leave_write_loop_returns: "\<exists>w'. leave_write_loop now c (False, w) = Some (False, w')"
  by (cases c) (simp_all add: leave_write_loop_def)

lemma run_child_returns: "\<exists>w'. run_child r (False, w) = Some (False, w')"
proof -
  obtain w1 where "leave_write_loop (cr_now r) (cr_cause r)
      (False, publish_status (cr_now r) (w\<lparr>w_state := mark_running (cr_pid r) (w_state w)\<rparr>)) =
      Some (False, w1)"
    using leave_write_loop_returns by blast
  then show ?thesis by (simp add: run_child_def Let_def)
qed

lemma give_up_blocks: "give_up now gw = None"
  by (cases gw) (auto simp: give_up_def acquire_def split: if_splits)

definition crash :: "child_run \<Rightarrow> bool" where
  "crash r \<longleftrightarrow> \<not> cr_shutdown_before r \<and> cr_first_msg r \<noteq> None \<and> cr_spawn_ok r \<and>
     should_restart (cr_cause r) \<and> \<not> cr_shutdown_after r"

definition backoff_at :: "manager_config \<Rightarrow> nat \<Rightarrow> duration" where
  "backoff_at cfg k = (if k = 0 then mg_restart_backoff cfg
     else min (mg_restart_backoff cfg * 2 ^ k) (mg_restart_backoff_max cfg))"

lemma backoff_at_Suc: "min (backoff_at cfg k * 2) (mg_restart_backoff_max cfg) = backoff_at cfg (Suc k)"
proof (cases "k = 0")
  case False
  have min2: "min (min x m * 2) m = min (x * 2) m" for x m :: nat by linarith
  from False show ?thesis
    by (simp only: backoff_at_def if_False min2 power_Suc2 mult.assoc nat.simps)
qed (simp add: backoff_at_def)

definition under_limit :: "manager_config \<Rightarrow> nat \<Rightarrow> bool" where
  "under_limit cfg k \<longleftrightarrow> mg_max_restarts cfg = 0 \<or> k \<le> unat (mg_max_restarts cfg)"

text \<open>The state of the loop after \<open>k\<close> crashed children, for a loop that began at \<open>s\<close>.\<close>

definition after_crashes :: "manager_config \<Rightarrow> nat \<Rightarrow> manager_state \<Rightarrow> bool" where
  "after_crashes cfg k s \<longleftrightarrow> unat (mgr_restarts s) = k \<and> mgr_backoff s = backoff_at cfg k \<and>
     \<not> fst (mgr_world s) \<and> mgr_sleeps s = map (backoff_at cfg) [0..<k] \<and> mgr_resets s = k"

lemma after_crashes_start: "after_crashes cfg 0 (manager_start cfg w)"
  by (simp add: after_crashes_def manager_start_def backoff_at_def)

lemma manager_loop_crash:
  assumes s: "after_crashes cfg k s" and r: "crash r" and lim: "under_limit cfg (Suc k)"
    and k: "Suc k < 2 ^ 64"
  shows "\<exists>s'. manager_loop cfg (r # rs) s = manager_loop cfg rs s' \<and> after_crashes cfg (Suc k) s'"
proof -
  obtain w where w: "mgr_world s = (False, w)"
    using s by (cases "mgr_world s") (auto simp: after_crashes_def)
  define v where "v = (if mg_lazy_start cfg \<and> mgr_restarts s = 0
    then update_queue_depth w else w)"
  obtain w' where w': "run_child r (False, v) = Some (False, w')"
    using run_child_returns by blast
  have small: "\<not> (0 < mg_max_restarts cfg \<and> mg_max_restarts cfg \<le> mgr_restarts s)"
    using lim s by (auto simp: under_limit_def after_crashes_def word_le_nat_alt)
  have restarts: "unat (saturating_add_u64 (mgr_restarts s) 1) = Suc k"
    using s k by (simp add: after_crashes_def unat_saturating_add_u64)
  let ?s' = "s\<lparr>mgr_world := (False, w'), mgr_resets := Suc (mgr_resets s),
    mgr_restarts := saturating_add_u64 (mgr_restarts s) 1,
    mgr_sleeps := mgr_sleeps s @ [mgr_backoff s],
    mgr_backoff := min (mgr_backoff s * 2) (mg_restart_backoff_max cfg)\<rparr>"
  have eq: "(if mg_lazy_start cfg \<and> mgr_restarts s = 0
      then queue_depth_guarded (mgr_world s) else Some (mgr_world s)) = Some (False, v)"
    by (simp add: v_def w)
  have "manager_loop cfg (r # rs) s = manager_loop cfg rs ?s'"
    using r w' small unfolding crash_def by (auto simp: eq Let_def)
  moreover have "after_crashes cfg (Suc k) ?s'"
    using s restarts by (simp add: after_crashes_def backoff_at_Suc)
  ultimately show ?thesis by blast
qed

lemma manager_loop_crashes:
  assumes "after_crashes cfg k s" and "\<forall>r \<in> set cs. crash r" and "under_limit cfg (k + length cs)"
    and "k + length cs < 2 ^ 64"
  shows "\<exists>s'. manager_loop cfg (cs @ rs) s = manager_loop cfg rs s' \<and>
    after_crashes cfg (k + length cs) s'"
  using assms
proof (induction cs arbitrary: k s)
  case Nil
  then show ?case by auto
next
  case (Cons c cs)
  have "under_limit cfg (Suc k)" using Cons.prems(3) by (auto simp: under_limit_def)
  then obtain s1 where s1: "manager_loop cfg (c # cs @ rs) s = manager_loop cfg (cs @ rs) s1"
    "after_crashes cfg (Suc k) s1"
    using manager_loop_crash [OF Cons.prems(1)] Cons.prems(2,4) by fastforce
  show ?case
    using Cons.IH [OF s1(2)] Cons.prems(2-4) s1(1) by simp
qed

section \<open>Properties\<close>

text \<open>The snapshot of a world does not matter to the manager; any world serves as an example.\<close>

definition example_manager :: manager_config where
  "example_manager = \<lparr>mg_cmd = ''npx'', mg_args = [], mg_cwd = None, mg_env = [], mg_lazy_start = False, mg_restart_backoff = 1000, mg_restart_backoff_max = 3000,
     mg_max_restarts = 3\<rparr>"

definition example_crash :: child_run where
  "example_crash = \<lparr>cr_shutdown_before = False, cr_first_msg = Some JNull, cr_spawn_ok = True,
     cr_pid = None, cr_cause = ChildExited, cr_shutdown_after = False, cr_now = 0\<rparr>"

lemma example_crash [simp]: "crash example_crash"
  by (simp add: crash_def example_crash_def should_restart_def)



text \<open>C29: at the limit the manager locks itself out.  After as many crashes as restarts are
  allowed, the next turn takes the guard of the shared state and then calls \<open>publish_status\<close>,
  which waits for the same guard: the task never ends and no other task gets the state again.\<close>

theorem manager_deadlocks_at_limit:
  assumes cs: "\<forall>r \<in> set cs. crash r" and len: "length cs = unat (mg_max_restarts cfg)"
    and pos: "0 < mg_max_restarts cfg" and r: "\<not> cr_shutdown_before r"
  shows "fst (manager_loop cfg (cs @ r # rs) (manager_start cfg w)) = SelfDeadlock"
proof -
  have lt: "length cs < 2 ^ 64" unfolding len by (rule order_less_le_trans [OF unsigned_less]) simp
  obtain s where s: "manager_loop cfg (cs @ r # rs) (manager_start cfg w) = manager_loop cfg (r # rs) s"
    "after_crashes cfg (0 + length cs) s"
    using manager_loop_crashes [OF after_crashes_start cs, of cfg "r # rs" w] len lt
    by (auto simp: under_limit_def)
  have pos': "0 < unat (mg_max_restarts cfg)" using pos by (simp add: word_less_nat_alt)
  have "mgr_restarts s \<noteq> 0" and "mg_max_restarts cfg \<le> mgr_restarts s"
    using s(2) len pos' by (auto simp: after_crashes_def word_le_nat_alt)
  with s(1) r pos show ?thesis by (simp add: give_up_blocks)
qed

theorem manager_deadlocks_at_limit_witness:
  "fst (manager_loop example_manager
     ([example_crash, example_crash, example_crash] @ [example_crash])
     (manager_start example_manager undefined)) = SelfDeadlock"
proof -
  have "length [example_crash, example_crash, example_crash] = unat (mg_max_restarts example_manager)"
    "0 < mg_max_restarts example_manager" "\<not> cr_shutdown_before example_crash"
    by (simp_all add: example_manager_def example_crash_def)
  then show ?thesis
    using manager_deadlocks_at_limit [of "[example_crash, example_crash, example_crash]"] by simp
qed

lemma manager_loop_world_free:
  "\<not> fst (mgr_world s) \<Longrightarrow> manager_loop cfg rs s = (e, s') \<Longrightarrow> mgr_resets s = unat (mgr_restarts s) \<Longrightarrow>
     0 < mg_max_restarts cfg \<Longrightarrow> unat (mgr_restarts s) \<le> unat (mg_max_restarts cfg) \<Longrightarrow>
     mgr_resets s' \<le> unat (mg_max_restarts cfg) \<and> e \<noteq> GaveUp"
proof (induction cfg rs s rule: manager_loop.induct)
  case (1 cfg s)
  then show ?case by auto
next
  case (2 cfg r rs s)
  obtain w where w: "mgr_world s = (False, w)" using "2.prems"(1) by (cases "mgr_world s") auto
  define v where "v = (if mg_lazy_start cfg \<and> mgr_restarts s = 0 then update_queue_depth w else w)"
  have eq: "(if mg_lazy_start cfg \<and> mgr_restarts s = 0
      then queue_depth_guarded (mgr_world s) else Some (mgr_world s)) = Some (False, v)"
    by (simp add: v_def w)
  obtain w' where w': "run_child r (False, v) = Some (False, w')" using run_child_returns by blast
  show ?case
  proof (cases "cr_shutdown_before r \<or> mg_lazy_start cfg \<and> mgr_restarts s = 0 \<and> cr_first_msg r = None \<or>
      mg_max_restarts cfg \<le> mgr_restarts s \<or> \<not> cr_spawn_ok r")
    case True
    then show ?thesis
      using "2.prems" by (auto simp: eq give_up_blocks simp del: split_paired_Ex split: if_splits)
  next
    case False
    let ?s1 = "s\<lparr>mgr_world := (False, w'), mgr_resets := Suc (mgr_resets s)\<rparr>"
    let ?s2 = "?s1\<lparr>mgr_restarts := saturating_add_u64 (mgr_restarts s) 1,
      mgr_sleeps := mgr_sleeps s @ [mgr_backoff s],
      mgr_backoff := min (mgr_backoff s * 2) (mg_restart_backoff_max cfg)\<rparr>"
    have less: "unat (mgr_restarts s) < unat (mg_max_restarts cfg)"
      using False by (simp add: word_le_nat_alt)
    have max: "unat (mg_max_restarts cfg) < 2 ^ 64"
      by (rule order_less_le_trans [OF unsigned_less]) simp
    have suc: "unat (saturating_add_u64 (mgr_restarts s) 1) = Suc (unat (mgr_restarts s))"
      using less max by (simp add: unat_saturating_add_u64)
    have loop: "manager_loop cfg (r # rs) s =
        (if cr_shutdown_after r \<or> \<not> should_restart (cr_cause r) then (Stopped, ?s1)
         else manager_loop cfg rs ?s2)"
      using False w' by (auto simp: eq Let_def)
    show ?thesis
    proof (cases "cr_shutdown_after r \<or> \<not> should_restart (cr_cause r)")
      case True
      then show ?thesis using "2.prems" less loop by auto
    next
      case go: False
      show ?thesis
        by (rule "2.IH" [OF _ _ eq _ _ w' refl go])
          (use False "2.prems" loop go suc less in auto)
    qed
  qed
qed

text \<open>the limit on restarts holds for every behaviour of the children.  Whatever the operating
  system and the other tasks do, no more children than the limit are run to their end, and the
  manager never reaches the end of its give-up branch.\<close>

theorem restarts_bounded:
  assumes "0 < mg_max_restarts cfg"
  shows "mgr_resets (snd (manager_loop cfg rs (manager_start cfg w))) \<le> unat (mg_max_restarts cfg) \<and>
    fst (manager_loop cfg rs (manager_start cfg w)) \<noteq> GaveUp"
proof -
  obtain e s where "manager_loop cfg rs (manager_start cfg w) = (e, s)" by fastforce
  with manager_loop_world_free [OF _ this] assms show ?thesis by (simp add: manager_start_def)
qed

theorem restarts_bounded_witness:
  "mgr_resets (snd (manager_loop example_manager (replicate 9 example_crash)
     (manager_start example_manager undefined))) \<le> 3"
proof -
  have "unat (mg_max_restarts example_manager) = 3" "0 < mg_max_restarts example_manager"
    by (simp_all add: example_manager_def)
  with restarts_bounded show ?thesis by metis
qed

end
