(* ===== verification/Mux_Runtime.thy ===== *)
theory Mux_Runtime
  imports Mux_Manager
begin

text \<open>
  The daemon as a whole (\<open>mux-agent/src/runtime/mod.rs\<close>): every task is a source of events, one
  event is one run of its handler, and the scheduler may interleave them in any order.  The
  invariant of the shared state holds in every reachable state.
\<close>

section \<open>Handlers keep the invariant\<close>

lemma chan_send_frame:
  "chan_send m w = Some w' \<Longrightarrow> w_state w' = w_state w \<and> w_permits w' = w_permits w"
  by (auto simp: chan_send_def split: if_splits)

lemma chan_try_send_frame:
  "chan_try_send m w = Some w' \<Longrightarrow> w_state w' = w_state w \<and> w_permits w' = w_permits w"
  by (auto simp: chan_try_send_def split: if_splits)

lemma st_inv_enqueue:
  assumes inv: "st_inv nc ng (w_state w)" and lim: "ng < 2 ^ 64 - 1"
  shows "st_inv nc (Suc ng) (w_state (snd (enqueue_request now cid l msg b w)))"
proof (cases "MAX_PENDING \<le> length (ms_pending (w_state w))")
  case True
  then show ?thesis
    using st_inv_mono [OF st_inv_send_to [OF inv]] by (simp add: enqueue_request_def)
next
  case False
  obtain gid st1 where ap: "add_pending now cid l b (w_state w) = (gid, st1)" by fastforce
  have "st_inv nc (Suc ng) st1"
    using st_inv_add_pending [OF inv lim, of now cid l b] False ap by simp
  then show ?thesis
    using False ap
    by (auto simp: enqueue_request_def Let_def split: option.splits dest: chan_send_frame)
qed

lemma st_inv_forward:
  assumes "st_inv nc ng (w_state w)" and "ng < 2 ^ 64 - 1"
  shows "st_inv nc (Suc ng) (w_state (snd (forward_request now cid msg w)))"
  using st_inv_enqueue [OF assms] st_inv_mono [OF assms(1)]
  by (auto simp: forward_request_def split: option.splits)

lemma st_inv_flush:
  "st_inv nc ng (w_state w) \<Longrightarrow> ng + length ms < 2 ^ 64 \<Longrightarrow>
     st_inv nc (ng + length ms) (w_state (flush_buffered now cid ms w))"
proof (induction ms arbitrary: ng w)
  case (Cons m ms)
  have "st_inv nc (Suc ng) (w_state (snd (forward_request now cid m w)))"
    using st_inv_forward [OF Cons.prems(1)] Cons.prems(2) by simp
  from Cons.IH [OF this] Cons.prems(2) show ?case by simp
qed simp

lemma st_inv_forward_initialized:
  "st_inv nc ng (w_state w) \<Longrightarrow> st_inv nc ng (w_state (forward_initialized msg w))"
  by (auto simp: forward_initialized_def Let_def cong: st_inv_cong
    split: option.splits dest!: chan_try_send_frame)

lemma st_inv_initialized:
  assumes inv: "st_inv nc ng (w_state w)" and lim: "ng < 2 ^ 64"
  shows "st_inv nc ng (w_state (handle_initialized now cid msg w))"
proof -
  let ?w = "forward_initialized msg w"
  obtain bs st where c: "complete_handshake cid (w_state ?w) = (bs, st)" by fastforce
  from st_inv_complete_handshake [OF st_inv_forward_initialized [OF inv] c]
  have "length bs \<le> ng" and "st_inv nc (ng - length bs) st" by auto
  with st_inv_flush [of nc "ng - length bs" "?w\<lparr>w_state := st\<rparr>" bs now cid] lim
  have "st_inv nc ng (w_state (flush_buffered now cid bs (?w\<lparr>w_state := st\<rparr>)))" by simp
  then show ?thesis by (simp add: handle_initialized_def c)
qed

lemma handshake_pending_inv:
  assumes inv: "st_inv nc ng st"
  shows "st_inv nc ng (st\<lparr>ms_client_handshakes :=
     hm_modify cid (\<lambda>h. h\<lparr>hs_initialize_pending := True\<rparr>) (ms_client_handshakes st)\<rparr>)"
proof -
  note d = st_invD [OF inv]
  have "hm_all (\<lambda>_. handshake_ok)
      (hm_modify cid (\<lambda>h. h\<lparr>hs_initialize_pending := True\<rparr>) (ms_client_handshakes st))"
    using d(10) by (rule hm_all_modify) (simp add: handshake_ok_def)
  with inv show ?thesis
    by (auto simp: st_inv_def total_buffered_def hm_sum_modify split: option.splits)
qed

lemma st_inv_initialize:
  assumes inv: "st_inv nc ng (w_state w)" and lim: "ng < 2 ^ 64 - 1"
  shows "st_inv nc (Suc ng) (w_state (snd (handle_initialize now cid l msg w)))"
proof -
  define st where "st = (w_state w)\<lparr>ms_client_handshakes :=
    hm_modify cid (\<lambda>h. h\<lparr>hs_initialize_pending := True\<rparr>) (ms_client_handshakes (w_state w))\<rparr>"
  have st: "st_inv nc ng st" unfolding st_def by (rule handshake_pending_inv [OF inv])
  have "\<not> ms_initializing st" using st_invD(8) [OF st] .
  then show ?thesis
    using st_inv_mono [OF st_inv_send_to [OF st]] st_inv_enqueue [of nc ng "w\<lparr>w_state := st\<rparr>"] st lim
    by (auto simp: handle_initialize_def Let_def simp flip: st_def split: option.splits)
qed

lemma st_inv_client_message:
  assumes inv: "st_inv nc ng (w_state w)" and lim: "ng < 2 ^ 64 - 1"
  shows "st_inv nc (Suc ng) (w_state (snd (handle_client_message enc_len now cid msg mx w)))"
proof -
  have up: "st_inv nc ng st \<Longrightarrow> st_inv nc (Suc ng) st" for st
    by (erule st_inv_mono) simp_all
  have init: "st_inv nc ng (w_state (handle_initialized now cid msg w))"
    by (rule st_inv_initialized [OF inv]) (use lim in simp)
  have notif: "st_inv nc (Suc ng) (w_state (publish_status now (update_queue_depth
      (case chan_try_send msg w of None \<Rightarrow> w | Some w' \<Rightarrow> w'))))"
    using up [OF inv] by (auto split: option.splits dest: chan_try_send_frame)
  show ?thesis
    unfolding handle_client_message_def
    using up [OF st_inv_send_to [OF inv]] up [OF init] notif st_inv_initialize [OF inv lim]
      st_inv_buffer [OF inv, of msg cid] st_inv_forward [OF inv lim]
    by (auto simp: Let_def split: option.splits)
qed

lemma st_inv_remove_pending:
  "st_inv nc ng st \<Longrightarrow> st_inv nc ng (st\<lparr>ms_pending := filter P (ms_pending st)\<rparr>)"
  by (auto simp: st_inv_def total_buffered_def intro: le_trans [OF length_filter_le])

lemma st_inv_cache_initialize:
  assumes inv: "st_inv nc ng st"
  shows "st_inv nc ng (cache_initialize msg st)"
  using inv st_invD(9) [OF inv]
  by (simp add: cache_initialize_def Let_def) (simp add: st_inv_def total_buffered_def)

lemma st_inv_server_message:
  assumes inv: "st_inv nc ng (w_state w)"
  shows "st_inv nc ng (w_state (snd (handle_server_message now msg w)))"
proof -
  have rm: "st_inv nc ng ((w_state w)\<lparr>ms_pending := hm_remove key (ms_pending (w_state w))\<rparr>)" for key
    unfolding AList.delete_eq by (rule st_inv_remove_pending [OF inv])
  show ?thesis
    using inv st_inv_broadcast [OF inv] st_inv_send_to [OF rm]
      st_inv_send_to [OF st_inv_cache_initialize [OF rm]]
    by (auto simp: handle_server_message_def Let_def split: option.splits)
qed

lemma st_inv_route: "st_inv nc ng (w_state w) \<Longrightarrow> st_inv nc ng (w_state (snd (route_event now ev w)))"
  by (auto simp: route_event_def st_inv_server_message st_inv_reset split: server_event.splits option.splits)

lemma st_inv_reap:
  assumes inv: "st_inv nc ng (w_state w)"
  shows "st_inv nc ng (w_state (reap_timeouts now w))"
  using st_inv_deliver [OF st_inv_remove_pending [OF inv]]
  by (simp add: reap_timeouts_def Let_def fold_send_to_map)

lemma st_inv_disconnect:
  "st_inv nc ng (w_state w) \<Longrightarrow> st_inv nc ng (w_state (client_disconnect now cid w))"
  by (simp add: client_disconnect_def st_inv_unregister)

lemma st_inv_tick:
  "st_inv nc ng (w_state w) \<Longrightarrow> st_inv nc ng (w_state (handshake_tick now cid w))"
  by (simp add: handshake_tick_def st_inv_disconnect st_inv_send_to)

lemma st_inv_connect:
  assumes inv: "st_inv nc ng (w_state w)" and lim: "nc < 2 ^ 64 - 1"
    and c: "client_connect now w = Some (cid, w')"
  shows "st_inv (Suc nc) ng (w_state w')"
  using c st_inv_register [OF inv lim, of now]
  by (auto simp: client_connect_def split: if_splits prod.splits)

lemma st_inv_mark_running [simp]: "st_inv nc ng (mark_running pid st) = st_inv nc ng st"
  by (rule st_inv_cong) (simp_all add: mark_running_def)

lemma st_inv_cleanup: "st_inv nc ng st \<Longrightarrow> st_inv nc ng (cleanup_state b st)"
  by (simp add: cleanup_state_def Let_def st_inv_def total_buffered_def)

lemma leave_write_loop_frame:
  assumes "leave_write_loop now c (False, w) = Some (False, w')"
  shows "ms_clients (w_state w') = ms_clients (w_state w)"
    "ms_client_handshakes (w_state w') = ms_client_handshakes (w_state w)"
    "ms_pending (w_state w') = ms_pending (w_state w)"
    "ms_next_client_id (w_state w') = ms_next_client_id (w_state w)"
    "ms_next_global_id (w_state w') = ms_next_global_id (w_state w)"
    "ms_initializing (w_state w') = ms_initializing (w_state w)"
    "ms_init_waiting (w_state w') = ms_init_waiting (w_state w)"
    "ms_server_initialized (w_state w') = ms_server_initialized (w_state w)"
    "w_permits w' = w_permits w"
    "ms_max_active_clients (w_state w') = ms_max_active_clients (w_state w)"
  using assms by (auto simp: leave_write_loop_def update_queue_depth_def split: exit_cause.splits)

lemma st_inv_leave:
  "leave_write_loop now c (False, w) = Some (False, w') \<Longrightarrow>
     st_inv nc ng (w_state w') = st_inv nc ng (w_state w)"
  by (rule st_inv_cong) (erule leave_write_loop_frame)+

section \<open>The system\<close>

datatype mux_event =
    Connect
  | Frame u64 json
  | Tick u64
  | WriterClosed u64
  | Disconnect u64
  | DecodeError u64
  | FromServer server_event
  | Reap
  | Probe u64
  | Metrics heartbeat_metrics
  | ServerRecv
  | ChildStarted "u32 option"
  | ChildLeft exit_cause
  | ChildCleanup bool

record mux_sys =
  sys_world :: mux_world
  sys_conns :: "u64 list"

definition sys_init :: "mux_state_config \<Rightarrow> mux_sys" where
  "sys_init c = \<lparr>sys_world = \<lparr>w_state = mux_state_new c, w_permits = mc_max_active_clients c,
      w_status = snapshot_for_state 0 (mux_state_new c) 0, w_to_server = [],
      w_to_server_open = True\<rparr>, sys_conns = []\<rparr>"

text \<open>
  \<open>sys_conns\<close> are the connections whose reader loop runs.  The writer task of a client lives
  as long as the client is registered, also after its reader loop left with an error.  A tick ends the loop when the
  handshake has timed out; \<open>ServerRecv\<close> is the manager taking the next message, \<open>Probe\<close> and
  \<open>Metrics\<close> are the heartbeat inspector's, and the last three are the blocks of the manager's
  loop that change the state.  The start of the daemon also notes in the heartbeat metrics whether the
  heartbeat is on; that is a \<open>Metrics\<close> event before the others.
\<close>

inductive mux_step :: "(json \<Rightarrow> nat) \<Rightarrow> mux_sys \<Rightarrow> instant \<times> mux_event \<Rightarrow> mux_sys \<Rightarrow> bool"
  for enc_len where
  connect: "client_connect now (sys_world s) = Some (cid, w) \<Longrightarrow>
     mux_step enc_len s (now, Connect) \<lparr>sys_world = w, sys_conns = cid # sys_conns s\<rparr>"
| frame: "cid \<in> set (sys_conns s) \<Longrightarrow>
     mux_step enc_len s (now, Frame cid msg)
       (s\<lparr>sys_world := client_frame enc_len now cid msg (sys_world s)\<rparr>)"
| tick: "cid \<in> set (sys_conns s) \<Longrightarrow>
     mux_step enc_len s (now, Tick cid)
       (s\<lparr>sys_world := handshake_tick now cid (sys_world s),
          sys_conns := (if is_handshake_timed_out now cid (w_state (sys_world s))
                        then remove1 cid (sys_conns s) else sys_conns s)\<rparr>)"
| writer_closed: "cid \<in> hm_keys (ms_clients (w_state (sys_world s))) \<Longrightarrow>
     mux_step enc_len s (now, WriterClosed cid)
       (s\<lparr>sys_world := client_writer_closed now cid (sys_world s)\<rparr>)"
| disconnect: "cid \<in> set (sys_conns s) \<Longrightarrow>
     mux_step enc_len s (now, Disconnect cid)
       (s\<lparr>sys_world := client_disconnect now cid (sys_world s),
          sys_conns := remove1 cid (sys_conns s)\<rparr>)"
| decode_error: "cid \<in> set (sys_conns s) \<Longrightarrow>
     mux_step enc_len s (now, DecodeError cid)
       (s\<lparr>sys_world := client_decode_error cid (sys_world s),
          sys_conns := remove1 cid (sys_conns s)\<rparr>)"
| from_server: "mux_step enc_len s (now, FromServer ev)
       (s\<lparr>sys_world := snd (route_event now ev (sys_world s))\<rparr>)"
| reap: "mux_step enc_len s (now, Reap) (s\<lparr>sys_world := reap_timeouts now (sys_world s)\<rparr>)"
| probe: "probe_ready (w_state (sys_world s)) \<Longrightarrow>
     chan_send (probe_message (heartbeat_id i)) (sys_world s) = Some w \<Longrightarrow>
     mux_step enc_len s (now, Probe i) (s\<lparr>sys_world := w\<rparr>)"
| server_recv: "w_to_server (sys_world s) = m # q \<Longrightarrow>
     mux_step enc_len s (now, ServerRecv)
       (s\<lparr>sys_world := update_queue_depth ((sys_world s)\<lparr>w_to_server := q\<rparr>)\<rparr>)"
| metrics: "mux_step enc_len s (now, Metrics m)
       (s\<lparr>sys_world := publish_status now ((sys_world s)\<lparr>w_state :=
            (w_state (sys_world s))\<lparr>ms_heartbeat_metrics := m\<rparr>\<rparr>)\<rparr>)"
| child_started: "mux_step enc_len s (now, ChildStarted pid)
       (s\<lparr>sys_world := publish_status now ((sys_world s)\<lparr>w_state :=
            mark_running pid (w_state (sys_world s))\<rparr>)\<rparr>)"
| child_left: "leave_write_loop now c (False, sys_world s) = Some (False, w) \<Longrightarrow>
     mux_step enc_len s (now, ChildLeft c) (s\<lparr>sys_world := w\<rparr>)"
| child_cleanup: "mux_step enc_len s (now, ChildCleanup stopping)
       (s\<lparr>sys_world := publish_status now (update_queue_depth ((sys_world s)\<lparr>w_state :=
            cleanup_state stopping (w_state (sys_world s))\<rparr>))\<rparr>)"

inductive_cases mux_stepE: "mux_step enc_len s e t"

inductive mux_reach ::
  "(json \<Rightarrow> nat) \<Rightarrow> mux_state_config \<Rightarrow> (instant \<times> mux_event) list \<Rightarrow> mux_sys \<Rightarrow> bool"
  for enc_len c where
  start: "mux_reach enc_len c [] (sys_init c)"
| step: "mux_reach enc_len c es s \<Longrightarrow> mux_step enc_len s e t \<Longrightarrow> mux_reach enc_len c (es @ [e]) t"

definition sys_inv :: "nat \<Rightarrow> mux_sys \<Rightarrow> bool" where
  "sys_inv n s \<longleftrightarrow> st_inv (Suc n) (Suc n) (w_state (sys_world s))"

lemma st_inv_up:
  "st_inv nc ng st \<Longrightarrow> st_inv (Suc nc) ng st"
  "st_inv nc ng st \<Longrightarrow> st_inv nc (Suc ng) st"
  "st_inv nc ng st \<Longrightarrow> st_inv (Suc nc) (Suc ng) st"
  by (auto elim: st_inv_mono)

lemma mux_step_inv:
  assumes "mux_step enc_len s e t" and "sys_inv n s" and "n < 2 ^ 64 - 2"
  shows "sys_inv (Suc n) t"
  using assms
proof (induction rule: mux_step.induct)
  case (connect now s cid w)
  then show ?case
    using st_inv_connect [OF _ _ connect(1), of "Suc n" "Suc n"] by (auto simp: sys_inv_def intro: st_inv_up)
next
  case (frame cid s now msg)
  then show ?case
    using st_inv_client_message [of "Suc n" "Suc n" "sys_world s"]
    by (auto simp: sys_inv_def client_frame_def intro: st_inv_up)
next
  case (probe s i w now)
  then show ?case by (auto simp: sys_inv_def intro: st_inv_up dest!: chan_send_frame)
next
  case (server_recv s m q now)
  then show ?case by (auto simp: sys_inv_def intro: st_inv_up)
next
  case (child_left now c s w)
  then show ?case by (auto simp: sys_inv_def st_inv_leave [OF child_left(1)] intro: st_inv_up)
next
  case (metrics s now m)
  then show ?case by (auto simp: sys_inv_def intro!: st_inv_up cong: st_inv_cong)
qed (auto simp: sys_inv_def client_writer_closed_def st_inv_cleanup client_decode_error_def st_inv_unregister
  intro: st_inv_up st_inv_tick st_inv_disconnect st_inv_route st_inv_reap)

lemma mux_reach_inv: "mux_reach enc_len c es s \<Longrightarrow> length es < 2 ^ 64 - 1 \<Longrightarrow> sys_inv (length es) s"
proof (induction rule: mux_reach.induct)
  case start
  then show ?case by (simp add: sys_inv_def sys_init_def st_inv_new)
next
  case (step es s e t)
  then show ?case using mux_step_inv [OF step(2), of "length es"] by simp
qed

section \<open>Running a schedule\<close>

text \<open>
  For a given event the next state is unique, so the relation is the graph of a function and a
  schedule can be executed.
\<close>

fun mux_next :: "(json \<Rightarrow> nat) \<Rightarrow> instant \<times> mux_event \<Rightarrow> mux_sys \<Rightarrow> mux_sys option" where
  "mux_next enc_len (now, Connect) s =
     (case client_connect now (sys_world s) of None \<Rightarrow> None
      | Some (cid, w) \<Rightarrow> Some \<lparr>sys_world = w, sys_conns = cid # sys_conns s\<rparr>)"
| "mux_next enc_len (now, Frame cid msg) s =
     (if cid \<in> set (sys_conns s)
      then Some (s\<lparr>sys_world := client_frame enc_len now cid msg (sys_world s)\<rparr>) else None)"
| "mux_next enc_len (now, Tick cid) s =
     (if cid \<in> set (sys_conns s)
      then Some (s\<lparr>sys_world := handshake_tick now cid (sys_world s),
          sys_conns := (if is_handshake_timed_out now cid (w_state (sys_world s))
                        then remove1 cid (sys_conns s) else sys_conns s)\<rparr>) else None)"
| "mux_next enc_len (now, WriterClosed cid) s =
     (if cid \<in> hm_keys (ms_clients (w_state (sys_world s)))
      then Some (s\<lparr>sys_world := client_writer_closed now cid (sys_world s)\<rparr>) else None)"
| "mux_next enc_len (now, Disconnect cid) s =
     (if cid \<in> set (sys_conns s)
      then Some (s\<lparr>sys_world := client_disconnect now cid (sys_world s),
          sys_conns := remove1 cid (sys_conns s)\<rparr>) else None)"
| "mux_next enc_len (now, DecodeError cid) s =
     (if cid \<in> set (sys_conns s)
      then Some (s\<lparr>sys_world := client_decode_error cid (sys_world s),
          sys_conns := remove1 cid (sys_conns s)\<rparr>) else None)"
| "mux_next enc_len (now, FromServer ev) s =
     Some (s\<lparr>sys_world := snd (route_event now ev (sys_world s))\<rparr>)"
| "mux_next enc_len (now, Reap) s = Some (s\<lparr>sys_world := reap_timeouts now (sys_world s)\<rparr>)"
| "mux_next enc_len (now, Probe i) s =
     (if probe_ready (w_state (sys_world s))
      then map_option (\<lambda>w. s\<lparr>sys_world := w\<rparr>)
             (chan_send (probe_message (heartbeat_id i)) (sys_world s)) else None)"
| "mux_next enc_len (now, Metrics m) s =
     Some (s\<lparr>sys_world := publish_status now ((sys_world s)\<lparr>w_state :=
            (w_state (sys_world s))\<lparr>ms_heartbeat_metrics := m\<rparr>\<rparr>)\<rparr>)"
| "mux_next enc_len (now, ServerRecv) s =
     (case w_to_server (sys_world s) of [] \<Rightarrow> None
      | m # q \<Rightarrow> Some (s\<lparr>sys_world := update_queue_depth ((sys_world s)\<lparr>w_to_server := q\<rparr>)\<rparr>))"
| "mux_next enc_len (now, ChildStarted pid) s =
     Some (s\<lparr>sys_world := publish_status now ((sys_world s)\<lparr>w_state :=
            mark_running pid (w_state (sys_world s))\<rparr>)\<rparr>)"
| "mux_next enc_len (now, ChildLeft c) s =
     map_option (\<lambda>gw. s\<lparr>sys_world := snd gw\<rparr>) (leave_write_loop now c (False, sys_world s))"
| "mux_next enc_len (now, ChildCleanup stopping) s =
     Some (s\<lparr>sys_world := publish_status now (update_queue_depth ((sys_world s)\<lparr>w_state :=
            cleanup_state stopping (w_state (sys_world s))\<rparr>))\<rparr>)"

lemma mux_step_next: "mux_step enc_len s e t \<Longrightarrow> mux_next enc_len e s = Some t"
  by (induction rule: mux_step.induct) simp_all

lemma mux_next_step: "mux_next enc_len e s = Some t \<Longrightarrow> mux_step enc_len s e t"
proof (induction enc_len e s rule: mux_next.induct)
  case (13 enc_len now c s)
  obtain w where "leave_write_loop now c (False, sys_world s) = Some (False, w)"
    using leave_write_loop_returns by blast
  with 13 show ?case by (auto intro: mux_step.intros)
next
  case (3 enc_len now cid s)
  then show ?case using mux_step.tick [of cid s enc_len now] by (simp split: if_splits)
qed (auto intro: mux_step.intros split: option.splits list.splits if_splits)

lemma mux_step_iff: "mux_step enc_len s e t \<longleftrightarrow> mux_next enc_len e s = Some t"
  using mux_step_next mux_next_step by blast

fun mux_exec :: "(json \<Rightarrow> nat) \<Rightarrow> (instant \<times> mux_event) list \<Rightarrow> mux_sys \<Rightarrow> mux_sys option" where
  "mux_exec enc_len [] s = Some s"
| "mux_exec enc_len (e # es) s =
     (case mux_next enc_len e s of None \<Rightarrow> None | Some t \<Rightarrow> mux_exec enc_len es t)"

lemma mux_exec_append:
  "mux_exec enc_len (es @ fs) s =
     (case mux_exec enc_len es s of None \<Rightarrow> None | Some t \<Rightarrow> mux_exec enc_len fs t)"
  by (induction es arbitrary: s) (auto split: option.splits)

lemma mux_reach_exec: "mux_reach enc_len c es s \<longleftrightarrow> mux_exec enc_len es (sys_init c) = Some s"
proof
  assume "mux_reach enc_len c es s"
  then show "mux_exec enc_len es (sys_init c) = Some s"
    by (induction rule: mux_reach.induct) (simp_all add: mux_exec_append mux_step_next)
next
  show "mux_exec enc_len es (sys_init c) = Some s \<Longrightarrow> mux_reach enc_len c es s"
  proof (induction es arbitrary: s rule: rev_induct)
    case (snoc e es)
    then obtain t where t: "mux_exec enc_len es (sys_init c) = Some t" "mux_next enc_len e t = Some s"
      by (auto simp: mux_exec_append split: option.splits)
    then show ?case using snoc.IH mux_next_step by (blast intro: mux_reach.step)
  qed (simp add: mux_reach.start)
qed

text \<open>A small configuration for examples: two clients, requests of at most a hundred bytes.\<close>

definition example_config :: mux_state_config where
  "example_config = \<lparr>mc_max_active_clients = 2, mc_service_name = ''demo'',
     mc_max_request_bytes = 100, mc_request_timeout = from_secs 30,
     mc_restart_backoff = from_secs 1, mc_restart_backoff_max = from_secs 30,
     mc_max_restarts = 5, mc_queue_depth = 0, mc_child_pid = None, mc_event_tx = None\<rparr>"

definition example_msg :: "string \<Rightarrow> json \<Rightarrow> json" where
  "example_msg meth i = JObj (obj_of [(''id'', i), (''method'', JStr meth)])"

end
