(* ===== verification/Mux_Protocol.thy ===== *)
theory Mux_Protocol
  imports Mux_Runtime
begin

text \<open>
  The request/response protocol of the daemon over all its handlers: what a forwarded request
  changes, how its answer finds the way back, that no request is lost, and how the handshake
  gates the traffic of a client.
\<close>

section \<open>What one forwarded request changes\<close>

lemma update_queue_depth_frame [simp]:
  "ms_pending (w_state (update_queue_depth w)) = ms_pending (w_state w)"
  "ms_clients (w_state (update_queue_depth w)) = ms_clients (w_state w)"
  "ms_client_handshakes (w_state (update_queue_depth w)) = ms_client_handshakes (w_state w)"
  "ms_server_initialized (w_state (update_queue_depth w)) = ms_server_initialized (w_state w)"
  "ms_max_active_clients (w_state (update_queue_depth w)) = ms_max_active_clients (w_state w)"
  "w_to_server (update_queue_depth w) = w_to_server w"
  "w_to_server_open (update_queue_depth w) = w_to_server_open w"
  "w_permits (update_queue_depth w) = w_permits w"
  by (simp_all add: update_queue_depth_def)

lemma enqueue_full:
  "MAX_PENDING \<le> length (ms_pending (w_state w)) \<Longrightarrow>
     snd (enqueue_request now cid l msg b w) =
       w\<lparr>w_state := send_to cid (error_response l overloaded_msg) (w_state w)\<rparr>"
  by (simp add: enqueue_request_def Let_def)

lemma enqueue_room:
  fixes now cid l msg b w
  defines "w' \<equiv> snd (enqueue_request now cid l msg b w)"
    and "g \<equiv> global_id cid (ms_next_global_id (w_state w))"
  assumes room: "length (ms_pending (w_state w)) < MAX_PENDING"
  shows "ms_pending (w_state w') = hm_insert g \<lparr>p_client_id = cid, p_local_id = l,
      p_is_initialize = b, p_started_at = now\<rparr> (ms_pending (w_state w))"
    and "ms_next_global_id (w_state w') = ms_next_global_id (w_state w) + 1"
    and "w_to_server w' = (if w_to_server_open w then w_to_server w @ [set_id msg (JStr g)]
      else w_to_server w)"
    and "ms_clients (w_state w') = ms_clients (w_state w)"
    and "fst (enqueue_request now cid l msg b w) =
      (if w_to_server_open w then Inr () else Inl ''server channel closed'')"
  using room unfolding w'_def g_def
  by (simp_all add: enqueue_request_def add_pending_def next_request_id_def chan_send_def
      update_queue_depth_def Let_def)

lemma enqueue_frame:
  fixes now cid l msg b w
  defines "w' \<equiv> snd (enqueue_request now cid l msg b w)"
  shows "ms_client_handshakes (w_state w') = ms_client_handshakes (w_state w)"
    and "ms_server_initialized (w_state w') = ms_server_initialized (w_state w)"
    and "ms_cached_initialize (w_state w') = ms_cached_initialize (w_state w)"
    and "ms_init_waiting (w_state w') = ms_init_waiting (w_state w)"
    and "w_to_server_open w' = w_to_server_open w"
    and "w_permits w' = w_permits w"
    and "hm_keys (ms_clients (w_state w')) = hm_keys (ms_clients (w_state w))"
    and "ms_max_active_clients (w_state w') = ms_max_active_clients (w_state w)"
  unfolding w'_def
  by (auto simp: enqueue_request_def add_pending_def next_request_id_def chan_send_def send_to_def
      update_queue_depth_def Let_def)

lemma fresh_global_id:
  assumes "st_inv nc ng st"
  shows "global_id cid (ms_next_global_id st) \<notin> hm_keys (ms_pending st)"
proof
  assume "global_id cid (ms_next_global_id st) \<in> hm_keys (ms_pending st)"
  then obtain p where "(global_id cid (ms_next_global_id st), p) \<in> set (ms_pending st)" by force
  with st_invD(6) [OF assms] have "pending_ok (ms_next_global_id st) (global_id cid (ms_next_global_id st)) p"
    by (auto simp: hm_all_def)
  then show False by (auto simp: pending_ok_def)
qed

lemma hm_remove_insert_fresh: "k \<notin> hm_keys m \<Longrightarrow> hm_remove k (hm_insert k v m) = m"
  by (induction m) (auto simp: AList.delete_eq intro: filter_id_conv [THEN iffD2])

section \<open>Answers find their way back\<close>

lemma deliver_single:
  "hm_get cl c = Some out \<Longrightarrow> hm_get (deliver [(c, m)] cl) = (hm_get cl)(c \<mapsto> out @ [m])"
  by (rule ext) (auto simp: hm_get_deliver option.map_ident)

lemma route_response:
  fixes now w msg g p
  defines "w' \<equiv> snd (route_event now (Message msg) w)"
  assumes p: "hm_get (ms_pending (w_state w)) g = Some p"
    and i: "jget msg ''id'' = Some (JStr g)" and nohb: "\<not> is_heartbeat_response g"
    and nw: "ms_init_waiting (w_state w) = []"
  shows "ms_clients (w_state w') =
      deliver [(p_client_id p, set_id msg (p_local_id p))] (ms_clients (w_state w))"
    and "ms_pending (w_state w') = hm_remove g (ms_pending (w_state w))"
    and "w_to_server w' = w_to_server w"
    and "ms_cached_initialize (w_state w') =
      (if p_is_initialize p then Some msg else ms_cached_initialize (w_state w))"
  using p i nohb nw unfolding w'_def
  by (simp_all add: route_event_def handle_server_message_def response_key_def Let_def
      cache_initialize_def send_to_alt)

text \<open>The example behind several witnesses: one client, connected and through its handshake.\<close>

definition example_len :: "json \<Rightarrow> nat" where
  "example_len _ = 50"

definition example_events :: "(instant \<times> mux_event) list" where
  "example_events = [(0, Connect), (1, Frame 1 (example_msg ''initialize'' (JInt 1))),
     (2, Frame 1 (example_msg ''notifications/initialized'' JNull))]"

definition example_sys :: mux_sys where
  "example_sys = the (mux_exec example_len example_events (sys_init example_config))"

lemma example_reach: "mux_reach example_len example_config example_events example_sys"
proof -
  have "mux_exec example_len example_events (sys_init example_config) \<noteq> None" by code_simp
  then show ?thesis by (auto simp: mux_reach_exec example_sys_def)
qed

text \<open>C1: a request and its answer.  From any reachable state, with room in
  the pending table and an open channel, forwarding a request puts it on the channel with a
  fresh id in place of the client's own, and the server's answer to that id reaches this client
  with the client's own id restored, and no other client; the pending table is then what it was
  before the request.\<close>

theorem request_response_roundtrip:
  assumes reach: "mux_reach enc_len c es s" "length es < 2 ^ 64 - 1" and w: "w = sys_world s"
    and l: "jget msg ''id'' = Some l" and out: "outbox (w_state w) cid = Some out"
    and room: "length (ms_pending (w_state w)) < MAX_PENDING" and opn: "w_to_server_open w"
    and g: "g = global_id cid (ms_next_global_id (w_state w))"
    and resp: "jget resp ''id'' = Some (JStr g)"
    and w1: "w1 = snd (forward_request now cid msg w)"
    and w2: "w2 = snd (route_event later (Message resp) w1)"
  shows "w_to_server w1 = w_to_server w @ [set_id msg (JStr g)] \<and>
    outbox (w_state w1) = outbox (w_state w) \<and>
    outbox (w_state w2) = (outbox (w_state w))(cid \<mapsto> out @ [set_id resp l]) \<and>
    ms_pending (w_state w2) = ms_pending (w_state w) \<and> w_to_server w2 = w_to_server w1"
proof -
  have inv: "st_inv (Suc (length es)) (Suc (length es)) (w_state w)"
    using mux_reach_inv [OF reach] by (simp add: sys_inv_def w)
  have f: "w1 = snd (enqueue_request now cid l msg False w)"
    using l by (simp add: w1 forward_request_def)
  note e = enqueue_room [OF room, of now cid l msg False, folded f, folded g]
  let ?p = "\<lparr>p_client_id = cid, p_local_id = l, p_is_initialize = False, p_started_at = now\<rparr>"
  have p: "hm_get (ms_pending (w_state w1)) g = Some ?p"
    by (simp add: e(1) hm_get_insert)
  have nohb: "\<not> is_heartbeat_response g" by (simp add: g)
  have nw: "ms_init_waiting (w_state w1) = []"
    using st_invD(9) [OF inv] by (simp add: f enqueue_frame)
  note r = route_response [OF p resp nohb nw, of later, folded w2]
  have "ms_pending (w_state w2) = ms_pending (w_state w)"
    unfolding r(2) e(1) using fresh_global_id [OF inv] g by (simp add: hm_remove_insert_fresh)
  then show ?thesis
    using e(3,4) opn r out by (simp add: deliver_single)
qed

theorem request_response_roundtrip_witness:
  "\<exists>w2. w2 = snd (route_event 9 (Message (example_msg ''result'' (JStr ''c1:2'')))
      (snd (forward_request 5 1 (example_msg ''tools/list'' (JInt 2)) (sys_world example_sys)))) \<and>
    outbox (w_state w2) 1 = Some [example_msg ''result'' (JInt 2)]"
proof -
  let ?w = "sys_world example_sys"
  have l: "jget (example_msg ''tools/list'' (JInt 2)) ''id'' = Some (JInt 2)" by code_simp
  have out: "outbox (w_state ?w) 1 = Some []" by code_simp
  have room: "length (ms_pending (w_state ?w)) < MAX_PENDING" by code_simp
  have opn: "w_to_server_open ?w" by code_simp
  have g: "''c1:2'' = global_id 1 (ms_next_global_id (w_state ?w))" by code_simp
  have resp: "jget (example_msg ''result'' (JStr ''c1:2'')) ''id'' = Some (JStr ''c1:2'')" by code_simp
  have len: "length example_events < 2 ^ 64 - 1" by (simp add: example_events_def)
  have restored: "set_id (example_msg ''result'' (JStr ''c1:2'')) (JInt 2) = example_msg ''result'' (JInt 2)"
    by code_simp
  show ?thesis
    using request_response_roundtrip [OF example_reach len refl l out room opn g resp refl refl] restored
    by simp
qed

section \<open>No request is lost\<close>

definition pending_grows :: "mux_state \<Rightarrow> mux_state \<Rightarrow> bool" where
  "pending_grows st st' \<longleftrightarrow>
     (\<forall>g p. hm_get (ms_pending st) g = Some p \<longrightarrow> hm_get (ms_pending st') g = Some p)"

lemma pending_grows_refl: "ms_pending st' = ms_pending st \<Longrightarrow> pending_grows st st'"
  by (simp add: pending_grows_def)

lemma pending_grows_trans: "pending_grows a b \<Longrightarrow> pending_grows b c \<Longrightarrow> pending_grows a c"
  by (simp add: pending_grows_def)

lemma enqueue_grows:
  assumes inv: "st_inv nc ng (w_state w)"
  shows "pending_grows (w_state w) (w_state (snd (enqueue_request now cid l msg b w)))"
proof (cases "MAX_PENDING \<le> length (ms_pending (w_state w))")
  case True
  then show ?thesis by (simp add: enqueue_full pending_grows_def send_to_def)
next
  case False
  then show ?thesis
    using fresh_global_id [OF inv, of cid]
    by (auto simp: pending_grows_def enqueue_room hm_get_insert dest: hm_get_SomeD)
qed

lemma forward_grows:
  assumes inv: "st_inv nc ng (w_state w)"
  shows "pending_grows (w_state w) (w_state (snd (forward_request now cid msg w)))"
  using enqueue_grows [OF inv]
  by (auto simp: forward_request_def pending_grows_refl split: option.splits)

lemma flush_grows:
  "st_inv nc ng (w_state w) \<Longrightarrow> ng + length ms < 2 ^ 64 \<Longrightarrow>
     pending_grows (w_state w) (w_state (flush_buffered now cid ms w))"
proof (induction ms arbitrary: ng w)
  case (Cons m ms)
  have "st_inv nc (Suc ng) (w_state (snd (forward_request now cid m w)))"
    using st_inv_forward [OF Cons.prems(1)] Cons.prems(2) by simp
  from Cons.IH [OF this] Cons.prems(2) forward_grows [OF Cons.prems(1)] show ?case
    by (auto intro: pending_grows_trans)
qed (simp add: pending_grows_refl)

lemma forward_initialized_pending [simp]:
  "ms_pending (w_state (forward_initialized msg w)) = ms_pending (w_state w)"
  by (auto simp: forward_initialized_def Let_def split: option.splits dest!: chan_try_send_frame)

lemma complete_handshake_pending:
  "complete_handshake cid st = (bs, st') \<Longrightarrow> ms_pending st' = ms_pending st"
  by (auto simp: complete_handshake_def mark_handshake_complete_def split: option.splits)

lemma initialized_grows:
  assumes inv: "st_inv nc ng (w_state w)" and lim: "ng < 2 ^ 64"
  shows "pending_grows (w_state w) (w_state (handle_initialized now cid msg w))"
proof -
  let ?w = "forward_initialized msg w"
  obtain bs st where c: "complete_handshake cid (w_state ?w) = (bs, st)" by fastforce
  from st_inv_complete_handshake [OF st_inv_forward_initialized [OF inv] c]
  have "length bs \<le> ng" and "st_inv nc (ng - length bs) st" by auto
  with flush_grows [of nc "ng - length bs" "?w\<lparr>w_state := st\<rparr>" bs now cid] lim
  have "pending_grows st (w_state (flush_buffered now cid bs (?w\<lparr>w_state := st\<rparr>)))" by simp
  moreover have "pending_grows (w_state w) st"
    using complete_handshake_pending [OF c] by (simp add: pending_grows_refl)
  ultimately show ?thesis
    by (simp add: handle_initialized_def c Let_def pending_grows_def)
qed

lemma initialize_grows:
  assumes inv: "st_inv nc ng (w_state w)"
  shows "pending_grows (w_state w) (w_state (snd (handle_initialize now cid l msg w)))"
proof -
  define st where "st = (w_state w)\<lparr>ms_client_handshakes :=
    hm_modify cid (\<lambda>h. h\<lparr>hs_initialize_pending := True\<rparr>) (ms_client_handshakes (w_state w))\<rparr>"
  have st: "st_inv nc ng st" unfolding st_def by (rule handshake_pending_inv [OF inv])
  have same: "ms_pending st = ms_pending (w_state w)" by (simp add: st_def)
  show ?thesis
    using enqueue_grows [of nc ng "w\<lparr>w_state := st\<rparr>"] st same
    by (simp add: handle_initialize_def Let_def flip: st_def split: option.splits)
      (simp add: pending_grows_def send_to_def)
qed

lemma frame_grows:
  assumes inv: "st_inv nc ng (w_state w)" and lim: "ng < 2 ^ 64"
  shows "pending_grows (w_state w) (w_state (client_frame enc_len now cid msg w))"
proof -
  have notif: "pending_grows (w_state w) (w_state (publish_status now (update_queue_depth
      (case chan_try_send msg w of None \<Rightarrow> w | Some w' \<Rightarrow> w'))))"
    by (auto simp: update_queue_depth_def pending_grows_def split: option.splits dest!: chan_try_send_frame)
  have same: "pending_grows (w_state w) (send_to cid m (w_state w))"
    "pending_grows (w_state w) (buffer_message cid m (w_state w))" for m
    by (simp_all add: pending_grows_refl send_to_def buffer_message_def)
  show ?thesis
    unfolding client_frame_def handle_client_message_def
    using notif same initialized_grows [OF inv lim] initialize_grows [OF inv] forward_grows [OF inv]
    by (simp add: Let_def split: option.splits)
qed

text \<open>How a pending request can leave the table: its client is gone, or got a message with the
  id it asked with.\<close>

definition answered :: "mux_state \<Rightarrow> mux_state \<Rightarrow> pending_req \<Rightarrow> bool" where
  "answered st st' p \<longleftrightarrow>
     (case outbox st' (p_client_id p) of
        None \<Rightarrow> True
      | Some out' \<Rightarrow> \<exists>out ext. outbox st (p_client_id p) = Some out \<and> out' = out @ ext \<and>
          (\<exists>m \<in> set ext. jget m ''id'' = Some (p_local_id p)))"

definition settled :: "mux_state \<Rightarrow> mux_state \<Rightarrow> bool" where
  "settled st st' \<longleftrightarrow> (\<forall>g p. hm_get (ms_pending st) g = Some p \<longrightarrow>
     hm_get (ms_pending st') g = Some p \<or> hm_get (ms_pending st') g = None \<and> answered st st' p)"

lemma settled_grows: "pending_grows st st' \<Longrightarrow> settled st st'"
  by (simp add: pending_grows_def settled_def)

lemma settled_same: "ms_pending st' = ms_pending st \<Longrightarrow> settled st st'"
  by (simp add: settled_def)

lemma settled_emit [simp]: "settled st (emit_event ev st') = settled st st'"
  by (simp add: settled_def answered_def)

lemma answered_deliver:
  assumes cl: "ms_clients st' = deliver ms (ms_clients st)"
    and m: "(p_client_id p, m) \<in> set ms" "jget m ''id'' = Some (p_local_id p)"
  shows "answered st st' p"
  using m by (auto simp: answered_def cl hm_get_deliver split: option.splits)

lemma settled_unregister:
  assumes "hm_ok (ms_pending st)"
  shows "settled st (unregister_client cid st)"
  using assms
  by (auto simp: settled_def unregister_client_def hm_get_filter answered_def hm_get_remove
      split: option.splits)

lemma settled_reset:
  "hm_ok (ms_pending (w_state w)) \<Longrightarrow> settled (w_state w) (w_state (reset_state now r w))"
  unfolding reset_state_alt settled_emit settled_def
  by (auto intro!: answered_deliver simp: hm_get_in_set)

lemma settled_reap:
  assumes ok: "hm_ok (ms_pending (w_state w))"
  shows "settled (w_state w) (w_state (reap_timeouts now w))"
proof -
  let ?to = "ms_request_timeout (w_state w)"
  let ?gone = "filter (\<lambda>(g, p). expired now ?to p) (ms_pending (w_state w))"
  define ms where "ms = map (\<lambda>(g, p). (p_client_id p, error_response (p_local_id p) ''request timeout'')) ?gone"
  define st where "st = (w_state w)\<lparr>ms_pending :=
    filter (\<lambda>(g, p). \<not> expired now ?to p) (ms_pending (w_state w)),
    ms_clients := deliver ms (ms_clients (w_state w))\<rparr>"
  have "answered (w_state w) st p" if "hm_get (ms_pending (w_state w)) g = Some p" "expired now ?to p" for g p
  proof (rule answered_deliver)
    show "(p_client_id p, error_response (p_local_id p) ''request timeout'') \<in> set ms"
      using that ok by (force simp: ms_def hm_get_in_set)
  qed (simp_all add: st_def)
  then have "settled (w_state w) st"
    using ok by (auto simp: settled_def st_def hm_get_filter split: option.splits)
  then show ?thesis
    by (simp add: reap_timeouts_def Let_def fold_send_to_map st_def ms_def)
qed

lemma settled_server_message:
  assumes ok: "hm_ok (ms_pending (w_state w))" and nw: "ms_init_waiting (w_state w) = []"
  shows "settled (w_state w) (w_state (snd (handle_server_message now msg w)))"
proof (cases "\<exists>i key p. jget msg ''id'' = Some i \<and> i \<noteq> JNull \<and> response_key i = Some key \<and>
    hm_get (ms_pending (w_state w)) key = Some p")
  case True
  then obtain i key p where i: "jget msg ''id'' = Some i" "i \<noteq> JNull" "response_key i = Some key"
    and p: "hm_get (ms_pending (w_state w)) key = Some p" by blast
  define st where "st = w_state (snd (handle_server_message now msg w))"
  have pend: "ms_pending st = hm_remove key (ms_pending (w_state w))"
    and cl: "ms_clients st = deliver [(p_client_id p, set_id msg (p_local_id p))] (ms_clients (w_state w))"
    using i p nw unfolding st_def
    by (simp_all add: handle_server_message_def Let_def cache_initialize_def send_to_alt)
  have "answered (w_state w) st p"
    using cl by (rule answered_deliver) (auto intro: jget_set_id_id [OF i(1)])
  then show ?thesis
    using p pend by (auto simp: settled_def hm_get_remove simp flip: st_def)
next
  case False
  then show ?thesis
    by (auto simp: handle_server_message_def broadcast_def intro!: settled_same split: option.splits)
qed

lemma settled_step:
  assumes step: "mux_step enc_len s e t" and inv: "sys_inv n s" and n: "n < 2 ^ 64 - 2"
  shows "settled (w_state (sys_world s)) (w_state (sys_world t))"
proof -
  have st: "st_inv (Suc n) (Suc n) (w_state (sys_world s))" using inv by (simp add: sys_inv_def)
  note ok = st_invD(3) [OF st] and nw = st_invD(9) [OF st]
  have un: "settled (w_state (sys_world s)) (unregister_client cid (send_to cid m (w_state (sys_world s))))"
    for cid m
    using ok
    by (auto simp: settled_def unregister_client_def send_to_def hm_get_filter answered_def
        hm_get_remove split: option.splits)
  from step show ?thesis
  proof cases
    case (connect now cid w)
    then show ?thesis
      by (auto intro!: settled_same simp: client_connect_def register_client_def Let_def split: if_splits)
  next
    case (frame cid now msg)
    then show ?thesis using frame_grows [OF st] n by (simp add: settled_grows)
  next
    case (tick cid now)
    then show ?thesis
      using un by (simp add: handshake_tick_def client_disconnect_def settled_same)
  next
    case (from_server now ev)
    then show ?thesis
      using settled_server_message [OF ok nw] settled_reset [OF ok]
      by (auto simp: route_event_def settled_same split: server_event.splits option.splits)
  next
    case (probe i w now)
    then show ?thesis by (auto intro!: settled_same dest!: chan_send_frame)
  next
    case (child_left now c w)
    then show ?thesis by (simp add: settled_same leave_write_loop_frame)
  qed (simp_all add: settled_same settled_unregister [OF ok] settled_reap [OF ok] client_disconnect_def
    client_writer_closed_def client_decode_error_def mark_running_def cleanup_state_def Let_def)
qed

text \<open>C2: no request is lost.  In every step from a reachable state, a pending request is still
  pending and unchanged afterwards, or its client is gone, or the client has just been sent a
  message with the id it asked with: the answer, or an error for a reset or a timeout.\<close>

theorem no_request_lost:
  assumes "mux_reach enc_len c es s" and "length es < 2 ^ 64 - 2" and "mux_step enc_len s e t"
    and "hm_get (ms_pending (w_state (sys_world s))) g = Some p"
  shows "hm_get (ms_pending (w_state (sys_world t))) g = Some p \<or>
    hm_get (ms_pending (w_state (sys_world t))) g = None \<and>
    answered (w_state (sys_world s)) (w_state (sys_world t)) p"
proof -
  have "sys_inv (length es) s" using mux_reach_inv [OF assms(1)] assms(2) by simp
  from settled_step [OF assms(3) this assms(2)] assms(4) show ?thesis by (simp add: settled_def)
qed

theorem no_request_lost_witness:
  "\<exists>t p. mux_step example_len example_sys (7, FromServer (Reset ''gone'')) t \<and>
     hm_get (ms_pending (w_state (sys_world example_sys))) ''c1:1'' = Some p \<and>
     answered (w_state (sys_world example_sys)) (w_state (sys_world t)) p"
proof -
  let ?p = "\<lparr>p_client_id = 1, p_local_id = JInt 1, p_is_initialize = True, p_started_at = 1\<rparr>"
  let ?t = "example_sys\<lparr>sys_world := snd (route_event 7 (Reset ''gone'') (sys_world example_sys))\<rparr>"
  have p: "hm_get (ms_pending (w_state (sys_world example_sys))) ''c1:1'' = Some ?p" by code_simp
  have gone: "hm_get (ms_pending (w_state (sys_world ?t))) ''c1:1'' = None" by code_simp
  have len: "length example_events < 2 ^ 64 - 2" by (simp add: example_events_def)
  have step: "mux_step example_len example_sys (7, FromServer (Reset ''gone'')) ?t"
    by (rule from_server)
  show ?thesis
    using no_request_lost [OF example_reach len step p] p gone step by auto
qed

section \<open>Every pending request was asked\<close>

definition sources :: "(u64 \<Rightarrow> json \<Rightarrow> bool) \<Rightarrow> (u64 \<Rightarrow> json \<Rightarrow> bool) \<Rightarrow> mux_state \<Rightarrow> bool" where
  "sources A B st \<longleftrightarrow> hm_all (\<lambda>g p. A (p_client_id p) (p_local_id p)) (ms_pending st) \<and>
     hm_all (\<lambda>c h. \<forall>m \<in> set (hs_buffered_messages h). B c m) (ms_client_handshakes st)"

lemma sources_same:
  "sources A B st \<Longrightarrow> ms_pending st' = ms_pending st \<Longrightarrow>
     ms_client_handshakes st' = ms_client_handshakes st \<Longrightarrow> sources A B st'"
  by (simp add: sources_def)

lemma sources_emit [simp]: "sources A B (emit_event ev st) = sources A B st"
  by (simp add: sources_def)

lemma sources_enqueue:
  assumes "sources A B (w_state w)" and "A cid l"
  shows "sources A B (w_state (snd (enqueue_request now cid l msg b w)))"
proof (cases "MAX_PENDING \<le> length (ms_pending (w_state w))")
  case True
  then show ?thesis using assms by (auto simp: enqueue_full send_to_def intro: sources_same)
next
  case False
  then show ?thesis using assms by (auto simp: sources_def enqueue_room enqueue_frame)
qed

lemma sources_flush:
  assumes "\<forall>m \<in> set ms. \<forall>l. jget m ''id'' = Some l \<longrightarrow> A cid l" and "sources A B (w_state w)"
  shows "sources A B (w_state (flush_buffered now cid ms w))"
  using assms
proof (induction ms arbitrary: w)
  case (Cons m ms)
  have "sources A B (w_state (snd (forward_request now cid m w)))"
    using Cons.prems sources_enqueue [OF Cons.prems(2)]
    by (auto simp: forward_request_def split: option.splits)
  then show ?case using Cons.IH Cons.prems(1) by simp
qed simp

lemma forward_initialized_handshakes [simp]:
  "ms_client_handshakes (w_state (forward_initialized msg w)) = ms_client_handshakes (w_state w)"
  by (auto simp: forward_initialized_def Let_def split: option.splits dest!: chan_try_send_frame)

lemma sources_initialized:
  assumes src: "sources A B (w_state w)"
    and AB: "\<And>c m l. B c m \<Longrightarrow> jget m ''id'' = Some l \<Longrightarrow> A c l"
  shows "sources A B (w_state (handle_initialized now cid msg w))"
proof -
  let ?w = "forward_initialized msg w"
  obtain bs st where c: "complete_handshake cid (w_state ?w) = (bs, st)" by fastforce
  have w1: "sources A B (w_state ?w)" using src by (rule sources_same) simp_all
  have bs: "\<forall>m \<in> set bs. B cid m" and st: "sources A B st"
    using c w1
    by (auto simp: complete_handshake_def mark_handshake_complete_def sources_def
        split: option.splits dest: hm_all_get intro!: hm_all_insert)
  have "sources A B (w_state (flush_buffered now cid bs (?w\<lparr>w_state := st\<rparr>)))"
    by (rule sources_flush) (use bs st AB in auto)
  then have "sources A B (w_state (handle_initialized now cid msg w))"
    unfolding handle_initialized_def c by (rule sources_same) (simp_all add: Let_def c)
  then show ?thesis .
qed

lemma sources_initialize:
  assumes src: "sources A B (w_state w)" and l: "A cid l"
  shows "sources A B (w_state (snd (handle_initialize now cid l msg w)))"
proof -
  define st where "st = (w_state w)\<lparr>ms_client_handshakes :=
    hm_modify cid (\<lambda>h. h\<lparr>hs_initialize_pending := True\<rparr>) (ms_client_handshakes (w_state w))\<rparr>"
  have "hm_all (\<lambda>c h. \<forall>m \<in> set (hs_buffered_messages h). B c m)
      (hm_modify cid (\<lambda>h. h\<lparr>hs_initialize_pending := True\<rparr>) (ms_client_handshakes (w_state w)))"
    using src by (intro hm_all_modify) (auto simp: sources_def)
  with src have st: "sources A B st" by (simp add: sources_def st_def)
  have "sources A B (st\<lparr>ms_init_waiting := v\<rparr>)" "sources A B (send_to c m st)" for v c m
    using st by (auto intro: sources_same simp: send_to_def)
  then show ?thesis
    using sources_enqueue [of A B "w\<lparr>w_state := st\<rparr>"] st l
    by (auto simp: handle_initialize_def Let_def simp flip: st_def split: option.splits)
qed

lemma sources_frame:
  assumes src: "sources A B (w_state w)"
    and msg: "msg_method msg \<noteq> ''notifications/initialized'' \<Longrightarrow> B cid msg"
    and asks: "\<And>l. jget msg ''id'' = Some l \<Longrightarrow> A cid l"
    and AB: "\<And>c m l. B c m \<Longrightarrow> jget m ''id'' = Some l \<Longrightarrow> A c l"
  shows "sources A B (w_state (client_frame enc_len now cid msg w))"
proof -
  have notif: "sources A B (w_state (publish_status now (update_queue_depth
      (case chan_try_send msg w of None \<Rightarrow> w | Some w' \<Rightarrow> w'))))"
    using src by (auto simp: sources_def split: option.splits dest!: chan_try_send_frame)
  have buf: "sources A B (buffer_message cid msg (w_state w))"
    if "msg_method msg \<noteq> ''notifications/initialized''"
    using src msg [OF that] by (auto intro!: hm_all_modify simp: sources_def buffer_message_def)
  have sent: "sources A B (send_to cid m (w_state w))" for m
    using src by (rule sources_same) (simp_all add: send_to_def)
  show ?thesis
    unfolding client_frame_def handle_client_message_def
    using notif buf sent sources_initialized [OF src AB] sources_initialize [OF src asks]
      sources_enqueue [OF src asks]
    by (auto simp: Let_def forward_request_def split: option.splits)
qed

definition sent_frame :: "(instant \<times> mux_event) list \<Rightarrow> u64 \<Rightarrow> json \<Rightarrow> bool" where
  "sent_frame es cid msg \<longleftrightarrow> (\<exists>now. (now, Frame cid msg) \<in> set es)"

definition asked :: "(instant \<times> mux_event) list \<Rightarrow> u64 \<Rightarrow> json \<Rightarrow> bool" where
  "asked es cid l \<longleftrightarrow> (\<exists>msg. sent_frame es cid msg \<and> jget msg ''id'' = Some l)"

lemma sources_mono:
  "sources (asked es) (sent_frame es) st \<Longrightarrow> set es \<subseteq> set fs \<Longrightarrow>
     sources (asked fs) (sent_frame fs) st"
proof -
  assume src: "sources (asked es) (sent_frame es) st" and sub: "set es \<subseteq> set fs"
  have sent: "sent_frame es cid m \<Longrightarrow> sent_frame fs cid m" for cid m
    using sub by (auto simp: sent_frame_def)
  then have ask: "asked es cid l \<Longrightarrow> asked fs cid l" for cid l
    by (auto simp: asked_def)
  have "hm_all (\<lambda>g p. asked fs (p_client_id p) (p_local_id p)) (ms_pending st)"
    by (rule hm_all_mono [where P = "\<lambda>g p. asked es (p_client_id p) (p_local_id p)"])
      (use src ask in \<open>auto simp: sources_def\<close>)
  moreover have "hm_all (\<lambda>c h. \<forall>m \<in> set (hs_buffered_messages h). sent_frame fs c m)
      (ms_client_handshakes st)"
    by (rule hm_all_mono [where P = "\<lambda>c h. \<forall>m \<in> set (hs_buffered_messages h). sent_frame es c m"])
      (use src sent in \<open>auto simp: sources_def\<close>)
  ultimately show ?thesis by (simp add: sources_def)
qed

lemma sources_step:
  assumes step: "mux_step enc_len s e t" and src: "sources A B (w_state (sys_world s))"
    and AB: "\<And>c m l. B c m \<Longrightarrow> jget m ''id'' = Some l \<Longrightarrow> A c l"
    and fr: "\<And>now cid msg. e = (now, Frame cid msg) \<Longrightarrow>
      msg_method msg \<noteq> ''notifications/initialized'' \<Longrightarrow> B cid msg"
    and asks: "\<And>now cid msg l. e = (now, Frame cid msg) \<Longrightarrow> jget msg ''id'' = Some l \<Longrightarrow> A cid l"
  shows "sources A B (w_state (sys_world t))"
proof -
  let ?st = "w_state (sys_world s)"
  have un: "sources A B (unregister_client cid st)" if "sources A B st" for cid st
    using that by (auto simp: sources_def unregister_client_def)
  have sent: "sources A B (send_to c m ?st)" for c m
    using src by (rule sources_same) (simp_all add: send_to_def)
  have serv: "sources A B (w_state (snd (handle_server_message now msg (sys_world s))))" for now msg
    using src
    by (auto simp: handle_server_message_def sources_def broadcast_def Let_def send_to_def
        cache_initialize_def fold_send_to_pairs split: option.splits)
  have reset: "sources A B (w_state (reset_state now r (sys_world s)))" for now r
    using src unfolding reset_state_alt by (simp add: sources_def)
  have reap: "sources A B (w_state (reap_timeouts now (sys_world s)))" for now
    using src by (auto simp: reap_timeouts_def Let_def fold_send_to_map sources_def)
  from step show ?thesis
  proof cases
    case (connect now cid w)
    then show ?thesis
      using src
      by (auto simp: client_connect_def register_client_def Let_def sources_def
        intro!: hm_all_insert split: if_splits)
  next
    case (frame cid now msg)
    then show ?thesis using sources_frame [OF src fr asks AB] by simp
  next
    case (tick cid now)
    then show ?thesis
      using un [OF sent] src
      by (auto simp: handshake_tick_def client_disconnect_def intro: sources_same)
  next
    case (from_server now ev)
    then show ?thesis
      using serv reset src
      by (auto simp: route_event_def split: server_event.splits option.splits)
  next
    case (probe i w now)
    then show ?thesis using src by (auto dest!: chan_send_frame)
  next
    case (child_left now c w)
    then show ?thesis using src by (auto intro: sources_same simp: leave_write_loop_frame)
  next
    case (reap now)
    then show ?thesis using \<open>\<And>now. sources A B (w_state (reap_timeouts now (sys_world s)))\<close> by simp
  qed (use src un [OF src] in \<open>auto intro: sources_same simp: client_disconnect_def
    client_writer_closed_def client_decode_error_def mark_running_def cleanup_state_def Let_def\<close>)
qed

lemma reach_sources:
  "mux_reach enc_len c es s \<Longrightarrow> sources (asked es) (sent_frame es) (w_state (sys_world s))"
proof (induction rule: mux_reach.induct)
  case start
  show ?case by (simp add: sources_def sys_init_def mux_state_new_def)
next
  case (step es s e t)
  have "sources (asked (es @ [e])) (sent_frame (es @ [e])) (w_state (sys_world s))"
    using step.IH by (rule sources_mono) auto
  then show ?case
    by (rule sources_step [OF step.hyps(2)]) (auto simp: asked_def sent_frame_def)
qed

text \<open>C5: no cross-talk.  In every reachable state each pending request belongs to a client that
  really sent a frame with that id, so answers only go to those who asked, and each buffered
  message was sent by the client in whose buffer it waits.\<close>

theorem pending_was_asked:
  assumes "mux_reach enc_len c es s"
  shows "(\<forall>g p. hm_get (ms_pending (w_state (sys_world s))) g = Some p \<longrightarrow>
      (\<exists>now msg. (now, Frame (p_client_id p) msg) \<in> set es \<and> jget msg ''id'' = Some (p_local_id p))) \<and>
    (\<forall>cid h m. hm_get (ms_client_handshakes (w_state (sys_world s))) cid = Some h \<longrightarrow>
      m \<in> set (hs_buffered_messages h) \<longrightarrow> (\<exists>now. (now, Frame cid m) \<in> set es))"
proof -
  have pend: "hm_all (\<lambda>g p. asked es (p_client_id p) (p_local_id p)) (ms_pending (w_state (sys_world s)))"
    and buf: "hm_all (\<lambda>c h. \<forall>m \<in> set (hs_buffered_messages h). sent_frame es c m)
      (ms_client_handshakes (w_state (sys_world s)))"
    using reach_sources [OF assms] by (simp_all add: sources_def)
  show ?thesis
    using hm_all_get [OF pend] hm_all_get [OF buf] by (simp add: asked_def sent_frame_def) blast
qed

theorem pending_was_asked_witness:
  "\<exists>now msg. (now, Frame 1 msg) \<in> set example_events \<and> jget msg ''id'' = Some (JInt 1)"
proof -
  let ?p = "\<lparr>p_client_id = 1, p_local_id = JInt 1, p_is_initialize = True, p_started_at = 1\<rparr>"
  have "hm_get (ms_pending (w_state (sys_world example_sys))) ''c1:1'' = Some ?p" by code_simp
  with pending_was_asked [OF example_reach] show ?thesis by fastforce
qed

end
