(* ===== verification/Mux_Lifecycle.thy ===== *)
theory Mux_Lifecycle
  imports Mux_Protocol
begin

text \<open>
  Handshakes, caching of the \<open>initialize\<close> answer, resets, timeouts and the accounting of
  connections, over all schedules of the daemon.
\<close>

section \<open>Resets and timeouts\<close>

text \<open>C13: a reset answers everybody.  Each client gets exactly one error per request it has
  pending and per \<open>initialize\<close> it waits for, with its own ids and in table order, and nothing
  else; afterwards nothing is pending and the cached \<open>initialize\<close> answer is dropped.\<close>

theorem reset_answers_all:
  "outbox (w_state (reset_state now r w)) d = map_option (\<lambda>out. out @
      map (\<lambda>(g, p). error_response (p_local_id p) r)
        (filter (\<lambda>(g, p). p_client_id p = d) (ms_pending (w_state w))) @
      map (\<lambda>(c, l). error_response l r) (filter (\<lambda>(c, l). c = d) (ms_init_waiting (w_state w))))
      (outbox (w_state w) d) \<and>
   ms_pending (w_state (reset_state now r w)) = [] \<and>
   ms_init_waiting (w_state (reset_state now r w)) = [] \<and>
   ms_cached_initialize (w_state (reset_state now r w)) = None \<and>
   w_to_server (reset_state now r w) = w_to_server w"
proof -
  have "outbox (w_state (reset_state now r w)) d = map_option (\<lambda>out. out @
      map (\<lambda>(g, p). error_response (p_local_id p) r)
        (filter (\<lambda>(g, p). p_client_id p = d) (ms_pending (w_state w))) @
      map (\<lambda>(c, l). error_response l r) (filter (\<lambda>(c, l). c = d) (ms_init_waiting (w_state w))))
      (outbox (w_state w) d)"
    by (simp add: reset_state_alt hm_get_deliver filter_map comp_def case_prod_unfold)
  then show ?thesis by (simp add: reset_state_alt)
qed

lemma reap_alt:
  fixes w now
  defines "old \<equiv> expired now (ms_request_timeout (w_state w))"
  shows "ms_pending (w_state (reap_timeouts now w)) =
      filter (\<lambda>(g, p). \<not> old p) (ms_pending (w_state w))"
    and "ms_clients (w_state (reap_timeouts now w)) =
      deliver (map (\<lambda>(g, p). (p_client_id p, error_response (p_local_id p) ''request timeout''))
        (filter (\<lambda>(g, p). old p) (ms_pending (w_state w)))) (ms_clients (w_state w))"
  unfolding old_def by (simp_all add: reap_timeouts_def Let_def fold_send_to_map)

text \<open>C14: the reaper removes exactly the requests older than the timeout, and each client gets
  one timeout error for each of its removed requests and nothing else.\<close>

theorem reap_exact:
  fixes w now
  defines "timeout \<equiv> ms_request_timeout (w_state w)"
  shows "ms_pending (w_state (reap_timeouts now w)) =
      filter (\<lambda>(g, p). now - p_started_at p \<le> timeout) (ms_pending (w_state w)) \<and>
    outbox (w_state (reap_timeouts now w)) d = map_option (\<lambda>out. out @
      map (\<lambda>(g, p). error_response (p_local_id p) ''request timeout'')
        (filter (\<lambda>(g, p). timeout < now - p_started_at p \<and> p_client_id p = d) (ms_pending (w_state w))))
      (outbox (w_state w) d)"
  unfolding timeout_def
  by (simp add: reap_alt hm_get_deliver filter_map comp_def case_prod_unfold expired_def not_less)

section \<open>The handshake gate\<close>

text \<open>Every pending entry is an \<open>initialize\<close> or belongs to a client that is through its
  handshake, and belongs to an id that has been handed out.\<close>

definition gate_ok :: "mux_state \<Rightarrow> bool" where
  "gate_ok st \<longleftrightarrow> hm_all (\<lambda>g p. unat (p_client_id p) < unat (ms_next_client_id st) \<and>
     (p_is_initialize p \<or> is_handshake_complete (p_client_id p) st)) (ms_pending st)"

definition gate_inv :: "mux_sys \<Rightarrow> bool" where
  "gate_inv s \<longleftrightarrow> gate_ok (w_state (sys_world s)) \<and>
     (\<forall>c \<in> set (sys_conns s). unat c < unat (ms_next_client_id (w_state (sys_world s))))"

lemma gate_ok_cong:
  assumes "gate_ok st" and "set (ms_pending st') \<subseteq> set (ms_pending st)"
    and "ms_next_client_id st' = ms_next_client_id st"
    and "\<And>c. is_handshake_complete c st \<Longrightarrow> is_handshake_complete c st'"
  shows "gate_ok st'"
  using assms unfolding gate_ok_def hm_all_def by fastforce

lemma gate_ok_enqueue:
  assumes ok: "gate_ok (w_state w)" and cid: "unat cid < unat (ms_next_client_id (w_state w))"
    and b: "b \<or> is_handshake_complete cid (w_state w)"
  shows "gate_ok (w_state (snd (enqueue_request now cid l msg b w))) \<and>
    ms_next_client_id (w_state (snd (enqueue_request now cid l msg b w))) = ms_next_client_id (w_state w)"
proof (cases "MAX_PENDING \<le> length (ms_pending (w_state w))")
  case True
  then show ?thesis
    using ok by (auto simp: enqueue_full send_to_def is_handshake_complete_def intro: gate_ok_cong)
next
  case False
  let ?w = "snd (enqueue_request now cid l msg b w)"
  have n: "ms_next_client_id (w_state ?w) = ms_next_client_id (w_state w)"
    by (auto simp: enqueue_request_def add_pending_def next_request_id_def chan_send_def send_to_def
      update_queue_depth_def Let_def)
  have c: "is_handshake_complete d (w_state ?w) = is_handshake_complete d (w_state w)" for d
    by (simp add: is_handshake_complete_def enqueue_frame)
  have "hm_all (\<lambda>g p. unat (p_client_id p) < unat (ms_next_client_id (w_state w)) \<and>
     (p_is_initialize p \<or> is_handshake_complete (p_client_id p) (w_state w))) (ms_pending (w_state ?w))"
    using False ok b cid by (auto simp: enqueue_room gate_ok_def intro!: hm_all_insert)
  with n c show ?thesis by (simp add: gate_ok_def)
qed

lemma gate_ok_flush:
  "gate_ok (w_state w) \<Longrightarrow> unat cid < unat (ms_next_client_id (w_state w)) \<Longrightarrow>
     is_handshake_complete cid (w_state w) \<Longrightarrow> gate_ok (w_state (flush_buffered now cid ms w)) \<and>
     ms_next_client_id (w_state (flush_buffered now cid ms w)) = ms_next_client_id (w_state w)"
proof (induction ms arbitrary: w)
  case (Cons m ms)
  let ?w = "snd (forward_request now cid m w)"
  have "gate_ok (w_state ?w) \<and> ms_next_client_id (w_state ?w) = ms_next_client_id (w_state w)"
    using Cons.prems gate_ok_enqueue [OF Cons.prems(1,2), of False]
    by (auto simp: forward_request_def split: option.splits)
  moreover have "is_handshake_complete cid (w_state ?w)"
    using Cons.prems(3)
    by (auto simp: forward_request_def is_handshake_complete_def enqueue_frame split: option.splits)
  ultimately show ?case using Cons.IH [of ?w] Cons.prems(2) by simp
qed simp

lemma forward_initialized_next [simp]:
  "ms_next_client_id (w_state (forward_initialized msg w)) = ms_next_client_id (w_state w)"
  by (auto simp: forward_initialized_def Let_def split: option.splits dest!: chan_try_send_frame)

lemma update_queue_depth_next [simp]:
  "ms_next_client_id (w_state (update_queue_depth w)) = ms_next_client_id (w_state w)"
  by (simp add: update_queue_depth_def)

lemma complete_handshake_spec:
  assumes "complete_handshake cid st = (bs, st')"
  shows "ms_pending st' = ms_pending st" "ms_next_client_id st' = ms_next_client_id st"
    "is_handshake_complete cid st'" "is_handshake_complete c st \<Longrightarrow> is_handshake_complete c st'"
  using assms
  by (auto simp: complete_handshake_def mark_handshake_complete_def is_handshake_complete_def
      hm_get_insert split: option.splits if_splits)

lemma gate_ok_initialized:
  assumes ok: "gate_ok (w_state w)" and cid: "unat cid < unat (ms_next_client_id (w_state w))"
  shows "gate_ok (w_state (handle_initialized now cid msg w)) \<and>
    ms_next_client_id (w_state (handle_initialized now cid msg w)) = ms_next_client_id (w_state w)"
proof -
  let ?w = "forward_initialized msg w"
  obtain bs st where c: "complete_handshake cid (w_state ?w) = (bs, st)" by fastforce
  note sp = complete_handshake_spec [OF c]
  have "is_handshake_complete d st" if "is_handshake_complete d (w_state w)" for d
    using that by (intro sp(4)) (simp add: is_handshake_complete_def)
  then have st: "gate_ok st"
    using sp(1,2) by (intro gate_ok_cong [OF ok]) simp_all
  then have "gate_ok (w_state (flush_buffered now cid bs (?w\<lparr>w_state := st\<rparr>))) \<and>
      ms_next_client_id (w_state (flush_buffered now cid bs (?w\<lparr>w_state := st\<rparr>))) =
      ms_next_client_id st"
    using gate_ok_flush [of "?w\<lparr>w_state := st\<rparr>" cid now bs] sp cid by simp
  then show ?thesis
    by (simp add: handle_initialized_def c Let_def sp(2))
      (auto intro: gate_ok_cong simp: is_handshake_complete_def)
qed

lemma gate_ok_initialize:
  assumes ok: "gate_ok (w_state w)" and cid: "unat cid < unat (ms_next_client_id (w_state w))"
  shows "gate_ok (w_state (snd (handle_initialize now cid l msg w))) \<and>
    ms_next_client_id (w_state (snd (handle_initialize now cid l msg w))) = ms_next_client_id (w_state w)"
proof -
  define st where "st = (w_state w)\<lparr>ms_client_handshakes :=
    hm_modify cid (\<lambda>h. h\<lparr>hs_initialize_pending := True\<rparr>) (ms_client_handshakes (w_state w))\<rparr>"
  have comp: "is_handshake_complete c st = is_handshake_complete c (w_state w)" for c
    by (auto simp: st_def is_handshake_complete_def hm_get_modify split: option.splits)
  have n: "ms_next_client_id st = ms_next_client_id (w_state w)" by (simp add: st_def)
  have st: "gate_ok st" using comp n by (intro gate_ok_cong [OF ok]) (simp_all add: st_def)
  have "gate_ok (st\<lparr>ms_init_waiting := v\<rparr>)" "gate_ok (send_to c m st)" for v c m
    by (auto intro!: gate_ok_cong [OF st] simp: send_to_def is_handshake_complete_def)
  moreover have "ms_next_client_id (send_to c m st) = ms_next_client_id st" for c m
    by (simp add: send_to_def)
  ultimately show ?thesis
    using gate_ok_enqueue [of "w\<lparr>w_state := st\<rparr>" cid True] st n cid
    by (simp add: handle_initialize_def Let_def flip: st_def split: option.splits)
qed

lemma gate_ok_frame:
  assumes ok: "gate_ok (w_state w)" and cid: "unat cid < unat (ms_next_client_id (w_state w))"
  shows "gate_ok (w_state (client_frame enc_len now cid msg w)) \<and>
    ms_next_client_id (w_state (client_frame enc_len now cid msg w)) = ms_next_client_id (w_state w)"
proof -
  let ?n = "publish_status now (update_queue_depth
      (case chan_try_send msg w of None \<Rightarrow> w | Some w' \<Rightarrow> w'))"
  have notif: "gate_ok (w_state ?n) \<and> ms_next_client_id (w_state ?n) = ms_next_client_id (w_state w)"
    by (auto intro!: gate_ok_cong [OF ok] simp: is_handshake_complete_def
        split: option.splits dest!: chan_try_send_frame)
  have buf: "gate_ok (buffer_message cid m (w_state w))" for m
    by (rule gate_ok_cong [OF ok])
      (auto simp: buffer_message_def is_handshake_complete_def hm_get_modify split: option.splits if_splits)
  have sent: "gate_ok (send_to cid m (w_state w))" for m
    by (rule gate_ok_cong [OF ok]) (simp_all add: send_to_def is_handshake_complete_def)
  have same: "ms_next_client_id (send_to cid m (w_state w)) = ms_next_client_id (w_state w)"
    "ms_next_client_id (buffer_message cid m (w_state w)) = ms_next_client_id (w_state w)" for m
    by (simp_all add: send_to_def buffer_message_def)
  show ?thesis
    unfolding client_frame_def handle_client_message_def
    using notif buf sent same gate_ok_initialized [OF ok cid] gate_ok_initialize [OF ok cid]
      gate_ok_enqueue [OF ok cid, of False]
    by (simp add: Let_def forward_request_def split: option.splits)
qed

lemma gate_ok_emit [simp]: "gate_ok (emit_event ev st) = gate_ok st"
  by (simp add: gate_ok_def is_handshake_complete_def)

lemma gate_ok_unregister: "gate_ok st \<Longrightarrow> gate_ok (unregister_client cid st)"
  by (erule gate_ok_cong)
    (auto simp: unregister_client_def is_handshake_complete_def hm_get_remove split: option.splits)

lemma gate_ok_register:
  assumes ok: "gate_ok st" and lim: "unat (ms_next_client_id st) < 2 ^ 64 - 1"
  shows "gate_ok (snd (register_client now st))"
proof -
  have n: "unat (ms_next_client_id st + 1) = Suc (unat (ms_next_client_id st))"
    using lim by (rule unat_Suc_u64)
  have "is_handshake_complete c (snd (register_client now st)) = is_handshake_complete c st"
    if "unat c < unat (ms_next_client_id st)" for c
    using that by (auto simp: register_client_def Let_def is_handshake_complete_def hm_get_insert)
  then show ?thesis
    using ok n by (auto simp: gate_ok_def register_client_def Let_def elim!: hm_all_mono)
qed

lemma gate_ok_server:
  assumes ok: "gate_ok (w_state w)"
  shows "gate_ok (w_state (snd (handle_server_message now msg w)))"
proof (rule gate_ok_cong [OF ok])
  show "set (ms_pending (w_state (snd (handle_server_message now msg w)))) \<subseteq> set (ms_pending (w_state w))"
    by (auto simp: handle_server_message_def broadcast_def Let_def send_to_def cache_initialize_def
        fold_send_to_pairs AList.delete_eq split: option.splits)
qed (auto simp: handle_server_message_def broadcast_def Let_def send_to_def cache_initialize_def
    fold_send_to_pairs is_handshake_complete_def split: option.splits)

lemma server_message_next [simp]:
  "ms_next_client_id (w_state (snd (handle_server_message now msg w))) = ms_next_client_id (w_state w)"
  by (auto simp: handle_server_message_def broadcast_def Let_def send_to_def cache_initialize_def
    fold_send_to_pairs split: option.splits)

lemma gate_ok_reset: "gate_ok (w_state (reset_state now r w))"
  unfolding reset_state_alt gate_ok_emit by (simp add: gate_ok_def)

lemma gate_ok_reap:
  "gate_ok (w_state w) \<Longrightarrow> gate_ok (w_state (reap_timeouts now w))"
  by (erule gate_ok_cong)
    (auto simp: reap_timeouts_def Let_def fold_send_to_map is_handshake_complete_def)

lemma gate_inv_step:
  assumes step: "mux_step enc_len s e t" and g: "gate_inv s"
    and lim: "unat (ms_next_client_id (w_state (sys_world s))) < 2 ^ 64 - 1"
  shows "gate_inv t"
proof -
  have ok: "gate_ok (w_state (sys_world s))"
    and ids: "\<And>c. c \<in> set (sys_conns s) \<Longrightarrow> unat c < unat (ms_next_client_id (w_state (sys_world s)))"
    using g by (auto simp: gate_inv_def)
  have un: "gate_ok (unregister_client cid (send_to cid m (w_state (sys_world s))))" for cid m
    by (rule gate_ok_unregister, rule gate_ok_cong [OF ok]) (auto simp: send_to_def is_handshake_complete_def)
  have nx: "ms_next_client_id (unregister_client cid st) = ms_next_client_id st"
    "ms_next_client_id (send_to cid m st) = ms_next_client_id st" for cid st m
    by (simp_all add: unregister_client_def send_to_def)
  from step show ?thesis
  proof cases
    case (connect now cid w)
    have "unat (ms_next_client_id (w_state (sys_world s)) + 1) =
        Suc (unat (ms_next_client_id (w_state (sys_world s))))"
      using lim by (rule unat_Suc_u64)
    with connect ids gate_ok_register [OF ok lim, of now] show ?thesis
      by (auto simp: client_connect_def register_client_def Let_def gate_inv_def less_Suc_eq split: if_splits)
  next
    case (frame cid now msg)
    then show ?thesis using gate_ok_frame [OF ok ids] ids by (simp add: gate_inv_def)
  next
    case (tick cid now)
    then show ?thesis
      using un ok ids set_remove1_subset [of cid "sys_conns s"]
      by (auto simp: gate_inv_def handshake_tick_def client_disconnect_def nx)
  next
    case (writer_closed cid now)
    then show ?thesis
      using ok ids by (simp add: gate_inv_def client_writer_closed_def nx gate_ok_unregister)
  next
    case (disconnect cid now)
    then show ?thesis
      using ok ids set_remove1_subset [of cid "sys_conns s"]
      by (auto simp: gate_inv_def client_disconnect_def nx gate_ok_unregister)
  next
    case (decode_error cid now)
    then show ?thesis
      using ok ids set_remove1_subset [of cid "sys_conns s"]
      by (auto simp: gate_inv_def client_decode_error_def)
  next
    case (from_server now ev)
    then show ?thesis
      using ok ids gate_ok_server [OF ok] gate_ok_reset
      by (auto simp: gate_inv_def route_event_def reset_state_alt split: server_event.splits option.splits)
  next
    case (probe i w now)
    then show ?thesis using ok ids by (auto simp: gate_inv_def dest!: chan_send_frame)
  next
    case (child_left now c w)
    then show ?thesis
      using ids gate_ok_cong [OF ok, of "w_state w"]
      by (auto simp: gate_inv_def is_handshake_complete_def leave_write_loop_frame)
  next
    case (reap now)
    then show ?thesis
      using ids gate_ok_reap [OF ok] by (simp add: gate_inv_def)
        (simp add: reap_timeouts_def Let_def fold_send_to_map)
  qed (use ids in \<open>auto simp: gate_inv_def mark_running_def cleanup_state_def Let_def
    is_handshake_complete_def intro!: gate_ok_cong [OF ok]\<close>)
qed

lemma reach_st_inv:
  "mux_reach enc_len c es s \<Longrightarrow> length es < 2 ^ 64 - 1 \<Longrightarrow>
     st_inv (Suc (length es)) (Suc (length es)) (w_state (sys_world s))"
  using mux_reach_inv by (fastforce simp: sys_inv_def)

lemma reach_gate_inv: "mux_reach enc_len c es s \<Longrightarrow> length es < 2 ^ 64 - 1 \<Longrightarrow> gate_inv s"
proof (induction rule: mux_reach.induct)
  case start
  show ?case by (simp add: gate_inv_def gate_ok_def sys_init_def mux_state_new_def)
next
  case (step es s e t)
  have len: "length es < 2 ^ 64 - 1" using step.prems by simp
  have "unat (ms_next_client_id (w_state (sys_world s))) \<le> Suc (length es)"
    using st_invD(11) [OF reach_st_inv [OF step.hyps(1) len]] .
  with step.prems have "unat (ms_next_client_id (w_state (sys_world s))) < 2 ^ 64 - 1" by simp
  with gate_inv_step [OF step.hyps(2) step.IH [OF len]] show ?case .
qed

text \<open>C6: the handshake gate.  While a client has not completed its handshake, the only requests
  of it that are at the server are \<open>initialize\<close> requests, under every schedule.\<close>

theorem handshake_gate:
  assumes "mux_reach enc_len c es s" and "length es < 2 ^ 64 - 1"
    and "hm_get (ms_client_handshakes (w_state (sys_world s))) cid = Some h" and "\<not> hs_initialized h"
    and "hm_get (ms_pending (w_state (sys_world s))) g = Some p" and "p_client_id p = cid"
  shows "p_is_initialize p"
proof -
  have "hm_all (\<lambda>g p. unat (p_client_id p) < unat (ms_next_client_id (w_state (sys_world s))) \<and>
     (p_is_initialize p \<or> is_handshake_complete (p_client_id p) (w_state (sys_world s))))
     (ms_pending (w_state (sys_world s)))"
    using reach_gate_inv [OF assms(1,2)] by (simp add: gate_inv_def gate_ok_def)
  from hm_all_get [OF this assms(5)] assms(3,4,6) show ?thesis
    by (simp add: is_handshake_complete_def)
qed

definition example_early :: "(instant \<times> mux_event) list" where
  "example_early = [(0, Connect), (1, Frame 1 (example_msg ''tools/list'' (JInt 7))),
     (2, Frame 1 (example_msg ''initialize'' (JInt 8)))]"

definition example_early_sys :: mux_sys where
  "example_early_sys = the (mux_exec example_len example_early (sys_init example_config))"

lemma example_early_reach: "mux_reach example_len example_config example_early example_early_sys"
proof -
  have "mux_exec example_len example_early (sys_init example_config) \<noteq> None" by code_simp
  then show ?thesis by (auto simp: mux_reach_exec example_early_sys_def)
qed

theorem handshake_gate_witness:
  "\<exists>p. hm_get (ms_pending (w_state (sys_world example_early_sys))) ''c1:1'' = Some p \<and> p_is_initialize p"
proof -
  let ?p = "\<lparr>p_client_id = 1, p_local_id = JInt 8, p_is_initialize = True, p_started_at = 2\<rparr>"
  let ?h = "\<lparr>hs_connected_at = 0, hs_initialized = False, hs_initialize_pending = True,
    hs_buffered_messages = [example_msg ''tools/list'' (JInt 7)]\<rparr>"
  have h: "hm_get (ms_client_handshakes (w_state (sys_world example_early_sys))) 1 = Some ?h" by code_simp
  have p: "hm_get (ms_pending (w_state (sys_world example_early_sys))) ''c1:1'' = Some ?p" by code_simp
  have len: "length example_early < 2 ^ 64 - 1" by (simp add: example_early_def)
  have "p_is_initialize ?p"
    using handshake_gate [OF example_early_reach len h _ p] by simp
  with p show ?thesis by blast
qed

section \<open>The release of the buffer\<close>

definition numbered :: "u64 \<Rightarrow> u64 \<Rightarrow> json list \<Rightarrow> json list" where
  "numbered cid n ms = map (\<lambda>(m, k). set_id m (JStr (global_id cid (n + of_nat k)))) (zip ms [0..<length ms])"

lemma numbered_Cons:
  "numbered cid n (m # ms) = set_id m (JStr (global_id cid n)) # numbered cid (n + 1) ms"
proof -
  have "zip ms [1..<Suc (length ms)] = map (\<lambda>(m, k). (m, Suc k)) (zip ms [0..<length ms])"
    by (simp add: zip_map2 flip: map_Suc_upt del: upt_Suc)
  then show ?thesis
    by (simp add: numbered_def upt_conv_Cons del: upt_Suc) (simp add: case_prod_unfold ac_simps)
qed

lemma flush_all:
  assumes "\<forall>m \<in> set ms. jget m ''id'' \<noteq> None" and "w_to_server_open w"
    and "length (ms_pending (w_state w)) + length ms \<le> MAX_PENDING"
    and "st_inv nc ng (w_state w)" and "ng + length ms < 2 ^ 64"
  shows "w_to_server (flush_buffered now cid ms w) =
      w_to_server w @ numbered cid (ms_next_global_id (w_state w)) ms \<and>
    length (ms_pending (w_state (flush_buffered now cid ms w))) =
      length (ms_pending (w_state w)) + length ms \<and>
    ms_client_handshakes (w_state (flush_buffered now cid ms w)) = ms_client_handshakes (w_state w)"
  using assms
proof (induction ms arbitrary: w ng)
  case Nil
  then show ?case by (simp add: numbered_def)
next
  case (Cons m ms)
  obtain l where l: "jget m ''id'' = Some l" using Cons.prems(1) by auto
  let ?w = "snd (forward_request now cid m w)"
  have room: "length (ms_pending (w_state w)) < MAX_PENDING" using Cons.prems(3) by simp
  have eq: "?w = snd (enqueue_request now cid l m False w)" by (simp add: forward_request_def l)
  note e = enqueue_room [OF room, of now cid l m False, folded eq]
  note f = enqueue_frame [of now cid l m False w, folded eq]
  have len: "length (ms_pending (w_state ?w)) = Suc (length (ms_pending (w_state w)))"
    unfolding e(1) using fresh_global_id [OF Cons.prems(4), of cid] by (simp add: length_hm_insert)
  have inv: "st_inv nc (Suc ng) (w_state ?w)"
    using st_inv_forward [OF Cons.prems(4)] Cons.prems(5) by simp
  have "w_to_server (flush_buffered now cid ms ?w) =
      w_to_server ?w @ numbered cid (ms_next_global_id (w_state ?w)) ms \<and>
    length (ms_pending (w_state (flush_buffered now cid ms ?w))) =
      length (ms_pending (w_state ?w)) + length ms \<and>
    ms_client_handshakes (w_state (flush_buffered now cid ms ?w)) = ms_client_handshakes (w_state ?w)"
    using Cons.prems len f(5) inv by (intro Cons.IH [where ng = "Suc ng"]) simp_all
  then show ?case
    using e(2,3) f(1) len Cons.prems(2) by (simp add: numbered_Cons)
qed

lemma forward_initialized_frame [simp]:
  "ms_next_global_id (w_state (forward_initialized msg w)) = ms_next_global_id (w_state w)"
  "w_to_server_open (forward_initialized msg w) = w_to_server_open w"
  "w_permits (forward_initialized msg w) = w_permits w"
  by (auto simp: forward_initialized_def Let_def chan_try_send_def)

lemma forward_initialized_queue:
  "w_to_server_open w \<Longrightarrow> w_to_server (forward_initialized msg w) = w_to_server w @
     (if \<not> ms_server_initialized (w_state w) \<and> length (w_to_server w) < MAX_QUEUE then [msg] else [])"
  by (auto simp: forward_initialized_def Let_def chan_try_send_def)



section \<open>The initialize request\<close>

text \<open>\<open>initialize\<close> requests are never shared.  The flag that would make later clients wait
  for the first one is false in every reachable state, and as long as no answer is cached each
  \<open>initialize\<close> goes to the server itself, also while another one is under way.\<close>

theorem initialize_never_shared:
  assumes reach: "mux_reach enc_len c es s" "length es < 2 ^ 64 - 1" and w: "w = sys_world s"
    and l: "jget msg ''id'' = Some l" and m: "msg_method msg = ''initialize''"
    and small: "enc_len msg \<le> ms_max_request_bytes (w_state w)"
    and none: "ms_cached_initialize (w_state w) = None" and opn: "w_to_server_open w"
    and room: "length (ms_pending (w_state w)) < MAX_PENDING"
    and w': "w' = client_frame enc_len now cid msg w"
  shows "\<not> ms_initializing (w_state w) \<and> ms_init_waiting (w_state w') = [] \<and>
    w_to_server w' = w_to_server w @ [set_id msg (JStr (global_id cid (ms_next_global_id (w_state w))))]"
proof -
  have inv: "st_inv (Suc (length es)) (Suc (length es)) (w_state w)"
    using reach_st_inv [OF reach] by (simp add: w)
  note d = st_invD(8,9) [OF inv]
  define st where "st = (w_state w)\<lparr>ms_client_handshakes :=
    hm_modify cid (\<lambda>h. h\<lparr>hs_initialize_pending := True\<rparr>) (ms_client_handshakes (w_state w))\<rparr>"
  have "w' = snd (enqueue_request now cid l msg True (w\<lparr>w_state := st\<rparr>))"
    using l m small none d by (simp add: w' client_frame_def handle_client_message_def
        handle_initialize_def Let_def st_def)
  moreover have "length (ms_pending (w_state (w\<lparr>w_state := st\<rparr>))) < MAX_PENDING"
    using room by (simp add: st_def)
  ultimately show ?thesis
    using d opn by (simp add: enqueue_room enqueue_frame) (simp add: st_def)
qed

definition example_two :: "(instant \<times> mux_event) list" where
  "example_two = [(0, Connect), (0, Connect), (1, Frame 1 (example_msg ''initialize'' (JInt 1)))]"

definition example_two_sys :: mux_sys where
  "example_two_sys = the (mux_exec example_len example_two (sys_init example_config))"

lemma example_two_reach: "mux_reach example_len example_config example_two example_two_sys"
proof -
  have "mux_exec example_len example_two (sys_init example_config) \<noteq> None" by code_simp
  then show ?thesis by (auto simp: mux_reach_exec example_two_sys_def)
qed

theorem initialize_never_shared_witness:
  "w_to_server (client_frame example_len 2 2 (example_msg ''initialize'' (JInt 1)) (sys_world example_two_sys)) =
     [example_msg ''initialize'' (JStr ''c1:1''), example_msg ''initialize'' (JStr ''c2:2'')]"
proof -
  let ?w = "sys_world example_two_sys" and ?m = "example_msg ''initialize'' (JInt 1)"
  have l: "jget ?m ''id'' = Some (JInt 1)" and m: "msg_method ?m = ''initialize''" by code_simp+
  have small: "example_len ?m \<le> ms_max_request_bytes (w_state ?w)" by code_simp
  have none: "ms_cached_initialize (w_state ?w) = None" by code_simp
  have opn: "w_to_server_open ?w" by code_simp
  have room: "length (ms_pending (w_state ?w)) < MAX_PENDING" by code_simp
  have len: "length example_two < 2 ^ 64 - 1" by (simp add: example_two_def)
  have val: "w_to_server ?w @ [set_id ?m (JStr (global_id 2 (ms_next_global_id (w_state ?w))))] =
     [example_msg ''initialize'' (JStr ''c1:1''), example_msg ''initialize'' (JStr ''c2:2'')]" by code_simp
  show ?thesis
    using initialize_never_shared [OF example_two_reach len refl l m small none opn room refl] val by simp
qed

end
