(* ===== verification/Mux_Accounting.thy ===== *)
theory Mux_Accounting
  imports Mux_Lifecycle
begin

text \<open>
  Properties of long runs: what a restart of the server forgets and what it keeps, the limit on
  connections, and the separation of heartbeat traffic from the clients' traffic.
\<close>

section \<open>The initialized notification\<close>

definition is_initialized_note :: "json \<Rightarrow> bool" where
  "is_initialized_note m \<longleftrightarrow> msg_method m = ''notifications/initialized''"

definition initialized_notes :: "mux_world \<Rightarrow> nat" where
  "initialized_notes w = length (filter is_initialized_note (w_to_server w))"

definition spent :: "nat \<Rightarrow> mux_world \<Rightarrow> bool" where
  "spent n w \<longleftrightarrow> ms_server_initialized (w_state w) \<and> initialized_notes w \<le> n"

lemma spent_cong:
  "spent n w \<Longrightarrow> ms_server_initialized (w_state w') = ms_server_initialized (w_state w) \<Longrightarrow>
     w_to_server w' = w_to_server w \<Longrightarrow> spent n w'"
  by (simp add: spent_def initialized_notes_def)

lemma note_set_id [simp]: "is_initialized_note (set_id m i) = is_initialized_note m"
  by (simp add: is_initialized_note_def msg_method_def jget_set_id)

lemma note_probe [simp]: "\<not> is_initialized_note (probe_message i)"
  by (simp add: is_initialized_note_def msg_method_def probe_message_def obj_of_def jget_def map_of_obj_insert)

lemma spent_enqueue:
  assumes sp: "spent n w" and m: "\<not> is_initialized_note msg"
  shows "spent n (snd (enqueue_request now cid l msg b w))"
proof (cases "MAX_PENDING \<le> length (ms_pending (w_state w))")
  case True
  with sp show ?thesis by (simp add: enqueue_full spent_def initialized_notes_def send_to_def)
next
  case False
  with sp m show ?thesis by (simp add: spent_def initialized_notes_def enqueue_frame enqueue_room)
qed

lemma spent_flush:
  "spent n w \<Longrightarrow> \<forall>m \<in> set ms. \<not> is_initialized_note m \<Longrightarrow> spent n (flush_buffered now cid ms w)"
proof (induction ms arbitrary: w)
  case (Cons m ms)
  have "spent n (snd (forward_request now cid m w))"
    using Cons.prems spent_enqueue by (auto simp: forward_request_def split: option.splits)
  with Cons show ?case by simp
qed simp

text \<open>No buffer holds such a notification.\<close>

abbreviation buffers_ok :: "mux_state \<Rightarrow> bool" where
  "buffers_ok st \<equiv> sources (\<lambda>_ _. True) (\<lambda>_ m. \<not> is_initialized_note m) st"

lemma buffers_ok_step: "mux_step enc_len s e t \<Longrightarrow> buffers_ok (w_state (sys_world s)) \<Longrightarrow> buffers_ok (w_state (sys_world t))"
  by (erule sources_step) (simp_all add: is_initialized_note_def)

lemma buffers_ok_reach: "mux_reach enc_len c es s \<Longrightarrow> buffers_ok (w_state (sys_world s))"
proof (induction rule: mux_reach.induct)
  case start
  show ?case by (simp add: sources_def sys_init_def mux_state_new_def)
next
  case (step es s e t)
  then show ?case by (blast intro: buffers_ok_step)
qed

lemma spent_initialized:
  assumes sp: "spent n w" and buf: "buffers_ok (w_state w)"
  shows "spent n (handle_initialized now cid msg w)"
proof -
  have f: "forward_initialized msg w = w" using sp by (simp add: forward_initialized_def spent_def)
  obtain bs st where c: "complete_handshake cid (w_state w) = (bs, st)" by fastforce
  have bs: "\<forall>m \<in> set bs. \<not> is_initialized_note m"
    using c buf by (auto simp: complete_handshake_def mark_handshake_complete_def sources_def
        split: option.splits dest: hm_all_get)
  have "ms_server_initialized st = ms_server_initialized (w_state w)"
    using c by (auto simp: complete_handshake_def mark_handshake_complete_def split: option.splits)
  then have "spent n (w\<lparr>w_state := st\<rparr>)" using sp by (auto intro: spent_cong)
  from spent_flush [OF this bs, of now cid] show ?thesis
    by (simp add: handle_initialized_def f c Let_def) (erule spent_cong, simp_all)
qed

lemma spent_initialize:
  assumes sp: "spent n w" and m: "\<not> is_initialized_note msg"
  shows "spent n (snd (handle_initialize now cid l msg w))"
proof -
  define st where "st = (w_state w)\<lparr>ms_client_handshakes :=
    hm_modify cid (\<lambda>h. h\<lparr>hs_initialize_pending := True\<rparr>) (ms_client_handshakes (w_state w))\<rparr>"
  have st: "spent n (w\<lparr>w_state := st\<rparr>)" using sp by (rule spent_cong) (simp_all add: st_def)
  have "spent n (w\<lparr>w_state := st\<lparr>ms_init_waiting := v\<rparr>\<rparr>)" "spent n (w\<lparr>w_state := send_to c m st\<rparr>)" for v c m
    using sp by (auto intro: spent_cong simp: st_def send_to_def)
  then show ?thesis
    using spent_enqueue [OF st m] by (simp add: handle_initialize_def Let_def flip: st_def split: option.splits)
qed

lemma spent_frame:
  assumes sp: "spent n w" and buf: "buffers_ok (w_state w)"
  shows "spent n (client_frame enc_len now cid msg w)"
proof -
  have note_case: "msg_method msg \<noteq> ''notifications/initialized'' \<Longrightarrow> \<not> is_initialized_note msg"
    by (simp add: is_initialized_note_def)
  let ?n = "publish_status now (update_queue_depth
      (case chan_try_send msg w of None \<Rightarrow> w | Some w' \<Rightarrow> w'))"
  have notif: "msg_method msg \<noteq> ''notifications/initialized'' \<Longrightarrow> spent n ?n"
    using sp note_case by (auto simp: spent_def initialized_notes_def chan_try_send_def)
  have "spent n (w\<lparr>w_state := send_to cid m (w_state w)\<rparr>)" for m
    using sp by (rule spent_cong) (simp_all add: send_to_def)
  moreover have "spent n (w\<lparr>w_state := buffer_message cid m (w_state w)\<rparr>)" for m
    using sp by (rule spent_cong) (simp_all add: buffer_message_def)
  ultimately show ?thesis
    unfolding client_frame_def handle_client_message_def
    using notif note_case sp spent_initialized [OF sp buf] spent_initialize [OF sp]
      spent_enqueue [OF sp]
    by (simp add: Let_def forward_request_def split: option.splits)
qed

lemma spent_step:
  assumes step: "mux_step enc_len s e t" and sp: "spent n (sys_world s)"
    and buf: "buffers_ok (w_state (sys_world s))"
  shows "spent n (sys_world t)"
  using step
proof cases
  case (frame cid now msg)
  then show ?thesis using spent_frame [OF sp buf] by simp
next
  case (connect now cid w)
  then show ?thesis
    using sp by (auto intro!: spent_cong [OF sp] simp: client_connect_def register_client_def Let_def split: if_splits)
next
  case (probe i w now)
  then show ?thesis using sp by (auto simp: spent_def initialized_notes_def chan_send_def split: if_splits)
next
  case (server_recv m q now)
  then show ?thesis using sp by (auto simp: spent_def initialized_notes_def split: if_splits)
next
  case (child_left now c w)
  then have "w_to_server w = w_to_server (sys_world s)"
    by (auto simp: leave_write_loop_def split: exit_cause.splits)
  with child_left show ?thesis by (auto intro!: spent_cong [OF sp] simp: leave_write_loop_frame)
next
  case (from_server now ev)
  have "w_to_server (snd (handle_server_message now msg (sys_world s))) = w_to_server (sys_world s)"
    "ms_server_initialized (w_state (snd (handle_server_message now msg (sys_world s)))) =
      ms_server_initialized (w_state (sys_world s))" for msg
    by (auto simp: handle_server_message_def broadcast_def Let_def send_to_def cache_initialize_def
      fold_send_to_pairs split: option.splits)
  with from_server show ?thesis
    by (auto intro!: spent_cong [OF sp] simp: route_event_def reset_state_alt
        split: server_event.splits option.splits)
qed (auto intro!: spent_cong [OF sp] simp: handshake_tick_def client_disconnect_def unregister_client_def
    send_to_def client_writer_closed_def client_decode_error_def reap_timeouts_def Let_def
    fold_send_to_map mark_running_def cleanup_state_def)

lemma spent_exec:
  "mux_exec enc_len es s = Some t \<Longrightarrow> spent n (sys_world s) \<Longrightarrow> buffers_ok (w_state (sys_world s)) \<Longrightarrow>
     spent n (sys_world t)"
proof (induction es arbitrary: s)
  case (Cons e es)
  then obtain u where u: "mux_step enc_len s e u" "mux_exec enc_len es u = Some t"
    by (auto simp: mux_step_iff split: option.splits)
  with Cons.IH [OF u(2)] spent_step [OF u(1)] buffers_ok_step [OF u(1)] Cons.prems show ?case by blast
qed simp

text \<open>after the first \<open>notifications/initialized\<close> the daemon never sends another one, however
  often the server is restarted: once the flag is set, no schedule (with child exits, cleanups,
  resets and new children in it) adds such a notification to the channel, so a restarted server
  never gets one.\<close>

theorem initialized_note_only_once:
  assumes "mux_reach enc_len c es s" and "ms_server_initialized (w_state (sys_world s))"
    and "mux_exec enc_len fs s = Some t"
  shows "ms_server_initialized (w_state (sys_world t)) \<and>
    initialized_notes (sys_world t) \<le> initialized_notes (sys_world s)"
proof -
  have "spent (initialized_notes (sys_world s)) (sys_world s)"
    using assms(2) by (simp add: spent_def)
  from spent_exec [OF assms(3) this buffers_ok_reach [OF assms(1)]] show ?thesis
    by (simp add: spent_def)
qed

text \<open>The server has got everything, crashes and comes back; a new client does its whole handshake
  with it, and the channel holds no notification for the new server.\<close>

definition example_served :: "(instant \<times> mux_event) list" where
  "example_served = example_events @ [(3, ServerRecv), (4, ServerRecv)]"

definition example_served_sys :: mux_sys where
  "example_served_sys = the (mux_exec example_len example_served (sys_init example_config))"

lemma example_served_reach: "mux_reach example_len example_config example_served example_served_sys"
proof -
  have "mux_exec example_len example_served (sys_init example_config) \<noteq> None" by code_simp
  then show ?thesis by (auto simp: mux_reach_exec example_served_sys_def)
qed

definition example_restart :: "(instant \<times> mux_event) list" where
  "example_restart = [(5, ChildLeft ChildExited), (6, ChildCleanup False),
     (7, FromServer (Reset ''backend restarted'')), (8, ChildStarted None), (9, Connect),
     (10, Frame 2 (example_msg ''initialize'' (JInt 1))), (11, ServerRecv),
     (12, FromServer (Message (example_msg ''result'' (JStr ''c2:2'')))),
     (13, Frame 2 (example_msg ''notifications/initialized'' JNull))]"

theorem initialized_note_only_once_witness:
  "\<exists>t. mux_exec example_len example_restart example_served_sys = Some t \<and>
     ms_server_initialized (w_state (sys_world t)) \<and> initialized_notes (sys_world t) = 0"
proof -
  have set: "ms_server_initialized (w_state (sys_world example_served_sys))"
    and none: "initialized_notes (sys_world example_served_sys) = 0" by code_simp+
  have "mux_exec example_len example_restart example_served_sys \<noteq> None" by code_simp
  then obtain t where "mux_exec example_len example_restart example_served_sys = Some t" by blast
  with initialized_note_only_once [OF example_served_reach set this] none show ?thesis by simp
qed

section \<open>Connections\<close>

lemma flush_permits [simp]: "w_permits (flush_buffered now cid ms w) = w_permits w"
proof (induction ms arbitrary: w)
  case (Cons m ms)
  then show ?case by (auto simp: forward_request_def enqueue_frame split: option.splits)
qed simp

lemma frame_permits [simp]: "w_permits (client_frame enc_len now cid msg w) = w_permits w"
proof -
  have "w_permits (handle_initialized now cid msg w) = w_permits w"
    by (simp add: handle_initialized_def Let_def case_prod_unfold)
  moreover have "w_permits (snd (handle_initialize now cid l msg w)) = w_permits w" for l
    by (simp add: handle_initialize_def Let_def enqueue_frame split: option.splits)
  ultimately show ?thesis
    by (auto simp: client_frame_def handle_client_message_def forward_request_def enqueue_frame Let_def
        split: option.splits dest!: chan_try_send_frame)
qed

definition permits_ok :: "nat \<Rightarrow> mux_sys \<Rightarrow> bool" where
  "permits_ok mx s \<longleftrightarrow> w_permits (sys_world s) + length (sys_conns s) = mx"

lemma permits_step: "mux_step enc_len s e t \<Longrightarrow> permits_ok mx s \<Longrightarrow> permits_ok mx t"
proof (induction rule: mux_step.induct)
  case (connect now s cid w)
  then show ?case by (auto simp: client_connect_def Let_def permits_ok_def split: if_splits prod.splits)
next
  case (tick cid s now)
  then obtain k where "length (sys_conns s) = Suc k" by (cases "sys_conns s") auto
  with tick show ?case
    by (simp add: permits_ok_def handshake_tick_def client_disconnect_def length_remove1)
next
  case (disconnect cid s now)
  then obtain k where "length (sys_conns s) = Suc k" by (cases "sys_conns s") auto
  with disconnect show ?case by (simp add: permits_ok_def client_disconnect_def length_remove1)
next
  case (decode_error cid s now)
  then obtain k where "length (sys_conns s) = Suc k" by (cases "sys_conns s") auto
  with decode_error show ?case by (simp add: permits_ok_def client_decode_error_def length_remove1)
next
  case (from_server s now ev)
  have "w_permits (snd (handle_server_message now msg (sys_world s))) = w_permits (sys_world s)" for msg
    by (auto simp: handle_server_message_def Let_def split: option.splits)
  with from_server show ?case
    by (auto simp: permits_ok_def route_event_def split: server_event.splits option.splits)
next
  case (probe s i w now)
  then show ?case by (auto simp: permits_ok_def dest!: chan_send_frame)
next
  case (child_left now c s w)
  then show ?case by (simp add: permits_ok_def leave_write_loop_frame)
qed (simp_all add: permits_ok_def client_writer_closed_def reap_timeouts_def Let_def)

lemma permits_reach: "mux_reach enc_len c es s \<Longrightarrow> permits_ok (mc_max_active_clients c) s"
proof (induction rule: mux_reach.induct)
  case start
  show ?case by (simp add: permits_ok_def sys_init_def)
next
  case (step es s e t)
  then show ?case by (blast intro: permits_step)
qed

text \<open>C24: the semaphore counts connections.  In every reachable state the free permits and the
  running connections add up to the configured limit, so never more than that many clients are
  served at the same time, and no permit is lost.\<close>

theorem connections_within_limit:
  assumes "mux_reach enc_len c es s"
  shows "w_permits (sys_world s) + length (sys_conns s) = mc_max_active_clients c \<and>
    length (sys_conns s) \<le> mc_max_active_clients c"
  using permits_reach [OF assms] by (auto simp: permits_ok_def)

theorem connections_within_limit_witness:
  "w_permits (sys_world example_sys) + length (sys_conns example_sys) = 2"
  using connections_within_limit [OF example_reach] by (simp add: example_config_def)

text \<open>an undecodable frame leaks the client.  The reader loop leaves through \<open>frame?\<close> without
  unregistering, while its permit comes back, so for every number \<open>n\<close> there is a schedule after
  which \<open>n\<close> clients are registered and none is connected, with a limit of one client.\<close>

theorem decode_errors_leak_clients:
  assumes "0 < mc_max_active_clients c" and "2 * n < 2 ^ 64 - 1"
  shows "\<exists>es s. length es = 2 * n \<and> mux_reach enc_len c es s \<and> sys_conns s = [] \<and>
    length (ms_clients (w_state (sys_world s))) = n"
  using assms(2)
proof (induction n)
  case 0
  have "mux_reach enc_len c [] (sys_init c)" by (rule mux_reach.start)
  then show ?case by (auto simp: sys_init_def mux_state_new_def)
next
  case (Suc n)
  then obtain es s where es: "length es = 2 * n" and s: "mux_reach enc_len c es s"
    and conns: "sys_conns s = []" and n: "length (ms_clients (w_state (sys_world s))) = n" by auto
  have inv: "st_inv (Suc (length es)) (Suc (length es)) (w_state (sys_world s))"
    using reach_st_inv [OF s] es Suc.prems by simp
  have perm: "w_permits (sys_world s) \<noteq> 0"
    using permits_reach [OF s] conns assms(1) by (simp add: permits_ok_def)
  let ?i = "ms_next_client_id (w_state (sys_world s))"
  obtain w where w: "client_connect 0 (sys_world s) = Some (?i, w)"
    and cl: "ms_clients (w_state w) = hm_insert ?i [] (ms_clients (w_state (sys_world s)))"
    using perm by (simp add: client_connect_def register_client_def Let_def)
  let ?t = "\<lparr>sys_world = w, sys_conns = [?i]\<rparr>"
  let ?u = "?t\<lparr>sys_world := client_decode_error ?i w, sys_conns := []\<rparr>"
  have t: "mux_reach enc_len c (es @ [(0, Connect)]) ?t"
    using mux_reach.step [OF s mux_step.connect [OF w]] conns by simp
  have "mux_step enc_len ?t (0, DecodeError ?i) ?u"
    using mux_step.decode_error [of ?i ?t enc_len 0] by simp
  from mux_reach.step [OF t this]
  have u: "mux_reach enc_len c (es @ [(0, Connect), (0, DecodeError ?i)]) ?u" by simp
  have "?i \<notin> hm_keys (ms_clients (w_state (sys_world s)))" using st_invD(5) [OF inv] by blast
  then have "length (ms_clients (w_state (sys_world ?u))) = Suc n"
    by (simp add: client_decode_error_def cl length_hm_insert n)
  with u es show ?case
    by (intro exI [of _ "es @ [(0, Connect), (0, DecodeError ?i)]"] exI [of _ ?u]) simp
qed

theorem decode_errors_leak_clients_witness:
  "\<exists>es s. length es = 6 \<and> mux_reach example_len example_config es s \<and> sys_conns s = [] \<and>
    length (ms_clients (w_state (sys_world s))) = 3"
  using decode_errors_leak_clients [of example_config 3 example_len] by (simp add: example_config_def)

section \<open>Heartbeats and late answers\<close>

text \<open>Heartbeat traffic and client traffic do not mix.  The answer to a probe never changes
  the shared state or reaches a client, and the id of a client's request is never taken for a
  heartbeat, so its answer is never swallowed by the inspector.\<close>

theorem heartbeat_isolation:
  "(jget msg ''id'' = Some (JStr (heartbeat_id i)) \<longrightarrow>
      route_event now (Message msg) w = (Some (heartbeat_id i), w)) \<and>
   (jget msg ''id'' = Some (JStr (global_id cid n)) \<longrightarrow>
      route_event now (Message msg) w = (None, snd (handle_server_message now msg w)))"
  by (simp add: route_event_def)

theorem heartbeat_isolation_witness:
  "route_event 5 (Message (example_msg ''pong'' (JStr ''__heartbeat_7''))) (sys_world example_sys) =
     (Some ''__heartbeat_7'', sys_world example_sys)"
proof -
  have "jget (example_msg ''pong'' (JStr ''__heartbeat_7'')) ''id'' = Some (JStr (heartbeat_id 7))"
    and i: "heartbeat_id 7 = ''__heartbeat_7''" by code_simp+
  with heartbeat_isolation [of "example_msg ''pong'' (JStr ''__heartbeat_7'')" 7 5 "sys_world example_sys"]
  show ?thesis by simp
qed

text \<open>An answer counts once.  When the server repeats an answer, the second copy changes
  nothing: no client gets it and the pending table stays as it is.\<close>

theorem repeated_response_ignored:
  assumes i: "jget msg ''id'' = Some i" "i \<noteq> JNull"
    and w1: "w1 = snd (route_event now (Message msg) w)"
  shows "snd (route_event later (Message msg) w1) = w1"
proof -
  have "hm_get (ms_pending (w_state (snd (handle_server_message now msg w)))) key = None"
    if "response_key i = Some key" for key
    using that i
    by (auto simp: handle_server_message_def Let_def send_to_def cache_initialize_def fold_send_to_pairs
        hm_get_remove hm_get_None [symmetric] split: option.splits)
  then have "snd (handle_server_message later msg (snd (handle_server_message now msg w))) =
      snd (handle_server_message now msg w)"
    using i by (auto simp: handle_server_message_def [of later] split: option.splits)
  then show ?thesis by (auto simp: w1 route_event_def split: option.splits)
qed

theorem repeated_response_ignored_witness:
  "\<exists>w1. outbox (w_state w1) 1 = Some [example_msg ''result'' (JInt 1)] \<and>
     snd (route_event 9 (Message (example_msg ''result'' (JStr ''c1:1''))) w1) = w1"
proof -
  let ?m = "example_msg ''result'' (JStr ''c1:1'')"
  let ?w = "snd (route_event 8 (Message ?m) (sys_world example_sys))"
  have i: "jget ?m ''id'' = Some (JStr ''c1:1'')" by code_simp
  have "outbox (w_state ?w) 1 = Some [example_msg ''result'' (JInt 1)]" by code_simp
  with repeated_response_ignored [OF i _ refl] show ?thesis by blast
qed

section \<open>The cached initialize answer\<close>

text \<open>the server answers \<open>initialize\<close> once, the daemon repeats it.  When the answer to a
  pending \<open>initialize\<close> arrives in a reachable state, the client that asked gets it, and any client
  that asks afterwards gets the same answer with its own id at once, without a message to the
  server.\<close>

theorem initialize_served_from_cache:
  assumes reach: "mux_reach enc_len c es s" "length es < 2 ^ 64 - 1" and w: "w = sys_world s"
    and p: "hm_get (ms_pending (w_state w)) g = Some p" "p_is_initialize p"
    and resp: "jget resp ''id'' = Some (JStr g)"
    and w1: "w1 = snd (route_event now (Message resp) w)"
    and l: "jget msg ''id'' = Some l" and m: "msg_method msg = ''initialize''"
    and small: "enc_len msg \<le> ms_max_request_bytes (w_state w1)"
    and out: "outbox (w_state w1) cid = Some out"
    and w2: "w2 = client_frame enc_len later cid msg w1"
  shows "outbox (w_state w1) (p_client_id p) =
      map_option (\<lambda>out. out @ [set_id resp (p_local_id p)]) (outbox (w_state w) (p_client_id p)) \<and>
    outbox (w_state w2) = (outbox (w_state w1))(cid \<mapsto> out @ [set_id resp l]) \<and>
    w_to_server w2 = w_to_server w \<and> ms_pending (w_state w2) = hm_remove g (ms_pending (w_state w))"
proof -
  have inv: "st_inv (Suc (length es)) (Suc (length es)) (w_state w)"
    using reach_st_inv [OF reach] by (simp add: w)
  have nohb: "\<not> is_heartbeat_response g"
    using hm_all_get [OF st_invD(6) [OF inv] p(1)] by (auto simp: pending_ok_def)
  note r = route_response [OF p(1) resp nohb st_invD(9) [OF inv], of now, folded w1]
  have "ms_cached_initialize (w_state w1) = Some resp" using r(4) p(2) by simp
  then have eq: "w2 = w1\<lparr>w_state := send_to cid (set_id resp l) ((w_state w1)\<lparr>ms_client_handshakes :=
      hm_modify cid (\<lambda>h. h\<lparr>hs_initialize_pending := True\<rparr>) (ms_client_handshakes (w_state w1))\<rparr>)\<rparr>"
    using l m small by (simp add: w2 client_frame_def handle_client_message_def handle_initialize_def Let_def)
  have "outbox (w_state w2) = (outbox (w_state w1))(cid \<mapsto> out @ [set_id resp l])"
    using deliver_single [OF out] by (simp add: eq send_to_alt)
  moreover have "outbox (w_state w1) (p_client_id p) =
      map_option (\<lambda>out. out @ [set_id resp (p_local_id p)]) (outbox (w_state w) (p_client_id p))"
    unfolding r(1) by (simp add: hm_get_deliver)
  ultimately show ?thesis using r by (simp add: eq send_to_def)
qed

theorem initialize_served_from_cache_witness:
  "let w1 = snd (route_event 5 (Message (example_msg ''result'' (JStr ''c1:1''))) (sys_world example_two_sys));
       w2 = client_frame example_len 6 2 (example_msg ''initialize'' (JInt 44)) w1
   in outbox (w_state w2) 2 = Some [example_msg ''result'' (JInt 44)]"
proof -
  let ?w = "sys_world example_two_sys"
  let ?r = "example_msg ''result'' (JStr ''c1:1'')" and ?m = "example_msg ''initialize'' (JInt 44)"
  let ?w1 = "snd (route_event 5 (Message ?r) ?w)"
  let ?p = "\<lparr>p_client_id = 1, p_local_id = JInt 1, p_is_initialize = True, p_started_at = 1\<rparr>"
  have p: "hm_get (ms_pending (w_state ?w)) ''c1:1'' = Some ?p" by code_simp
  have resp: "jget ?r ''id'' = Some (JStr ''c1:1'')" by code_simp
  have l: "jget ?m ''id'' = Some (JInt 44)" and m: "msg_method ?m = ''initialize''" by code_simp+
  have small: "example_len ?m \<le> ms_max_request_bytes (w_state ?w1)" by code_simp
  have out: "outbox (w_state ?w1) 2 = Some []" by code_simp
  have len: "length example_two < 2 ^ 64 - 1" by (simp add: example_two_def)
  have val: "set_id ?r (JInt 44) = example_msg ''result'' (JInt 44)" by code_simp
  show ?thesis
    using initialize_served_from_cache [OF example_two_reach len refl p _ resp refl l m small out refl] val
    by (simp add: Let_def)
qed

section \<open>The state as a whole\<close>

text \<open>C20: the shared state is sound in every reachable state: exactly the registered clients have
  a handshake record, a client that is through its handshake has no buffered messages left, never
  more than \<open>MAX_PENDING\<close> requests are pending, and the ids the counters hand out next are not in
  use.\<close>

theorem reachable_state_sound:
  assumes "mux_reach enc_len c es s" and "length es < 2 ^ 64 - 1" and st: "st = w_state (sys_world s)"
  shows "hm_keys (ms_client_handshakes st) = hm_keys (ms_clients st) \<and>
    (\<forall>cid h. hm_get (ms_client_handshakes st) cid = Some h \<longrightarrow> hs_initialized h \<longrightarrow>
      hs_buffered_messages h = []) \<and>
    length (ms_pending st) \<le> MAX_PENDING \<and> hm_ok (ms_pending st) \<and> hm_ok (ms_clients st) \<and>
    ms_next_client_id st \<notin> hm_keys (ms_clients st) \<and>
    (\<forall>cid. global_id cid (ms_next_global_id st) \<notin> hm_keys (ms_pending st))"
proof -
  have inv: "st_inv (Suc (length es)) (Suc (length es)) st"
    using reach_st_inv [OF assms(1,2)] by (simp add: st)
  note d = st_invD [OF inv]
  have "hs_buffered_messages h = []"
    if "hm_get (ms_client_handshakes st) cid = Some h" "hs_initialized h" for cid h
    using hm_all_get [OF d(10) that(1)] that(2) by (simp add: handshake_ok_def)
  with d(1,3,4,7) d(5) fresh_global_id [OF inv] show ?thesis by blast
qed

theorem reachable_state_sound_witness:
  "ms_next_client_id (w_state (sys_world example_sys)) \<notin> hm_keys (ms_clients (w_state (sys_world example_sys)))"
proof -
  have "length example_events < 2 ^ 64 - 1" by (simp add: example_events_def)
  from reachable_state_sound [OF example_reach this refl] show ?thesis by blast
qed

text \<open>An oversize message goes nowhere.  Whatever it is, nothing changes except that its
  sender gets one error with the id of the message, or null when it has none.\<close>

theorem oversize_only_answered:
  assumes "ms_max_request_bytes (w_state w) < enc_len msg"
  shows "client_frame enc_len now cid msg w = w\<lparr>w_state := (w_state w)\<lparr>ms_clients :=
      deliver [(cid, error_response (case jget msg ''id'' of None \<Rightarrow> JNull | Some i \<Rightarrow> i)
        ''request too large'')] (ms_clients (w_state w))\<rparr>\<rparr>"
  using assms by (simp add: client_frame_def handle_client_message_def send_to_alt)

theorem oversize_only_answered_witness:
  "w_to_server (client_frame (\<lambda>_. 101) 5 1 (example_msg ''initialize'' (JInt 3)) (sys_world example_sys)) =
     w_to_server (sys_world example_sys)"
proof -
  have "ms_max_request_bytes (w_state (sys_world example_sys)) < (\<lambda>_. 101) (example_msg ''initialize'' (JInt 3))"
    by code_simp
  from oversize_only_answered [OF this] show ?thesis by simp
qed

text \<open>a client that leaves before its \<open>initialize\<close> is answered takes the answer with it.
  Unregistering it drops its pending requests, so when the answer arrives nothing is cached and
  nobody gets it.\<close>

theorem departed_initialize_not_cached:
  assumes reach: "mux_reach enc_len c es s" "length es < 2 ^ 64 - 1" and w: "w = sys_world s"
    and p: "hm_get (ms_pending (w_state w)) g = Some p" "p_is_initialize p"
    and resp: "jget resp ''id'' = Some (JStr g)"
    and w1: "w1 = client_disconnect now (p_client_id p) w"
  shows "snd (route_event later (Message resp) w1) = w1 \<and>
    ms_cached_initialize (w_state w1) = ms_cached_initialize (w_state w)"
proof -
  have inv: "st_inv (Suc (length es)) (Suc (length es)) (w_state w)"
    using reach_st_inv [OF reach] by (simp add: w)
  have nohb: "\<not> is_heartbeat_response g"
    using hm_all_get [OF st_invD(6) [OF inv] p(1)] by (auto simp: pending_ok_def)
  have "hm_get (ms_pending (w_state w1)) g = None"
    using p(1) st_invD(3) [OF inv]
    by (simp add: w1 client_disconnect_def unregister_client_def hm_get_filter)
  then have "snd (route_event later (Message resp) w1) = w1"
    using resp nohb by (simp add: route_event_def handle_server_message_def response_key_def)
  then show ?thesis by (simp add: w1 client_disconnect_def unregister_client_def)
qed

theorem departed_initialize_not_cached_witness:
  "ms_cached_initialize (w_state (snd (route_event 9 (Message (example_msg ''result'' (JStr ''c1:1'')))
     (client_disconnect 5 1 (sys_world example_two_sys))))) = None"
proof -
  let ?w = "sys_world example_two_sys" and ?r = "example_msg ''result'' (JStr ''c1:1'')"
  let ?p = "\<lparr>p_client_id = 1, p_local_id = JInt 1, p_is_initialize = True, p_started_at = 1\<rparr>"
  have p: "hm_get (ms_pending (w_state ?w)) ''c1:1'' = Some ?p" by code_simp
  have resp: "jget ?r ''id'' = Some (JStr ''c1:1'')" by code_simp
  have none: "ms_cached_initialize (w_state ?w) = None" by code_simp
  have len: "length example_two < 2 ^ 64 - 1" by (simp add: example_two_def)
  show ?thesis
    using departed_initialize_not_cached [OF example_two_reach len refl p _ resp refl] none by simp
qed

end
