(* ===== verification/Mux_Heartbeat.thy ===== *)
theory Mux_Heartbeat
  imports Mux_Runtime
begin

text \<open>
  The heartbeat inspector (\<open>mux-agent/src/runtime/heartbeat.rs\<close>).  It is one task: its \<open>select!\<close>
  either handles a tick (and inside that arm waits for the answer, up to the timeout) or takes
  an event from the router.  While an arm runs, the task polls no other arm, so the phase of
  the model says whether it is at the \<open>select!\<close>, inside the tick arm's wait, or has ended.
\<close>

section \<open>State\<close>

definition RESPONSE_TIME_SAMPLES :: nat where
  "RESPONSE_TIME_SAMPLES = 10"

record heartbeat_config =
  hc_interval :: duration
  hc_timeout :: duration
  hc_max_failures :: u32
  hc_enabled :: bool

definition heartbeat_config_default :: heartbeat_config where
  "heartbeat_config_default = \<lparr>hc_interval = from_secs 30, hc_timeout = from_secs 30,
     hc_max_failures = 3, hc_enabled = True\<rparr>"

definition heartbeat_config_new :: "duration \<Rightarrow> duration \<Rightarrow> heartbeat_config" where
  "heartbeat_config_new interval timeout = \<lparr>hc_interval = interval, hc_timeout = timeout,
     hc_max_failures = 3, hc_enabled = True\<rparr>"

definition heartbeat_config_disabled :: heartbeat_config where
  "heartbeat_config_disabled = heartbeat_config_default\<lparr>hc_enabled := False\<rparr>"

text \<open>The one-shot senders of \<open>pending\<close> carry no data; the instant is kept.\<close>

record heartbeat_state =
  hb_response_times :: "u64 list"
  hb_metrics :: heartbeat_metrics
  hb_config :: heartbeat_config
  hb_next_heartbeat_id :: u64
  hb_pending :: "(string, instant) hashmap"

definition heartbeat_state_new :: "heartbeat_config \<Rightarrow> heartbeat_state" where
  "heartbeat_state_new c = \<lparr>hb_response_times = [],
     hb_metrics = heartbeat_metrics_default\<lparr>hbm_enabled := hc_enabled c\<rparr>, hb_config = c,
     hb_next_heartbeat_id = 1, hb_pending = []\<rparr>"

section \<open>Operations\<close>

definition heartbeat_next_id :: "heartbeat_state \<Rightarrow> string \<times> heartbeat_state" where
  "heartbeat_next_id h =
     (let i = hb_next_heartbeat_id h in
      (heartbeat_id i, h\<lparr>hb_next_heartbeat_id := i + 1\<rparr>))"

definition push_sample :: "u64 \<Rightarrow> u64 list \<Rightarrow> u64 list" where
  "push_sample t ts = (if RESPONSE_TIME_SAMPLES \<le> length ts then tl ts else ts) @ [t]"

definition record_success :: "u64 \<Rightarrow> u64 \<Rightarrow> heartbeat_state \<Rightarrow> heartbeat_state" where
  "record_success unix_ms response_time_ms h =
     (let ts = push_sample response_time_ms (hb_response_times h);
          avg = sum_list ts div of_nat (length ts);
          m = hb_metrics h
      in h\<lparr>hb_response_times := ts,
           hb_metrics := m\<lparr>hbm_last_heartbeat_ms := Some unix_ms, hbm_avg_response_ms := Some avg,
             hbm_consecutive_failures := 0, hbm_total_success := hbm_total_success m + 1\<rparr>\<rparr>)"

definition record_failure :: "heartbeat_state \<Rightarrow> heartbeat_state" where
  "record_failure h =
     (let m = hb_metrics h in
      h\<lparr>hb_metrics := m\<lparr>hbm_consecutive_failures := hbm_consecutive_failures m + 1,
                        hbm_total_failures := hbm_total_failures m + 1\<rparr>\<rparr>)"

definition hb_should_restart :: "heartbeat_state \<Rightarrow> bool" where
  "hb_should_restart h \<longleftrightarrow> hc_max_failures (hb_config h) \<le> hbm_consecutive_failures (hb_metrics h)"

definition update_state_metrics :: "instant \<Rightarrow> heartbeat_state \<Rightarrow> mux_world \<Rightarrow> mux_world" where
  "update_state_metrics now h w =
     publish_status now (w\<lparr>w_state := (w_state w)\<lparr>ms_heartbeat_metrics := hb_metrics h\<rparr>\<rparr>)"

definition restart_reason :: "heartbeat_state \<Rightarrow> string" where
  "restart_reason h = ''heartbeat timeout ('' @
     nat_str (unat (hbm_consecutive_failures (hb_metrics h))) @ '' consecutive failures)''"

definition check_restart :: "heartbeat_state \<Rightarrow> string list" where
  "check_restart h = (if hb_should_restart h then [restart_reason h] else [])"

section \<open>The inspector task\<close>

datatype hb_phase = AtSelect | Waiting string instant | Ended

text \<open>
  \<open>in_rx\<close> is the queue of ids the router recognised, \<open>in_fired\<close> the ids whose one-shot sender
  has sent, \<open>in_restart_tx\<close> what was sent to the manager, \<open>in_probes\<close> the finished probes.
\<close>

record inspector =
  in_hb :: heartbeat_state
  in_world :: mux_world
  in_rx :: "string list"
  in_fired :: "string list"
  in_phase :: hb_phase
  in_restart_tx :: "string list"
  in_probes :: nat

definition inspector_start :: "heartbeat_config \<Rightarrow> mux_world \<Rightarrow> inspector" where
  "inspector_start c w = \<lparr>in_hb = heartbeat_state_new c, in_world = w, in_rx = [], in_fired = [],
     in_phase = (if hc_enabled c then AtSelect else Ended), in_restart_tx = [], in_probes = 0\<rparr>"

text \<open>The end of the tick arm: metrics are published, the restart is requested when due.\<close>

definition finish_probe :: "instant \<Rightarrow> heartbeat_state \<Rightarrow> inspector \<Rightarrow> inspector" where
  "finish_probe now h s =
     s\<lparr>in_hb := h, in_world := update_state_metrics now h (in_world s),
       in_restart_tx := in_restart_tx s @ check_restart h,
       in_phase := AtSelect, in_probes := Suc (in_probes s)\<rparr>"

inductive hb_step :: "inspector \<Rightarrow> inspector \<Rightarrow> bool" where
  shutdown: "in_phase s = AtSelect \<Longrightarrow> hb_step s (s\<lparr>in_phase := Ended\<rparr>)"
|  tick_skip: "in_phase s = AtSelect \<Longrightarrow> \<not> probe_ready (w_state (in_world s)) \<Longrightarrow> hb_step s s"
| tick_sent: "in_phase s = AtSelect \<Longrightarrow> probe_ready (w_state (in_world s)) \<Longrightarrow>
     heartbeat_next_id (in_hb s) = (i, h) \<Longrightarrow>
     chan_send (probe_message i) (in_world s) = Some w \<Longrightarrow>
     hb_step s (s\<lparr>in_hb := h\<lparr>hb_pending := hm_insert i now (hb_pending h)\<rparr>, in_world := w,
                  in_phase := Waiting i now\<rparr>)"
| tick_send_failed: "in_phase s = AtSelect \<Longrightarrow> probe_ready (w_state (in_world s)) \<Longrightarrow>
     heartbeat_next_id (in_hb s) = (i, h) \<Longrightarrow>
     chan_send (probe_message i) (in_world s) = None \<Longrightarrow>
     hb_step s (finish_probe now (record_failure (h\<lparr>hb_pending :=
       hm_remove i (hm_insert i now (hb_pending h))\<rparr>)) s)"
| answered: "in_phase s = Waiting i t \<Longrightarrow> i \<in> set (in_fired s) \<Longrightarrow>
     hb_step s (finish_probe now (record_success unix_ms (as_millis_u64 (now - t))
       ((in_hb s)\<lparr>hb_pending := hm_remove i (hb_pending (in_hb s))\<rparr>)) s)"
| dropped: "in_phase s = Waiting i t \<Longrightarrow> i \<notin> set (in_fired s) \<Longrightarrow>
     hm_get (hb_pending (in_hb s)) i = None \<Longrightarrow>
     hb_step s (finish_probe now (record_failure
       ((in_hb s)\<lparr>hb_pending := hm_remove i (hb_pending (in_hb s))\<rparr>)) s)"
| timed_out: "in_phase s = Waiting i t \<Longrightarrow> i \<notin> set (in_fired s) \<Longrightarrow>
     hc_timeout (hb_config (in_hb s)) \<le> now - t \<Longrightarrow>
     hb_step s (finish_probe now (record_failure
       ((in_hb s)\<lparr>hb_pending := hm_remove i (hb_pending (in_hb s))\<rparr>)) s)"
| recv_event: "in_phase s = AtSelect \<Longrightarrow> in_rx s = i # rest \<Longrightarrow>
     hb_step s (s\<lparr>in_rx := rest,
       in_hb := (in_hb s)\<lparr>hb_pending := hm_remove i (hb_pending (in_hb s))\<rparr>,
       in_fired := (if i \<in> hm_keys (hb_pending (in_hb s)) then i # in_fired s else in_fired s)\<rparr>)"
| router: "is_heartbeat_response i \<Longrightarrow> hb_step s (s\<lparr>in_rx := in_rx s @ [i]\<rparr>)"
| others: "hb_step s (s\<lparr>in_world := w\<rparr>)"

inductive hb_reach :: "heartbeat_config \<Rightarrow> mux_world \<Rightarrow> inspector \<Rightarrow> bool" for c w where
  start: "hb_reach c w (inspector_start c w)"
| step: "hb_reach c w s \<Longrightarrow> hb_step s t \<Longrightarrow> hb_reach c w t"

section \<open>Ids\<close>

interpretation heartbeat_ids: id_source heartbeat_next_id "\<lambda>n. heartbeat_id (of_nat n)"
    "\<lambda>h. unat (hb_next_heartbeat_id h)" "2 ^ 64 - 1"
  by unfold_locales
    (simp_all add: heartbeat_next_id_def heartbeat_id_def Let_def unat_Suc_u64 unat_of_nat)

lemma heartbeat_next_id_recognised: "is_heartbeat_response (fst (heartbeat_next_id h))"
  by (simp add: heartbeat_next_id_def Let_def)

section \<open>What the inspector records\<close>

lemma finish_probe_simps [simp]:
  "in_hb (finish_probe now h s) = h"
  "in_fired (finish_probe now h s) = in_fired s"
  "in_phase (finish_probe now h s) = AtSelect"
  "in_probes (finish_probe now h s) = Suc (in_probes s)"
  "in_restart_tx (finish_probe now h s) = in_restart_tx s @ check_restart h"
  by (simp_all add: finish_probe_def)

lemma heartbeat_next_id_frame:
  "heartbeat_next_id h = (i, h') \<Longrightarrow>
     hb_metrics h' = hb_metrics h \<and> hb_config h' = hb_config h \<and> hb_pending h' = hb_pending h"
  by (auto simp: heartbeat_next_id_def Let_def)

lemma record_failure_simps [simp]:
  "hb_config (record_failure h) = hb_config h"
  "hb_pending (record_failure h) = hb_pending h"
  "hbm_total_success (hb_metrics (record_failure h)) = hbm_total_success (hb_metrics h)"
  "hbm_consecutive_failures (hb_metrics (record_failure h)) =
     hbm_consecutive_failures (hb_metrics h) + 1"
  "hbm_total_failures (hb_metrics (record_failure h)) = hbm_total_failures (hb_metrics h) + 1"
  by (simp_all add: record_failure_def Let_def)

text \<open>
  No sender ever fires: the only code that fires one runs at the \<open>select!\<close>, where no probe is
  pending.
\<close>

definition failure_reason :: "nat \<Rightarrow> string" where
  "failure_reason k = ''heartbeat timeout ('' @ nat_str k @ '' consecutive failures)''"

definition hb_inv :: "heartbeat_config \<Rightarrow> inspector \<Rightarrow> bool" where
  "hb_inv c s \<longleftrightarrow> in_fired s = [] \<and> hb_config (in_hb s) = c \<and>
     (case in_phase s of Waiting i t \<Rightarrow> \<exists>t. hb_pending (in_hb s) = [(i, t)]
      | _ \<Rightarrow> hb_pending (in_hb s) = []) \<and>
     hbm_total_success (hb_metrics (in_hb s)) = 0 \<and>
     hbm_consecutive_failures (hb_metrics (in_hb s)) = of_nat (in_probes s)"

definition hb_requests :: "heartbeat_config \<Rightarrow> inspector \<Rightarrow> bool" where
  "hb_requests c s \<longleftrightarrow> (in_probes s < 2 ^ 32 \<longrightarrow> in_restart_tx s =
     map failure_reason (filter (\<lambda>k. unat (hc_max_failures c) \<le> k) [1..<Suc (in_probes s)]))"

lemma hb_inv_step: "hb_step s t \<Longrightarrow> hb_inv c s \<Longrightarrow> hb_inv c t"
proof (induction rule: hb_step.induct)
  case (recv_event s i rest)
  then show ?case by (simp add: hb_inv_def)
qed (auto simp: hb_inv_def dest!: heartbeat_next_id_frame split: hb_phase.splits)

lemma check_restart_at:
  assumes "hbm_consecutive_failures (hb_metrics h) = of_nat k" and "k < 2 ^ 32"
  shows "check_restart h =
    (if unat (hc_max_failures (hb_config h)) \<le> k then [failure_reason k] else [])"
  using assms
  by (simp add: check_restart_def hb_should_restart_def restart_reason_def failure_reason_def
      word_le_nat_alt unat_of_nat)

lemma hb_requests_finish:
  assumes req: "hb_requests c s" and cfg: "hb_config h = c"
    and h: "hbm_consecutive_failures (hb_metrics h) = of_nat (Suc (in_probes s))"
  shows "hb_requests c (finish_probe now h s)"
  using req check_restart_at [OF h] cfg
  by (simp add: hb_requests_def)

lemma hb_requests_step: "hb_step s t \<Longrightarrow> hb_inv c s \<Longrightarrow> hb_requests c s \<Longrightarrow> hb_requests c t"
proof (induction rule: hb_step.induct)
  case (tick_send_failed s i h now)
  then show ?case
    by (intro hb_requests_finish) (auto simp: hb_inv_def dest!: heartbeat_next_id_frame)
next
  case (answered s i t now unix_ms)
  then show ?case by (simp add: hb_inv_def)
next
  case (dropped s i t now)
  then show ?case by (intro hb_requests_finish) (auto simp: hb_inv_def)
next
  case (timed_out s i t now)
  then show ?case by (intro hb_requests_finish) (auto simp: hb_inv_def)
qed (simp_all add: hb_requests_def)

lemma hb_inv_start: "hb_inv c (inspector_start c w) \<and> hb_requests c (inspector_start c w)"
  by (simp add: hb_inv_def hb_requests_def inspector_start_def heartbeat_state_new_def
      heartbeat_metrics_default_def)

lemma hb_reach_inv: "hb_reach c w s \<Longrightarrow> hb_inv c s \<and> hb_requests c s"
proof (induction rule: hb_reach.induct)
  case start
  show ?case by (rule hb_inv_start)
next
  case (step s t)
  then show ?case by (blast intro: hb_inv_step hb_requests_step)
qed

section \<open>Properties\<close>

text \<open>C27: whatever the server answers and however the tasks are scheduled, the inspector never
  records a success: every finished probe counts as a consecutive failure, and from the
  \<open>max_failures\<close>-th on each one asks the manager for a restart.  The tick arm waits for a sender
  that only the other arm of the same \<open>select!\<close> would fire.\<close>

theorem heartbeat_never_succeeds:
  assumes "hb_reach c w s" and "in_probes s < 2 ^ 32"
  shows "hbm_total_success (hb_metrics (in_hb s)) = 0 \<and>
    unat (hbm_consecutive_failures (hb_metrics (in_hb s))) = in_probes s \<and>
    in_restart_tx s =
      map failure_reason (filter (\<lambda>k. unat (hc_max_failures c) \<le> k) [1..<Suc (in_probes s)])"
  using hb_reach_inv [OF assms(1)] assms(2) by (simp add: hb_inv_def hb_requests_def unat_of_nat)

text \<open>A server that is ready and answers the probe at once: the answer waits in the queue while
  the tick arm runs into its timeout.\<close>

definition ready_world :: mux_world where
  "ready_world = (let w = sys_world (sys_init example_config) in
     w\<lparr>w_state := (w_state w)\<lparr>ms_server_status := StRunning, ms_server_initialized := True\<rparr>\<rparr>)"

lemma heartbeat_run:
  "\<exists>s. hb_reach heartbeat_config_default ready_world s \<and> in_rx s = [heartbeat_id 1] \<and> in_probes s = 1"
proof -
  let ?c = heartbeat_config_default
  let ?s0 = "inspector_start ?c ready_world"
  let ?h = "(heartbeat_state_new ?c)\<lparr>hb_next_heartbeat_id := 2\<rparr>"
  let ?w = "ready_world\<lparr>w_to_server := w_to_server ready_world @ [probe_message (heartbeat_id 1)]\<rparr>"
  let ?s1 = "?s0\<lparr>in_hb := ?h\<lparr>hb_pending := hm_insert (heartbeat_id 1) 0 (hb_pending ?h)\<rparr>,
    in_world := ?w, in_phase := Waiting (heartbeat_id 1) 0\<rparr>"
  let ?s2 = "?s1\<lparr>in_rx := in_rx ?s1 @ [heartbeat_id 1]\<rparr>"
  let ?s3 = "finish_probe (hc_timeout ?c) (record_failure ((in_hb ?s2)\<lparr>hb_pending :=
      hm_remove (heartbeat_id 1) (hb_pending (in_hb ?s2))\<rparr>)) ?s2"
  have ready: "probe_ready (w_state (in_world ?s0))" and opn: "w_to_server_open ready_world"
    by (simp_all add: probe_ready_def inspector_start_def ready_world_def sys_init_def Let_def)
  have "hb_step ?s0 ?s1"
    by (rule hb_step.tick_sent [OF _ ready])
      (use opn in \<open>simp_all add: inspector_start_def heartbeat_config_default_def heartbeat_next_id_def
        heartbeat_state_new_def chan_send_def\<close>)
  moreover have "hb_step ?s1 ?s2" by (rule hb_step.router) simp
  moreover have "hb_step ?s2 ?s3"
    by (rule hb_step.timed_out [where t = 0])
      (simp_all add: inspector_start_def heartbeat_state_new_def heartbeat_config_default_def)
  ultimately have "hb_reach ?c ready_world ?s3" by (meson hb_reach.start hb_reach.step)
  moreover have "in_rx ?s3 = [heartbeat_id 1] \<and> in_probes ?s3 = 1"
    by (simp add: inspector_start_def finish_probe_def)
  ultimately show ?thesis by blast
qed

theorem heartbeat_never_succeeds_witness:
  "\<exists>s. hb_reach heartbeat_config_default ready_world s \<and> in_rx s = [heartbeat_id 1] \<and>
     hbm_total_success (hb_metrics (in_hb s)) = 0 \<and>
     unat (hbm_consecutive_failures (hb_metrics (in_hb s))) = 1"
proof -
  obtain s where s: "hb_reach heartbeat_config_default ready_world s" "in_rx s = [heartbeat_id 1]"
    "in_probes s = 1" using heartbeat_run by blast
  with heartbeat_never_succeeds [OF s(1)] show ?thesis by auto
qed

section \<open>The window of response times\<close>

lemma push_sample_alt:
  "length ts \<le> RESPONSE_TIME_SAMPLES \<Longrightarrow>
     push_sample t ts = drop (Suc (length ts) - RESPONSE_TIME_SAMPLES) (ts @ [t])"
  by (cases ts) (auto simp: push_sample_def RESPONSE_TIME_SAMPLES_def drop_Suc Suc_diff_le)

lemma record_success_times:
  "hb_response_times (record_success u t h) = push_sample t (hb_response_times h)"
  by (simp add: record_success_def Let_def)

lemma window_samples:
  assumes "length (hb_response_times h) \<le> RESPONSE_TIME_SAMPLES"
  shows "hb_response_times (fold (\<lambda>t. record_success 0 t) ts h) =
    drop (length (hb_response_times h) + length ts - RESPONSE_TIME_SAMPLES) (hb_response_times h @ ts)"
proof (induction ts rule: rev_induct)
  case Nil
  then show ?case using assms by simp
next
  case (snoc t ts)
  let ?k = "length (hb_response_times h) + length ts - RESPONSE_TIME_SAMPLES"
  let ?W = "drop ?k (hb_response_times h @ ts)"
  have le: "length ?W \<le> RESPONSE_TIME_SAMPLES" by simp
  have len: "length ?W = min (length (hb_response_times h) + length ts) RESPONSE_TIME_SAMPLES"
    by (simp only: length_drop length_append min_def) arith
  have "hb_response_times (fold (\<lambda>t. record_success 0 t) (ts @ [t]) h) = push_sample t ?W"
    using snoc.IH by (simp add: record_success_times)
  also have "\<dots> = drop (Suc (length ?W) - RESPONSE_TIME_SAMPLES) (?W @ [t])"
    by (rule push_sample_alt [OF le])
  also have "?W @ [t] = drop ?k (hb_response_times h @ ts @ [t])" by simp
  also have "drop (Suc (length ?W) - RESPONSE_TIME_SAMPLES) \<dots> =
      drop (Suc (length ?W) - RESPONSE_TIME_SAMPLES + ?k) (hb_response_times h @ ts @ [t])"
    by (simp only: drop_drop)
  also have "Suc (length ?W) - RESPONSE_TIME_SAMPLES + ?k =
      length (hb_response_times h) + length (ts @ [t]) - RESPONSE_TIME_SAMPLES"
    unfolding len by (simp add: min_def) arith
  finally show ?case .
qed

lemma window_failures:
  "ts \<noteq> [] \<Longrightarrow> hbm_consecutive_failures (hb_metrics (fold (\<lambda>t. record_success 0 t) ts h)) = 0"
  by (induction ts rule: rev_induct) (simp_all add: record_success_def Let_def)

text \<open>The average is over the last ten samples: after any number of successes the window holds
  the most recent response times in order, never more than ten, and the failure counter is zero.\<close>

theorem response_window:
  fixes ts h
  defines "h' \<equiv> fold (\<lambda>t. record_success 0 t) ts h"
  assumes "ts \<noteq> []" and "length (hb_response_times h) \<le> RESPONSE_TIME_SAMPLES"
  shows "hb_response_times h' = drop (length (hb_response_times h) + length ts - RESPONSE_TIME_SAMPLES)
      (hb_response_times h @ ts) \<and>
    length (hb_response_times h') \<le> RESPONSE_TIME_SAMPLES \<and>
    hbm_consecutive_failures (hb_metrics h') = 0"
  using window_samples [OF assms(3), of ts] window_failures [OF assms(2), of h]
  by (simp add: h'_def)

theorem response_window_witness:
  "length (hb_response_times (fold (\<lambda>t. record_success 0 t) (replicate 25 7)
     (heartbeat_state_new heartbeat_config_default))) \<le> 10"
  using response_window [of "replicate 25 7" "heartbeat_state_new heartbeat_config_default"]
  by (simp add: heartbeat_state_new_def RESPONSE_TIME_SAMPLES_def)

end
