(* ===== verification/Mux_Path.thy ===== *)
theory Mux_Path
  imports Mux_Prelude
begin

text \<open>
  The part of \<open>std::path\<close> (Unix) the program uses.  A path is its string.  \<open>components\<close> ignores
  repeated separators, a trailing separator and \<open>.\<close> except at the front, as the standard library
  does.  \<open>parent\<close> is rendered from its components, so it is the standard library's result up to
  the repeated separators that path equality ignores.
\<close>

section \<open>Splitting\<close>

text \<open>\<open>str::split\<close> at a character.\<close>

fun split_char :: "char \<Rightarrow> string \<Rightarrow> string list" where
  "split_char c [] = [[]]"
| "split_char c (x # xs) =
     (if x = c then [] # split_char c xs
      else case split_char c xs of [] \<Rightarrow> [[x]] | y # ys \<Rightarrow> (x # y) # ys)"

lemma split_char_nonempty [simp]: "split_char c s \<noteq> []"
  by (cases s) (auto split: list.splits)

lemma split_char_pieces: "p \<in> set (split_char c s) \<Longrightarrow> c \<notin> set p"
proof (induction s arbitrary: p)
  case (Cons x xs)
  then show ?case by (cases "split_char c xs") (auto split: if_splits)
qed simp

lemma split_char_join: "join [c] (split_char c s) = s"
proof (induction s)
  case (Cons x xs)
  obtain y ys where ys: "split_char c xs = y # ys" by (cases "split_char c xs") simp_all
  with Cons show ?case by (cases ys) auto
qed simp

lemma split_char_append:
  "c \<notin> set p \<Longrightarrow> split_char c (p @ c # s) = p # split_char c s"
  by (induction p) auto

lemma split_char_id: "c \<notin> set p \<Longrightarrow> split_char c p = [p]"
  by (induction p) auto

lemma split_char_append_any: "split_char c (xs @ c # ys) = split_char c xs @ split_char c ys"
proof (induction xs)
  case (Cons x xs)
  obtain z zs where "split_char c xs = z # zs" by (cases "split_char c xs") simp_all
  with Cons show ?case by auto
qed simp

text \<open>\<open>s.split('.').next()\<close>.\<close>

definition first_piece :: "char \<Rightarrow> string \<Rightarrow> string" where
  "first_piece c s = hd (split_char c s)"

lemma first_piece_takeWhile: "first_piece c s = takeWhile (\<lambda>x. x \<noteq> c) s"
proof (induction s)
  case (Cons x xs)
  obtain y ys where "split_char c xs = y # ys" by (cases "split_char c xs") simp_all
  with Cons show ?case by (simp add: first_piece_def)
qed (simp add: first_piece_def)

section \<open>Components\<close>

datatype component = RootDir | CurDir | ParentDir | Normal string

definition piece_component :: "string \<Rightarrow> component" where
  "piece_component p = (if p = ''..'' then ParentDir else Normal p)"

definition is_absolute :: "string \<Rightarrow> bool" where
  "is_absolute p = starts_with p ''/''"

definition components :: "string \<Rightarrow> component list" where
  "components p =
     (let pieces = split_char (CHR ''/'') p;
          front = (if is_absolute p then [RootDir] else if hd pieces = ''.'' then [CurDir] else [])
      in front @ map piece_component (filter (\<lambda>q. q \<noteq> [] \<and> q \<noteq> ''.'') pieces))"

fun component_str :: "component \<Rightarrow> string" where
  "component_str RootDir = []"
| "component_str CurDir = ''.''"
| "component_str ParentDir = ''..''"
| "component_str (Normal s) = s"

definition render :: "component list \<Rightarrow> string" where
  "render cs = (if cs = [RootDir] then ''/'' else join ''/'' (map component_str cs))"

definition file_name :: "string \<Rightarrow> string option" where
  "file_name p = (case rev (components p) of Normal n # _ \<Rightarrow> Some n | _ \<Rightarrow> None)"

definition path_parent :: "string \<Rightarrow> string option" where
  "path_parent p = (case rev (components p) of
     [] \<Rightarrow> None | RootDir # _ \<Rightarrow> None | _ # cs \<Rightarrow> Some (render (rev cs)))"

definition path_join :: "string \<Rightarrow> string \<Rightarrow> string" where
  "path_join p q = (if is_absolute q then q else if p = [] then q
     else if last p = CHR ''/'' then p @ q else p @ ''/'' @ q)"

text \<open>The name is split at its last dot, unless that dot is its first character.\<close>

definition split_name :: "string \<Rightarrow> string \<times> string option" where
  "split_name n =
     (let after = takeWhile (\<lambda>c. c \<noteq> CHR ''.'') (rev n);
          before = drop (Suc (length after)) (rev n)
      in if n = ''..'' \<or> length after = length n \<or> before = [] then (n, None)
         else (rev before, Some (rev after)))"

definition file_stem :: "string \<Rightarrow> string option" where
  "file_stem p = map_option (\<lambda>n. fst (split_name n)) (file_name p)"

definition extension :: "string \<Rightarrow> string option" where
  "extension p = Option.bind (file_name p) (\<lambda>n. snd (split_name n))"

definition has_parent_component :: "string \<Rightarrow> bool" where
  "has_parent_component p = (ParentDir \<in> set (components p))"

lemma has_parent_component_iff:
  "has_parent_component p \<longleftrightarrow> ''..'' \<in> set (split_char (CHR ''/'') p)"
  by (auto simp: has_parent_component_def components_def piece_component_def Let_def)

lemma file_name_Some:
  assumes "file_name p = Some n"
  shows "n \<in> set (split_char (CHR ''/'') p)" "n \<noteq> []" "n \<noteq> ''.''" "n \<noteq> ''..''" "CHR ''/'' \<notin> set n"
proof -
  from assms obtain cs where "rev (components p) = Normal n # cs"
    by (auto simp: file_name_def split: list.splits component.splits)
  then have "Normal n \<in> set (components p)" by (metis list.set_intros(1) set_rev)
  then have n: "n \<in> set (split_char (CHR ''/'') p) \<and> n \<noteq> [] \<and> n \<noteq> ''.'' \<and> n \<noteq> ''..''"
    by (auto simp: components_def piece_component_def Let_def split: if_splits)
  then show "n \<in> set (split_char (CHR ''/'') p)" "n \<noteq> []" "n \<noteq> ''.''" "n \<noteq> ''..''" by simp_all
  from n show "CHR ''/'' \<notin> set n" by (blast dest: split_char_pieces)
qed

lemma file_name_join:
  assumes "n \<noteq> []" "n \<noteq> ''.''" "n \<noteq> ''..''" "CHR ''/'' \<notin> set n" "d \<noteq> []" "last d \<noteq> CHR ''/''"
  shows "path_join d n = d @ ''/'' @ n"
  using assms by (cases n) (auto simp: path_join_def is_absolute_def starts_with_def)

lemma file_name_last:
  assumes n: "n \<noteq> []" "n \<noteq> ''.''" "n \<noteq> ''..''" "CHR ''/'' \<notin> set n"
  shows "file_name n = Some n" "file_name (x @ ''/'' @ n) = Some n"
proof -
  have p: "filter (\<lambda>q. q \<noteq> [] \<and> q \<noteq> ''.'') (split_char (CHR ''/'') n) = [n]"
    using n by (simp add: split_char_id)
  then show "file_name n = Some n"
    using n by (simp add: file_name_def components_def Let_def piece_component_def split_char_id)
  have "split_char (CHR ''/'') (x @ ''/'' @ n) = split_char (CHR ''/'') x @ [n]"
    using n by (simp add: split_char_append_any split_char_id)
  then show "file_name (x @ ''/'' @ n) = Some n"
    using n by (simp add: file_name_def components_def Let_def piece_component_def)
qed

lemma file_name_join_last:
  assumes "n \<noteq> []" "n \<noteq> ''.''" "n \<noteq> ''..''" "CHR ''/'' \<notin> set n"
  shows "file_name (path_join d n) = Some n"
proof (cases "d = []")
  case True
  then show ?thesis using assms file_name_last by (simp add: path_join_def)
next
  case False
  have "\<not> is_absolute n" using assms by (cases n) (auto simp: is_absolute_def starts_with_def)
  moreover have "file_name (d @ n) = Some n" if "last d = CHR ''/''"
    using file_name_last(2) [OF assms, of "butlast d"] False that
    by (metis append.assoc append_Cons append_Nil append_butlast_last_id)
  ultimately show ?thesis using False file_name_last(2) [OF assms] by (simp add: path_join_def)
qed

end
