(* ===== verification/Mux_Config.thy ===== *)
theory Mux_Config
  imports Mux_Path
begin

text \<open>
  The configuration of the daemon: \<open>mux-agent/src/config.rs\<close> (files, command line, resolution)
  and the builder of \<open>mux-agent/src/lib.rs\<close>.  The value of \<open>HOME\<close> is an argument of the
  definitions that read it, and so is the view of the file system: what \<open>canonicalize\<close>,
  \<open>is_file\<close>, \<open>is_dir\<close>, \<open>create_dir_all\<close> and reading give at that moment.
\<close>

section \<open>Data\<close>

record server_config =
  sc_socket :: "string option"
  sc_cmd :: "string option"
  sc_args :: "string list option"
  sc_cwd :: "string option"
  sc_max_active_clients :: "nat option"
  sc_tray :: "bool option"
  sc_service_name :: "string option"
  sc_log_level :: "string option"
  sc_lazy_start :: "bool option"
  sc_max_request_bytes :: "nat option"
  sc_request_timeout_ms :: "u64 option"
  sc_restart_backoff_ms :: "u64 option"
  sc_restart_backoff_max_ms :: "u64 option"
  sc_max_restarts :: "u64 option"
  sc_status_file :: "string option"
  sc_env :: "(string, string) hashmap option"
  sc_heartbeat_interval_ms :: "u64 option"
  sc_heartbeat_timeout_ms :: "u64 option"
  sc_heartbeat_max_failures :: "u32 option"
  sc_heartbeat_enabled :: "bool option"

type_synonym config = "(string, server_config) hashmap"

record resolved_params =
  rp_socket :: string
  rp_cmd :: string
  rp_args :: "string list"
  rp_cwd :: "string option"
  rp_max_clients :: nat
  rp_tray_enabled :: bool
  rp_log_level :: string
  rp_service_name :: string
  rp_lazy_start :: bool
  rp_max_request_bytes :: nat
  rp_request_timeout :: duration
  rp_restart_backoff :: duration
  rp_restart_backoff_max :: duration
  rp_max_restarts :: u64
  rp_status_file :: "string option"
  rp_env :: "(string, string) hashmap option"
  rp_heartbeat_interval :: duration
  rp_heartbeat_timeout :: duration
  rp_heartbeat_max_failures :: u32
  rp_heartbeat_enabled :: bool

record cli_options =
  co_socket :: "string option"
  co_cmd :: "string option"
  co_args :: "string list"
  co_max_active_clients :: nat
  co_lazy_start :: "bool option"
  co_max_request_bytes :: "nat option"
  co_request_timeout_ms :: "u64 option"
  co_restart_backoff_ms :: "u64 option"
  co_restart_backoff_max_ms :: "u64 option"
  co_max_restarts :: "u64 option"
  co_log_level :: string
  co_tray :: bool
  co_service_name :: "string option"
  co_service :: "string option"
  co_status_file :: "string option"
  co_heartbeat_interval_ms :: "u64 option"
  co_heartbeat_timeout_ms :: "u64 option"
  co_heartbeat_max_failures :: "u32 option"
  co_heartbeat_enabled :: "bool option"
  co_only :: "string list option"
  co_except :: "string list option"

section \<open>Files\<close>

definition expand_path :: "string option \<Rightarrow> string \<Rightarrow> string" where
  "expand_path home raw =
     (if starts_with raw ''~/'' then
        (case home of Some h \<Rightarrow> path_join h (drop 2 raw) | None \<Rightarrow> raw)
      else raw)"

record fs_view =
  fv_canonicalize :: "string \<Rightarrow> string option"
  fv_is_file :: "string \<Rightarrow> bool"
  fv_is_dir :: "string \<Rightarrow> bool"
  fv_create_dir_all :: "string \<Rightarrow> bool"
  fv_read :: "string \<Rightarrow> string option"
  fv_exists :: "string \<Rightarrow> bool"

definition reject_parent_components :: "string \<Rightarrow> string + unit" where
  "reject_parent_components p =
     (if has_parent_component p
      then Inl (''refusing path with parent traversal component: '' @ p) else Inr ())"

definition vetted_existing_file :: "fs_view \<Rightarrow> string \<Rightarrow> string + string" where
  "vetted_existing_file fs p =
     (case reject_parent_components p of Inl e \<Rightarrow> Inl e
      | Inr _ \<Rightarrow> (case fv_canonicalize fs p of None \<Rightarrow> Inl (''failed to canonicalize '' @ p)
          | Some canonical \<Rightarrow> if \<not> fv_is_file fs canonical
              then Inl (''not a regular file: '' @ canonical) else Inr canonical))"

definition vetted_output_file :: "fs_view \<Rightarrow> string \<Rightarrow> string + string" where
  "vetted_output_file fs p =
     (case reject_parent_components p of Inl e \<Rightarrow> Inl e
      | Inr _ \<Rightarrow> (case path_parent p of None \<Rightarrow> Inl (''output path has no parent: '' @ p)
      | Some parent \<Rightarrow> if \<not> fv_create_dir_all fs parent
          then Inl (''failed to create directory '' @ parent)
          else (case fv_canonicalize fs parent of None \<Rightarrow> Inl (''failed to canonicalize '' @ parent)
          | Some safe_parent \<Rightarrow> if \<not> fv_is_dir fs safe_parent
              then Inl (''output parent is not a directory: '' @ safe_parent)
              else (case file_name p of None \<Rightarrow> Inl (''output path has no file name: '' @ p)
                | Some name \<Rightarrow> Inr (path_join safe_parent name)))))"

definition safe_read_to_string :: "fs_view \<Rightarrow> string \<Rightarrow> string + string" where
  "safe_read_to_string fs p =
     (case vetted_existing_file fs p of Inl e \<Rightarrow> Inl e
      | Inr safe_path \<Rightarrow> (case fv_read fs safe_path of
          None \<Rightarrow> Inl (''failed to open '' @ safe_path) | Some data \<Rightarrow> Inr data))"

text \<open>The copy reads the vetted source and names the file it creates.\<close>

definition safe_copy_file :: "fs_view \<Rightarrow> string \<Rightarrow> string \<Rightarrow> string + (string \<times> string)" where
  "safe_copy_file fs src dst =
     (case vetted_existing_file fs src of Inl e \<Rightarrow> Inl e
      | Inr safe_src \<Rightarrow> (case vetted_output_file fs dst of Inl e \<Rightarrow> Inl e
          | Inr safe_dst \<Rightarrow> (case fv_read fs safe_src of
              None \<Rightarrow> Inl (''failed to open '' @ safe_src) | Some data \<Rightarrow> Inr (safe_dst, data))))"

text \<open>The parsers of the three formats are parameters.\<close>

definition load_config ::
  "(string \<Rightarrow> config option) \<Rightarrow> (string \<Rightarrow> config option) \<Rightarrow> (string \<Rightarrow> config option) \<Rightarrow>
   fs_view \<Rightarrow> string \<Rightarrow> string + config option" where
  "load_config yaml toml js fs p =
     (if \<not> fv_exists fs p then Inr None
      else case safe_read_to_string fs p of
        Inl e \<Rightarrow> Inl (''failed to read config at '' @ p)
      | Inr data \<Rightarrow>
          (let ext = to_ascii_lowercase (case extension p of None \<Rightarrow> [] | Some e \<Rightarrow> e) in
           if ext = ''yaml'' \<or> ext = ''yml''
           then (case yaml data of None \<Rightarrow> Inl (''failed to parse yaml config '' @ p) | Some c \<Rightarrow> Inr (Some c))
           else if ext = ''toml''
           then (case toml data of None \<Rightarrow> Inl (''failed to parse toml config '' @ p) | Some c \<Rightarrow> Inr (Some c))
           else (case js data of None \<Rightarrow> Inl (''failed to parse json config '' @ p) | Some c \<Rightarrow> Inr (Some c))))"

section \<open>Resolution\<close>

text \<open>\<open>a.or_else(|| b)\<close> and \<open>a.or_else(|| b).unwrap_or(d)\<close>.\<close>

definition opt_or :: "'a option \<Rightarrow> 'a option \<Rightarrow> 'a option" where
  "opt_or a b = (case a of Some x \<Rightarrow> Some x | None \<Rightarrow> b)"

definition layered :: "'a option \<Rightarrow> 'a option \<Rightarrow> 'a \<Rightarrow> 'a" where
  "layered a b d = (case opt_or a b of Some x \<Rightarrow> x | None \<Rightarrow> d)"

text \<open>The part of the socket's file name before the first dot, or \<open>rust_mux\<close>.\<close>

definition derived_service_name :: "string \<Rightarrow> string" where
  "derived_service_name socket =
     (case file_name socket of Some n \<Rightarrow> first_piece (CHR ''.'') n | None \<Rightarrow> ''rust_mux'')"

definition resolve_with ::
  "string option \<Rightarrow> cli_options \<Rightarrow> server_config option \<Rightarrow> string + resolved_params" where
  "resolve_with home cli svc =
     (case opt_or (co_socket cli) (map_option (expand_path home) (Option.bind svc sc_socket)) of
        None \<Rightarrow> Inl ''socket path not provided (use --socket or config)''
      | Some socket \<Rightarrow>
      (case opt_or (co_cmd cli) (Option.bind svc sc_cmd) of
        None \<Rightarrow> Inl ''cmd not provided (use --cmd or config)''
      | Some cmd \<Rightarrow> Inr \<lparr>
          rp_socket = socket, rp_cmd = cmd,
          rp_args = (if co_args cli \<noteq> [] then co_args cli else layered None (Option.bind svc sc_args) []),
          rp_cwd = map_option (expand_path home) (Option.bind svc sc_cwd),
          rp_max_clients = layered None (Option.bind svc sc_max_active_clients) (co_max_active_clients cli),
          rp_tray_enabled = (if co_tray cli then True else layered None (Option.bind svc sc_tray) False),
          rp_log_level = layered None (Option.bind svc sc_log_level) (co_log_level cli),
          rp_service_name = layered (co_service_name cli) (Option.bind svc sc_service_name)
            (derived_service_name socket),
          rp_lazy_start = layered (co_lazy_start cli) (Option.bind svc sc_lazy_start) False,
          rp_max_request_bytes =
            layered (co_max_request_bytes cli) (Option.bind svc sc_max_request_bytes) 1048576,
          rp_request_timeout = from_millis
            (layered (co_request_timeout_ms cli) (Option.bind svc sc_request_timeout_ms) 30000),
          rp_restart_backoff = from_millis
            (layered (co_restart_backoff_ms cli) (Option.bind svc sc_restart_backoff_ms) 1000),
          rp_restart_backoff_max = from_millis
            (layered (co_restart_backoff_max_ms cli) (Option.bind svc sc_restart_backoff_max_ms) 30000),
          rp_max_restarts = layered (co_max_restarts cli) (Option.bind svc sc_max_restarts) 5,
          rp_status_file = opt_or (co_status_file cli)
            (map_option (expand_path home) (Option.bind svc sc_status_file)),
          rp_env = Option.bind svc sc_env,
          rp_heartbeat_interval = from_millis
            (layered (co_heartbeat_interval_ms cli) (Option.bind svc sc_heartbeat_interval_ms) 30000),
          rp_heartbeat_timeout = from_millis
            (layered (co_heartbeat_timeout_ms cli) (Option.bind svc sc_heartbeat_timeout_ms) 30000),
          rp_heartbeat_max_failures =
            layered (co_heartbeat_max_failures cli) (Option.bind svc sc_heartbeat_max_failures) 3,
          rp_heartbeat_enabled =
            layered (co_heartbeat_enabled cli) (Option.bind svc sc_heartbeat_enabled) True\<rparr>))"

definition resolve_params ::
  "string option \<Rightarrow> cli_options \<Rightarrow> config option \<Rightarrow> string + resolved_params" where
  "resolve_params home cli cfg =
     (case cfg of
        None \<Rightarrow> resolve_with home cli None
      | Some servers \<Rightarrow>
          (case co_service cli of
             None \<Rightarrow> Inl ''--service is required when using --config''
           | Some name \<Rightarrow>
               (case hm_get servers name of
                  None \<Rightarrow> Inl (''service '' @ [char_of (39::nat)] @ name @ [char_of (39::nat)] @ '' not found in config'')
                | Some found \<Rightarrow> resolve_with home cli (Some found))))"

text \<open>\<open>SingleCli\<close> answers like its parent, but with the service fixed and no selection.\<close>

definition single_cli :: "cli_options \<Rightarrow> string \<Rightarrow> cli_options" where
  "single_cli cli name = cli\<lparr>co_service := Some name, co_only := None, co_except := None\<rparr>"

definition service_selected :: "cli_options \<Rightarrow> string \<Rightarrow> bool" where
  "service_selected cli name \<longleftrightarrow>
     (case co_only cli of None \<Rightarrow> True | Some l \<Rightarrow> name \<in> set l) \<and>
     (case co_except cli of None \<Rightarrow> True | Some l \<Rightarrow> name \<notin> set l)"

fun resolve_names ::
  "string option \<Rightarrow> cli_options \<Rightarrow> config \<Rightarrow> string list \<Rightarrow> string + resolved_params list" where
  "resolve_names home cli cfg [] = Inr []"
| "resolve_names home cli cfg (name # names) =
     (if \<not> service_selected cli name then resolve_names home cli cfg names
      else case resolve_params home (single_cli cli name) (Some cfg) of
        Inl e \<Rightarrow> Inl e
      | Inr p \<Rightarrow> (case resolve_names home cli cfg names of Inl e \<Rightarrow> Inl e | Inr ps \<Rightarrow> Inr (p # ps)))"

definition resolve_params_multi ::
  "string option \<Rightarrow> cli_options \<Rightarrow> config \<Rightarrow> string + resolved_params list" where
  "resolve_params_multi home cli cfg = resolve_names home cli cfg (map fst cfg)"

section \<open>The builder\<close>

record mux_config =
  mx_socket :: string
  mx_cmd :: string
  mx_args :: "string list"
  mx_env :: "(string, string) hashmap"
  mx_max_clients :: nat
  mx_service_name :: "string option"
  mx_log_level :: string
  mx_lazy_start :: bool
  mx_max_request_bytes :: nat
  mx_request_timeout :: duration
  mx_restart_backoff :: duration
  mx_restart_backoff_max :: duration
  mx_max_restarts :: u64
  mx_status_file :: "string option"
  mx_tray_enabled :: bool
  mx_heartbeat_interval :: duration
  mx_heartbeat_timeout :: duration
  mx_heartbeat_max_failures :: u32
  mx_heartbeat_enabled :: bool

definition mux_config_new :: "string \<Rightarrow> string \<Rightarrow> mux_config" where
  "mux_config_new socket cmd = \<lparr>mx_socket = socket, mx_cmd = cmd, mx_args = [], mx_env = [],
     mx_max_clients = 5, mx_service_name = None, mx_log_level = ''info'', mx_lazy_start = False,
     mx_max_request_bytes = 1048576, mx_request_timeout = from_secs 30,
     mx_restart_backoff = from_secs 1, mx_restart_backoff_max = from_secs 30, mx_max_restarts = 5,
     mx_status_file = None, mx_tray_enabled = False, mx_heartbeat_interval = from_secs 30,
     mx_heartbeat_timeout = from_secs 30, mx_heartbeat_max_failures = 3, mx_heartbeat_enabled = True\<rparr>"

definition with_args :: "string list \<Rightarrow> mux_config \<Rightarrow> mux_config" where
  "with_args a c = c\<lparr>mx_args := a\<rparr>"

definition with_env :: "(string, string) hashmap \<Rightarrow> mux_config \<Rightarrow> mux_config" where
  "with_env e c = c\<lparr>mx_env := e\<rparr>"

definition with_env_var :: "string \<Rightarrow> string \<Rightarrow> mux_config \<Rightarrow> mux_config" where
  "with_env_var k v c = c\<lparr>mx_env := hm_insert k v (mx_env c)\<rparr>"

definition with_max_clients :: "nat \<Rightarrow> mux_config \<Rightarrow> mux_config" where
  "with_max_clients n c = c\<lparr>mx_max_clients := n\<rparr>"

definition with_service_name :: "string \<Rightarrow> mux_config \<Rightarrow> mux_config" where
  "with_service_name n c = c\<lparr>mx_service_name := Some n\<rparr>"

definition with_log_level :: "string \<Rightarrow> mux_config \<Rightarrow> mux_config" where
  "with_log_level l c = c\<lparr>mx_log_level := l\<rparr>"

definition with_lazy_start :: "bool \<Rightarrow> mux_config \<Rightarrow> mux_config" where
  "with_lazy_start b c = c\<lparr>mx_lazy_start := b\<rparr>"

definition with_max_request_bytes :: "nat \<Rightarrow> mux_config \<Rightarrow> mux_config" where
  "with_max_request_bytes n c = c\<lparr>mx_max_request_bytes := n\<rparr>"

definition with_request_timeout :: "duration \<Rightarrow> mux_config \<Rightarrow> mux_config" where
  "with_request_timeout d c = c\<lparr>mx_request_timeout := d\<rparr>"

definition with_restart_backoff :: "duration \<Rightarrow> duration \<Rightarrow> mux_config \<Rightarrow> mux_config" where
  "with_restart_backoff i m c = c\<lparr>mx_restart_backoff := i, mx_restart_backoff_max := m\<rparr>"

definition with_max_restarts :: "u64 \<Rightarrow> mux_config \<Rightarrow> mux_config" where
  "with_max_restarts n c = c\<lparr>mx_max_restarts := n\<rparr>"

definition with_status_file :: "string \<Rightarrow> mux_config \<Rightarrow> mux_config" where
  "with_status_file p c = c\<lparr>mx_status_file := Some p\<rparr>"

definition with_tray :: "bool \<Rightarrow> mux_config \<Rightarrow> mux_config" where
  "with_tray b c = c\<lparr>mx_tray_enabled := b\<rparr>"

definition with_heartbeat :: "duration \<Rightarrow> duration \<Rightarrow> mux_config \<Rightarrow> mux_config" where
  "with_heartbeat i t c = c\<lparr>mx_heartbeat_interval := i, mx_heartbeat_timeout := t\<rparr>"

definition with_heartbeat_max_failures :: "u32 \<Rightarrow> mux_config \<Rightarrow> mux_config" where
  "with_heartbeat_max_failures n c = c\<lparr>mx_heartbeat_max_failures := n\<rparr>"

definition with_heartbeat_enabled :: "bool \<Rightarrow> mux_config \<Rightarrow> mux_config" where
  "with_heartbeat_enabled b c = c\<lparr>mx_heartbeat_enabled := b\<rparr>"

definition mux_config_service_name :: "mux_config \<Rightarrow> string" where
  "mux_config_service_name c =
     (case mx_service_name c of Some n \<Rightarrow> n | None \<Rightarrow> derived_service_name (mx_socket c))"

definition from_mux_config :: "mux_config \<Rightarrow> resolved_params" where
  "from_mux_config c = \<lparr>rp_socket = mx_socket c, rp_cmd = mx_cmd c, rp_args = mx_args c, rp_cwd = None,
     rp_max_clients = mx_max_clients c, rp_tray_enabled = mx_tray_enabled c,
     rp_log_level = mx_log_level c, rp_service_name = mux_config_service_name c,
     rp_lazy_start = mx_lazy_start c, rp_max_request_bytes = mx_max_request_bytes c,
     rp_request_timeout = mx_request_timeout c, rp_restart_backoff = mx_restart_backoff c,
     rp_restart_backoff_max = mx_restart_backoff_max c, rp_max_restarts = mx_max_restarts c,
     rp_status_file = mx_status_file c, rp_env = None, rp_heartbeat_interval = from_secs 30,
     rp_heartbeat_timeout = from_secs 30, rp_heartbeat_max_failures = 3, rp_heartbeat_enabled = True\<rparr>"

section \<open>Properties\<close>

lemmas sum_option_splits = option.splits sum.splits

lemma resolve_with_ok:
  "(\<exists>p. resolve_with home cli svc = Inr p) \<longleftrightarrow>
     (co_socket cli \<noteq> None \<or> Option.bind svc sc_socket \<noteq> None) \<and>
     (co_cmd cli \<noteq> None \<or> Option.bind svc sc_cmd \<noteq> None)"
  by (auto simp: resolve_with_def opt_or_def split: option.splits)

text \<open>When resolution succeeds.  Parameters come out exactly when a socket and a command are
  given on the command line or by the selected service; with a config file a service must be named
  and known, also when the command line alone would do.\<close>

theorem resolve_succeeds_iff:
  "(\<exists>p. resolve_params home cli cfg = Inr p) \<longleftrightarrow>
     (case cfg of
        None \<Rightarrow> co_socket cli \<noteq> None \<and> co_cmd cli \<noteq> None
      | Some servers \<Rightarrow> (\<exists>name svc. co_service cli = Some name \<and> hm_get servers name = Some svc \<and>
          (co_socket cli \<noteq> None \<or> sc_socket svc \<noteq> None) \<and> (co_cmd cli \<noteq> None \<or> sc_cmd svc \<noteq> None)))"
  using resolve_with_ok by (auto simp: resolve_params_def split: option.splits)

lemma resolve_names_ok:
  assumes "resolve_names home cli cfg names = Inr ps"
  shows "length ps = length (filter (service_selected cli) names) \<and>
    list_all2 (\<lambda>name p. resolve_params home (single_cli cli name) (Some cfg) = Inr p)
      (filter (service_selected cli) names) ps"
  using assms
proof (induction names arbitrary: ps)
  case (Cons name names)
  then show ?case by (auto split: if_splits sum.splits)
qed simp

lemma resolve_socket:
  "resolve_params home cli cfg = Inr p \<Longrightarrow> co_socket cli = Some s \<Longrightarrow> rp_socket p = s"
  by (auto simp: resolve_params_def resolve_with_def opt_or_def split: option.splits)

text \<open>Several services, one socket.  Resolving all services of a config gives one parameter set
  per selected service, in order; but a socket given on the command line is handed to every one of
  them, so all daemons are told to bind the same path.\<close>

theorem multi_shares_cli_socket:
  assumes r: "resolve_params_multi home cli cfg = Inr ps" and s: "co_socket cli = Some s"
  shows "length ps = length (filter (service_selected cli) (map fst cfg)) \<and>
    (\<forall>p \<in> set ps. rp_socket p = s)"
proof -
  note ok = resolve_names_ok [OF r [unfolded resolve_params_multi_def]]
  have "rp_socket p = s" if "p \<in> set ps" for p
  proof -
    obtain i where "i < length ps" "ps ! i = p" using \<open>p \<in> set ps\<close> by (auto simp: in_set_conv_nth)
    then obtain name where "resolve_params home (single_cli cli name) (Some cfg) = Inr p"
      using list_all2_nthD2 [OF conjunct2 [OF ok]] by blast
    then show ?thesis by (rule resolve_socket) (simp add: single_cli_def s)
  qed
  with ok show ?thesis by blast
qed

definition example_cli :: cli_options where
  "example_cli = \<lparr>co_socket = Some ''/tmp/a.sock'', co_cmd = None, co_args = [],
     co_max_active_clients = 5, co_lazy_start = None, co_max_request_bytes = None,
     co_request_timeout_ms = None, co_restart_backoff_ms = None, co_restart_backoff_max_ms = None,
     co_max_restarts = None, co_log_level = ''info'', co_tray = False, co_service_name = None,
     co_service = None, co_status_file = None, co_heartbeat_interval_ms = None,
     co_heartbeat_timeout_ms = None, co_heartbeat_max_failures = None, co_heartbeat_enabled = None,
     co_only = None, co_except = None\<rparr>"

definition example_service :: "string \<Rightarrow> server_config" where
  "example_service sock = \<lparr>sc_socket = Some sock, sc_cmd = Some ''npx'', sc_args = None, sc_cwd = None,
     sc_max_active_clients = None, sc_tray = None, sc_service_name = None, sc_log_level = None,
     sc_lazy_start = None, sc_max_request_bytes = None, sc_request_timeout_ms = None,
     sc_restart_backoff_ms = None, sc_restart_backoff_max_ms = None, sc_max_restarts = None,
     sc_status_file = None, sc_env = None, sc_heartbeat_interval_ms = None,
     sc_heartbeat_timeout_ms = None, sc_heartbeat_max_failures = None, sc_heartbeat_enabled = None\<rparr>"

theorem multi_shares_cli_socket_witness:
  "\<exists>p q. resolve_params_multi None example_cli
       [(''a'', example_service ''~/a.sock''), (''b'', example_service ''~/b.sock'')] = Inr [p, q] \<and>
     rp_socket p = ''/tmp/a.sock'' \<and> rp_socket q = ''/tmp/a.sock''"
proof -
  let ?cfg = "[(''a'', example_service ''~/a.sock''), (''b'', example_service ''~/b.sock'')]"
  obtain p q where r: "resolve_params_multi None example_cli ?cfg = Inr [p, q]"
    by (simp add: resolve_params_multi_def service_selected_def resolve_params_def resolve_with_def
        single_cli_def opt_or_def example_cli_def example_service_def)
  have "co_socket example_cli = Some ''/tmp/a.sock''" by (simp add: example_cli_def)
  from multi_shares_cli_socket [OF r this] r show ?thesis by auto
qed

text \<open>The builder's environment and heartbeat settings are lost.  Whatever environment, interval,
  timeout, failure limit or switch an embedding program sets, the parameters of the daemon have no
  environment and the default heartbeat, while every other setting arrives.\<close>

theorem builder_drops_env_and_heartbeat:
  "from_mux_config (with_env e (with_heartbeat i t (with_heartbeat_max_failures n
      (with_heartbeat_enabled b c)))) = from_mux_config c \<and>
   rp_env (from_mux_config c) = None \<and> rp_heartbeat_enabled (from_mux_config c) \<and>
   rp_args (from_mux_config (with_args a c)) = a \<and>
   rp_max_restarts (from_mux_config (with_max_restarts r c)) = r \<and>
   rp_request_timeout (from_mux_config (with_request_timeout d c)) = d \<and>
   rp_service_name (from_mux_config (with_service_name nm c)) = nm"
  by (simp add: from_mux_config_def with_env_def with_heartbeat_def with_heartbeat_max_failures_def
      with_heartbeat_enabled_def with_args_def with_max_restarts_def with_request_timeout_def
      with_service_name_def mux_config_service_name_def split: option.splits)

text \<open>an output file stays in its directory.  When an output path is accepted, the file is a
  direct child of the canonical form of its parent: the name has no separator and is not \<open>..\<close>, and
  the given path had no \<open>..\<close> anywhere.\<close>

theorem vetted_output_contained:
  assumes "vetted_output_file fs p = Inr out"
  shows "\<exists>parent dir name. path_parent p = Some parent \<and> fv_canonicalize fs parent = Some dir \<and>
    fv_is_dir fs dir \<and> file_name p = Some name \<and> out = path_join dir name \<and>
    CHR ''/'' \<notin> set name \<and> name \<noteq> ''..'' \<and> name \<noteq> [] \<and> \<not> has_parent_component p"
proof -
  from assms obtain parent dir name where "path_parent p = Some parent" "fv_canonicalize fs parent = Some dir"
    "fv_is_dir fs dir" and n: "file_name p = Some name" and "out = path_join dir name" "\<not> has_parent_component p"
    by (auto simp: vetted_output_file_def reject_parent_components_def split: option.splits sum.splits if_splits)
  with file_name_Some [OF n] show ?thesis by blast
qed

definition example_fs :: fs_view where
  "example_fs = \<lparr>fv_canonicalize = Some, fv_is_file = (\<lambda>_. True), fv_is_dir = (\<lambda>_. True),
     fv_create_dir_all = (\<lambda>_. True), fv_read = (\<lambda>_. Some []), fv_exists = (\<lambda>_. True)\<rparr>"

theorem vetted_output_contained_witness:
  "\<exists>dir name. ''/etc/mux/c.toml'' = path_join dir name \<and> name \<noteq> ''..''"
proof -
  have "vetted_output_file example_fs ''/etc/mux/c.toml'' = Inr ''/etc/mux/c.toml''" by code_simp
  from vetted_output_contained [OF this] show ?thesis by blast
qed

end
