(* ===== verification/Mux_Embed.thy ===== *)
theory Mux_Embed
  imports Mux_Config Mux_Lifecycle
begin

text \<open>
  How the configuration reaches the running daemon: what \<open>run_mux_internal_with_status\<close> makes of
  the resolved parameters, and the restart command of \<open>mux-agent/src/lib.rs\<close>, which talks to the
  daemon as one of its clients.
\<close>

section \<open>From the parameters to the daemon\<close>

text \<open>What \<open>run_mux_internal_with_status\<close> makes of the parameters.\<close>

definition state_config_of :: "resolved_params \<Rightarrow> mux_state_config" where
  "state_config_of p = \<lparr>mc_max_active_clients = rp_max_clients p, mc_service_name = rp_service_name p,
     mc_max_request_bytes = rp_max_request_bytes p, mc_request_timeout = rp_request_timeout p,
     mc_restart_backoff = rp_restart_backoff p, mc_restart_backoff_max = rp_restart_backoff_max p,
     mc_max_restarts = rp_max_restarts p, mc_queue_depth = 0, mc_child_pid = None,
     mc_event_tx = Some []\<rparr>"

definition manager_config_of :: "resolved_params \<Rightarrow> manager_config" where
  "manager_config_of p = \<lparr>mg_cmd = rp_cmd p, mg_args = rp_args p, mg_cwd = rp_cwd p,
     mg_env = (case rp_env p of Some e \<Rightarrow> e | None \<Rightarrow> []), mg_lazy_start = rp_lazy_start p, mg_restart_backoff = rp_restart_backoff p,
     mg_restart_backoff_max = rp_restart_backoff_max p, mg_max_restarts = rp_max_restarts p\<rparr>"

section \<open>The restart command\<close>

text \<open>What \<open>restart_single\<close> of \<open>mux-agent/src/lib.rs\<close> sends, as the first message of a new client.\<close>

definition restart_message :: json where
  "restart_message = JObj (obj_of [(''jsonrpc'', JStr ''2.0''), (''id'', JInt 1),
     (''method'', JStr ''mux/restart''), (''params'', JObj [])])"

definition restart_single ::
  "string option \<Rightarrow> (string \<Rightarrow> bool) \<Rightarrow> config \<Rightarrow> string \<Rightarrow> string + (string \<times> json)" where
  "restart_single home exists_path cfg name =
     (case hm_get cfg name of
        None \<Rightarrow> Inl (''service '' @ [char_of (39::nat)] @ name @ [char_of (39::nat)] @ '' not found in config'')
      | Some svc \<Rightarrow> (case sc_socket svc of
          None \<Rightarrow> Inl (''service '' @ [char_of (39::nat)] @ name @ [char_of (39::nat)] @ '' has no socket configured'')
        | Some raw \<Rightarrow>
            (let socket = expand_path home raw in
             if \<not> exists_path socket
             then Inl (''service '' @ [char_of (39::nat)] @ name @ [char_of (39::nat)] @
               '' socket does not exist: '' @ socket)
             else Inr (socket, restart_message))))"

text \<open>the restart command restarts nothing.  The daemon treats the message \<open>restart_single\<close>
  sends as an ordinary early request: it is put in the buffer of the new client and nothing else
  happens; the server is not restarted and no answer is sent, until the handshake timeout ends the
  connection with an error.\<close>

theorem restart_command_only_buffered:
  assumes r: "restart_single home exists_path cfg name = Inr (socket, msg)"
    and h: "hm_get (ms_client_handshakes (w_state w)) cid = Some h" "\<not> hs_initialized h"
    and small: "enc_len msg \<le> ms_max_request_bytes (w_state w)"
    and late: "hs_connected_at h + HANDSHAKE_TIMEOUT < later"
    and w1: "w1 = client_frame enc_len now cid msg w"
  shows "w1 = w\<lparr>w_state := buffer_message cid msg (w_state w)\<rparr> \<and>
    is_handshake_timed_out later cid (w_state w1) \<and>
    outbox (w_state (handshake_tick later cid w1)) cid = None"
proof -
  have msg: "msg = restart_message"
    using r by (auto simp: restart_single_def Let_def split: option.splits if_splits)
  have "jget msg ''id'' = Some (JInt 1)" "msg_method msg = ''mux/restart''"
    unfolding msg by code_simp+
  then have w1': "w1 = w\<lparr>w_state := buffer_message cid msg (w_state w)\<rparr>"
    using h small
    by (simp add: w1 client_frame_def handle_client_message_def is_handshake_complete_def)
  have "is_handshake_timed_out later cid (w_state w1)"
    using h late by (simp add: w1' is_handshake_timed_out_def buffer_message_def hm_get_modify)
  then show ?thesis
    using w1' by (simp add: handshake_tick_def client_disconnect_def unregister_client_def hm_get_remove)
qed

theorem restart_command_only_buffered_witness:
  "\<exists>w1. w1 = client_frame example_len 5 1 restart_message (sys_world example_early_sys) \<and>
     w_to_server w1 = w_to_server (sys_world example_early_sys) \<and>
     ms_server_status (w_state w1) = ms_server_status (w_state (sys_world example_early_sys))"
proof -
  let ?w = "sys_world example_early_sys"
  let ?h = "\<lparr>hs_connected_at = 0, hs_initialized = False, hs_initialize_pending = True,
    hs_buffered_messages = [example_msg ''tools/list'' (JInt 7)]\<rparr>"
  have r: "restart_single None (\<lambda>_. True) [(''a'', example_service ''/tmp/a.sock'')] ''a'' =
      Inr (''/tmp/a.sock'', restart_message)"
    by (simp add: restart_single_def example_service_def expand_path_def starts_with_def)
  have h: "hm_get (ms_client_handshakes (w_state ?w)) 1 = Some ?h" by code_simp
  have small: "example_len restart_message \<le> ms_max_request_bytes (w_state ?w)" by code_simp
  have late: "hs_connected_at ?h + HANDSHAKE_TIMEOUT < HANDSHAKE_TIMEOUT + 1" by simp
  have early: "\<not> hs_initialized ?h" by simp
  from restart_command_only_buffered [where enc_len = example_len and now = 5, OF r h early small late refl]
  show ?thesis by (simp add: buffer_message_def)
qed

end
