(* ===== verification/Mux_Status.thy ===== *)
theory Mux_Status
  imports Mux_Runtime
begin

text \<open>
  The daemon-wide status (\<open>mux-agent/src/runtime/status.rs\<close>, \<open>mux-agent/src/multi.rs\<close>).  A server
  reference carries the state behind its mutex and the permits its semaphore has left.
\<close>

record multi_server_status =
  mss_name :: string
  mss_level :: status_level
  mss_status_text :: string
  mss_connected_clients :: nat
  mss_active_clients :: nat
  mss_max_active_clients :: nat
  mss_pending_requests :: nat
  mss_restarts :: u64
  mss_uptime_ms :: u64
  mss_in_backoff :: bool
  mss_heartbeat_latency_ms :: "u64 option"

definition format_uptime :: "u64 \<Rightarrow> string" where
  "format_uptime ms =
     (let secs = ms div 1000; mins = secs div 60; hours = mins div 60; days = hours div 24 in
      if 0 < days then nat_str (unat days) @ ''d '' @ nat_str (unat (hours mod 24)) @ ''h''
      else if 0 < hours then nat_str (unat hours) @ ''h '' @ nat_str (unat (mins mod 60)) @ ''m''
      else if 0 < mins then nat_str (unat mins) @ ''m '' @ nat_str (unat (secs mod 60)) @ ''s''
      else nat_str (unat secs) @ ''s'')"

record server_ref =
  sr_name :: string
  sr_state :: mux_state
  sr_permits :: nat
  sr_max_active_clients :: nat

record status_state =
  sts_servers :: "(string, server_ref) hashmap"
  sts_start_time :: instant

record daemon_status =
  ds_version :: string
  ds_uptime_ms :: u64
  ds_uptime :: string
  ds_server_count :: nat
  ds_running_count :: nat
  ds_error_count :: nat
  ds_servers :: "multi_server_status list"

definition status_state_new :: "instant \<Rightarrow> status_state" where
  "status_state_new now = \<lparr>sts_servers = [], sts_start_time = now\<rparr>"

definition register_server :: "server_ref \<Rightarrow> status_state \<Rightarrow> status_state" where
  "register_server r s = s\<lparr>sts_servers := hm_insert (sr_name r) r (sts_servers s)\<rparr>"

text \<open>The arms of the \<open>match\<close>: the level, the text, and what is added to the two counters.\<close>

fun classify_status :: "heartbeat_metrics \<Rightarrow> server_status \<Rightarrow> (status_level \<times> string) \<times> nat \<times> nat" where
  "classify_status hb StRunning =
     (if 0 < hbm_consecutive_failures hb then (LevelWarn, ''Running (heartbeat issues)'')
      else (LevelOk, ''Running''), 1, 0)"
| "classify_status hb StStarting = ((LevelOk, ''Starting''), 1, 0)"
| "classify_status hb StRestarting = ((LevelWarn, ''Restarting''), 1, 0)"
| "classify_status hb (StFailed reason) = ((LevelError, ''Failed: '' @ reason), 0, 1)"
| "classify_status hb StStopped = ((LevelLazy, ''Stopped''), 0, 0)"
| "classify_status hb StLazy = ((LevelLazy, ''Lazy (not started)''), 0, 0)"
| "classify_status hb StBackoff = ((LevelError, ''Backoff (restarting)''), 0, 1)"

definition server_row :: "instant \<Rightarrow> string \<Rightarrow> server_ref \<Rightarrow> multi_server_status" where
  "server_row now name r =
     (let st = sr_state r; c = fst (classify_status (ms_heartbeat_metrics st) (ms_server_status st)) in
      \<lparr>mss_name = name, mss_level = fst c, mss_status_text = snd c,
       mss_connected_clients = length (ms_clients st),
       mss_active_clients = sr_max_active_clients r - sr_permits r,
       mss_max_active_clients = sr_max_active_clients r,
       mss_pending_requests = length (ms_pending st), mss_restarts = ms_restarts st,
       mss_uptime_ms = (case ms_started_at st of Some t \<Rightarrow> as_millis_u64 (now - t) | None \<Rightarrow> 0),
       mss_in_backoff = ms_in_backoff st,
       mss_heartbeat_latency_ms = hbm_avg_response_ms (ms_heartbeat_metrics st)\<rparr>)"

definition server_counts :: "server_ref \<Rightarrow> nat \<times> nat" where
  "server_counts r = snd (classify_status (ms_heartbeat_metrics (sr_state r)) (ms_server_status (sr_state r)))"

text \<open>The crate version is the parameter \<open>version\<close>.\<close>

definition collect_status :: "string \<Rightarrow> instant \<Rightarrow> status_state \<Rightarrow> daemon_status" where
  "collect_status version now s =
     (let rows = map (\<lambda>(name, r). server_row now name r) (sts_servers s);
          running = sum_list (map (\<lambda>(name, r). fst (server_counts r)) (sts_servers s));
          errors = sum_list (map (\<lambda>(name, r). snd (server_counts r)) (sts_servers s));
          up = as_millis_u64 (now - sts_start_time s)
      in \<lparr>ds_version = version, ds_uptime_ms = up, ds_uptime = format_uptime up,
          ds_server_count = length (sts_servers s), ds_running_count = running,
          ds_error_count = errors, ds_servers = sort_key mss_name rows\<rparr>)"

definition short_status :: "string \<Rightarrow> string" where
  "short_status s =
     (if starts_with s ''Running'' then ''UP''
      else if starts_with s ''Starting'' then ''START''
      else if starts_with s ''Lazy'' then ''LAZY''
      else if starts_with s ''Failed'' then ''FAIL''
      else if starts_with s ''Backoff'' then ''BACK''
      else if starts_with s ''Restarting'' then ''RSTRT''
      else if starts_with s ''Stopped'' then ''STOP''
      else s)"

section \<open>Properties\<close>

fun short_label :: "server_status \<Rightarrow> string" where
  "short_label StStarting = ''START''"
| "short_label StRunning = ''UP''"
| "short_label StRestarting = ''RSTRT''"
| "short_label (StFailed _) = ''FAIL''"
| "short_label StStopped = ''STOP''"
| "short_label StLazy = ''LAZY''"
| "short_label StBackoff = ''BACK''"

lemma short_status_label: "short_status (snd (fst (classify_status hb s))) = short_label s"
  by (cases s) (simp_all add: short_status_def starts_with_def)

lemma counts_bound: "fst (server_counts r) + snd (server_counts r) \<le> 1"
  unfolding server_counts_def by (cases "ms_server_status (sr_state r)") simp_all

lemma sum_counts_bound:
  "sum_list (map (\<lambda>(name, r). fst (server_counts r)) xs) +
   sum_list (map (\<lambda>(name, r). snd (server_counts r)) xs) \<le> length xs"
proof (induction xs)
  case (Cons x xs)
  obtain n r where "x = (n, r)" by (cases x)
  with Cons counts_bound [of r] show ?case by simp
qed simp

lemma register_server_ok: "hm_ok (sts_servers s) \<Longrightarrow> hm_ok (sts_servers (register_server r s))"
  by (simp add: register_server_def)

lemma register_all_ok: "hm_ok (sts_servers s) \<Longrightarrow> hm_ok (sts_servers (fold register_server rs s))"
  by (induction rs arbitrary: s) (simp_all add: register_server_ok)

lemma register_all_keys:
  "hm_keys (sts_servers (fold register_server rs s)) = hm_keys (sts_servers s) \<union> sr_name ` set rs"
  by (induction rs arbitrary: s) (auto simp: register_server_def)

text \<open>The daemon status is complete and ordered.  After any registrations the report has exactly
  one row per registered name, sorted by name without repetition, the totals count rows and never
  count one row twice, and the table's short label of each row tells the seven states apart.\<close>

theorem daemon_status_complete:
  fixes rs now0 now version
  defines "s \<equiv> fold register_server rs (status_state_new now0)"
    and "d \<equiv> collect_status version now (fold register_server rs (status_state_new now0))"
  shows "set (map mss_name (ds_servers d)) = sr_name ` set rs \<and>
    sorted (map mss_name (ds_servers d)) \<and> distinct (map mss_name (ds_servers d)) \<and>
    ds_server_count d = length (ds_servers d) \<and>
    ds_running_count d + ds_error_count d \<le> ds_server_count d \<and>
    (\<forall>row \<in> set (ds_servers d). \<exists>r. hm_get (sts_servers s) (mss_name row) = Some r \<and>
      short_status (mss_status_text row) = short_label (ms_server_status (sr_state r)))"
proof -
  let ?rows = "map (\<lambda>(name, r). server_row now name r) (sts_servers s)"
  have ok: "hm_ok (sts_servers s)"
    unfolding s_def by (rule register_all_ok) (simp add: status_state_new_def)
  have keys: "hm_keys (sts_servers s) = sr_name ` set rs"
    unfolding s_def by (simp add: register_all_keys status_state_new_def)
  have names: "map mss_name ?rows = map fst (sts_servers s)"
    by (simp add: server_row_def Let_def case_prod_unfold)
  have d: "ds_servers d = sort_key mss_name ?rows" "ds_server_count d = length (sts_servers s)"
    by (simp_all add: d_def s_def collect_status_def Let_def)
  have "mset (map mss_name (ds_servers d)) = mset (map mss_name ?rows)"
    by (simp only: d(1) mset_map mset_sort)
  then have ms: "mset (map mss_name (ds_servers d)) = mset (map fst (sts_servers s))"
    by (simp only: names)
  have set: "set (map mss_name (ds_servers d)) = sr_name ` set rs"
    and dist: "distinct (map mss_name (ds_servers d))"
    using mset_eq_setD [OF ms] mset_eq_imp_distinct_iff [OF ms] keys ok by simp_all
  have "\<exists>r. hm_get (sts_servers s) (mss_name row) = Some r \<and>
      short_status (mss_status_text row) = short_label (ms_server_status (sr_state r))"
    if "row \<in> set (ds_servers d)" for row
  proof -
    from that obtain name r where "(name, r) \<in> set (sts_servers s)" "row = server_row now name r"
      by (auto simp: d(1))
    with ok show ?thesis
      by (auto simp: server_row_def Let_def hm_get_in_set short_status_label)
  qed
  moreover have "ds_running_count d + ds_error_count d \<le> ds_server_count d"
    using sum_counts_bound [of "sts_servers s"] by (simp add: d_def s_def collect_status_def Let_def)
  ultimately show ?thesis using set dist by (simp add: d)
qed

definition example_ref :: "string \<Rightarrow> server_status \<Rightarrow> server_ref" where
  "example_ref name s = \<lparr>sr_name = name, sr_state = (mux_state_new example_config)\<lparr>ms_server_status := s\<rparr>,
     sr_permits = 2, sr_max_active_clients = 2\<rparr>"

theorem daemon_status_complete_witness:
  "let d = collect_status ''0.1'' 5 (fold register_server
       [example_ref ''b'' StRunning, example_ref ''a'' (StFailed ''x'')] (status_state_new 0))
   in set (map mss_name (ds_servers d)) = {''a'', ''b''} \<and> sorted (map mss_name (ds_servers d))"
  using daemon_status_complete [where rs = "[example_ref ''b'' StRunning, example_ref ''a'' (StFailed ''x'')]"
    and ?now0.0 = 0 and now = 5 and version = "''0.1''"]
  unfolding Let_def by (simp add: example_ref_def insert_commute)

end
