(* ===== verification/Mux_Proxy.thy ===== *)
theory Mux_Proxy
  imports Mux_Json
begin

text \<open>
  The standard-input proxy (\<open>mux-agent/src/runtime/proxy.rs\<close>): a loop over what the two readers
  deliver.  An event is what one turn of the \<open>select!\<close> sees; the flag of a message says whether
  writing it to the other side succeeds.  Once standard input is closed its arm is disabled.
\<close>

section \<open>The loop\<close>

datatype proxy_event =
    StdinMsg json bool
  | StdinError
  | StdinEof
  | SockMsg json bool
  | SockError
  | SockEof

record proxy =
  px_pending :: u64
  px_stdin_closed :: bool
  px_to_socket :: "json list"
  px_to_stdout :: "json list"
  px_running :: bool

definition proxy_start :: proxy where
  "proxy_start = \<lparr>px_pending = 0, px_stdin_closed = False, px_to_socket = [], px_to_stdout = [],
     px_running = True\<rparr>"

definition is_request :: "json \<Rightarrow> bool" where
  "is_request v \<longleftrightarrow> jget v ''id'' \<noteq> None \<and> jget v ''method'' \<noteq> None"

definition is_response :: "json \<Rightarrow> bool" where
  "is_response v \<longleftrightarrow> jget v ''id'' \<noteq> None \<and> jget v ''method'' = None"

fun proxy_step :: "proxy_event \<Rightarrow> proxy \<Rightarrow> proxy" where
  "proxy_step (StdinMsg v ok) p =
     (if px_stdin_closed p then p
      else let p1 = (if is_request v then p\<lparr>px_pending := px_pending p + 1\<rparr> else p)
           in if ok then p1\<lparr>px_to_socket := px_to_socket p1 @ [v]\<rparr> else p1\<lparr>px_running := False\<rparr>)"
| "proxy_step StdinError p = p\<lparr>px_stdin_closed := True\<rparr>"
| "proxy_step StdinEof p = p\<lparr>px_stdin_closed := True\<rparr>"
| "proxy_step (SockMsg v ok) p =
     (let p1 = (if is_response v then p\<lparr>px_pending := saturating_sub_u64 (px_pending p) 1\<rparr> else p)
      in if \<not> ok then p1\<lparr>px_running := False\<rparr>
         else let p2 = p1\<lparr>px_to_stdout := px_to_stdout p1 @ [v]\<rparr>
              in if px_stdin_closed p2 \<and> px_pending p2 = 0 then p2\<lparr>px_running := False\<rparr> else p2)"
| "proxy_step SockError p = p\<lparr>px_running := False\<rparr>"
| "proxy_step SockEof p = p\<lparr>px_running := False\<rparr>"

fun run_proxy :: "proxy_event list \<Rightarrow> proxy \<Rightarrow> proxy" where
  "run_proxy [] p = p"
| "run_proxy (e # es) p = (if px_running p then run_proxy es (proxy_step e p) else p)"

section \<open>What is sent and what is answered\<close>

text \<open>The ids of the requests passed on to the socket and of the responses written out, each with the
  number of times it occurs.\<close>

definition request_ids :: "proxy \<Rightarrow> json option multiset" where
  "request_ids p = mset (map (\<lambda>v. jget v ''id'') (filter is_request (px_to_socket p)))"

definition response_ids :: "proxy \<Rightarrow> json option multiset" where
  "response_ids p = mset (map (\<lambda>v. jget v ''id'') (filter is_response (px_to_stdout p)))"

text \<open>What the proxy relies on of the other end, which is what JSON-RPC promises: a response carries the id of a
  request that was passed on and has no response yet.\<close>

fun answers_a_request :: "proxy_event \<Rightarrow> proxy \<Rightarrow> bool" where
  "answers_a_request (SockMsg v ok) p \<longleftrightarrow> \<not> is_response v \<or> jget v ''id'' \<in># request_ids p - response_ids p"
| "answers_a_request _ p \<longleftrightarrow> True"

fun answers_requests :: "proxy_event list \<Rightarrow> proxy \<Rightarrow> bool" where
  "answers_requests [] p \<longleftrightarrow> True"
| "answers_requests (e # es) p \<longleftrightarrow> \<not> px_running p \<or> answers_a_request e p \<and> answers_requests es (proxy_step e p)"

text \<open>A message that cannot be written on, or cannot be read from the socket.\<close>

fun io_fails :: "proxy_event \<Rightarrow> bool" where
  "io_fails (StdinMsg v ok) = (\<not> ok)"
| "io_fails (SockMsg v ok) = (\<not> ok)"
| "io_fails SockError = True"
| "io_fails _ = False"

text \<open>What the two sides deliver.\<close>

fun from_socket :: "proxy_event list \<Rightarrow> json list" where
  "from_socket [] = []"
| "from_socket (SockMsg v ok # es) = v # from_socket es"
| "from_socket (_ # es) = from_socket es"

fun from_stdin :: "proxy_event list \<Rightarrow> json list" where
  "from_stdin [] = []"
| "from_stdin (StdinMsg v ok # es) = v # from_stdin es"
| "from_stdin (StdinEof # es) = []"
| "from_stdin (StdinError # es) = []"
| "from_stdin (_ # es) = from_stdin es"

lemma from_socket_append: "from_socket (xs @ ys) = from_socket xs @ from_socket ys"
  by (induction xs rule: from_socket.induct) simp_all

definition proxy_inv :: "nat \<Rightarrow> proxy \<Rightarrow> bool" where
  "proxy_inv n p \<longleftrightarrow> unat (px_pending p) \<le> n \<and> response_ids p \<subseteq># request_ids p \<and>
     size (request_ids p) = unat (px_pending p) + size (response_ids p)"

lemma insert_response_subset:
  assumes "x \<in># A - B" and "B \<subseteq># A"
  shows "add_mset x B \<subseteq># A"
proof -
  from assms(2) obtain C where A: "A = B + C" by (metis mset_subset_eq_exists_conv)
  with assms(1) have "x \<in># C" by simp
  then obtain C' where "C = add_mset x C'" by (metis mset_add)
  with A show ?thesis by simp
qed

lemma subset_add_mset_mono: "A \<subseteq># B \<Longrightarrow> A \<subseteq># add_mset x B"
  by (metis add_mset_add_single mset_subset_eq_add_left subset_mset.order_trans)

lemma pending_positive:
  assumes "proxy_inv n p" and "x \<in># request_ids p - response_ids p"
  shows "0 < unat (px_pending p)"
proof -
  have "size (request_ids p - response_ids p) = unat (px_pending p)"
    using assms(1) by (simp add: proxy_inv_def size_Diff_submset)
  with assms(2) show ?thesis by (metis size_eq_0_iff_empty empty_iff set_mset_empty neq0_conv)
qed

lemma proxy_inv_step:
  assumes inv: "proxy_inv n p" and n: "Suc n < 2 ^ 64" and ans: "answers_a_request e p"
    and nf: "\<not> io_fails e \<or> px_running (proxy_step e p)"
  shows "proxy_inv (Suc n) (proxy_step e p)"
proof (cases e)
  case (StdinMsg v ok)
  have "unat (px_pending p + 1) = Suc (unat (px_pending p))"
    using inv n by (intro unat_Suc_u64) (simp add: proxy_inv_def)
  with inv nf StdinMsg show ?thesis
    by (auto simp: proxy_inv_def request_ids_def response_ids_def Let_def split: if_splits
        intro: subset_add_mset_mono)
next
  case (SockMsg v ok)
  have ok: ok using SockMsg nf by (cases ok) (simp_all add: Let_def)
  show ?thesis
  proof (cases "is_response v")
    case True
    with ans SockMsg have x: "jget v ''id'' \<in># request_ids p - response_ids p" by simp
    have r: "response_ids (proxy_step e p) = add_mset (jget v ''id'') (response_ids p)"
      "request_ids (proxy_step e p) = request_ids p"
      "px_pending (proxy_step e p) = saturating_sub_u64 (px_pending p) 1"
      using SockMsg ok True by (auto simp: response_ids_def request_ids_def Let_def)
    have "add_mset (jget v ''id'') (response_ids p) \<subseteq># request_ids p"
      using x inv by (intro insert_response_subset) (simp_all add: proxy_inv_def)
    with r inv pending_positive [OF inv x] show ?thesis
      by (auto simp: proxy_inv_def unat_saturating_sub_u64)
  next
    case False
    with SockMsg ok inv show ?thesis
      by (auto simp: proxy_inv_def request_ids_def response_ids_def Let_def)
  qed
qed (use inv nf in \<open>auto simp: proxy_inv_def request_ids_def response_ids_def\<close>)

lemma proxy_step_ends:
  assumes "px_running p" and "\<not> px_running (proxy_step e p)" and "\<not> io_fails e" and "e \<noteq> SockEof"
  shows "px_stdin_closed (proxy_step e p) \<and> px_pending (proxy_step e p) = 0 \<and> (\<exists>v. e = SockMsg v True)"
  using assms by (cases e) (auto simp: Let_def split: if_splits)

lemma all_answered:
  assumes "proxy_inv n p" and "px_pending p = 0"
  shows "request_ids p = response_ids p"
proof -
  have "response_ids p \<subseteq># request_ids p" "size (request_ids p) = size (response_ids p)"
    using assms by (simp_all add: proxy_inv_def)
  then show ?thesis by (metis mset_subset_size subset_mset.le_less less_irrefl)
qed

lemma run_proxy_stopped: "\<not> px_running p \<Longrightarrow> run_proxy es p = p"
  by (cases es) simp_all

lemma run_proxy_passes:
  assumes "px_running (run_proxy es p)"
  shows "px_to_stdout (run_proxy es p) = px_to_stdout p @ from_socket es \<and>
    px_to_socket (run_proxy es p) = px_to_socket p @ (if px_stdin_closed p then [] else from_stdin es)"
  using assms
proof (induction es arbitrary: p)
  case (Cons e es)
  have p: "px_running p" by (metis Cons.prems run_proxy_stopped)
  then have run: "px_running (proxy_step e p)" by (metis Cons.prems run_proxy.simps(2) run_proxy_stopped)
  from p Cons show ?case
    using run by (cases e) (auto simp: Let_def split: if_splits)
qed simp

lemma run_proxy_ends:
  assumes "proxy_inv n p" and "n + length es < 2 ^ 64" and "px_running p" and "answers_requests es p"
    and "\<not> px_running (run_proxy es p)"
  shows "\<exists>es1 e es2. es = es1 @ e # es2 \<and> px_running (run_proxy es1 p) \<and>
    run_proxy es p = proxy_step e (run_proxy es1 p) \<and>
    (io_fails e \<or> e = SockEof \<or> px_stdin_closed (run_proxy es p) \<and>
      request_ids (run_proxy es p) = response_ids (run_proxy es p) \<and> (\<exists>v. e = SockMsg v True))"
  using assms
proof (induction es arbitrary: n p)
  case (Cons e es)
  show ?case
  proof (cases "px_running (proxy_step e p)")
    case True
    have "proxy_inv (Suc n) (proxy_step e p)"
      using proxy_inv_step [OF Cons.prems(1)] Cons.prems(2-4) True by simp
    from Cons.IH [OF this _ True] Cons.prems(2-5) obtain es1 e' es2 where
      "es = es1 @ e' # es2" "px_running (run_proxy es1 (proxy_step e p))"
      "run_proxy es (proxy_step e p) = proxy_step e' (run_proxy es1 (proxy_step e p))"
      "io_fails e' \<or> e' = SockEof \<or> px_stdin_closed (run_proxy es (proxy_step e p)) \<and>
        request_ids (run_proxy es (proxy_step e p)) = response_ids (run_proxy es (proxy_step e p)) \<and> (\<exists>v. e' = SockMsg v True)"
      by auto
    with Cons.prems(3) show ?thesis
      by (intro exI [of _ "e # es1"] exI [of _ e'] exI [of _ es2]) simp
  next
    case False
    then have end_now: "run_proxy (e # es) p = proxy_step e p"
      using Cons.prems(3) by (simp add: run_proxy_stopped)
    have "io_fails e \<or> e = SockEof \<or> px_stdin_closed (proxy_step e p) \<and>
        request_ids (proxy_step e p) = response_ids (proxy_step e p) \<and> (\<exists>v. e = SockMsg v True)"
      using proxy_step_ends [OF Cons.prems(3) False] proxy_inv_step [OF Cons.prems(1), of e]
        all_answered [of "Suc n" "proxy_step e p"] Cons.prems(2-4) by auto
    with end_now Cons.prems(3) show ?thesis
      by (intro exI [of _ "[]"] exI [of _ e] exI [of _ es]) simp
  qed
qed simp

text \<open>C35: how the proxy leaves, and that it then has every answer.  Suppose responses carry the ids of requests
  that were passed on and have none yet.  The loop ends in one of three ways: a message cannot be
  written on or read from the socket; the mux closes the socket, whatever is still unanswered; or
  standard input has ended, the ids of the responses written out are exactly the ids of the requests
  passed on, each as often, and both directions got, in order, every message the other side delivered.\<close>

theorem proxy_leaves_answered:
  assumes "length es < 2 ^ 64" and "answers_requests es proxy_start"
    and "\<not> px_running (run_proxy es proxy_start)"
  shows "\<exists>es1 e es2. es = es1 @ e # es2 \<and> px_running (run_proxy es1 proxy_start) \<and>
    (io_fails e \<or> e = SockEof \<or>
     px_stdin_closed (run_proxy es proxy_start) \<and>
     request_ids (run_proxy es proxy_start) = response_ids (run_proxy es proxy_start) \<and>
     px_to_socket (run_proxy es proxy_start) = from_stdin es1 \<and>
     px_to_stdout (run_proxy es proxy_start) = from_socket (es1 @ [e]))"
proof -
  have "proxy_inv 0 proxy_start" "px_running proxy_start" "0 + length es < 2 ^ 64"
    using assms(1) by (simp_all add: proxy_inv_def proxy_start_def request_ids_def response_ids_def)
  from run_proxy_ends [OF this(1,3,2) assms(2,3)] obtain es1 e es2 where
    e: "es = es1 @ e # es2" "px_running (run_proxy es1 proxy_start)"
      "run_proxy es proxy_start = proxy_step e (run_proxy es1 proxy_start)"
      "io_fails e \<or> e = SockEof \<or> px_stdin_closed (run_proxy es proxy_start) \<and>
        request_ids (run_proxy es proxy_start) = response_ids (run_proxy es proxy_start) \<and> (\<exists>v. e = SockMsg v True)"
    by blast
  from e(3) run_proxy_passes [OF e(2)]
  have "e = SockMsg v True \<Longrightarrow> px_to_socket (run_proxy es proxy_start) = from_stdin es1 \<and>
     px_to_stdout (run_proxy es proxy_start) = from_socket (es1 @ [e])" for v
    by (simp add: Let_def proxy_start_def from_socket_append)
  with e show ?thesis by blast
qed

definition example_req :: json where
  "example_req = JObj (obj_of [(''id'', JInt 1), (''method'', JStr ''ping'')])"

definition example_resp :: json where
  "example_resp = JObj (obj_of [(''id'', JInt 1), (''result'', JNull)])"

theorem proxy_leaves_answered_witness:
  "request_ids (run_proxy [StdinMsg example_req True, StdinEof, SockMsg example_resp True] proxy_start) =
     response_ids (run_proxy [StdinMsg example_req True, StdinEof, SockMsg example_resp True] proxy_start)"
proof -
  let ?es = "[StdinMsg example_req True, StdinEof, SockMsg example_resp True]"
  have "\<not> px_running (run_proxy ?es proxy_start)" by code_simp
  moreover have "answers_requests ?es proxy_start" by code_simp
  moreover have "length ?es < 2 ^ 64" by simp
  ultimately obtain es1 e es2 where "?es = es1 @ e # es2" and
    end_at: "io_fails e \<or> e = SockEof \<or> request_ids (run_proxy ?es proxy_start) = response_ids (run_proxy ?es proxy_start)"
    using proxy_leaves_answered [of ?es] by metis
  then have "e \<in> set ?es" by (metis in_set_conv_decomp)
  then have "\<not> io_fails e" "e \<noteq> SockEof" by auto
  with end_at show ?thesis by simp
qed

text \<open>The end of the socket alone ends the loop, though the documentation of the function asks for both ends to be
  closed: standard input may still be open and a request unanswered.\<close>

theorem proxy_leaves_on_socket_end:
  "\<exists>es. \<not> px_running (run_proxy es proxy_start) \<and> \<not> px_stdin_closed (run_proxy es proxy_start) \<and>
     request_ids (run_proxy es proxy_start) \<noteq> response_ids (run_proxy es proxy_start)"
proof -
  define p where "p = run_proxy [StdinMsg example_req True, SockEof] proxy_start"
  have stopped: "\<not> px_running p" "\<not> px_stdin_closed p" unfolding p_def by code_simp+
  have "length (filter is_request (px_to_socket p)) = 1" "px_to_stdout p = []" unfolding p_def by code_simp+
  then have "size (request_ids p) = 1" "response_ids p = {#}"
    by (simp_all only: request_ids_def response_ids_def size_mset length_map filter.simps list.map mset.simps)
  then have "request_ids p \<noteq> response_ids p" by auto
  with stopped show ?thesis unfolding p_def by blast
qed

text \<open>The proxy can outlive its work.  When standard input closes after the last answer has
  arrived, nothing is pending and yet the loop goes on: no further event of standard input ends it,
  only the socket can.\<close>

theorem proxy_outlives_answers:
  assumes "px_running p" and "px_pending p = 0"
    and "\<forall>e \<in> set es. e = StdinEof \<or> e = StdinError \<or> (\<exists>v ok. e = StdinMsg v ok)"
  shows "px_running (run_proxy (StdinEof # es) p) \<and> px_stdin_closed (run_proxy (StdinEof # es) p) \<and>
    px_pending (run_proxy (StdinEof # es) p) = 0"
proof -
  have "px_running q \<Longrightarrow> px_stdin_closed q \<Longrightarrow> px_pending q = 0 \<Longrightarrow>
    px_running (run_proxy es q) \<and> px_stdin_closed (run_proxy es q) \<and> px_pending (run_proxy es q) = 0" for q
    using assms(3)
  proof (induction es arbitrary: q)
    case (Cons e es)
    then show ?case by (auto simp: Let_def)
  qed simp
  from this [of "proxy_step StdinEof p"] assms(1,2) show ?thesis by simp
qed

theorem proxy_outlives_answers_witness:
  "px_running (run_proxy [StdinMsg example_req True, SockMsg example_resp True, StdinEof] proxy_start)"
proof -
  let ?p = "run_proxy [StdinMsg example_req True, SockMsg example_resp True] proxy_start"
  have "px_running ?p" "px_pending ?p = 0" by code_simp+
  from proxy_outlives_answers [OF this, of "[]"] show ?thesis
    by (simp add: Let_def proxy_start_def split: if_splits)
qed

section \<open>The proxy binary\<close>

text \<open>
  \<open>bin/rust-mux-proxy.rs\<close> copies bytes without looking at them: two copies run until both have reached the end
  of their input, or one of them fails.  An event is what one side delivers, \<open>None\<close> its end; the flag says
  whether passing it on (writing, or the closing flush) succeeds.
\<close>

datatype pipe_event = FromStdin "string option" bool | FromMux "string option" bool | ReadFailed

record byte_proxy =
  bp_to_mux :: string
  bp_to_stdout :: string
  bp_stdin_done :: bool
  bp_mux_done :: bool
  bp_failed :: bool

definition byte_proxy_start :: byte_proxy where
  "byte_proxy_start = \<lparr>bp_to_mux = [], bp_to_stdout = [], bp_stdin_done = False, bp_mux_done = False, bp_failed = False\<rparr>"

fun pipe_step :: "pipe_event \<Rightarrow> byte_proxy \<Rightarrow> byte_proxy" where
  "pipe_step (FromStdin x ok) p =
     (if bp_stdin_done p then p else if \<not> ok then p\<lparr>bp_failed := True\<rparr>
      else case x of Some bytes \<Rightarrow> p\<lparr>bp_to_mux := bp_to_mux p @ bytes\<rparr> | None \<Rightarrow> p\<lparr>bp_stdin_done := True\<rparr>)"
| "pipe_step (FromMux x ok) p =
     (if bp_mux_done p then p else if \<not> ok then p\<lparr>bp_failed := True\<rparr>
      else case x of Some bytes \<Rightarrow> p\<lparr>bp_to_stdout := bp_to_stdout p @ bytes\<rparr> | None \<Rightarrow> p\<lparr>bp_mux_done := True\<rparr>)"
| "pipe_step ReadFailed p = p\<lparr>bp_failed := True\<rparr>"

definition pipe_over :: "byte_proxy \<Rightarrow> bool" where
  "pipe_over p \<longleftrightarrow> bp_failed p \<or> bp_stdin_done p \<and> bp_mux_done p"

fun run_byte_proxy :: "pipe_event list \<Rightarrow> byte_proxy \<Rightarrow> byte_proxy" where
  "run_byte_proxy [] p = p"
| "run_byte_proxy (e # es) p = (if pipe_over p then p else run_byte_proxy es (pipe_step e p))"

text \<open>What each side sent before it closed.\<close>

fun sent_by :: "(pipe_event \<Rightarrow> string option option) \<Rightarrow> pipe_event list \<Rightarrow> string" where
  "sent_by side [] = []"
| "sent_by side (e # es) = (case side e of None \<Rightarrow> sent_by side es | Some None \<Rightarrow> [] | Some (Some bytes) \<Rightarrow> bytes @ sent_by side es)"

fun stdin_side :: "pipe_event \<Rightarrow> string option option" where
  "stdin_side (FromStdin x ok) = Some x"
| "stdin_side _ = None"

fun mux_side :: "pipe_event \<Rightarrow> string option option" where
  "mux_side (FromMux x ok) = Some x"
| "mux_side _ = None"

lemma run_byte_proxy_sent:
  assumes "\<not> bp_failed (run_byte_proxy es p)" and "bp_stdin_done (run_byte_proxy es p)" and "bp_mux_done (run_byte_proxy es p)"
  shows "bp_to_mux (run_byte_proxy es p) = bp_to_mux p @ (if bp_stdin_done p then [] else sent_by stdin_side es) \<and>
    bp_to_stdout (run_byte_proxy es p) = bp_to_stdout p @ (if bp_mux_done p then [] else sent_by mux_side es)"
  using assms
proof (induction es arbitrary: p)
  case (Cons e es)
  show ?case
  proof (cases "pipe_over p")
    case True
    with Cons.prems show ?thesis by (simp add: pipe_over_def)
  next
    case False
    then have run: "run_byte_proxy (e # es) p = run_byte_proxy es (pipe_step e p)" by simp
    have "\<not> bp_failed (pipe_step e p)"
    proof
      assume "bp_failed (pipe_step e p)"
      then have "run_byte_proxy es (pipe_step e p) = pipe_step e p" by (cases es) (simp_all add: pipe_over_def)
      with \<open>bp_failed (pipe_step e p)\<close> Cons.prems(1) run show False by simp
    qed
    with Cons.IH [of "pipe_step e p"] Cons.prems False show ?thesis
      by (cases e) (auto simp: run pipe_over_def split: if_splits option.splits)
  qed
qed simp

text \<open>The binary is transparent: if it ends without an error, each side got, in order, every byte the other side
  sent before it closed, however the two directions were interleaved.\<close>

theorem byte_proxy_transparent:
  assumes "pipe_over (run_byte_proxy es byte_proxy_start)" and "\<not> bp_failed (run_byte_proxy es byte_proxy_start)"
  shows "bp_to_mux (run_byte_proxy es byte_proxy_start) = sent_by stdin_side es \<and>
    bp_to_stdout (run_byte_proxy es byte_proxy_start) = sent_by mux_side es"
  using run_byte_proxy_sent [of es byte_proxy_start] assms by (simp add: pipe_over_def byte_proxy_start_def)

end
