(* ===== verification/Host_Scan.thy ===== *)
theory Host_Scan
  imports Mux_Config Mux_Json
begin

text \<open>
  Discovery of MCP servers in the configuration files of client programs and the merge of what was
  found (\<open>mux-agent/src/scan.rs\<close>).  The parsers and printers of the file formats are third-party
  code and parameters; a parsed TOML document is a value of the same type as a JSON document, a
  table being an object.  Which paths exist is a parameter, too.
\<close>

section \<open>Data\<close>

datatype host_kind =
    Codex | Claude | ClaudeDesktop | Junie | Gemini | Cursor | VSCode | JetBrains | Custom | Unknown

fun as_label :: "host_kind \<Rightarrow> string" where
  "as_label Codex = ''codex''"
| "as_label Claude = ''claude''"
| "as_label ClaudeDesktop = ''claude-desktop''"
| "as_label Junie = ''junie''"
| "as_label Gemini = ''gemini''"
| "as_label Cursor = ''cursor''"
| "as_label VSCode = ''vscode''"
| "as_label JetBrains = ''jetbrains''"
| "as_label Custom = ''custom''"
| "as_label Unknown = ''unknown''"

fun display_name :: "host_kind \<Rightarrow> string" where
  "display_name Codex = ''Codex CLI''"
| "display_name Claude = ''Claude Code''"
| "display_name ClaudeDesktop = ''Claude Desktop''"
| "display_name Junie = ''Junie''"
| "display_name Gemini = ''Gemini CLI''"
| "display_name Cursor = ''Cursor''"
| "display_name VSCode = ''VS Code''"
| "display_name JetBrains = ''JetBrains IDEs''"
| "display_name Custom = ''Custom''"
| "display_name Unknown = ''Unknown''"

datatype host_format = FmtToml | FmtJson

datatype config_schema = McpServersJson | ServersJson | McpServersToml | AutoJson

datatype confidence = High | Medium | Low

record host_file =
  hf_kind :: host_kind
  hf_path :: string
  hf_format :: host_format
  hf_schema :: config_schema
  hf_confidence :: confidence
  hf_writable :: bool
  hf_eligible_for_danger :: bool

record host_service =
  sv_name :: string
  sv_command :: string
  sv_args :: "string list"
  sv_cwd :: "string option"
  sv_socket :: "string option"
  sv_env :: "(string, string) hashmap option"
  sv_enabled :: "bool option"

record scan_result =
  sr_host :: host_file
  sr_services :: "host_service list"

record conflict_variant =
  cv_source_path :: string
  cv_source_kind :: host_kind
  cv_service :: host_service

record conflict_report =
  cr_name :: string
  cr_variants :: "conflict_variant list"

record merge_outcome =
  mo_services :: "host_service list"
  mo_conflicts :: "conflict_report list"

section \<open>Sources\<close>

definition host_source ::
  "string option \<Rightarrow> host_kind \<Rightarrow> string \<Rightarrow> host_format \<Rightarrow> config_schema \<Rightarrow> confidence \<Rightarrow> bool \<Rightarrow> host_file" where
  "host_source home k p f s c d = \<lparr>hf_kind = k, hf_path = expand_path home p, hf_format = f,
     hf_schema = s, hf_confidence = c, hf_writable = True, hf_eligible_for_danger = d\<rparr>"

definition default_sources :: "string option \<Rightarrow> host_file list" where
  "default_sources home = [
     host_source home Claude ''~/.claude.json'' FmtJson McpServersJson High True,
     host_source home ClaudeDesktop
       ''~/Library/Application Support/Claude/claude_desktop_config.json'' FmtJson McpServersJson High True,
     host_source home Codex ''~/.codex/config.toml'' FmtToml McpServersToml High True,
     host_source home Junie ''~/.junie/mcp/mcp.json'' FmtJson McpServersJson High True,
     host_source home Junie ''~/.agents/mcp.json'' FmtJson AutoJson Medium True,
     host_source home Junie ''~/.ai/mcp.json'' FmtJson AutoJson Medium True,
     host_source home Gemini ''~/.gemini/settings.json'' FmtJson AutoJson Medium False,
     host_source home Cursor ''~/Library/Application Support/Cursor/User/settings.json''
       FmtJson AutoJson Medium True,
     host_source home Cursor ''~/.config/Cursor/User/settings.json'' FmtJson AutoJson Medium True,
     host_source home VSCode ''~/Library/Application Support/Code/User/settings.json''
       FmtJson AutoJson Medium True,
     host_source home VSCode ''~/.config/Code/User/settings.json'' FmtJson AutoJson Medium True,
     host_source home JetBrains ''~/Library/Application Support/JetBrains/LLM/mcp.json''
       FmtJson AutoJson Medium True]"

definition discover_hosts :: "string option \<Rightarrow> (string \<Rightarrow> bool) \<Rightarrow> host_file list" where
  "discover_hosts home exists_path = filter (\<lambda>hf. exists_path (hf_path hf)) (default_sources home)"

definition host_file_from_custom_path :: "string \<Rightarrow> host_file" where
  "host_file_from_custom_path p =
     (let fmt = (if map_option to_ascii_lowercase (extension p) = Some ''toml'' then FmtToml else FmtJson);
          schema = (case fmt of FmtToml \<Rightarrow> McpServersToml | FmtJson \<Rightarrow> AutoJson)
      in \<lparr>hf_kind = Custom, hf_path = p, hf_format = fmt, hf_schema = schema,
          hf_confidence = Medium, hf_writable = True, hf_eligible_for_danger = True\<rparr>)"

definition resolve_host ::
  "string option \<Rightarrow> (string \<Rightarrow> bool) \<Rightarrow> string option \<Rightarrow> string option \<Rightarrow> string + host_file" where
  "resolve_host home exists_path path_arg host_arg =
     (case path_arg of
        Some p \<Rightarrow> Inr (host_file_from_custom_path p)
      | None \<Rightarrow>
          (let discovered = discover_hosts home exists_path in
           if discovered = [] then Inl ''no host configs found''
           else case host_arg of
             Some host \<Rightarrow>
               (case find (\<lambda>h. as_label (hf_kind h) = to_ascii_lowercase host) discovered of
                  Some h \<Rightarrow> Inr h | None \<Rightarrow> Inl (''host '' @ host @ '' not found''))
           | None \<Rightarrow> Inr (hd discovered)))"

section \<open>Parsing\<close>

record raw_server =
  rs_command :: "string option"
  rs_args :: "string list option"
  rs_cwd :: "string option"
  rs_socket :: "string option"
  rs_env :: "(string, string) hashmap option"
  rs_enabled :: "bool option"

text \<open>
  Deserialising one optional field: absent and null give \<open>None\<close>, a value of the wrong type is an
  error.  The outer option is the error.
\<close>

definition dec_opt :: "(json \<Rightarrow> 'a option) \<Rightarrow> json option \<Rightarrow> 'a option option" where
  "dec_opt f v = (case v of None \<Rightarrow> Some None | Some JNull \<Rightarrow> Some None
     | Some x \<Rightarrow> map_option Some (f x))"

fun dec_list :: "(json \<Rightarrow> 'a option) \<Rightarrow> json list \<Rightarrow> 'a list option" where
  "dec_list f [] = Some []"
| "dec_list f (x # xs) = (case f x of None \<Rightarrow> None
     | Some y \<Rightarrow> map_option (\<lambda>ys. y # ys) (dec_list f xs))"

definition dec_strings :: "json \<Rightarrow> string list option" where
  "dec_strings v = (case v of JArr xs \<Rightarrow> dec_list as_str xs | _ \<Rightarrow> None)"

fun dec_pairs :: "(string \<times> json) list \<Rightarrow> (string, string) hashmap option" where
  "dec_pairs [] = Some []"
| "dec_pairs ((k, v) # m) = (case as_str v of None \<Rightarrow> None
     | Some s \<Rightarrow> map_option (\<lambda>r. (k, s) # r) (dec_pairs m))"

definition dec_env :: "json \<Rightarrow> (string, string) hashmap option" where
  "dec_env v = (case v of JObj m \<Rightarrow> dec_pairs m | _ \<Rightarrow> None)"

definition dec_bool :: "json \<Rightarrow> bool option" where
  "dec_bool v = (case v of JBool b \<Rightarrow> Some b | _ \<Rightarrow> None)"

definition raw_fields ::
  "json option \<Rightarrow> json option \<Rightarrow> json option \<Rightarrow> json option \<Rightarrow> json option \<Rightarrow> json option \<Rightarrow> raw_server option" where
  "raw_fields c a w s e n =
     Option.bind (dec_opt as_str c) (\<lambda>c'. Option.bind (dec_opt dec_strings a) (\<lambda>a'.
     Option.bind (dec_opt as_str w) (\<lambda>w'. Option.bind (dec_opt as_str s) (\<lambda>s'.
     Option.bind (dec_opt dec_env e) (\<lambda>e'. Option.bind (dec_opt dec_bool n) (\<lambda>n'.
       Some \<lparr>rs_command = c', rs_args = a', rs_cwd = w', rs_socket = s', rs_env = e', rs_enabled = n'\<rparr>))))))"

text \<open>A struct is read from an object, or from an array with one element per field.\<close>

definition raw_of_value :: "json \<Rightarrow> raw_server option" where
  "raw_of_value v = (case v of
     JObj m \<Rightarrow> raw_fields (map_of m ''command'') (map_of m ''args'') (map_of m ''cwd'')
       (map_of m ''socket'') (map_of m ''env'') (map_of m ''enabled'')
   | JArr [c, a, w, s, e, n] \<Rightarrow> raw_fields (Some c) (Some a) (Some w) (Some s) (Some e) (Some n)
   | _ \<Rightarrow> None)"

definition service_of_raw :: "string \<Rightarrow> raw_server \<Rightarrow> host_service option" where
  "service_of_raw name r = map_option (\<lambda>command.
     \<lparr>sv_name = name, sv_command = command,
      sv_args = (case rs_args r of Some a \<Rightarrow> a | None \<Rightarrow> []), sv_cwd = rs_cwd r,
      sv_socket = rs_socket r, sv_env = rs_env r, sv_enabled = rs_enabled r\<rparr>) (rs_command r)"

definition parse_json_servers_under_key ::
  "(string \<Rightarrow> json option) \<Rightarrow> string \<Rightarrow> string \<Rightarrow> string \<Rightarrow> bool \<Rightarrow> string + host_service list" where
  "parse_json_servers_under_key parse data p key require_present =
     (case parse data of
        None \<Rightarrow> Inl (''failed to parse json '' @ p)
      | Some root \<Rightarrow>
          (case jget root key of
             Some (JObj m) \<Rightarrow>
               Inr (List.map_filter (\<lambda>(name, raw). Option.bind (raw_of_value raw) (service_of_raw name)) m)
           | Some _ \<Rightarrow> Inl (''`'' @ key @ ''` is not an object in '' @ p)
           | None \<Rightarrow> if require_present then Inl (''missing `'' @ key @ ''` in '' @ p) else Inr []))"

text \<open>Each TOML entry is printed and read again; an entry that cannot be printed fails the file.\<close>

fun toml_entries ::
  "(json \<Rightarrow> string option) \<Rightarrow> (string \<Rightarrow> json option) \<Rightarrow> (string \<times> json) list \<Rightarrow> string + host_service list" where
  "toml_entries print parse [] = Inr []"
| "toml_entries print parse ((name, raw) # m) =
     (case print raw of
        None \<Rightarrow> Inl (''re-serialize toml entry '' @ name)
      | Some raw_str \<Rightarrow>
          (case toml_entries print parse m of
             Inl e \<Rightarrow> Inl e
           | Inr rest \<Rightarrow>
               Inr (case Option.bind (Option.bind (parse raw_str) raw_of_value) (service_of_raw name) of
                      None \<Rightarrow> rest | Some s \<Rightarrow> s # rest)))"

definition parse_toml_mcp_servers ::
  "(json \<Rightarrow> string option) \<Rightarrow> (string \<Rightarrow> json option) \<Rightarrow> string \<Rightarrow> string \<Rightarrow> string + host_service list" where
  "parse_toml_mcp_servers print parse data p =
     (case parse data of
        None \<Rightarrow> Inl (''failed to parse toml '' @ p)
      | Some root \<Rightarrow>
          (case jget root ''mcp_servers'' of
             Some (JObj table) \<Rightarrow> toml_entries print parse table
           | _ \<Rightarrow> Inr []))"

definition scan_host_file ::
  "(string \<Rightarrow> json option) \<Rightarrow> (json \<Rightarrow> string option) \<Rightarrow> (string \<Rightarrow> json option) \<Rightarrow> fs_view \<Rightarrow>
   host_file \<Rightarrow> string + scan_result" where
  "scan_host_file js tprint tparse fs file =
     (case safe_read_to_string fs (hf_path file) of
        Inl e \<Rightarrow> Inl (''failed to read '' @ hf_path file)
      | Inr data \<Rightarrow>
          (let under = (\<lambda>key req. parse_json_servers_under_key js data (hf_path file) key req);
               services =
                 (case hf_format file of
                    FmtJson \<Rightarrow>
                      (case hf_schema file of
                         McpServersJson \<Rightarrow> under ''mcpServers'' True
                       | ServersJson \<Rightarrow> under ''servers'' True
                       | _ \<Rightarrow> (case under ''mcpServers'' False of
                                 Inl e \<Rightarrow> Inl e
                               | Inr primary \<Rightarrow> if primary \<noteq> [] then Inr primary
                                                else under ''servers'' False))
                  | FmtToml \<Rightarrow> parse_toml_mcp_servers tprint tparse data (hf_path file))
           in case services of
                Inl e \<Rightarrow> Inl e
              | Inr ss \<Rightarrow> Inr \<lparr>sr_host = file, sr_services = ss\<rparr>))"

definition scan_hosts ::
  "(string \<Rightarrow> json option) \<Rightarrow> (json \<Rightarrow> string option) \<Rightarrow> (string \<Rightarrow> json option) \<Rightarrow> fs_view \<Rightarrow>
   string option \<Rightarrow> scan_result list" where
  "scan_hosts js tprint tparse fs home =
     List.map_filter (\<lambda>hf. case scan_host_file js tprint tparse fs hf of Inl _ \<Rightarrow> None | Inr r \<Rightarrow> Some r)
       (discover_hosts home (fv_exists fs))"

end
