(* ===== verification/Mux_Ipc.thy ===== *)
theory Mux_Ipc
  imports Mux_Runtime Host_Scan
begin

text \<open>
  The control socket: the commands of \<open>ipc/command.rs\<close>, their handlers in \<open>ipc/handlers.rs\<close> and
  the connections of \<open>ipc/server.rs\<close>.  A connection is a function over what its task sees: chunks
  read from the peer, events published on the broadcast channel and turns in which the channel is
  polled.  The reader of commands (serde) and the capacity of the broadcast channel (tokio rounds
  the requested 100 up) are parameters.
\<close>

section \<open>Commands and responses\<close>

datatype client_kind = KindClaude | KindCodex | KindGemini | KindJunie | KindGeneric string

record non_mux_entry =
  nm_client :: string
  nm_path :: string
  nm_line :: nat
  nm_server_name :: string

record verify_result =
  vr_ok :: bool
  vr_non_mux_servers :: "non_mux_entry list"

record route =
  rt_client :: string
  rt_server :: string
  rt_status :: string

datatype control_command =
    Subscribe | Unsubscribe | GetStatus | Verify client_kind | RouteSnapshot
  | RestartService string | ReloadConfig | Shutdown bool

datatype control_response =
    RespOk
  | RespStatus status_snapshot
  | RespVerify verify_result
  | RespRoutes "route list"
  | RespEvent ipc_event
  | RespError string
  | RespUnimplemented

text \<open>What a handler finds: the time, the mux state under its lock, the result of \<open>scan_hosts\<close>.\<close>

record ipc_env =
  ie_now :: instant
  ie_state :: mux_state
  ie_scans :: "scan_result list"

section \<open>Handlers\<close>

fun verified_kind :: "client_kind \<Rightarrow> host_kind option" where
  "verified_kind KindClaude = Some Claude"
| "verified_kind KindCodex = Some Codex"
| "verified_kind KindGemini = Some Gemini"
| "verified_kind KindJunie = Some Junie"
| "verified_kind (KindGeneric name) = None"

definition runs_mux :: "host_service \<Rightarrow> bool" where
  "runs_mux srv = (let cmd_str = sv_command srv @ '' '' @ join '' '' (sv_args srv)
     in str_contains cmd_str ''rust-mux'' \<or> str_contains cmd_str ''mux-agent'')"

definition non_mux_of :: "host_kind \<Rightarrow> scan_result \<Rightarrow> non_mux_entry list" where
  "non_mux_of k scan =
     (if as_label (hf_kind (sr_host scan)) \<noteq> as_label k then []
      else map (\<lambda>srv. \<lparr>nm_client = as_label k, nm_path = hf_path (sr_host scan), nm_line = 0,
             nm_server_name = sv_name srv\<rparr>) (filter (\<lambda>srv. \<not> runs_mux srv) (sr_services scan)))"

definition handle_verify :: "scan_result list \<Rightarrow> client_kind \<Rightarrow> string + control_response" where
  "handle_verify scans kind =
     (case verified_kind kind of
        None \<Rightarrow> Inr (RespVerify \<lparr>vr_ok = True, vr_non_mux_servers = []\<rparr>)
      | Some k \<Rightarrow> (let non_mux = concat (map (non_mux_of k) scans)
                   in Inr (RespVerify \<lparr>vr_ok = (non_mux = []), vr_non_mux_servers = non_mux\<rparr>)))"

fun handle_command :: "ipc_env \<Rightarrow> control_command \<Rightarrow> string + control_response" where
  "handle_command env GetStatus =
     (let active = ms_max_active_clients (ie_state env)
      in Inr (RespStatus (snapshot_for_state (ie_now env) (ie_state env) active)))"
| "handle_command env (Verify kind) = handle_verify (ie_scans env) kind"
| "handle_command env (RestartService name) = Inr RespUnimplemented"
| "handle_command env Subscribe = Inr RespOk"
| "handle_command env Unsubscribe = Inr RespOk"
| "handle_command env RouteSnapshot = Inr (RespRoutes [])"
| "handle_command env ReloadConfig = Inr RespUnimplemented"
| "handle_command env (Shutdown graceful) = Inr RespUnimplemented"

section \<open>A receiver of the broadcast channel\<close>

text \<open>
  The receiver holds the events it has not seen; when more than \<open>cap\<close> wait, the oldest is gone
  and the next \<open>recv\<close> reports the lag instead of an event.
\<close>

record bus_rx =
  rx_queue :: "ipc_event list"
  rx_lagged :: bool

definition rx_subscribe :: bus_rx where
  "rx_subscribe = \<lparr>rx_queue = [], rx_lagged = False\<rparr>"

definition rx_publish :: "nat \<Rightarrow> ipc_event \<Rightarrow> bus_rx \<Rightarrow> bus_rx" where
  "rx_publish cap ev rx =
     (if length (rx_queue rx) < cap then rx\<lparr>rx_queue := rx_queue rx @ [ev]\<rparr>
      else \<lparr>rx_queue = tl (rx_queue rx @ [ev]), rx_lagged = True\<rparr>)"

section \<open>A connection\<close>

text \<open>
  \<open>Subscribed rx armed rest\<close>: in the subscription loop, with \<open>rest\<close> the lines of the chunk behind the
  \<open>Subscribe\<close>.  \<open>armed\<close> is cleared when \<open>recv\<close> gives an error: the pattern \<open>Ok(event)\<close> does not match,
  which disables that branch until another branch of the same \<open>select!\<close> is taken.
\<close>

datatype ipc_phase =
    Reading
  | Subscribed bus_rx bool "string list"
  | Closed "string + unit"

record ipc_conn =
  ic_phase :: ipc_phase
  ic_sent :: "control_response list"

datatype ipc_input =
    Chunk string
  | ReadEof
  | ReadError string
  | Published ipc_event
  | Poll bool

abbreviation say :: "control_response \<Rightarrow> ipc_conn \<Rightarrow> ipc_conn" where
  "say r c \<equiv> c\<lparr>ic_sent := ic_sent c @ [r]\<rparr>"

fun serve_lines ::
  "(string \<Rightarrow> string + control_command) \<Rightarrow> ipc_env \<Rightarrow> string list \<Rightarrow> ipc_conn \<Rightarrow> ipc_conn" where
  "serve_lines parse env [] c = c\<lparr>ic_phase := Reading\<rparr>"
| "serve_lines parse env (line # rest) c =
     (case parse line of
        Inl e \<Rightarrow> serve_lines parse env rest (say (RespError (''Parse error: '' @ e)) c)
      | Inr cmd \<Rightarrow>
          (case handle_command env cmd of
             Inl e \<Rightarrow> c\<lparr>ic_phase := Closed (Inl e)\<rparr>
           | Inr response \<Rightarrow>
               if cmd = Subscribe
               then if ms_event_tx (ie_state env) \<noteq> None
                    then (say response c)\<lparr>ic_phase := Subscribed rx_subscribe True rest\<rparr>
                    else serve_lines parse env rest
                      (say (RespError ''No event sender configured'') (say response c))
               else serve_lines parse env rest (say response c)))"

definition lines_of :: "string \<Rightarrow> string list" where
  "lines_of data = filter (\<lambda>l. l \<noteq> []) (split_char (char_of (10::nat)) data)"

fun ipc_step ::
  "(string \<Rightarrow> string + control_command) \<Rightarrow> nat \<Rightarrow> ipc_env \<times> ipc_input \<Rightarrow> ipc_conn \<Rightarrow> ipc_conn" where
  "ipc_step parse cap (env, inp) c =
     (case ic_phase c of
        Closed r \<Rightarrow> c
      | Reading \<Rightarrow>
          (case inp of
             Chunk data \<Rightarrow> serve_lines parse env (lines_of data) c
           | ReadEof \<Rightarrow> c\<lparr>ic_phase := Closed (Inr ())\<rparr>
           | ReadError e \<Rightarrow> c\<lparr>ic_phase := Closed (Inl (''Read error: '' @ e))\<rparr>
           | _ \<Rightarrow> c)
      | Subscribed rx armed rest \<Rightarrow>
          (case inp of
             Published ev \<Rightarrow> c\<lparr>ic_phase := Subscribed (rx_publish cap ev rx) armed rest\<rparr>
           | Poll writable \<Rightarrow>
               if \<not> armed then c
               else if rx_lagged rx
               then c\<lparr>ic_phase := Subscribed (rx\<lparr>rx_lagged := False\<rparr>) False rest\<rparr>
               else (case rx_queue rx of
                  [] \<Rightarrow> c
                | ev # evs \<Rightarrow>
                    if writable
                    then (say (RespEvent ev) c)\<lparr>ic_phase := Subscribed (rx\<lparr>rx_queue := evs\<rparr>) True rest\<rparr>
                    else serve_lines parse env rest c)
           | Chunk data \<Rightarrow>
               if parse data = Inr Unsubscribe then serve_lines parse env rest (say RespOk c)
               else c\<lparr>ic_phase := Subscribed rx True rest\<rparr>
           | _ \<Rightarrow> serve_lines parse env rest c))"

definition ipc_run ::
  "(string \<Rightarrow> string + control_command) \<Rightarrow> nat \<Rightarrow> (ipc_env \<times> ipc_input) list \<Rightarrow> ipc_conn \<Rightarrow> ipc_conn" where
  "ipc_run parse cap xs c = fold (ipc_step parse cap) xs c"

definition ipc_open :: "u32 \<Rightarrow> u32 \<Rightarrow> ipc_conn" where
  "ipc_open my_uid peer_uid = \<lparr>ic_phase = (if peer_uid \<noteq> my_uid
     then Closed (Inl (''Unauthorized IPC connection: peer UID '' @ nat_str (unat peer_uid) @
       '' != my UID '' @ nat_str (unat my_uid)))
     else Reading), ic_sent = []\<rparr>"

section \<open>The listener\<close>

text \<open>
  Connections are admitted while a permit is free; each running task holds one and gives it back when
  it ends.  A connection of another user ends before anything is read.
\<close>

definition MAX_CONCURRENT :: nat where
  "MAX_CONCURRENT = 32"

record ipc_server =
  is_permits :: nat
  is_conns :: "(u32 \<times> ipc_conn) list"

datatype ipc_server_input = Accept u32 | Input nat "ipc_env \<times> ipc_input"

definition ipc_server_start :: ipc_server where
  "ipc_server_start = \<lparr>is_permits = MAX_CONCURRENT, is_conns = []\<rparr>"

fun is_closed :: "ipc_phase \<Rightarrow> bool" where
  "is_closed (Closed r) = True"
| "is_closed p = False"

fun ipc_server_step ::
  "(string \<Rightarrow> string + control_command) \<Rightarrow> nat \<Rightarrow> u32 \<Rightarrow> ipc_server_input \<Rightarrow> ipc_server \<Rightarrow> ipc_server" where
  "ipc_server_step parse cap my_uid (Accept peer) s =
     (if is_permits s = 0 then s
      else let c = ipc_open my_uid peer in
           if is_closed (ic_phase c) then s
           else s\<lparr>is_permits := is_permits s - 1, is_conns := is_conns s @ [(peer, c)]\<rparr>)"
| "ipc_server_step parse cap my_uid (Input i x) s =
     (if length (is_conns s) \<le> i then s
      else let (peer, c) = is_conns s ! i; c' = ipc_step parse cap x c in
           if is_closed (ic_phase c')
           then s\<lparr>is_permits := Suc (is_permits s), is_conns := take i (is_conns s) @ drop (Suc i) (is_conns s)\<rparr>
           else s\<lparr>is_conns := (is_conns s)[i := (peer, c')]\<rparr>)"

section \<open>Answers to commands\<close>

definition respond :: "(string \<Rightarrow> string + control_command) \<Rightarrow> ipc_env \<Rightarrow> string \<Rightarrow> control_response" where
  "respond parse env line =
     (case parse line of
        Inl e \<Rightarrow> RespError (''Parse error: '' @ e)
      | Inr cmd \<Rightarrow> (case handle_command env cmd of Inr r \<Rightarrow> r | Inl e \<Rightarrow> RespError e))"

lemma handle_command_total: "\<exists>r. handle_command env cmd = Inr r"
  by (cases cmd) (auto simp: handle_verify_def Let_def split: option.splits)

lemma serve_lines_plain:
  assumes "\<forall>l \<in> set ls. parse l \<noteq> Inr Subscribe"
  shows "serve_lines parse env ls c =
    c\<lparr>ic_phase := Reading, ic_sent := ic_sent c @ map (respond parse env) ls\<rparr>"
  using assms
proof (induction ls arbitrary: c)
  case (Cons l ls)
  show ?case
  proof (cases "parse l")
    case (Inr cmd)
    obtain r where "handle_command env cmd = Inr r" using handle_command_total by blast
    with Inr Cons show ?thesis by (auto simp: respond_def)
  qed (use Cons in \<open>simp add: respond_def\<close>)
qed simp

lemma lines_of_commands:
  assumes "\<forall>l \<in> set ls. l \<noteq> [] \<and> char_of (10::nat) \<notin> set l"
  shows "lines_of (concat (map (\<lambda>l. l @ [char_of (10::nat)]) ls)) = ls"
  using assms by (induction ls) (auto simp: lines_of_def split_char_append)

text \<open>commands are answered one by one.  A chunk of printed commands, none of them a subscription,
  gets exactly one response per command in the order of the commands, and the connection goes on
  reading; the handler itself never fails.\<close>

theorem ipc_commands_answered:
  assumes serde: "\<forall>cmd \<in> set cmds. parse (print cmd) = Inr cmd \<and> print cmd \<noteq> [] \<and>
      char_of (10::nat) \<notin> set (print cmd)"
    and c: "ic_phase c = Reading" and nosub: "Subscribe \<notin> set cmds"
  shows "\<exists>rs. map (handle_command env) cmds = map Inr rs \<and>
    ipc_step parse cap (env, Chunk (concat (map (\<lambda>cmd. print cmd @ [char_of (10::nat)]) cmds))) c =
      c\<lparr>ic_sent := ic_sent c @ rs\<rparr>"
proof -
  let ?ls = "map print cmds"
  have lines: "lines_of (concat (map (\<lambda>cmd. print cmd @ [char_of (10::nat)]) cmds)) = ?ls"
    using lines_of_commands [of ?ls] serde by (simp add: comp_def)
  have plain: "\<forall>l \<in> set ?ls. parse l \<noteq> Inr Subscribe" using serde nosub by auto
  have "map (handle_command env) cmds = map Inr (map (respond parse env) ?ls)"
  proof (simp, intro ballI)
    fix cmd assume "cmd \<in> set cmds"
    moreover obtain r where "handle_command env cmd = Inr r" using handle_command_total by blast
    ultimately show "handle_command env cmd = Inr (respond parse env (print cmd))"
      using serde by (simp add: respond_def)
  qed
  moreover have "c\<lparr>ic_phase := Reading\<rparr> = c" using c by (cases c) simp
  ultimately show ?thesis
    using c lines serve_lines_plain [OF plain] by (intro exI [of _ "map (respond parse env) ?ls"]) simp
qed

definition example_env :: ipc_env where
  "example_env = \<lparr>ie_now = 0, ie_state = mux_state_new (example_config\<lparr>mc_event_tx := Some []\<rparr>), ie_scans = []\<rparr>"

fun example_print :: "control_command \<Rightarrow> string" where
  "example_print GetStatus = ''g''"
| "example_print Subscribe = ''s''"
| "example_print Unsubscribe = ''u''"
| "example_print _ = ''r''"

definition example_parse :: "string \<Rightarrow> string + control_command" where
  "example_parse l = (if l = ''g'' then Inr GetStatus else if l = ''s'' then Inr Subscribe
     else if l = ''u'' then Inr Unsubscribe else if l = ''r'' then Inr RouteSnapshot else Inl ''unknown'')"

theorem ipc_commands_answered_witness:
  "\<exists>rs. length rs = 2 \<and> rs ! 1 = RespRoutes [] \<and>
     ipc_step example_parse 128 (example_env, Chunk (''g'' @ [char_of (10::nat)] @ ''r'' @ [char_of (10::nat)]))
       (ipc_open 7 7) = (ipc_open 7 7)\<lparr>ic_sent := rs\<rparr>"
proof -
  have a: "\<forall>cmd \<in> set [GetStatus, RouteSnapshot]. example_parse (example_print cmd) = Inr cmd \<and>
      example_print cmd \<noteq> [] \<and> char_of (10::nat) \<notin> set (example_print cmd)" by code_simp
  have b: "ic_phase (ipc_open 7 7) = Reading" by (simp add: ipc_open_def)
  have "Subscribe \<notin> set [GetStatus, RouteSnapshot]" by simp
  from ipc_commands_answered [OF a b this, where cap = 128 and env = example_env]
  obtain rs where rs: "map (handle_command example_env) [GetStatus, RouteSnapshot] = map Inr rs"
    and step: "ipc_step example_parse 128 (example_env, Chunk (concat (map (\<lambda>cmd. example_print cmd @
      [char_of (10::nat)]) [GetStatus, RouteSnapshot]))) (ipc_open 7 7) =
      (ipc_open 7 7)\<lparr>ic_sent := ic_sent (ipc_open 7 7) @ rs\<rparr>" by (elim exE conjE)
  have "length rs = 2" using arg_cong [OF rs, of length] by simp
  moreover have "rs ! 1 = RespRoutes []" using arg_cong [OF rs, of "\<lambda>l. l ! 1"] \<open>length rs = 2\<close> by simp
  moreover have "ic_sent (ipc_open 7 7) = []" by (simp add: ipc_open_def)
  ultimately show ?thesis using step by (intro exI [of _ rs] conjI) simp_all
qed

text \<open>The status a client of the control socket sees claims that every permit is taken.\<close>

lemma status_always_full:
  "handle_command env GetStatus = Inr (RespStatus s) \<Longrightarrow> ss_active_clients s = ss_max_active_clients s"
  by (auto simp: Let_def snapshot_for_state_def)

section \<open>Subscriptions\<close>

fun bus_input :: "ipc_input \<Rightarrow> bool" where
  "bus_input (Published ev) = True"
| "bus_input (Poll w) = True"
| "bus_input _ = False"

fun published :: "ipc_input list \<Rightarrow> ipc_event list" where
  "published [] = []"
| "published (Published ev # xs) = ev # published xs"
| "published (x # xs) = published xs"

lemma ipc_run_simps [simp]:
  "ipc_run parse cap [] c = c"
  "ipc_run parse cap (x # xs) c = ipc_run parse cap xs (ipc_step parse cap x c)"
  by (simp_all add: ipc_run_def)

text \<open>What is owed to a subscriber: the responses sent and the events still queued.\<close>

lemma subscriber_step:
  assumes c: "ic_phase c = Subscribed rx True rest" and rx: "\<not> rx_lagged rx"
    and x: "bus_input x" "x \<noteq> Poll False"
    and room: "length (rx_queue rx) + length (published [x]) \<le> cap"
  shows "\<exists>rx' evs. ic_phase (ipc_step parse cap (env, x) c) = Subscribed rx' True rest \<and> \<not> rx_lagged rx' \<and>
    ic_sent (ipc_step parse cap (env, x) c) = ic_sent c @ map RespEvent evs \<and>
    evs @ rx_queue rx' = rx_queue rx @ published [x]"
proof (cases x)
  case (Published ev)
  then show ?thesis
    using c rx room by (intro exI [of _ "rx_publish cap ev rx"] exI [of _ "[]"]) (simp add: rx_publish_def)
next
  case (Poll w)
  then show ?thesis
  proof (cases "rx_queue rx")
    case Nil
    then show ?thesis using c rx Poll by (intro exI [of _ rx] exI [of _ "[]"]) simp
  next
    case (Cons ev evs)
    then show ?thesis
      using c rx Poll x by (intro exI [of _ "rx\<lparr>rx_queue := evs\<rparr>"] exI [of _ "[ev]"]) simp
  qed
qed (use x in simp_all)

text \<open>A subscriber sees every event in order.  As long as it can be written to and no more events
  are published than the channel holds, what was sent followed by what still waits is exactly what
  waited followed by what was published, and the subscription goes on.\<close>

theorem subscriber_sees_all:
  assumes "ic_phase c = Subscribed rx True rest" and "\<not> rx_lagged rx"
    and "\<forall>x \<in> set xs. bus_input (snd x) \<and> snd x \<noteq> Poll False"
    and "length (rx_queue rx) + length (published (map snd xs)) \<le> cap"
  shows "\<exists>rx' evs. ic_phase (ipc_run parse cap xs c) = Subscribed rx' True rest \<and> \<not> rx_lagged rx' \<and>
    ic_sent (ipc_run parse cap xs c) = ic_sent c @ map RespEvent evs \<and>
    evs @ rx_queue rx' = rx_queue rx @ published (map snd xs)"
  using assms
proof (induction xs arbitrary: c rx)
  case (Cons x xs)
  obtain env y where x: "x = (env, y)" by (cases x)
  have pub: "published (map snd (x # xs)) = published [y] @ published (map snd xs)"
    by (cases y) (simp_all add: x)
  have y: "bus_input y" "y \<noteq> Poll False" using bspec [OF Cons.prems(3), of x] x by simp_all
  have "length (rx_queue rx) + length (published [y]) \<le> cap"
    using Cons.prems(4) unfolding pub length_append by linarith
  from subscriber_step [OF Cons.prems(1,2) y this, of parse env]
  obtain rx1 evs1 where s: "ic_phase (ipc_step parse cap x c) = Subscribed rx1 True rest" "\<not> rx_lagged rx1"
    "ic_sent (ipc_step parse cap x c) = ic_sent c @ map RespEvent evs1"
    and q: "evs1 @ rx_queue rx1 = rx_queue rx @ published [y]"
    unfolding x by (elim exE conjE)
  have "length (rx_queue rx1) \<le> length (rx_queue rx) + length (published [y])"
    using arg_cong [OF q, of length] by simp
  with Cons.prems(4) have room: "length (rx_queue rx1) + length (published (map snd xs)) \<le> cap"
    unfolding pub length_append by linarith
  have rest_ok: "\<forall>x \<in> set xs. bus_input (snd x) \<and> snd x \<noteq> Poll False" using Cons.prems(3) by simp
  from Cons.IH [OF s(1,2) rest_ok room] obtain rx2 evs2 where
    "ic_phase (ipc_run parse cap (x # xs) c) = Subscribed rx2 True rest" "\<not> rx_lagged rx2"
    "ic_sent (ipc_run parse cap (x # xs) c) = ic_sent c @ map RespEvent (evs1 @ evs2)"
    "evs2 @ rx_queue rx2 = rx_queue rx1 @ published (map snd xs)"
    unfolding ipc_run_simps s(3) map_append append_assoc by (elim exE conjE)
  moreover from this(4) q pub have "(evs1 @ evs2) @ rx_queue rx2 = rx_queue rx @ published (map snd (x # xs))"
    by (metis append_assoc)
  ultimately show ?case by blast
qed simp

definition example_event :: ipc_event where
  "example_event = StateChange ''demo'' ''Unknown'' ''Running''"

definition example_sub :: ipc_conn where
  "example_sub = ipc_step example_parse 2 (example_env, Chunk ''s'') (ipc_open 7 7)"

lemma example_sub_phase: "ic_phase example_sub = Subscribed rx_subscribe True []"
  by code_simp

theorem subscriber_sees_all_witness:
  "\<exists>rx' evs. ic_phase (ipc_run example_parse 2 [(example_env, Published example_event), (example_env, Poll True)]
      example_sub) = Subscribed rx' True [] \<and> evs @ rx_queue rx' = [example_event]"
  using subscriber_sees_all [OF example_sub_phase,
      of "[(example_env, Published example_event), (example_env, Poll True)]" 2 example_parse]
  by (simp add: rx_subscribe_def del: ipc_step.simps ipc_run_simps) blast

lemma deaf_step:
  assumes "ic_phase c = Subscribed rx False rest" and "bus_input x"
  shows "(\<exists>rx'. ic_phase (ipc_step parse cap (env, x) c) = Subscribed rx' False rest) \<and>
    ic_sent (ipc_step parse cap (env, x) c) = ic_sent c"
  using assms by (cases x) simp_all

lemma deaf_run:
  assumes "ic_phase c = Subscribed rx False rest" and "\<forall>x \<in> set xs. bus_input (snd x)"
  shows "ic_sent (ipc_run parse cap xs c) = ic_sent c"
  using assms
proof (induction xs arbitrary: c rx)
  case (Cons x xs)
  obtain env y where x: "x = (env, y)" by (cases x)
  with Cons.prems have "bus_input y" by simp
  from deaf_step [OF Cons.prems(1) this, of parse cap env] Cons.IH Cons.prems(2) show ?case
    by (auto simp: x simp del: ipc_step.simps)
qed simp

text \<open>C39: a subscriber that fell behind goes deaf.  Once the channel reports a lag, nothing more is sent,
  however many events are published and however often the task is woken, until the peer itself
  writes something or hangs up.\<close>

theorem lagged_subscriber_deaf:
  assumes c: "ic_phase c = Subscribed rx True rest" and lag: "rx_lagged rx"
    and xs: "\<forall>x \<in> set xs. bus_input (snd x)"
  shows "ic_sent (ipc_run parse cap ((env, Poll w) # xs) c) = ic_sent c"
proof -
  have "ic_phase (ipc_step parse cap (env, Poll w) c) = Subscribed (rx\<lparr>rx_lagged := False\<rparr>) False rest"
    "ic_sent (ipc_step parse cap (env, Poll w) c) = ic_sent c" using c lag by simp_all
  with deaf_run [OF this(1) xs] show ?thesis by (simp del: ipc_step.simps)
qed

theorem lagged_subscriber_deaf_witness:
  "let p = (example_env, Published example_event); q = (example_env, Poll True) in
   length (ic_sent (ipc_run example_parse 2 [p, p, p, q, q, q] example_sub)) = length (ic_sent example_sub)"
proof -
  let ?p = "(example_env, Published example_event)" and ?q = "(example_env, Poll True)"
  let ?c = "ipc_run example_parse 2 [?p, ?p, ?p] example_sub"
  obtain rx where "ic_phase ?c = Subscribed rx True []" "rx_lagged rx" "ic_sent ?c = ic_sent example_sub"
    using example_sub_phase by (simp add: rx_subscribe_def rx_publish_def)
  with lagged_subscriber_deaf [of ?c rx "[]" "[?q, ?q]" example_parse 2 example_env True] show ?thesis
    by (simp add: Let_def del: ipc_step.simps)
qed

section \<open>Admission\<close>

definition server_ok :: "u32 \<Rightarrow> ipc_server \<Rightarrow> bool" where
  "server_ok my_uid s \<longleftrightarrow> is_permits s + length (is_conns s) = MAX_CONCURRENT \<and>
     (\<forall>(peer, c) \<in> set (is_conns s). peer = my_uid \<and> \<not> is_closed (ic_phase c))"

lemma server_ok_step: "server_ok my_uid s \<Longrightarrow> server_ok my_uid (ipc_server_step parse cap my_uid x s)"
proof (cases x)
  case (Accept peer)
  then show "server_ok my_uid s \<Longrightarrow> ?thesis"
    by (auto simp: server_ok_def ipc_open_def Let_def)
next
  case (Input i y)
  assume ok: "server_ok my_uid s"
  show ?thesis
  proof (cases "i < length (is_conns s)")
    case True
    obtain peer c where pc: "is_conns s ! i = (peer, c)" by fastforce
    then have "(peer, c) \<in> set (is_conns s)" using True nth_mem by metis
    with ok have "peer = my_uid" by (auto simp: server_ok_def)
    with ok True pc Input show ?thesis
      by (auto simp: server_ok_def Let_def dest!: in_set_takeD in_set_dropD set_update_subset_insert [THEN subsetD]
          simp del: ipc_step.simps)
  qed (use ok Input in simp)
qed

text \<open>only the owner's connections are served, and not too many.  Whatever peers connect and send,
  running connections and free permits add up to 32 and every running connection is of the user the
  daemon runs as.\<close>

theorem ipc_admission:
  fixes xs parse cap my_uid
  defines "s \<equiv> fold (ipc_server_step parse cap my_uid) xs ipc_server_start"
  shows "is_permits s + length (is_conns s) = 32 \<and> fst ` set (is_conns s) \<subseteq> {my_uid}"
proof -
  have "server_ok my_uid s0 \<Longrightarrow> server_ok my_uid (fold (ipc_server_step parse cap my_uid) xs s0)" for s0
    by (induction xs arbitrary: s0) (simp_all add: server_ok_step del: ipc_server_step.simps)
  moreover have "server_ok my_uid ipc_server_start" by (simp add: server_ok_def ipc_server_start_def)
  ultimately have "server_ok my_uid s" by (simp add: s_def)
  then show ?thesis by (auto simp: server_ok_def MAX_CONCURRENT_def)
qed

end
