(* ===== verification/Host_Merge.thy ===== *)
theory Host_Merge
  imports Host_Scan
begin

text \<open>
  Merging the services of all sources (\<open>merge_services\<close> of \<open>mux-agent/src/scan.rs\<close>) and what the
  command line builds from the merge: the manifest, the snippets and the rewritten host file.
\<close>

section \<open>Equivalence\<close>

text \<open>Equality of two hash maps.\<close>

definition hm_eq :: "('k, 'v) hashmap \<Rightarrow> ('k, 'v) hashmap \<Rightarrow> bool" where
  "hm_eq a b \<longleftrightarrow> length a = length b \<and> list_all (\<lambda>(k, v). hm_get b k = Some v) a"

definition env_equal :: "(string, string) hashmap option \<Rightarrow> (string, string) hashmap option \<Rightarrow> bool" where
  "env_equal a b = (case (a, b) of (None, None) \<Rightarrow> True | (Some am, Some bm) \<Rightarrow> hm_eq am bm | _ \<Rightarrow> False)"

definition services_equivalent :: "host_service \<Rightarrow> host_service \<Rightarrow> bool" where
  "services_equivalent a b \<longleftrightarrow> sv_command a = sv_command b \<and> sv_args a = sv_args b \<and>
     sv_cwd a = sv_cwd b \<and> env_equal (sv_env a) (sv_env b) \<and> sv_socket a = sv_socket b"

section \<open>Unique names\<close>

text \<open>The loop of \<open>ensure_unique\<close>; among one more candidate than used names one is free.\<close>

definition numbered_name :: "string \<Rightarrow> nat \<Rightarrow> string" where
  "numbered_name candidate n = candidate @ ''-'' @ nat_str n"

fun unique_search :: "string list \<Rightarrow> string \<Rightarrow> nat \<Rightarrow> nat \<Rightarrow> string option" where
  "unique_search used candidate 0 counter = None"
| "unique_search used candidate (Suc fuel) counter =
     (if numbered_name candidate counter \<notin> set used then Some (numbered_name candidate counter)
      else unique_search used candidate fuel (Suc counter))"

definition ensure_unique :: "string list \<Rightarrow> string \<Rightarrow> string" where
  "ensure_unique used candidate =
     (if candidate \<notin> set used then candidate
      else the (unique_search used candidate (Suc (length used)) 2))"

section \<open>The merge\<close>

definition push_by_name ::
  "host_file \<times> host_service \<Rightarrow> (string \<times> (host_file \<times> host_service) list) list \<Rightarrow>
   (string \<times> (host_file \<times> host_service) list) list" where
  "push_by_name x m =
     (let name = sv_name (snd x) in
      obj_insert name ((case map_of m name of None \<Rightarrow> [] | Some xs \<Rightarrow> xs) @ [x]) m)"

definition all_entries :: "scan_result list \<Rightarrow> (host_file \<times> host_service) list" where
  "all_entries scans = concat (map (\<lambda>s. map (\<lambda>v. (sr_host s, v)) (sr_services s)) scans)"

definition group_by_name :: "scan_result list \<Rightarrow> (string \<times> (host_file \<times> host_service) list) list" where
  "group_by_name scans = fold push_by_name (all_entries scans) []"

definition push_unique ::
  "host_file \<times> host_service \<Rightarrow> (host_file \<times> host_service) list \<Rightarrow> (host_file \<times> host_service) list" where
  "push_unique x unique =
     (if \<exists>y \<in> set unique. services_equivalent (snd y) (snd x) then unique else unique @ [x])"

definition unique_variants :: "(host_file \<times> host_service) list \<Rightarrow> (host_file \<times> host_service) list" where
  "unique_variants variants = fold push_unique variants []"

record merge_acc =
  ma_services :: "host_service list"
  ma_conflicts :: "conflict_report list"
  ma_used :: "string list"

definition suffixed_name :: "string \<Rightarrow> host_file \<Rightarrow> string" where
  "suffixed_name name src = name @ ''-from-'' @ as_label (hf_kind src)"

definition rename_variant :: "string \<Rightarrow> host_file \<times> host_service \<Rightarrow> merge_acc \<Rightarrow> merge_acc" where
  "rename_variant name x acc =
     (let unique_name = ensure_unique (ma_used acc) (suffixed_name name (fst x)) in
      acc\<lparr>ma_used := unique_name # ma_used acc,
          ma_services := ma_services acc @ [(snd x)\<lparr>sv_name := unique_name\<rparr>]\<rparr>)"

definition conflict_of :: "string \<Rightarrow> (host_file \<times> host_service) list \<Rightarrow> conflict_report" where
  "conflict_of name unique = \<lparr>cr_name = name, cr_variants = map (\<lambda>(src, svc).
     \<lparr>cv_source_path = hf_path src, cv_source_kind = hf_kind src, cv_service = svc\<rparr>) unique\<rparr>"

definition merge_name :: "string \<times> (host_file \<times> host_service) list \<Rightarrow> merge_acc \<Rightarrow> merge_acc" where
  "merge_name nv acc =
     (let name = fst nv; unique = unique_variants (snd nv) in
      case unique of
        [x] \<Rightarrow> acc\<lparr>ma_used := name # ma_used acc, ma_services := ma_services acc @ [snd x]\<rparr>
      | _ \<Rightarrow> fold (rename_variant name) unique
               (acc\<lparr>ma_conflicts := ma_conflicts acc @ [conflict_of name unique]\<rparr>))"

definition merge_services :: "scan_result list \<Rightarrow> merge_outcome" where
  "merge_services scans =
     (let acc = fold merge_name (group_by_name scans) \<lparr>ma_services = [], ma_conflicts = [], ma_used = []\<rparr>
      in \<lparr>mo_services = ma_services acc, mo_conflicts = ma_conflicts acc\<rparr>)"

section \<open>Manifest and snippets\<close>

definition service_socket :: "string \<Rightarrow> host_service \<Rightarrow> string" where
  "service_socket socket_dir svc = (case sv_socket svc of Some s \<Rightarrow> s
     | None \<Rightarrow> path_join socket_dir (sv_name svc @ ''.sock''))"

definition manifest_entry :: "string \<Rightarrow> host_service \<Rightarrow> server_config" where
  "manifest_entry socket_dir svc = \<lparr>sc_socket = Some (service_socket socket_dir svc),
     sc_cmd = Some (sv_command svc), sc_args = Some (sv_args svc), sc_cwd = sv_cwd svc,
     sc_max_active_clients = Some 5, sc_tray = Some False, sc_service_name = Some (sv_name svc),
     sc_log_level = Some ''info'', sc_lazy_start = Some False, sc_max_request_bytes = Some 1048576,
     sc_request_timeout_ms = Some 30000, sc_restart_backoff_ms = Some 1000,
     sc_restart_backoff_max_ms = Some 30000, sc_max_restarts = Some 5, sc_status_file = None,
     sc_env = sv_env svc, sc_heartbeat_interval_ms = Some 30000, sc_heartbeat_timeout_ms = Some 30000,
     sc_heartbeat_max_failures = Some 3, sc_heartbeat_enabled = Some True\<rparr>"

definition build_manifest :: "scan_result list \<Rightarrow> string \<Rightarrow> config" where
  "build_manifest scans socket_dir =
     fold (\<lambda>svc cfg. hm_insert (sv_name svc) (manifest_entry socket_dir svc) cfg)
       (mo_services (merge_services scans)) []"

definition env_json :: "(string, string) hashmap \<Rightarrow> json" where
  "env_json env = JObj (obj_of (map (\<lambda>(k, v). (k, JStr v)) env))"

definition proxy_entry :: "string \<Rightarrow> string list \<Rightarrow> string \<Rightarrow> host_service \<Rightarrow> json" where
  "proxy_entry proxy_cmd proxy_args socket svc = JObj (obj_of
     ([(''command'', JStr proxy_cmd),
       (''args'', JArr (map JStr (proxy_args @ [''--socket'', socket])))] @
      (case sv_cwd svc of None \<Rightarrow> [] | Some cwd \<Rightarrow> [(''cwd'', JStr cwd)]) @
      (case sv_env svc of None \<Rightarrow> [] | Some env \<Rightarrow> [(''env'', env_json env)])))"

definition snippet_value :: "scan_result list \<Rightarrow> string \<Rightarrow> string \<Rightarrow> string list \<Rightarrow> json" where
  "snippet_value scans socket_dir proxy_cmd proxy_args =
     JObj (obj_of [(''mcpServers'', JObj (obj_of (map (\<lambda>svc.
       (sv_name svc, proxy_entry proxy_cmd proxy_args (service_socket socket_dir svc) svc))
       (mo_services (merge_services scans)))))])"

definition generate_snippet ::
  "scan_result list \<Rightarrow> string \<Rightarrow> string \<Rightarrow> string list \<Rightarrow> (host_kind, json) hashmap" where
  "generate_snippet scans socket_dir proxy_cmd proxy_args =
     fold (\<lambda>s m. hm_insert (hf_kind (sr_host s)) (snippet_value scans socket_dir proxy_cmd proxy_args) m)
       scans []"

section \<open>Names are found\<close>

lemma numbered_name_inj: "numbered_name c m = numbered_name c n \<Longrightarrow> m = n"
  by (simp add: numbered_name_def)

lemma unique_search_None:
  "unique_search used c fuel k = None \<longleftrightarrow> (\<forall>i < fuel. numbered_name c (k + i) \<in> set used)"
proof (induction fuel arbitrary: k)
  case (Suc fuel)
  show ?case
  proof (cases "numbered_name c k \<in> set used")
    case True
    then have "unique_search used c (Suc fuel) k = None \<longleftrightarrow> (\<forall>i < fuel. numbered_name c (Suc k + i) \<in> set used)"
      using Suc by simp
    also have "\<dots> \<longleftrightarrow> (\<forall>i < Suc fuel. numbered_name c (k + i) \<in> set used)"
      using True by (simp add: All_less_Suc2)
    finally show ?thesis .
  qed auto
qed simp

lemma unique_search_total: "\<exists>s. unique_search used c (Suc (length used)) k = Some s"
proof (rule ccontr)
  assume "\<nexists>s. unique_search used c (Suc (length used)) k = Some s"
  then have "unique_search used c (Suc (length used)) k = None" by (cases "unique_search used c (Suc (length used)) k") auto
  then have "(\<lambda>i. numbered_name c (k + i)) ` {..<Suc (length used)} \<subseteq> set used"
    unfolding unique_search_None by auto
  moreover have "inj_on (\<lambda>i. numbered_name c (k + i)) {..<Suc (length used)}"
    by (auto simp: inj_on_def dest: numbered_name_inj)
  ultimately have "Suc (length used) \<le> card (set used)"
    by (metis card_image card_lessThan card_mono finite_set)
  then show False using card_length [of used] by simp
qed

lemma unique_search_Some: "unique_search used c fuel k = Some s \<Longrightarrow> s \<notin> set used \<and> (\<exists>n. s = numbered_name c n)"
  by (induction fuel arbitrary: k) (auto split: if_splits)

lemma ensure_unique_cases:
  "ensure_unique used c \<notin> set used \<and>
     (ensure_unique used c = c \<or> (\<exists>n. ensure_unique used c = numbered_name c n))"
proof (cases "c \<in> set used")
  case True
  obtain s where "unique_search used c (Suc (length used)) 2 = Some s" using unique_search_total by blast
  with unique_search_Some [OF this] True show ?thesis by (auto simp: ensure_unique_def simp del: unique_search.simps)
qed (simp add: ensure_unique_def)

section \<open>Groups\<close>

definition entries_of :: "(string \<times> (host_file \<times> host_service) list) list \<Rightarrow> string \<Rightarrow> (host_file \<times> host_service) list" where
  "entries_of m n = (case map_of m n of None \<Rightarrow> [] | Some xs \<Rightarrow> xs)"

lemma entries_of_push:
  "entries_of (push_by_name x m) n = entries_of m n @ (if sv_name (snd x) = n then [x] else [])"
  by (simp add: entries_of_def push_by_name_def Let_def map_of_obj_insert split: option.splits)

lemma entries_of_fold:
  "entries_of (fold push_by_name xs m) n = entries_of m n @ filter (\<lambda>x. sv_name (snd x) = n) xs"
  by (induction xs arbitrary: m) (simp_all add: entries_of_push)

lemma obj_ok_fold: "obj_ok m \<Longrightarrow> obj_ok (fold push_by_name xs m)"
  by (induction xs arbitrary: m) (simp_all add: push_by_name_def Let_def)

lemma obj_ok_distinct: "obj_ok m \<Longrightarrow> distinct (map fst m)"
  by (simp add: strict_sorted_iff)

lemma group_obj_ok: "obj_ok (group_by_name scans)"
  unfolding group_by_name_def by (rule obj_ok_fold) simp

lemma group_entries:
  assumes "(name, vs) \<in> set (group_by_name scans)"
  shows "vs = filter (\<lambda>x. sv_name (snd x) = name) (all_entries scans)"
proof -
  have "map_of (group_by_name scans) name = Some vs"
    using assms obj_ok_distinct [OF group_obj_ok] by simp
  then have "vs = entries_of (group_by_name scans) name" by (simp add: entries_of_def)
  then show ?thesis by (simp add: group_by_name_def entries_of_fold) (simp add: entries_of_def)
qed

lemma group_covers:
  assumes "x \<in> set (all_entries scans)"
  shows "\<exists>vs. (sv_name (snd x), vs) \<in> set (group_by_name scans) \<and> x \<in> set vs"
proof -
  have "x \<in> set (entries_of (group_by_name scans) (sv_name (snd x)))"
    using assms by (simp add: group_by_name_def entries_of_fold)
  then show ?thesis
    by (cases "map_of (group_by_name scans) (sv_name (snd x))") (auto simp: entries_of_def dest: map_of_SomeD)
qed

section \<open>Variants\<close>

definition service_ok :: "host_service \<Rightarrow> bool" where
  "service_ok s = (case sv_env s of None \<Rightarrow> True | Some e \<Rightarrow> hm_ok e)"

lemma equivalent_refl: "service_ok s \<Longrightarrow> services_equivalent s s"
  by (auto simp: services_equivalent_def service_ok_def env_equal_def hm_eq_def list_all_iff
      split: option.splits)

lemma equivalent_rename [simp]:
  "services_equivalent (s\<lparr>sv_name := n\<rparr>) t = services_equivalent s t"
  by (simp add: services_equivalent_def)

lemma push_unique_keeps: "set unique \<subseteq> set (push_unique x unique)"
  by (auto simp: push_unique_def)

lemma fold_push_unique_keeps: "set unique \<subseteq> set (fold push_unique xs unique)"
  by (induction xs arbitrary: unique) (auto dest: subsetD [OF push_unique_keeps])

lemma unique_covers:
  assumes "\<forall>x \<in> set xs. service_ok (snd x)" and "x \<in> set xs"
  shows "\<exists>y \<in> set (fold push_unique xs unique). services_equivalent (snd y) (snd x)"
  using assms
proof (induction xs arbitrary: unique)
  case (Cons z xs)
  show ?case
  proof (cases "x = z")
    case True
    have "\<exists>y \<in> set (push_unique z unique). services_equivalent (snd y) (snd z)"
      using equivalent_refl Cons.prems(1) by (auto simp: push_unique_def)
    with True show ?thesis using fold_push_unique_keeps [of "push_unique z unique" xs] by auto
  next
    case False
    with Cons show ?thesis by simp
  qed
qed simp

lemma unique_subset: "set (fold push_unique xs unique) \<subseteq> set unique \<union> set xs"
proof (induction xs arbitrary: unique)
  case (Cons x xs)
  have "set (push_unique x unique) \<subseteq> insert x (set unique)" by (auto simp: push_unique_def)
  with Cons.IH [of "push_unique x unique"] show ?case by auto
qed simp

section \<open>The fold of the merge\<close>

definition kept_name :: "string \<Rightarrow> string \<Rightarrow> bool" where
  "kept_name n m \<longleftrightarrow> m = n \<or> starts_with m (n @ ''-from-'')"

lemma kept_suffixed: "kept_name n (ensure_unique used (suffixed_name n src))"
  using ensure_unique_cases [of used "suffixed_name n src"]
  by (auto simp: kept_name_def starts_with_iff suffixed_name_def numbered_name_def)

lemma rename_all:
  "\<exists>ms. ma_services (fold (rename_variant name) us acc) = ma_services acc @ ms \<and>
     list_all2 (\<lambda>u m. m = (snd u)\<lparr>sv_name := sv_name m\<rparr> \<and> kept_name name (sv_name m)) us ms"
proof (induction us arbitrary: acc)
  case (Cons u us)
  let ?n = "ensure_unique (ma_used acc) (suffixed_name name (fst u))"
  let ?m = "(snd u)\<lparr>sv_name := ?n\<rparr>"
  obtain ms where ms: "ma_services (fold (rename_variant name) us (rename_variant name u acc)) =
      ma_services (rename_variant name u acc) @ ms"
    "list_all2 (\<lambda>u m. m = (snd u)\<lparr>sv_name := sv_name m\<rparr> \<and> kept_name name (sv_name m)) us ms"
    using Cons.IH by blast
  have "ma_services (rename_variant name u acc) = ma_services acc @ [?m]"
    by (simp add: rename_variant_def Let_def)
  with ms kept_suffixed [of name "ma_used acc" "fst u"]
  show ?case by (intro exI [of _ "?m # ms"]) simp
qed simp

lemma merge_name_services:
  assumes names: "\<forall>x \<in> set vs. sv_name (snd x) = name"
  shows "\<exists>ms. ma_services (merge_name (name, vs) acc) = ma_services acc @ ms \<and>
     list_all2 (\<lambda>u m. m = (snd u)\<lparr>sv_name := sv_name m\<rparr> \<and> kept_name name (sv_name m)) (unique_variants vs) ms"
proof (cases "\<exists>x. unique_variants vs = [x]")
  case True
  then obtain x where x: "unique_variants vs = [x]" by blast
  have "x \<in> set vs" using unique_subset [of vs "[]"] x by (auto simp: unique_variants_def)
  with names x show ?thesis by (simp add: merge_name_def kept_name_def)
next
  case False
  let ?acc = "acc\<lparr>ma_conflicts := ma_conflicts acc @ [conflict_of name (unique_variants vs)]\<rparr>"
  have "merge_name (name, vs) acc = fold (rename_variant name) (unique_variants vs) ?acc"
    using False by (auto simp: merge_name_def Let_def split: list.splits)
  with rename_all [of name "unique_variants vs" ?acc] show ?thesis by simp
qed

definition groups_ok :: "(string \<times> (host_file \<times> host_service) list) list \<Rightarrow> bool" where
  "groups_ok gs \<longleftrightarrow> (\<forall>(name, vs) \<in> set gs. \<forall>x \<in> set vs. sv_name (snd x) = name \<and> service_ok (snd x))"

lemma fold_merge_extends:
  "groups_ok gs \<Longrightarrow> \<exists>ms. ma_services (fold merge_name gs acc) = ma_services acc @ ms"
proof (induction gs arbitrary: acc)
  case (Cons g gs)
  obtain name vs where g: "g = (name, vs)" by (cases g)
  have "\<forall>x \<in> set vs. sv_name (snd x) = name" and gs: "groups_ok gs"
    using Cons.prems by (auto simp: groups_ok_def g)
  then obtain ms1 where "ma_services (merge_name g acc) = ma_services acc @ ms1"
    using merge_name_services g by blast
  with Cons.IH [OF gs, of "merge_name g acc"] show ?case by auto
qed simp

lemma fold_merge_covers:
  assumes "groups_ok gs" and "(name, vs) \<in> set gs" and "x \<in> set vs"
  shows "\<exists>m \<in> set (ma_services (fold merge_name gs acc)).
    services_equivalent m (snd x) \<and> kept_name (sv_name (snd x)) (sv_name m)"
  using assms
proof (induction gs arbitrary: acc)
  case (Cons g gs)
  have gs: "groups_ok gs" using Cons.prems(1) by (auto simp: groups_ok_def)
  show ?case
  proof (cases "g = (name, vs)")
    case True
    have ok: "\<forall>x \<in> set vs. sv_name (snd x) = name" "\<forall>x \<in> set vs. service_ok (snd x)"
      using Cons.prems(1) True by (auto simp: groups_ok_def)
    obtain ms where ms: "ma_services (merge_name g acc) = ma_services acc @ ms"
      "list_all2 (\<lambda>u m. m = (snd u)\<lparr>sv_name := sv_name m\<rparr> \<and> kept_name name (sv_name m)) (unique_variants vs) ms"
      using merge_name_services [OF ok(1), of acc] True by blast
    obtain y where y: "y \<in> set (unique_variants vs)" "services_equivalent (snd y) (snd x)"
      using unique_covers [OF ok(2) Cons.prems(3), of "[]"] by (auto simp: unique_variants_def)
    from y(1) obtain i where i: "i < length (unique_variants vs)" "unique_variants vs ! i = y"
      by (auto simp: in_set_conv_nth)
    have "ms ! i = (snd y)\<lparr>sv_name := sv_name (ms ! i)\<rparr>" "kept_name name (sv_name (ms ! i))"
      using list_all2_nthD [OF ms(2) i(1)] i(2) by auto
    then have "services_equivalent (ms ! i) (snd x)" using y(2) by (metis equivalent_rename)
    moreover have "ms ! i \<in> set ms" using i(1) list_all2_lengthD [OF ms(2)] by simp
    moreover obtain ms2 where "ma_services (fold merge_name gs (merge_name g acc)) =
        ma_services (merge_name g acc) @ ms2"
      using fold_merge_extends [OF gs] by blast
    ultimately show ?thesis
      using \<open>kept_name name (sv_name (ms ! i))\<close> ok(1) Cons.prems(3) ms(1) by auto
  next
    case False
    with Cons.IH [OF gs, of "merge_name g acc"] Cons.prems show ?thesis by auto
  qed
qed simp

definition groups_named :: "(string \<times> (host_file \<times> host_service) list) list \<Rightarrow> bool" where
  "groups_named gs \<longleftrightarrow> (\<forall>(name, vs) \<in> set gs. \<forall>x \<in> set vs. sv_name (snd x) = name)"

lemma fold_merge_origin:
  assumes "groups_named gs" and "m \<in> set (ma_services (fold merge_name gs acc))"
  shows "m \<in> set (ma_services acc) \<or>
    (\<exists>name vs x. (name, vs) \<in> set gs \<and> x \<in> set vs \<and> m = (snd x)\<lparr>sv_name := sv_name m\<rparr> \<and> kept_name name (sv_name m))"
  using assms
proof (induction gs arbitrary: acc)
  case (Cons g gs)
  obtain name vs where g: "g = (name, vs)" by (cases g)
  have gs: "groups_named gs" and ok: "\<forall>x \<in> set vs. sv_name (snd x) = name"
    using Cons.prems(1) by (auto simp: groups_named_def g)
  obtain ms where ms: "ma_services (merge_name g acc) = ma_services acc @ ms"
    "list_all2 (\<lambda>u m. m = (snd u)\<lparr>sv_name := sv_name m\<rparr> \<and> kept_name name (sv_name m)) (unique_variants vs) ms"
    using merge_name_services [OF ok, of acc] g by blast
  have "m \<in> set (ma_services acc) \<or> m \<in> set ms \<or>
    (\<exists>name vs x. (name, vs) \<in> set gs \<and> x \<in> set vs \<and> m = (snd x)\<lparr>sv_name := sv_name m\<rparr> \<and> kept_name name (sv_name m))"
    using Cons.IH [OF gs, of "merge_name g acc"] Cons.prems(2) ms(1) by auto
  moreover have "\<exists>x \<in> set vs. m = (snd x)\<lparr>sv_name := sv_name m\<rparr> \<and> kept_name name (sv_name m)" if "m \<in> set ms"
  proof -
    obtain i where i: "i < length ms" "ms ! i = m" using \<open>m \<in> set ms\<close> by (auto simp: in_set_conv_nth)
    have "unique_variants vs ! i \<in> set vs"
      using unique_subset [of vs "[]"] i(1) list_all2_lengthD [OF ms(2)]
      by (auto simp: unique_variants_def)
    then show ?thesis using list_all2_nthD2 [OF ms(2) i(1)] i(2) by auto
  qed
  ultimately show ?case unfolding g by (metis list.set_intros(1) list.set_intros(2))
qed simp

lemma groups_named_scans: "groups_named (group_by_name scans)"
  by (auto simp: groups_named_def dest!: group_entries)

lemma groups_ok_scans:
  assumes "\<forall>x \<in> set (all_entries scans). service_ok (snd x)"
  shows "groups_ok (group_by_name scans)"
  using assms by (auto simp: groups_ok_def dest!: group_entries)

lemma all_entries_iff:
  "x \<in> set (all_entries scans) \<longleftrightarrow> (\<exists>s \<in> set scans. fst x = sr_host s \<and> snd x \<in> set (sr_services s))"
  by (cases x) (auto simp: all_entries_def)

lemma merge_services_fold:
  "mo_services (merge_services scans) = ma_services (fold merge_name (group_by_name scans)
     \<lparr>ma_services = [], ma_conflicts = [], ma_used = []\<rparr>)"
  by (simp add: merge_services_def Let_def)

lemma merge_covers:
  assumes ok: "\<forall>s \<in> set scans. \<forall>v \<in> set (sr_services s). service_ok v"
    and s: "s \<in> set scans" and v: "v \<in> set (sr_services s)"
  shows "\<exists>m \<in> set (mo_services (merge_services scans)). services_equivalent m v \<and> kept_name (sv_name v) (sv_name m)"
proof -
  have gs: "groups_ok (group_by_name scans)"
    using ok by (intro groups_ok_scans) (metis all_entries_iff)
  have "(sr_host s, v) \<in> set (all_entries scans)" using s v by (auto simp: all_entries_iff)
  from group_covers [OF this] obtain vs where
    "(sv_name v, vs) \<in> set (group_by_name scans)" "(sr_host s, v) \<in> set vs" by auto
  from fold_merge_covers [OF gs this] show ?thesis by (simp add: merge_services_fold)
qed

lemma merge_origin:
  assumes m: "m \<in> set (mo_services (merge_services scans))"
  shows "\<exists>s \<in> set scans. \<exists>v \<in> set (sr_services s). m = v\<lparr>sv_name := sv_name m\<rparr> \<and> kept_name (sv_name v) (sv_name m)"
proof -
  obtain name vs x where g: "(name, vs) \<in> set (group_by_name scans)" "x \<in> set vs"
    and mx: "m = (snd x)\<lparr>sv_name := sv_name m\<rparr>" "kept_name name (sv_name m)"
    using fold_merge_origin [OF groups_named_scans m [unfolded merge_services_fold]] by auto
  have "x \<in> set (all_entries scans)" "sv_name (snd x) = name"
    using group_entries [OF g(1)] g(2) by auto
  with mx show ?thesis by (auto simp: all_entries_iff)
qed


section \<open>Names of the merged services\<close>

abbreviation from_mark :: string where
  "from_mark \<equiv> ''-from-''"

lemma renamed_contains_mark: "str_contains (ensure_unique used (suffixed_name n src)) from_mark"
  using ensure_unique_cases [of used "suffixed_name n src"]
  unfolding str_contains_iff suffixed_name_def numbered_name_def by (metis append.assoc)

text \<open>The names so far are those recorded as used, without repetition; they are keys already
  handled or carry the mark.\<close>

definition names_inv :: "string set \<Rightarrow> merge_acc \<Rightarrow> bool" where
  "names_inv ks acc \<longleftrightarrow> set (map sv_name (ma_services acc)) \<subseteq> set (ma_used acc) \<and>
     distinct (map sv_name (ma_services acc)) \<and>
     (\<forall>u \<in> set (ma_used acc). u \<in> ks \<or> str_contains u from_mark)"

lemma names_inv_rename:
  assumes "names_inv ks acc"
  shows "names_inv ks (rename_variant n x acc)"
proof -
  let ?u = "ensure_unique (ma_used acc) (suffixed_name n (fst x))"
  have "?u \<notin> set (ma_used acc)" using ensure_unique_cases by blast
  with assms renamed_contains_mark [of "ma_used acc" n "fst x"] show ?thesis
    by (auto simp: names_inv_def rename_variant_def Let_def)
qed

lemma names_inv_renames: "names_inv ks acc \<Longrightarrow> names_inv ks (fold (rename_variant n) us acc)"
  by (induction us arbitrary: acc) (simp_all add: names_inv_rename)

lemma names_inv_merge:
  assumes inv: "names_inv ks acc" and new: "name \<notin> ks" "\<not> str_contains name from_mark"
    and names: "\<forall>x \<in> set vs. sv_name (snd x) = name"
  shows "names_inv (insert name ks) (merge_name (name, vs) acc)"
proof (cases "\<exists>x. unique_variants vs = [x]")
  case True
  then obtain x where x: "unique_variants vs = [x]" by blast
  have "x \<in> set vs" using unique_subset [of vs "[]"] x by (auto simp: unique_variants_def)
  then have "sv_name (snd x) = name" using names by blast
  moreover have "name \<notin> set (ma_used acc)" using inv new by (auto simp: names_inv_def)
  ultimately show ?thesis using inv x by (auto simp: names_inv_def merge_name_def)
next
  case False
  let ?acc = "acc\<lparr>ma_conflicts := ma_conflicts acc @ [conflict_of name (unique_variants vs)]\<rparr>"
  have "names_inv (insert name ks) ?acc" using inv by (auto simp: names_inv_def)
  moreover have "merge_name (name, vs) acc = fold (rename_variant name) (unique_variants vs) ?acc"
    using False by (auto simp: merge_name_def Let_def split: list.splits)
  ultimately show ?thesis using names_inv_renames by metis
qed

lemma names_inv_fold:
  assumes "names_inv ks acc" and "distinct (map fst gs)" and "ks \<inter> set (map fst gs) = {}"
    and "\<forall>(name, vs) \<in> set gs. \<not> str_contains name from_mark \<and> (\<forall>x \<in> set vs. sv_name (snd x) = name)"
  shows "names_inv (ks \<union> set (map fst gs)) (fold merge_name gs acc)"
  using assms
proof (induction gs arbitrary: ks acc)
  case (Cons g gs)
  obtain name vs where g: "g = (name, vs)" by (cases g)
  have "names_inv (insert name ks) (merge_name g acc)"
    unfolding g using Cons.prems g by (intro names_inv_merge) auto
  from Cons.IH [OF this] Cons.prems g show ?case by auto
qed simp

lemma group_keys: "name \<in> set (map fst (group_by_name scans)) \<Longrightarrow> \<exists>x \<in> set (all_entries scans). sv_name (snd x) = name"
proof -
  have "fst ` set (fold push_by_name xs m) = fst ` set m \<union> (\<lambda>x. sv_name (snd x)) ` set xs" for xs m
    by (induction xs arbitrary: m) (auto simp: push_by_name_def Let_def)
  then have "set (map fst (group_by_name scans)) = (\<lambda>x. sv_name (snd x)) ` set (all_entries scans)"
    by (simp add: group_by_name_def)
  then show "name \<in> set (map fst (group_by_name scans)) \<Longrightarrow> \<exists>x \<in> set (all_entries scans). sv_name (snd x) = name"
    by auto
qed

lemma fold_insert_length:
  assumes "distinct (map f xs)" and "f ` set xs \<inter> hm_keys m = {}"
  shows "length (fold (\<lambda>x. hm_insert (f x) (g x)) xs m) = length m + length xs"
  using assms
proof (induction xs arbitrary: m)
  case (Cons x xs)
  then have "length (hm_insert (f x) (g x) m) = Suc (length m)" by (auto simp: length_hm_insert)
  with Cons show ?case by auto
qed simp

text \<open>names in the manifest.  As long as no service name in the sources contains \<open>-from-\<close>, the
  merged services have pairwise different names and the manifest has one entry for each of them.\<close>

theorem manifest_keeps_all:
  assumes plain: "\<forall>s \<in> set scans. \<forall>v \<in> set (sr_services s). \<not> str_contains (sv_name v) from_mark"
  shows "distinct (map sv_name (mo_services (merge_services scans))) \<and>
    length (build_manifest scans socket_dir) = length (mo_services (merge_services scans))"
proof -
  have names: "\<forall>(name, vs) \<in> set (group_by_name scans). \<not> str_contains name from_mark \<and>
      (\<forall>x \<in> set vs. sv_name (snd x) = name)"
  proof (clarify, intro conjI)
    fix name vs assume g: "(name, vs) \<in> set (group_by_name scans)"
    then have "name \<in> set (map fst (group_by_name scans))" by force
    from group_keys [OF this] plain show "\<not> str_contains name from_mark"
      by (metis all_entries_iff)
    show "\<forall>x \<in> set vs. sv_name (snd x) = name" using group_entries [OF g] by simp
  qed
  have "names_inv {} \<lparr>ma_services = [], ma_conflicts = [], ma_used = []\<rparr>" by (simp add: names_inv_def)
  from names_inv_fold [OF this obj_ok_distinct [OF group_obj_ok] _ names]
  have dist: "distinct (map sv_name (mo_services (merge_services scans)))"
    by (simp add: names_inv_def merge_services_fold)
  with fold_insert_length [OF dist, of "[]" "manifest_entry socket_dir"] show ?thesis
    by (simp add: build_manifest_def)
qed

section \<open>Examples\<close>

definition example_host :: "host_kind \<Rightarrow> host_file" where
  "example_host k = \<lparr>hf_kind = k, hf_path = ''/cfg'', hf_format = FmtJson, hf_schema = McpServersJson,
     hf_confidence = High, hf_writable = True, hf_eligible_for_danger = True\<rparr>"

definition example_svc :: "string \<Rightarrow> string \<Rightarrow> host_service" where
  "example_svc n cmd = \<lparr>sv_name = n, sv_command = cmd, sv_args = [], sv_cwd = None, sv_socket = None,
     sv_env = None, sv_enabled = None\<rparr>"

definition example_scans :: "scan_result list" where
  "example_scans =
     [\<lparr>sr_host = example_host Claude, sr_services = [example_svc ''a'' ''x'', example_svc ''b'' ''w'']\<rparr>,
      \<lparr>sr_host = example_host Codex, sr_services = [example_svc ''a'' ''y'', example_svc ''b'' ''w'']\<rparr>]"


theorem manifest_keeps_all_witness:
  "distinct (map sv_name (mo_services (merge_services example_scans)))"
proof -
  have "\<forall>s \<in> set example_scans. \<forall>v \<in> set (sr_services s). \<not> str_contains (sv_name v) from_mark" by code_simp
  from manifest_keeps_all [OF this] show ?thesis by blast
qed

text \<open>Three services, the third named like the renamed first.\<close>

definition colliding_scans :: "scan_result list" where
  "colliding_scans =
     [\<lparr>sr_host = example_host Claude,
       sr_services = [example_svc ''a'' ''x'', example_svc ''a-from-claude'' ''z'']\<rparr>,
      \<lparr>sr_host = example_host Codex, sr_services = [example_svc ''a'' ''y'']\<rparr>]"

text \<open>A name that looks like a renamed one costs a service.  A service that occurs once keeps its
  name unchecked, so when it is called like an already renamed variant both get the same name and
  the manifest keeps only one of them: three services are merged and the manifest has two entries.\<close>

theorem renamed_name_collides:
  "map sv_name (mo_services (merge_services colliding_scans)) =
     [''a-from-claude'', ''a-from-codex'', ''a-from-claude''] \<and>
   length (build_manifest colliding_scans ''/s'') = 2 \<and>
   map_option sc_cmd (hm_get (build_manifest colliding_scans ''/s'') ''a-from-claude'') = Some (Some ''z'')"
  by code_simp

end
