(* ===== verification/Host_Danger.thy ===== *)
theory Host_Danger
  imports Host_Merge
begin

text \<open>
  The rewrite of client configuration files (\<open>mux-agent/src/danger.rs\<close>): planning, execution with
  backups, and the format-specific rewrites.  Parsing and printing are parameters.  The file system
  is a map from locations to contents; \<open>os_loc\<close> is the location a path resolves to, so
  \<open>canonicalize\<close> succeeds where a file or directory exists.
\<close>

section \<open>Data\<close>

datatype danger_status = Planned | SkippedInvalid | SkippedIneligible | SkippedEmpty

record danger_action =
  da_source :: host_file
  da_status :: danger_status
  da_new_contents :: "string option"
  da_change_lines :: "string list"
  da_skip_reason :: "string option"
  da_existing_services :: "host_service list"

record danger_plan =
  dp_actions :: "danger_action list"
  dp_proxy_cmd :: string
  dp_proxy_args :: "string list"
  dp_socket_dir :: string

record danger_outcome =
  do_path :: string
  do_backup :: "string option"
  do_written :: bool
  do_status :: danger_status
  do_error :: "string option"

record formats =
  parse_json :: "string \<Rightarrow> json option"
  print_json :: "json \<Rightarrow> string"
  parse_toml :: "string \<Rightarrow> json option"
  print_toml :: "json \<Rightarrow> string option"

section \<open>Rewrites\<close>

definition rewrite_key :: "config_schema \<Rightarrow> (string \<times> json) list \<Rightarrow> string" where
  "rewrite_key schema obj = (case schema of
     McpServersJson \<Rightarrow> ''mcpServers''
   | ServersJson \<Rightarrow> ''servers''
   | AutoJson \<Rightarrow> (if map_of obj ''mcpServers'' \<noteq> None then ''mcpServers''
                 else if map_of obj ''servers'' \<noteq> None then ''servers'' else ''mcpServers'')
   | McpServersToml \<Rightarrow> ''mcpServers'')"

definition as_object :: "json option \<Rightarrow> (string \<times> json) list" where
  "as_object v = (case v of Some (JObj m) \<Rightarrow> m | _ \<Rightarrow> [])"

text \<open>The entry written for a service; unlike the snippet it has no working directory.\<close>

definition danger_entry :: "string \<Rightarrow> string list \<Rightarrow> string \<Rightarrow> host_service \<Rightarrow> json" where
  "danger_entry proxy_cmd proxy_args socket_dir svc = JObj (obj_of
     ([(''command'', JStr proxy_cmd),
       (''args'', JArr (map JStr (proxy_args @ [''--socket'', service_socket socket_dir svc])))] @
      (case sv_env svc of None \<Rightarrow> [] | Some env \<Rightarrow> [(''env'', env_json env)])))"

definition change_line :: "string \<Rightarrow> host_service \<Rightarrow> string" where
  "change_line proxy_cmd svc =
     ''rewrite `'' @ sv_name svc @ ''`: '' @ sv_command svc @ '' -> '' @ proxy_cmd"

definition new_server_map ::
  "(string \<times> json) list \<Rightarrow> host_service list \<Rightarrow> string \<Rightarrow> string list \<Rightarrow> string \<Rightarrow> (string \<times> json) list" where
  "new_server_map existing services proxy_cmd proxy_args socket_dir =
     fold (\<lambda>svc m. obj_insert (sv_name svc) (danger_entry proxy_cmd proxy_args socket_dir svc) m) services
       (fold (\<lambda>(n, v) m. obj_insert n v m)
          (filter (\<lambda>(n, v). n \<notin> sv_name ` set services) existing) [])"

definition rewrite_json_root ::
  "config_schema \<Rightarrow> host_service list \<Rightarrow> string \<Rightarrow> string list \<Rightarrow> string \<Rightarrow> json \<Rightarrow> json option" where
  "rewrite_json_root schema services proxy_cmd proxy_args socket_dir root =
     (case root of
        JObj obj \<Rightarrow>
          (let key = rewrite_key schema obj in
           Some (JObj (obj_insert key (JObj (new_server_map (as_object (map_of obj key)) services
             proxy_cmd proxy_args socket_dir)) obj)))
      | _ \<Rightarrow> None)"

definition rewrite_json_keep_other_keys ::
  "formats \<Rightarrow> string \<Rightarrow> string \<Rightarrow> config_schema \<Rightarrow> host_service list \<Rightarrow> string \<Rightarrow> string list \<Rightarrow> string \<Rightarrow>
   string + (string \<times> string list)" where
  "rewrite_json_keep_other_keys fm original p schema services proxy_cmd proxy_args socket_dir =
     (case parse_json fm original of
        None \<Rightarrow> Inl (''failed to parse json '' @ p)
      | Some root \<Rightarrow>
          (case rewrite_json_root schema services proxy_cmd proxy_args socket_dir root of
             None \<Rightarrow> Inl (p @ '': top-level JSON must be an object'')
           | Some root' \<Rightarrow> Inr (print_json fm root', map (change_line proxy_cmd) services)))"

definition rewrite_toml_root ::
  "host_service list \<Rightarrow> string \<Rightarrow> string list \<Rightarrow> string \<Rightarrow> json \<Rightarrow> json option" where
  "rewrite_toml_root services proxy_cmd proxy_args socket_dir root =
     (case root of
        JObj table \<Rightarrow> Some (JObj (obj_insert ''mcp_servers'' (JObj (new_server_map
          (as_object (map_of table ''mcp_servers'')) services proxy_cmd proxy_args socket_dir)) table))
      | _ \<Rightarrow> None)"

definition rewrite_toml_keep_other_tables ::
  "formats \<Rightarrow> string \<Rightarrow> string \<Rightarrow> host_service list \<Rightarrow> string \<Rightarrow> string list \<Rightarrow> string \<Rightarrow>
   string + (string \<times> string list)" where
  "rewrite_toml_keep_other_tables fm original p services proxy_cmd proxy_args socket_dir =
     (case parse_toml fm original of
        None \<Rightarrow> Inl (''failed to parse toml '' @ p)
      | Some root \<Rightarrow>
          (case rewrite_toml_root services proxy_cmd proxy_args socket_dir root of
             None \<Rightarrow> Inl (p @ '': top-level TOML must be a table'')
           | Some root' \<Rightarrow>
               (case print_toml fm root' of
                  None \<Rightarrow> Inl ''serialize rewritten toml''
                | Some text \<Rightarrow> Inr (text, map (change_line proxy_cmd) services))))"

section \<open>The plan\<close>

definition skip_action :: "host_file \<Rightarrow> danger_status \<Rightarrow> string \<Rightarrow> host_service list \<Rightarrow> danger_action" where
  "skip_action source status reason services = \<lparr>da_source = source, da_status = status,
     da_new_contents = None, da_change_lines = [], da_skip_reason = Some reason,
     da_existing_services = services\<rparr>"

definition ineligible_reason :: "host_file \<Rightarrow> string" where
  "ineligible_reason source = display_name (hf_kind source) @
     '' has no verified strict-config flag; use the safe path instructions instead''"

definition empty_action :: "host_file \<Rightarrow> danger_action" where
  "empty_action source = skip_action source SkippedEmpty
     ''no selected MCP servers found in this config; nothing to rewrite'' []"

definition rewrite_action ::
  "formats \<Rightarrow> fs_view \<Rightarrow> scan_result \<Rightarrow> string \<Rightarrow> string list \<Rightarrow> string \<Rightarrow> danger_action" where
  "rewrite_action fm fs scan proxy_cmd proxy_args socket_dir =
     (let source = sr_host scan; services = sr_services scan in
      case safe_read_to_string fs (hf_path source) of
        Inl err \<Rightarrow> skip_action source SkippedInvalid (''read error: '' @ err) []
      | Inr original \<Rightarrow>
          (case (case hf_format source of
                   FmtJson \<Rightarrow> rewrite_json_keep_other_keys fm original (hf_path source)
                     (hf_schema source) services proxy_cmd proxy_args socket_dir
                 | FmtToml \<Rightarrow> rewrite_toml_keep_other_tables fm original (hf_path source)
                     services proxy_cmd proxy_args socket_dir) of
             Inr (contents, lines) \<Rightarrow> \<lparr>da_source = source, da_status = Planned,
               da_new_contents = Some contents, da_change_lines = lines, da_skip_reason = None,
               da_existing_services = services\<rparr>
           | Inl err \<Rightarrow> skip_action source SkippedInvalid (''rewrite failed: '' @ err) services))"

definition scan_action ::
  "formats \<Rightarrow> fs_view \<Rightarrow> string \<Rightarrow> string list \<Rightarrow> string \<Rightarrow> host_file \<Rightarrow> danger_action" where
  "scan_action fm fs proxy_cmd proxy_args socket_dir source =
     (if \<not> hf_eligible_for_danger source
      then skip_action source SkippedIneligible (ineligible_reason source) []
      else case scan_host_file (parse_json fm) (print_toml fm) (parse_toml fm) fs source of
        Inl err \<Rightarrow> skip_action source SkippedInvalid (''parse error: '' @ err) []
      | Inr scan \<Rightarrow> if sr_services scan = [] then empty_action source
                    else rewrite_action fm fs scan proxy_cmd proxy_args socket_dir)"

definition plan_danger_rewrite ::
  "formats \<Rightarrow> fs_view \<Rightarrow> host_file list \<Rightarrow> string \<Rightarrow> string list \<Rightarrow> string \<Rightarrow> danger_plan" where
  "plan_danger_rewrite fm fs sources proxy_cmd proxy_args socket_dir = \<lparr>
     dp_actions = map (scan_action fm fs proxy_cmd proxy_args socket_dir) sources,
     dp_proxy_cmd = proxy_cmd, dp_proxy_args = proxy_args, dp_socket_dir = socket_dir\<rparr>"

definition plan_danger_rewrite_for_scans ::
  "formats \<Rightarrow> fs_view \<Rightarrow> scan_result list \<Rightarrow> string \<Rightarrow> string list \<Rightarrow> string \<Rightarrow> danger_plan" where
  "plan_danger_rewrite_for_scans fm fs scans proxy_cmd proxy_args socket_dir = \<lparr>
     dp_actions = map (\<lambda>scan.
       if \<not> hf_eligible_for_danger (sr_host scan)
       then skip_action (sr_host scan) SkippedIneligible (ineligible_reason (sr_host scan)) (sr_services scan)
       else if sr_services scan = [] then empty_action (sr_host scan)
       else rewrite_action fm fs scan proxy_cmd proxy_args socket_dir) scans,
     dp_proxy_cmd = proxy_cmd, dp_proxy_args = proxy_args, dp_socket_dir = socket_dir\<rparr>"

section \<open>Execution\<close>

type_synonym files = "string \<Rightarrow> string option"

text \<open>How writing a file goes: everything is written; the file cannot be opened; or it is opened, and so emptied, and the
  error comes after some bytes.\<close>

datatype write_result = Written | NotOpened | CutAfter nat

record os_env =
  os_loc :: "string \<Rightarrow> string"
  os_is_dir :: "string \<Rightarrow> bool"
  os_mkdir :: "string \<Rightarrow> bool"
  os_write :: "string \<Rightarrow> write_result"

text \<open>\<open>fs::write\<close>, and the writing half of a copy: whether it succeeds, and the files afterwards.\<close>

definition fs_write :: "os_env \<Rightarrow> string \<Rightarrow> string \<Rightarrow> files \<Rightarrow> bool \<times> files" where
  "fs_write os p contents fl = (case os_write os p of
     Written \<Rightarrow> (True, fl(os_loc os p \<mapsto> contents))
   | NotOpened \<Rightarrow> (False, fl)
   | CutAfter n \<Rightarrow> (False, fl(os_loc os p \<mapsto> take n contents)))"

definition view_of :: "os_env \<Rightarrow> files \<Rightarrow> fs_view" where
  "view_of os fl = \<lparr>
     fv_canonicalize = (\<lambda>p. if fl (os_loc os p) \<noteq> None \<or> os_is_dir os (os_loc os p) then Some (os_loc os p) else None),
     fv_is_file = (\<lambda>p. fl (os_loc os p) \<noteq> None),
     fv_is_dir = (\<lambda>p. os_is_dir os (os_loc os p)),
     fv_create_dir_all = os_mkdir os,
     fv_read = (\<lambda>p. fl (os_loc os p)),
     fv_exists = (\<lambda>p. fl (os_loc os p) \<noteq> None \<or> os_is_dir os (os_loc os p))\<rparr>"

text \<open>The copy of \<open>safe_copy_file\<close> carried out.\<close>

definition copy_file :: "os_env \<Rightarrow> string \<Rightarrow> string \<Rightarrow> files \<Rightarrow> bool \<times> files" where
  "copy_file os src dst fl = (case safe_copy_file (view_of os fl) src dst of
     Inl e \<Rightarrow> (False, fl) | Inr (out, data) \<Rightarrow> fs_write os out data fl)"

definition backup_path :: "string \<Rightarrow> u64 \<Rightarrow> u32 option \<Rightarrow> string" where
  "backup_path p secs suffix =
     (let name = (case file_name p of Some n \<Rightarrow> n | None \<Rightarrow> ''danger'');
          name' = name @ (case suffix of
            Some n \<Rightarrow> ''.'' @ nat_str (unat secs) @ ''-'' @ nat_str (unat n) @ ''.bak''
          | None \<Rightarrow> ''.'' @ nat_str (unat secs) @ ''.bak'')
      in (case file_name p of
            Some _ \<Rightarrow> (case path_parent p of Some d \<Rightarrow> path_join d name' | None \<Rightarrow> name')
          | None \<Rightarrow> path_join p name'))"

text \<open>The loop that looks for a free backup name; \<open>counter\<close> is checked after each attempt, so at
  most 1000 turns are taken.\<close>

fun find_backup :: "(string \<Rightarrow> bool) \<Rightarrow> string \<Rightarrow> u64 \<Rightarrow> nat \<Rightarrow> u32 \<Rightarrow> string \<Rightarrow> string option" where
  "find_backup exists_path p secs 0 counter backup = None"
| "find_backup exists_path p secs (Suc fuel) counter backup =
     (if \<not> exists_path backup then Some backup
      else if 1000 < counter + 1 then None
      else find_backup exists_path p secs fuel (counter + 1) (backup_path p secs (Some counter)))"

definition write_with_timestamped_backup ::
  "os_env \<Rightarrow> u64 \<Rightarrow> string \<Rightarrow> string \<Rightarrow> files \<Rightarrow> (string + string) \<times> files" where
  "write_with_timestamped_backup os secs p contents fl =
     (if (case path_parent p of None \<Rightarrow> False | Some d \<Rightarrow> \<not> os_mkdir os d)
      then (Inl (''failed to create '' @ the (path_parent p)), fl)
      else case find_backup (fv_exists (view_of os fl)) p secs 1001 1 (backup_path p secs None) of
        None \<Rightarrow> (Inl (''could not find unique backup path for '' @ p), fl)
      | Some backup \<Rightarrow>
          (case (if fv_exists (view_of os fl) p then copy_file os p backup fl else (True, fl)) of
             (False, fl1) \<Rightarrow> (Inl (''failed to create backup '' @ backup), fl1)
           | (True, fl1) \<Rightarrow> (case fs_write os p contents fl1 of
               (True, fl2) \<Rightarrow> (Inr backup, fl2)
             | (False, fl2) \<Rightarrow> (Inl (''failed to write '' @ p), fl2))))"

definition execute_action ::
  "os_env \<Rightarrow> u64 \<Rightarrow> danger_action \<Rightarrow> files \<Rightarrow> danger_outcome \<times> files" where
  "execute_action os secs a fl =
     (case (da_status a, da_new_contents a) of
        (Planned, Some contents) \<Rightarrow>
          (case write_with_timestamped_backup os secs (hf_path (da_source a)) contents fl of
             (Inr backup, fl') \<Rightarrow> (\<lparr>do_path = hf_path (da_source a), do_backup = Some backup,
               do_written = True, do_status = Planned, do_error = None\<rparr>, fl')
           | (Inl err, fl') \<Rightarrow> (\<lparr>do_path = hf_path (da_source a), do_backup = None,
               do_written = False, do_status = SkippedInvalid, do_error = Some err\<rparr>, fl'))
      | _ \<Rightarrow> (\<lparr>do_path = hf_path (da_source a), do_backup = None, do_written = False,
               do_status = da_status a, do_error = da_skip_reason a\<rparr>, fl))"

fun execute_actions ::
  "os_env \<Rightarrow> u64 \<Rightarrow> danger_action list \<Rightarrow> files \<Rightarrow> danger_outcome list \<times> files" where
  "execute_actions os secs [] fl = ([], fl)"
| "execute_actions os secs (a # as) fl =
     (let (o1, fl1) = execute_action os secs a fl; (os', fl2) = execute_actions os secs as fl1
      in (o1 # os', fl2))"

definition execute_plan ::
  "os_env \<Rightarrow> u64 \<Rightarrow> danger_plan \<Rightarrow> bool \<Rightarrow> files \<Rightarrow> (string + danger_outcome list) \<times> files" where
  "execute_plan os secs plan confirmed fl =
     (if \<not> confirmed then (Inl ''danger plan execution refused: explicit confirmation required'', fl)
      else let (outs, fl') = execute_actions os secs (dp_actions plan) fl in (Inr outs, fl'))"

section \<open>What a rewrite keeps\<close>

lemma find_key: "find (\<lambda>kv. fst kv = k) kvs = map_option (Pair k) (map_of kvs k)"
  by (induction kvs) auto

lemma map_of_fold_insert:
  "distinct (map fst kvs) \<Longrightarrow> map_of (fold (\<lambda>(n, v) m. obj_insert n v m) kvs m0) k =
     (case map_of kvs k of Some v \<Rightarrow> Some v | None \<Rightarrow> map_of m0 k)"
  using obj_dict.get_fill_distinct [of fst kvs snd m0 k]
  by (simp add: case_prod_unfold find_key split: option.splits)

lemma map_of_filter_key:
  "map_of (filter (\<lambda>(n, v). P n) kvs) k = (if P k then map_of kvs k else None)"
  by (induction kvs) (auto split: if_splits)

lemma distinct_fst_filter: "distinct (map fst kvs) \<Longrightarrow> distinct (map fst (filter P kvs))"
  by (rule distinct_map_filter)

lemma new_server_map_lookup:
  assumes "distinct (map fst existing)" and "distinct (map sv_name services)"
  shows "map_of (new_server_map existing services cmd args dir) n =
    (case find (\<lambda>s. sv_name s = n) services of
       Some s \<Rightarrow> Some (danger_entry cmd args dir s) | None \<Rightarrow> map_of existing n)"
proof -
  have none: "n \<notin> sv_name ` set services" if "find (\<lambda>s. sv_name s = n) services = None"
    using that by (auto simp: find_None_iff)
  show ?thesis
    unfolding new_server_map_def obj_dict.get_fill_distinct [OF assms(2)]
      map_of_fold_insert [OF distinct_fst_filter [OF assms(1)]]
    using none by (auto simp: map_of_filter_key split: option.splits)
qed

lemma find_name:
  "distinct (map sv_name ss) \<Longrightarrow> s \<in> set ss \<Longrightarrow> find (\<lambda>t. sv_name t = sv_name s) ss = Some s"
  by (induction ss) auto

text \<open>C38: a rewrite touches only the services it was given.  In the rewritten JSON document every
  other top-level key has its old value, every entry of the server map that is not one of the given
  services is still there unchanged, and each given service starts the proxy on its own socket.\<close>

theorem rewrite_keeps_rest:
  assumes obj: "obj_ok obj" and ex: "obj_ok (as_object (map_of obj (rewrite_key schema obj)))"
    and names: "distinct (map sv_name services)"
    and r: "rewrite_json_root schema services cmd args dir (JObj obj) = Some root"
  shows "(\<forall>k. k \<noteq> rewrite_key schema obj \<longrightarrow> jget root k = map_of obj k) \<and>
    (\<exists>m. jget root (rewrite_key schema obj) = Some (JObj m) \<and>
      (\<forall>n. n \<notin> sv_name ` set services \<longrightarrow>
        map_of m n = map_of (as_object (map_of obj (rewrite_key schema obj))) n) \<and>
      (\<forall>s \<in> set services. map_of m (sv_name s) = Some (danger_entry cmd args dir s)))"
proof -
  let ?key = "rewrite_key schema obj"
  let ?m = "new_server_map (as_object (map_of obj ?key)) services cmd args dir"
  have root: "root = JObj (obj_insert ?key (JObj ?m) obj)"
    using r by (simp add: rewrite_json_root_def Let_def)
  note look = new_server_map_lookup [OF obj_ok_distinct [OF ex] names]
  have other: "map_of ?m n = map_of (as_object (map_of obj ?key)) n"
    if "n \<notin> sv_name ` set services" for n
  proof -
    have "find (\<lambda>s. sv_name s = n) services = None" using that by (auto simp: find_None_iff)
    then show ?thesis by (simp add: look)
  qed
  have own: "map_of ?m (sv_name s) = Some (danger_entry cmd args dir s)" if "s \<in> set services" for s
    using find_name [OF names that] by (simp add: look)
  show ?thesis
    unfolding root jget_def using other own by (auto simp: map_of_obj_insert)
qed

definition example_root :: "(string \<times> json) list" where
  "example_root = obj_of [(''theme'', JStr ''dark''),
     (''mcpServers'', JObj (obj_of [(''a'', JObj (obj_of [(''command'', JStr ''npx'')])), (''note'', JInt 1)]))]"

theorem rewrite_keeps_rest_witness:
  "\<exists>root. rewrite_json_root McpServersJson [example_svc ''a'' ''npx''] ''rust-mux-proxy'' [] ''/s''
      (JObj example_root) = Some root \<and> jget root ''theme'' = Some (JStr ''dark'')"
proof -
  have obj: "obj_ok example_root" by code_simp
  have ex: "obj_ok (as_object (map_of example_root (rewrite_key McpServersJson example_root)))" by code_simp
  have names: "distinct (map sv_name [example_svc ''a'' ''npx''])" by simp
  have th: "map_of example_root ''theme'' = Some (JStr ''dark'')" by code_simp
  obtain root where r: "rewrite_json_root McpServersJson [example_svc ''a'' ''npx''] ''rust-mux-proxy'' []
      ''/s'' (JObj example_root) = Some root" by (simp add: rewrite_json_root_def Let_def)
  have "jget root ''theme'' = map_of example_root ''theme''"
    using rewrite_keeps_rest [OF obj ex names r] by (simp add: rewrite_key_def)
  with r th show ?thesis by (intro exI [of _ root]) simp
qed

text \<open>A file whose \<open>mcpServers\<close> is empty and whose servers are under \<open>servers\<close>.\<close>

definition split_file :: "(string \<times> json) list" where
  "split_file = obj_of [(''mcpServers'', JObj []),
     (''servers'', JObj (obj_of [(''a'', JObj (obj_of [(''command'', JStr ''npx'')]))]))]"

text \<open>the scan and the rewrite can disagree on the key.  For a generic JSON file with an empty
  \<open>mcpServers\<close> the scan falls back to \<open>servers\<close> and finds the service there, but the rewrite puts
  the proxy under \<open>mcpServers\<close> and leaves the upstream command under \<open>servers\<close> as it was.\<close>

theorem auto_rewrite_misses_servers:
  "let generic = host_file_from_custom_path ''/etc/mcp.json'';
       parsed = (\<lambda>_. Some (JObj split_file))
   in hf_schema generic = AutoJson \<and>
      scan_host_file parsed (\<lambda>_. None) (\<lambda>_. None) example_fs generic =
        Inr \<lparr>sr_host = generic, sr_services = [example_svc ''a'' ''npx'']\<rparr> \<and>
      map_option (\<lambda>root. (jget root ''servers'', map_option (\<lambda>m. jget m ''a'') (jget root ''mcpServers'')))
        (rewrite_json_root (hf_schema generic) [example_svc ''a'' ''npx''] ''rust-mux-proxy'' [] ''/s'' (JObj split_file)) =
        Some (map_of split_file ''servers'', Some (Some (danger_entry ''rust-mux-proxy'' [] ''/s'' (example_svc ''a'' ''npx''))))"
  by code_simp

section \<open>Backups\<close>

text \<open>Path resolution works name by name: a path denotes the entry of that name in the directory its
  parent denotes.\<close>

definition os_ok :: "os_env \<Rightarrow> bool" where
  "os_ok os \<longleftrightarrow> (\<forall>p d n. path_parent p = Some d \<longrightarrow> file_name p = Some n \<longrightarrow>
     os_loc os (path_join (os_loc os d) n) = os_loc os p)"

lemma find_backup_free:
  "find_backup exists_path p secs fuel counter backup = Some b \<Longrightarrow> \<not> exists_path b"
  by (induction exists_path p secs fuel counter backup rule: find_backup.induct) (auto split: if_splits)

lemma safe_copy_result:
  assumes ok: "os_ok os" and c: "safe_copy_file (view_of os fl) src dst = Inr (out, data)"
  shows "os_loc os out = os_loc os dst \<and> (\<exists>c. fl (os_loc os c) = Some data \<and> c = os_loc os src)"
proof -
  from c obtain ssrc where src: "vetted_existing_file (view_of os fl) src = Inr ssrc"
    and dst: "vetted_output_file (view_of os fl) dst = Inr out" and d: "fl (os_loc os ssrc) = Some data"
    by (auto simp: safe_copy_file_def view_of_def split: sum.splits option.splits)
  have "ssrc = os_loc os src"
    using src by (auto simp: vetted_existing_file_def view_of_def split: sum.splits if_splits option.splits)
  moreover obtain parent dir name where "path_parent dst = Some parent"
    "fv_canonicalize (view_of os fl) parent = Some dir" "file_name dst = Some name" "out = path_join dir name"
    using dst by (auto simp: vetted_output_file_def split: sum.splits if_splits option.splits)
  moreover have "dir = os_loc os parent"
    using \<open>fv_canonicalize (view_of os fl) parent = Some dir\<close> by (simp add: view_of_def split: if_splits)
  ultimately show ?thesis using ok d by (auto simp: os_ok_def)
qed

lemma fs_write_frame: "q \<noteq> os_loc os p \<Longrightarrow> snd (fs_write os p c fl) q = fl q"
  by (simp add: fs_write_def split: write_result.split)

lemma fs_write_dom: "fl q \<noteq> None \<Longrightarrow> snd (fs_write os p c fl) q \<noteq> None"
  by (simp add: fs_write_def split: write_result.split)

lemma fs_write_True: "fst (fs_write os p c fl) \<Longrightarrow> snd (fs_write os p c fl) = fl(os_loc os p \<mapsto> c)"
  by (simp add: fs_write_def split: write_result.splits)

text \<open>A copy changes at most its target; if it succeeds the target has the contents of the source.\<close>

lemma copy_file_frame:
  assumes ok: "os_ok os" and c: "copy_file os src dst fl = (done, fl')"
  shows "q \<noteq> os_loc os dst \<Longrightarrow> fl' q = fl q"
    and "done \<Longrightarrow> fl' (os_loc os dst) = fl (os_loc os (os_loc os src)) \<and> fl' (os_loc os dst) \<noteq> None"
proof -
  consider "fl' = fl" "\<not> done" | out data where "safe_copy_file (view_of os fl) src dst = Inr (out, data)"
    "fs_write os out data fl = (done, fl')"
    using c by (auto simp: copy_file_def split: sum.splits)
  note cases = this
  show "fl' q = fl q" if "q \<noteq> os_loc os dst"
    using cases that safe_copy_result [OF ok] fs_write_frame [of q os] by cases (auto, metis snd_conv)
  show "fl' (os_loc os dst) = fl (os_loc os (os_loc os src)) \<and> fl' (os_loc os dst) \<noteq> None" if "done"
  proof -
    from cases that obtain out data where out: "safe_copy_file (view_of os fl) src dst = Inr (out, data)"
      "fs_write os out data fl = (True, fl')" by cases auto
    then have "fl' = fl(os_loc os out \<mapsto> data)" using fs_write_True [of os out data fl] by simp
    with safe_copy_result [OF ok out(1)] show ?thesis by auto
  qed
qed

text \<open>The three ways the rewrite of a file can go: no file that was there changes; the old contents are in a new
  backup and the new ones in place; or the backup is made and the file cut.\<close>

lemma backup_outcome:
  assumes ok: "os_ok os"
    and w: "write_with_timestamped_backup os secs p contents fl = (res, fl')"
  obtains (refused) e where "res = Inl e" "\<And>q. fl q \<noteq> None \<Longrightarrow> fl' q = fl q"
  | (replaced) b where "res = Inr b" "fl (os_loc os b) = None" "fl' (os_loc os p) = Some contents"
      "fl (os_loc os p) \<noteq> None \<Longrightarrow> fl' (os_loc os b) = fl (os_loc os (os_loc os p))"
      "\<And>q. q \<noteq> os_loc os b \<Longrightarrow> q \<noteq> os_loc os p \<Longrightarrow> fl' q = fl q"
      "find_backup (fv_exists (view_of os fl)) p secs 1001 1 (backup_path p secs None) = Some b"
  | (torn) b n where "res = Inl (''failed to write '' @ p)" "fl (os_loc os b) = None"
      "fl' (os_loc os p) = Some (take n contents)" "fl (os_loc os p) \<noteq> None \<Longrightarrow> fl' (os_loc os b) = fl (os_loc os (os_loc os p))"
      "\<And>q. q \<noteq> os_loc os b \<Longrightarrow> q \<noteq> os_loc os p \<Longrightarrow> fl' q = fl q"
proof -
  let ?no_dir = "case path_parent p of None \<Rightarrow> False | Some d \<Rightarrow> \<not> os_mkdir os d"
  let ?find = "find_backup (fv_exists (view_of os fl)) p secs 1001 1 (backup_path p secs None)"
  show thesis
  proof (cases "?no_dir \<or> ?find = None")
    case True
    then have "\<exists>e. res = Inl e" "fl' = fl"
      using w by (auto simp: write_with_timestamped_backup_def simp del: find_backup.simps split: if_splits)
    then show thesis using refused by blast
  next
    case False
    then obtain b where b: "?find = Some b" and dir: "\<not> ?no_dir" by blast
    have free: "fl (os_loc os b) = None" using find_backup_free [OF b] by (simp add: view_of_def)
    obtain made fl1 where c: "(if fv_exists (view_of os fl) p then copy_file os p b fl else (True, fl)) = (made, fl1)"
      by (metis surj_pair)
    have fr: "fl1 q = fl q" if "q \<noteq> os_loc os b" for q
      using c copy_file_frame(1) [OF ok] that by (auto split: if_splits)
    have kept: "fl1 (os_loc os b) = fl (os_loc os (os_loc os p))" if "fl (os_loc os p) \<noteq> None" made
      using c copy_file_frame(2) [OF ok, of p b fl] that by (auto simp: view_of_def split: if_splits)
    have eq: "write_with_timestamped_backup os secs p contents fl = (case (made, fl1) of
        (False, fl1) \<Rightarrow> (Inl (''failed to create backup '' @ b), fl1)
      | (True, fl1) \<Rightarrow> (case fs_write os p contents fl1 of
          (True, fl2) \<Rightarrow> (Inr b, fl2) | (False, fl2) \<Rightarrow> (Inl (''failed to write '' @ p), fl2)))"
      unfolding write_with_timestamped_backup_def b option.case c using dir by simp
    consider (no_copy) "\<not> made" | (no_open) made "os_write os p = NotOpened"
      | (cut) n where made "os_write os p = CutAfter n" | (all) made "os_write os p = Written"
      by (cases "os_write os p") auto
    then show thesis
    proof cases
      case no_copy
      with eq w have "\<exists>e. res = Inl e" "fl' = fl1" by auto
      then show thesis using refused fr free by metis
    next
      case no_open
      with eq w have "\<exists>e. res = Inl e" "fl' = fl1" by (auto simp: fs_write_def)
      then show thesis using refused fr free by metis
    next
      case (cut n)
      with eq w have "res = Inl (''failed to write '' @ p)" "fl' = fl1(os_loc os p \<mapsto> take n contents)"
        by (auto simp: fs_write_def)
      with fr kept [OF _ cut(1)] free show thesis by (intro torn [of b n]) auto
    next
      case all
      with eq w have "res = Inr b" "fl' = fl1(os_loc os p \<mapsto> contents)" by (auto simp: fs_write_def)
      with fr kept [OF _ all(1)] free b show thesis by (intro replaced [of b]) auto
    qed
  qed
qed

lemma backup_written:
  assumes ok: "os_ok os" "\<And>p. os_loc os (os_loc os p) = os_loc os p"
    and old: "fl (os_loc os p) = Some old"
    and w: "write_with_timestamped_backup os secs p contents fl = (Inr backup, fl')"
  shows "fl (os_loc os backup) = None \<and> fl' (os_loc os backup) = Some old \<and>
    fl' (os_loc os p) = Some contents \<and>
    (\<forall>q. q \<noteq> os_loc os backup \<longrightarrow> q \<noteq> os_loc os p \<longrightarrow> fl' q = fl q)"
  by (rule backup_outcome [OF ok(1) w]) (use old ok(2) in auto)

lemma backup_frame:
  assumes ok: "os_ok os" and w: "write_with_timestamped_backup os secs p contents fl = (res, fl')"
    and q: "fl q \<noteq> None" "q \<noteq> os_loc os p"
  shows "fl' q = fl q"
  by (rule backup_outcome [OF ok w]) (use q in \<open>metis\<close>)+

text \<open>no rewrite without a backup.  When the rewrite of an existing file reports a backup, that
  backup is a file that did not exist before and now holds the old contents, the target holds the new
  contents, and no other file has changed.\<close>

theorem backup_before_write:
  assumes ok: "os_ok os" "\<And>p. os_loc os (os_loc os p) = os_loc os p"
    and old: "fl (os_loc os p) = Some old"
    and w: "write_with_timestamped_backup os secs p contents fl = (Inr backup, fl')"
  shows "fl (os_loc os backup) = None \<and> fl' (os_loc os backup) = Some old \<and>
    fl' (os_loc os p) = Some contents \<and>
    (\<forall>q. q \<noteq> os_loc os backup \<longrightarrow> q \<noteq> os_loc os p \<longrightarrow> fl' q = fl q)"
  by (rule backup_written [OF assms])

text \<open>A flat file system: a path denotes the entry of its last name; \<open>cfg\<close> is a directory.\<close>

definition flat_os :: os_env where
  "flat_os = \<lparr>os_loc = (\<lambda>p. case file_name p of Some n \<Rightarrow> n | None \<Rightarrow> []), os_is_dir = (\<lambda>l. l = ''cfg''),
     os_mkdir = (\<lambda>_. True), os_write = (\<lambda>_. Written)\<rparr>"

lemma flat_os_ok: "os_ok flat_os" and flat_os_idem: "os_loc flat_os (os_loc flat_os p) = os_loc flat_os p"
proof -
  show "os_ok flat_os"
    using file_name_join_last [OF file_name_Some(2-5)] by (simp add: os_ok_def flat_os_def)
  have empty: "file_name [] = None" by code_simp
  show "os_loc flat_os (os_loc flat_os p) = os_loc flat_os p"
    using file_name_last(1) file_name_Some
    by (auto simp: flat_os_def empty split: option.splits)
qed

theorem backup_before_write_witness:
  "\<exists>fl'. write_with_timestamped_backup flat_os 7 ''/cfg/a.json'' ''new'' [''a.json'' \<mapsto> ''old''] =
      (Inr ''/cfg/a.json.7.bak'', fl') \<and>
     fl' ''a.json.7.bak'' = Some ''old'' \<and> fl' ''a.json'' = Some ''new''"
proof -
  let ?fl = "[''a.json'' \<mapsto> ''old''] :: files"
  have loc: "os_loc flat_os ''/cfg/a.json'' = ''a.json''" "os_loc flat_os ''/cfg/a.json.7.bak'' = ''a.json.7.bak''"
    by code_simp+
  have old: "?fl (os_loc flat_os ''/cfg/a.json'') = Some ''old''" by (simp add: loc)
  have "fst (write_with_timestamped_backup flat_os 7 ''/cfg/a.json'' ''new'' ?fl) = Inr ''/cfg/a.json.7.bak''"
    by code_simp
  then obtain fl' where w: "write_with_timestamped_backup flat_os 7 ''/cfg/a.json'' ''new'' ?fl =
      (Inr ''/cfg/a.json.7.bak'', fl')" by (metis prod.collapse)
  from backup_before_write [OF flat_os_ok flat_os_idem old w] w show ?thesis by (auto simp: loc)
qed

end
