(* ===== verification/Host_Gen.thy ===== *)
theory Host_Gen
  imports Host_Merge
begin

text \<open>
  The files the setup generates without touching client configurations (\<open>mux-agent/src/mux_gen.rs\<close>):
  the configuration of the daemon, the client-facing server maps, and one file per client program.
  Printing to TOML and JSON is left to the libraries; the model stops at the values.
\<close>

section \<open>Builders\<close>

definition default_mux_dir :: "string option \<Rightarrow> string" where
  "default_mux_dir home = expand_path home ''~/.config/mux''"

definition default_socket_dir :: "string \<Rightarrow> string" where
  "default_socket_dir mux_dir = path_join mux_dir ''sockets''"

definition build_daemon_config :: "host_service list \<Rightarrow> string \<Rightarrow> config" where
  "build_daemon_config services socket_dir =
     fold (\<lambda>svc cfg. hm_insert (sv_name svc) (manifest_entry socket_dir svc) cfg) services []"

text \<open>\<open>ClientServerJson\<close> and \<open>ClientServerToml\<close> have the same fields.\<close>

record client_server =
  cs_command :: string
  cs_args :: "string list"
  cs_env :: "(string, string) hashmap option"

definition client_server_of :: "string \<Rightarrow> string \<Rightarrow> string list \<Rightarrow> host_service \<Rightarrow> client_server" where
  "client_server_of socket_dir proxy_cmd proxy_args svc = \<lparr>cs_command = proxy_cmd,
     cs_args = proxy_args @ [''--socket'', service_socket socket_dir svc], cs_env = sv_env svc\<rparr>"

definition build_client_map ::
  "host_service list \<Rightarrow> string \<Rightarrow> string \<Rightarrow> string list \<Rightarrow> (string, client_server) hashmap" where
  "build_client_map services socket_dir proxy_cmd proxy_args =
     fold (\<lambda>svc m. hm_insert (sv_name svc) (client_server_of socket_dir proxy_cmd proxy_args svc) m)
       services []"

definition build_client_json ::
  "host_service list \<Rightarrow> string \<Rightarrow> string \<Rightarrow> string list \<Rightarrow> string \<times> (string, client_server) hashmap" where
  "build_client_json services socket_dir proxy_cmd proxy_args =
     (''mcpServers'', build_client_map services socket_dir proxy_cmd proxy_args)"

definition build_client_toml ::
  "host_service list \<Rightarrow> string \<Rightarrow> string \<Rightarrow> string list \<Rightarrow> string \<times> (string, client_server) hashmap" where
  "build_client_toml services socket_dir proxy_cmd proxy_args =
     (''mcp_servers'', build_client_map services socket_dir proxy_cmd proxy_args)"

record mux_outputs =
  mo_mux_dir :: string
  mo_socket_dir :: string
  mo_config_toml_path :: string
  mo_mcp_json_path :: string
  mo_mcp_toml_path :: string
  mo_config :: config
  mo_mcp_json :: "string \<times> (string, client_server) hashmap"
  mo_mcp_toml :: "string \<times> (string, client_server) hashmap"
  mo_out_services :: "host_service list"
  mo_out_conflicts :: "conflict_report list"

definition build_mux_outputs :: "merge_outcome \<Rightarrow> string \<Rightarrow> string \<Rightarrow> string list \<Rightarrow> mux_outputs" where
  "build_mux_outputs merged mux_dir proxy_cmd proxy_args =
     (let socket_dir = default_socket_dir mux_dir in
      \<lparr>mo_mux_dir = mux_dir, mo_socket_dir = socket_dir,
       mo_config_toml_path = path_join mux_dir ''config.toml'',
       mo_mcp_json_path = path_join mux_dir ''mcp.json'',
       mo_mcp_toml_path = path_join mux_dir ''mcp.toml'',
       mo_config = build_daemon_config (mo_services merged) socket_dir,
       mo_mcp_json = build_client_json (mo_services merged) socket_dir proxy_cmd proxy_args,
       mo_mcp_toml = build_client_toml (mo_services merged) socket_dir proxy_cmd proxy_args,
       mo_out_services = mo_services merged, mo_out_conflicts = mo_conflicts merged\<rparr>)"

definition gemini_mcp_add_commands :: "host_service list \<Rightarrow> string \<Rightarrow> string list" where
  "gemini_mcp_add_commands services socket_dir =
     (let out = map (\<lambda>svc. ''gemini mcp add '' @ sv_name svc @ '' -- rust-mux-proxy --socket '' @
                        service_socket socket_dir svc) services
      in if out = [] then [''# (no services to add)''] else out)"

section \<open>One file per client\<close>

definition add_scan :: "scan_result \<Rightarrow> (host_file \<times> scan_result list) list \<Rightarrow> (host_file \<times> scan_result list) list" where
  "add_scan scan groups =
     (if \<exists>g \<in> set groups. hf_kind (fst g) = hf_kind (sr_host scan)
      then (let (before, rest) = (takeWhile (\<lambda>g. hf_kind (fst g) \<noteq> hf_kind (sr_host scan)) groups,
                                  dropWhile (\<lambda>g. hf_kind (fst g) \<noteq> hf_kind (sr_host scan)) groups)
            in before @ (fst (hd rest), snd (hd rest) @ [scan]) # tl rest)
      else groups @ [(sr_host scan, [scan])])"

definition group_scans_by_kind :: "scan_result list \<Rightarrow> scan_result list" where
  "group_scans_by_kind scans =
     map (\<lambda>(host, ss). \<lparr>sr_host = host, sr_services = mo_services (merge_services ss)\<rparr>)
       (fold add_scan scans [])"

definition client_native_payload ::
  "scan_result \<Rightarrow> string \<Rightarrow> string \<Rightarrow> string list \<Rightarrow>
   string \<times> host_format \<times> (string \<times> (string, client_server) hashmap)" where
  "client_native_payload scan socket_dir proxy_cmd proxy_args =
     (if hf_kind (sr_host scan) = Codex
      then (''codex.toml'', FmtToml, build_client_toml (sr_services scan) socket_dir proxy_cmd proxy_args)
      else (as_label (hf_kind (sr_host scan)) @ ''.json'', FmtJson,
            build_client_json (sr_services scan) socket_dir proxy_cmd proxy_args))"

record per_client_file =
  pc_kind :: host_kind
  pc_path :: string
  pc_format :: host_format
  pc_contents :: "string \<times> (string, client_server) hashmap"
  pc_services :: "host_service list"

record per_client_outputs =
  po_mux_dir :: string
  po_socket_dir :: string
  po_config_toml_path :: string
  po_config :: config
  po_clients :: "per_client_file list"
  po_total_services :: nat
  po_conflicts :: "conflict_report list"

definition per_client_file_of :: "string \<Rightarrow> string \<Rightarrow> string list \<Rightarrow> scan_result \<Rightarrow> per_client_file" where
  "per_client_file_of mux_dir proxy_cmd proxy_args scan =
     (let (filename, fmt, contents) =
            client_native_payload scan (default_socket_dir mux_dir) proxy_cmd proxy_args
      in \<lparr>pc_kind = hf_kind (sr_host scan), pc_path = path_join mux_dir filename, pc_format = fmt,
          pc_contents = contents, pc_services = sr_services scan\<rparr>)"

definition build_per_client_outputs ::
  "scan_result list \<Rightarrow> string \<Rightarrow> string \<Rightarrow> string list \<Rightarrow> per_client_outputs" where
  "build_per_client_outputs scans mux_dir proxy_cmd proxy_args =
     (let merged = merge_services scans in
      \<lparr>po_mux_dir = mux_dir, po_socket_dir = default_socket_dir mux_dir,
       po_config_toml_path = path_join mux_dir ''config.toml'',
       po_config = build_daemon_config (mo_services merged) (default_socket_dir mux_dir),
       po_clients = map (per_client_file_of mux_dir proxy_cmd proxy_args)
         (filter (\<lambda>s. sr_services s \<noteq> []) (group_scans_by_kind scans)),
       po_total_services = length (mo_services merged), po_conflicts = mo_conflicts merged\<rparr>)"

section \<open>Properties\<close>

lemma generated_maps:
  fixes merged mux_dir proxy_cmd proxy_args
  defines "out \<equiv> build_mux_outputs merged mux_dir proxy_cmd proxy_args"
    and "found \<equiv> \<lambda>name. find (\<lambda>s. sv_name s = name) (rev (mo_services merged))"
  shows "hm_get (mo_config out) name = map_option (manifest_entry (default_socket_dir mux_dir)) (found name)"
    and "hm_get (snd (mo_mcp_json out)) name =
      map_option (client_server_of (default_socket_dir mux_dir) proxy_cmd proxy_args) (found name)"
    and "mo_mcp_toml out = (''mcp_servers'', snd (mo_mcp_json out))"
  by (simp_all add: out_def found_def build_mux_outputs_def build_daemon_config_def build_client_json_def
      build_client_toml_def build_client_map_def Let_def hash_dict.get_fill split: option.splits)

text \<open>Clients and daemon meet.  In the generated files the daemon's configuration and the client's
  server map name the same servers, and the proxy a client starts for a server is given the very
  socket the daemon is told to open for it, also when two services have the same name.\<close>

theorem generated_sockets_agree:
  fixes merged mux_dir proxy_cmd proxy_args
  defines "out \<equiv> build_mux_outputs merged mux_dir proxy_cmd proxy_args"
  shows "(hm_get (mo_config out) name = None \<and> hm_get (snd (mo_mcp_json out)) name = None) \<or>
    (\<exists>c e. hm_get (mo_config out) name = Some c \<and> hm_get (snd (mo_mcp_json out)) name = Some e \<and>
      hm_get (snd (mo_mcp_toml out)) name = Some e \<and>
      cs_command e = proxy_cmd \<and> sc_socket c = Some (last (cs_args e)))"
  unfolding out_def by (cases "find (\<lambda>s. sv_name s = name) (rev (mo_services merged))")
    (simp_all add: generated_maps manifest_entry_def client_server_of_def)

text \<open>Per-client files can miss the daemon.  When two clients have different servers of the same
  name, the daemon's configuration renames both, but each client's own file keeps the plain name and
  its socket, which the daemon never opens.\<close>

theorem per_client_misses_daemon:
  "let out = build_per_client_outputs example_scans ''/m'' ''rust-mux-proxy'' [] in
   map (\<lambda>f. map_option cs_args (hm_get (snd (pc_contents f)) ''a'')) (po_clients out) =
     [Some [''--socket'', ''/m/sockets/a.sock''], Some [''--socket'', ''/m/sockets/a.sock'']] \<and>
   map (\<lambda>c. sc_socket (snd c)) (po_config out) =
     [Some ''/m/sockets/a-from-claude.sock'', Some ''/m/sockets/a-from-codex.sock'', Some ''/m/sockets/b.sock'']"
  by code_simp

end
