(* ===== verification/Op_Text.thy ===== *)
theory Op_Text
  imports Mux_Path
begin

text \<open>
  Text helpers of the terminal operator: lines, words and replacement as \<open>str::lines\<close>,
  \<open>str::split_whitespace\<close> and \<open>str::replace\<close> do them (white space is the ASCII one), and the interface
  of quoting: a way to write a string into a larger text and the way its reader takes it out again.
\<close>

section \<open>Characters and keys\<close>

text \<open>The keys of the terminal library both programs read.\<close>

datatype key_code = KChar char | KEsc | KEnter | KBackspace | KTab | KBackTab | KUp | KDown | KLeft | KRight | KOther

abbreviation nl :: char where "nl \<equiv> CHR 0x0A"
abbreviation cr :: char where "cr \<equiv> CHR 0x0D"
abbreviation dq :: char where "dq \<equiv> CHR 0x22"
abbreviation sq :: char where "sq \<equiv> CHR 0x27"
abbreviation bs :: char where "bs \<equiv> CHR 0x5C"

definition is_alnum :: "char \<Rightarrow> bool" where
  "is_alnum c = (let n = of_char c :: nat in
     (48 \<le> n \<and> n \<le> 57) \<or> (65 \<le> n \<and> n \<le> 90) \<or> (97 \<le> n \<and> n \<le> 122))"

lemma is_alnum_special [simp]:
  "\<not> is_alnum sq" "\<not> is_alnum dq" "\<not> is_alnum nl" "\<not> is_alnum bs" "\<not> is_alnum (CHR '' '')" "\<not> is_alnum (CHR '';'')"
  by code_simp+

section \<open>Replacement, lines and words\<close>

definition replace_char :: "char \<Rightarrow> string \<Rightarrow> string \<Rightarrow> string" where
  "replace_char c r s = concat (map (\<lambda>x. if x = c then r else [x]) s)"

lemma replace_char_simps [simp]:
  "replace_char c r [] = []"
  "replace_char c r (x # s) = (if x = c then r else [x]) @ replace_char c r s"
  "replace_char c r (s @ t) = replace_char c r s @ replace_char c r t"
  by (simp_all add: replace_char_def)

text \<open>\<open>lines\<close>: pieces between line feeds, the last one only if not empty, each without a trailing
  carriage return.\<close>

definition strip_cr :: "string \<Rightarrow> string" where
  "strip_cr l = (if l \<noteq> [] \<and> last l = cr then butlast l else l)"

definition str_lines :: "string \<Rightarrow> string list" where
  "str_lines s = (let ps = split_char nl s
     in map strip_cr (if last ps = [] then butlast ps else ps))"

fun split_ws :: "string \<Rightarrow> string \<Rightarrow> string list" where
  "split_ws [] cur = (if cur = [] then [] else [rev cur])"
| "split_ws (c # s) cur =
     (if is_space c then (if cur = [] then split_ws s [] else rev cur # split_ws s [])
      else split_ws s (c # cur))"

definition split_whitespace :: "string \<Rightarrow> string list" where
  "split_whitespace s = split_ws s []"

section \<open>Numbers\<close>

definition digit_value :: "char \<Rightarrow> nat option" where
  "digit_value c = (let n = of_char c :: nat in if 48 \<le> n \<and> n \<le> 57 then Some (n - 48) else None)"

fun parse_digits :: "nat \<Rightarrow> string \<Rightarrow> nat option" where
  "parse_digits acc [] = Some acc"
| "parse_digits acc (c # s) =
     (case digit_value c of None \<Rightarrow> None | Some d \<Rightarrow> parse_digits (acc * 10 + d) s)"

definition parse_nat :: "string \<Rightarrow> nat option" where
  "parse_nat s = (if s = [] then None else parse_digits 0 s)"

text \<open>\<open>str::parse::<u64>\<close> and \<open>str::parse::<i64>\<close>.\<close>

definition parse_u64 :: "string \<Rightarrow> u64 option" where
  "parse_u64 s = (case parse_nat (if s \<noteq> [] \<and> hd s = CHR ''+'' then tl s else s) of
     Some n \<Rightarrow> if n < 2 ^ 64 then Some (of_nat n) else None | None \<Rightarrow> None)"

definition parse_i64 :: "string \<Rightarrow> int option" where
  "parse_i64 s =
     (if s \<noteq> [] \<and> hd s = CHR ''-''
      then (case parse_nat (tl s) of Some n \<Rightarrow> if n \<le> 2 ^ 63 then Some (- int n) else None | None \<Rightarrow> None)
      else (case parse_nat (if s \<noteq> [] \<and> hd s = CHR ''+'' then tl s else s) of
              Some n \<Rightarrow> if n < 2 ^ 63 then Some (int n) else None | None \<Rightarrow> None))"

lemma digit_value_char: "d < 10 \<Longrightarrow> digit_value (digit_char d) = Some d"
proof -
  have "\<forall>d \<in> set [0..<10]. digit_value (digit_char d) = Some d" by code_simp
  then show "d < 10 \<Longrightarrow> ?thesis" by simp
qed

lemma parse_digits_append:
  "parse_digits acc (s @ t) = (case parse_digits acc s of None \<Rightarrow> None | Some n \<Rightarrow> parse_digits n t)"
  by (induction s arbitrary: acc) (simp_all split: option.splits)

lemma parse_digits_str: "parse_digits 0 (nat_str n) = Some n"
proof (induction n rule: nat_str.induct)
  case (1 n)
  show ?case
  proof (cases "n < 10")
    case True
    then show ?thesis by (subst nat_str.simps) (simp add: digit_value_char)
  next
    case False
    with 1 show ?thesis by (subst nat_str.simps) (simp add: parse_digits_append digit_value_char)
  qed
qed

lemma parse_nat_str [simp]: "parse_nat (nat_str n) = Some n"
  by (simp add: parse_nat_def parse_digits_str)

lemma nat_str_hd: "hd (nat_str n) \<in> digits"
  using nat_str_digits [of n] by (meson hd_in_set nat_str_nonempty subsetD)

lemma parse_u64_str: "parse_u64 (nat_str (unat (w :: u64))) = Some w"
proof -
  have "hd (nat_str (unat w)) \<noteq> CHR ''+''" using nat_str_hd [of "unat w"] by (auto simp: digits_def)
  moreover have "unat w < 2 ^ 64" using unsigned_less [of w] by simp
  ultimately show ?thesis by (simp add: parse_u64_def)
qed

section \<open>Quoting\<close>

text \<open>Reading a list of items separated by single blanks; the fuel bounds the number of items.\<close>

fun read_items :: "(string \<Rightarrow> (string \<times> string) option) \<Rightarrow> nat \<Rightarrow> string \<Rightarrow> string list option" where
  "read_items rd 0 s = None"
| "read_items rd (Suc n) s =
     (case rd s of
        None \<Rightarrow> None
      | Some (w, []) \<Rightarrow> Some [w]
      | Some (w, c # r) \<Rightarrow> if c = CHR '' '' then map_option (Cons w) (read_items rd n r) else None)"

text \<open>
  \<open>quote\<close> writes, \<open>read\<close> takes one item from the front and leaves the rest; \<open>ok\<close> are the strings that can
  be written and \<open>ends\<close> the texts that may follow an item.
\<close>

locale quoting =
  fixes quote :: "string \<Rightarrow> string"
    and read :: "string \<Rightarrow> (string \<times> string) option"
    and ok :: "string \<Rightarrow> bool"
    and ends :: "string \<Rightarrow> bool"
  assumes read_quote: "ok s \<Longrightarrow> ends r \<Longrightarrow> read (quote s @ r) = Some (s, r)"
    and ends_nil: "ends []"
    and ends_blank: "ends (CHR '' '' # r)"
begin

lemma quote_inj: "ok s \<Longrightarrow> ok t \<Longrightarrow> quote s = quote t \<Longrightarrow> s = t"
  using read_quote [of s "[]"] read_quote [of t "[]"] ends_nil by simp

lemma read_items_quoted:
  assumes "ws \<noteq> []" and "\<forall>w \<in> set ws. ok w" and "length ws \<le> n"
  shows "read_items read n (join '' '' (map quote ws)) = Some ws"
  using assms
proof (induction ws arbitrary: n)
  case (Cons w ws)
  then obtain k where n: "n = Suc k" by (cases n) simp_all
  show ?case
  proof (cases ws)
    case Nil
    with Cons.prems n show ?thesis using read_quote [of w "[]"] ends_nil by simp
  next
    case (Cons v vs)
    have "read (quote w @ CHR '' '' # join '' '' (map quote ws)) =
        Some (w, CHR '' '' # join '' '' (map quote ws))"
      using Cons.prems ends_blank by (intro read_quote) simp_all
    moreover have "read_items read k (join '' '' (map quote ws)) = Some ws"
      using Cons.IH Cons.prems n Cons by simp
    ultimately show ?thesis using Cons n by simp
  qed
qed simp

end

end
