(* ===== verification/Op_Order.thy ===== *)
theory Op_Order
  imports Mux_Path
begin

text \<open>
  Rust's \<open>Ordering\<close> and \<open>slice::sort_by\<close>.  The library's sort is stable, so for a comparison that is
  a total preorder its result is determined; it is given here by insertion.  The interface
  \<open>comparison\<close> states what \<open>sort_by\<close> asks of its argument, and combinators build comparisons the way
  the program builds them with \<open>then_with\<close>, keys and reversal.
\<close>

section \<open>Comparison results\<close>

datatype ord_result = OLess | OEqual | OGreater

fun ord_reverse :: "ord_result \<Rightarrow> ord_result" where
  "ord_reverse OLess = OGreater"
| "ord_reverse OEqual = OEqual"
| "ord_reverse OGreater = OLess"

fun then_with :: "ord_result \<Rightarrow> ord_result \<Rightarrow> ord_result" where
  "then_with OEqual r = r"
| "then_with r _ = r"

definition cmp_of :: "'a :: linorder \<Rightarrow> 'a \<Rightarrow> ord_result" where
  "cmp_of x y = (if x < y then OLess else if x = y then OEqual else OGreater)"

lemma ord_reverse_eq [simp]:
  "ord_reverse r = OLess \<longleftrightarrow> r = OGreater" "ord_reverse r = OEqual \<longleftrightarrow> r = OEqual"
  "ord_reverse r = OGreater \<longleftrightarrow> r = OLess" "ord_reverse (ord_reverse r) = r"
  by (cases r; simp)+

lemma then_with_eq:
  "then_with a b = OGreater \<longleftrightarrow> a = OGreater \<or> (a = OEqual \<and> b = OGreater)"
  "then_with a b = OEqual \<longleftrightarrow> a = OEqual \<and> b = OEqual"
  "then_with a b = OLess \<longleftrightarrow> a = OLess \<or> (a = OEqual \<and> b = OLess)"
  by (cases a; simp)+

lemma ord_reverse_then: "ord_reverse (then_with a b) = then_with (ord_reverse a) (ord_reverse b)"
  by (cases a) simp_all

lemma cmp_of_simps [simp]:
  "cmp_of x y = OLess \<longleftrightarrow> x < y" "cmp_of x y = OEqual \<longleftrightarrow> x = y" "cmp_of x y = OGreater \<longleftrightarrow> y < x"
  by (auto simp: cmp_of_def)

section \<open>Sorting\<close>

fun insert_by :: "('a \<Rightarrow> 'a \<Rightarrow> ord_result) \<Rightarrow> 'a \<Rightarrow> 'a list \<Rightarrow> 'a list" where
  "insert_by cmp x [] = [x]"
| "insert_by cmp x (y # ys) = (if cmp x y = OGreater then y # insert_by cmp x ys else x # y # ys)"

definition sort_by :: "('a \<Rightarrow> 'a \<Rightarrow> ord_result) \<Rightarrow> 'a list \<Rightarrow> 'a list" where
  "sort_by cmp xs = foldr (insert_by cmp) xs []"

lemma mset_insert_by [simp]: "mset (insert_by cmp x ys) = add_mset x (mset ys)"
  by (induction ys) auto

lemma set_insert_by [simp]: "set (insert_by cmp x ys) = insert x (set ys)"
  by (metis mset_insert_by set_mset_add_mset_insert set_mset_mset)

lemma mset_sort_by [simp]: "mset (sort_by cmp xs) = mset xs"
  by (induction xs) (auto simp: sort_by_def)

lemma set_sort_by [simp]: "set (sort_by cmp xs) = set xs"
  by (metis mset_sort_by set_mset_mset)

lemma length_sort_by [simp]: "length (sort_by cmp xs) = length xs"
  by (metis mset_sort_by size_mset)

locale comparison =
  fixes cmp :: "'a \<Rightarrow> 'a \<Rightarrow> ord_result"
  assumes flip: "cmp y x = ord_reverse (cmp x y)"
    and le_trans: "cmp x y \<noteq> OGreater \<Longrightarrow> cmp y z \<noteq> OGreater \<Longrightarrow> cmp x z \<noteq> OGreater"
begin

lemma same [simp]: "cmp x x = OEqual"
  using flip [of x x] by (cases "cmp x x") simp_all

lemma le_flip: "cmp x y = OGreater \<Longrightarrow> cmp y x \<noteq> OGreater"
  using flip [of x y] by simp

lemma equal_trans: "cmp x y = OEqual \<Longrightarrow> cmp y z = OEqual \<Longrightarrow> cmp x z = OEqual"
  using le_trans [of x y z] le_trans [of z y x] flip [of z y] flip [of y x] flip [of z x]
  by (cases "cmp x z") simp_all

lemma sorted_insert_by:
  "sorted_wrt (\<lambda>x y. cmp x y \<noteq> OGreater) ys \<Longrightarrow>
   sorted_wrt (\<lambda>x y. cmp x y \<noteq> OGreater) (insert_by cmp x ys)"
  by (induction ys) (auto dest: le_flip, metis le_trans)

lemma sorted_sort_by: "sorted_wrt (\<lambda>x y. cmp x y \<noteq> OGreater) (sort_by cmp xs)"
  by (induction xs) (auto simp: sort_by_def sorted_insert_by)

lemma filter_insert_by:
  assumes "sorted_wrt (\<lambda>x y. cmp x y \<noteq> OGreater) ys"
  shows "filter (\<lambda>y. cmp z y = OEqual) (insert_by cmp x ys) =
    (if cmp z x = OEqual then [x] else []) @ filter (\<lambda>y. cmp z y = OEqual) ys"
  using assms
proof (induction ys)
  case (Cons y ys)
  have "\<not> cmp z x = OEqual" if "cmp x y = OGreater" "cmp z y = OEqual"
    using that equal_trans [of x z y] flip [of z x] by auto
  with Cons show ?case by auto
qed simp

text \<open>Stability: elements that compare as equal keep their order.\<close>

lemma sort_by_stable:
  "filter (\<lambda>y. cmp z y = OEqual) (sort_by cmp xs) = filter (\<lambda>y. cmp z y = OEqual) xs"
proof (induction xs)
  case (Cons x xs)
  have "sort_by cmp (x # xs) = insert_by cmp x (sort_by cmp xs)" by (simp add: sort_by_def)
  with Cons show ?case by (simp add: filter_insert_by sorted_sort_by)
qed (simp add: sort_by_def)

lemma sort_by_take:
  assumes "x \<in> set (take n (sort_by cmp xs))" and "y \<in> set (drop n (sort_by cmp xs))"
  shows "cmp x y \<noteq> OGreater"
proof -
  have "sorted_wrt (\<lambda>x y. cmp x y \<noteq> OGreater) (take n (sort_by cmp xs) @ drop n (sort_by cmp xs))"
    using sorted_sort_by [of xs] by simp
  with assms show ?thesis unfolding sorted_wrt_append by blast
qed

end

lemma comparison_cmp_of: "comparison (cmp_of :: 'a :: linorder \<Rightarrow> 'a \<Rightarrow> ord_result)"
  by unfold_locales (auto simp: cmp_of_def split: if_splits)

lemma comparison_key: "comparison c \<Longrightarrow> comparison (\<lambda>x y. c (f x) (f y))"
  unfolding comparison_def by metis

lemma comparison_rev: "comparison c \<Longrightarrow> comparison (\<lambda>x y. c y x)"
  unfolding comparison_def by metis

lemma comparison_then:
  assumes "comparison c" and "comparison d"
  shows "comparison (\<lambda>x y. then_with (c x y) (d x y))"
proof
  fix x y
  show "then_with (c y x) (d y x) = ord_reverse (then_with (c x y) (d x y))"
    using comparison.flip [OF assms(1), of y x] comparison.flip [OF assms(2), of y x]
    by (simp add: ord_reverse_then)
next
  fix x y z
  assume xy: "then_with (c x y) (d x y) \<noteq> OGreater" and yz: "then_with (c y z) (d y z) \<noteq> OGreater"
  note tr = comparison.le_trans [OF assms(1)] and fl = comparison.flip [OF assms(1)]
  have le: "c x y \<noteq> OGreater" "c y z \<noteq> OGreater" using xy yz by (auto simp: then_with_eq)
  then have "c x z \<noteq> OGreater" by (rule tr)
  moreover have "d x z \<noteq> OGreater" if eq: "c x z = OEqual"
  proof -
    have zx: "c z x \<noteq> OGreater" using eq fl [of z x] by simp
    have "c z y \<noteq> OGreater" by (rule tr [OF zx le(1)])
    moreover have "c y x \<noteq> OGreater" by (rule tr [OF le(2) zx])
    ultimately have "c x y = OEqual" "c y z = OEqual"
      using le fl [of z y] fl [of y x] by (cases "c x y", simp_all) (cases "c y z", simp_all)
    with xy yz show ?thesis using comparison.le_trans [OF assms(2)] by (auto simp: then_with_eq)
  qed
  ultimately show "then_with (c x z) (d x z) \<noteq> OGreater" by (auto simp: then_with_eq)
qed

lemmas comparison_intros = comparison_cmp_of comparison_key comparison_rev comparison_then

interpretation natural: comparison "cmp_of :: 'a :: linorder \<Rightarrow> 'a \<Rightarrow> ord_result"
  by (rule comparison_cmp_of)

section \<open>Paths\<close>

text \<open>\<open>PathBuf\<close> is ordered by its components, these by their kind and then by their text.\<close>

fun component_rank :: "component \<Rightarrow> nat" where
  "component_rank RootDir = 0"
| "component_rank CurDir = 1"
| "component_rank ParentDir = 2"
| "component_rank (Normal _) = 3"

lemma component_eqI: "component_rank c = component_rank d \<Longrightarrow> component_str c = component_str d \<Longrightarrow> c = d"
  by (cases c; cases d) simp_all

instantiation component :: linorder
begin

definition less_eq_component :: "component \<Rightarrow> component \<Rightarrow> bool" where
  "c \<le> d \<longleftrightarrow> component_rank c < component_rank d \<or>
     component_rank c = component_rank d \<and> component_str c \<le> component_str d"

definition less_component :: "component \<Rightarrow> component \<Rightarrow> bool" where
  "c < d \<longleftrightarrow> component_rank c < component_rank d \<or>
     component_rank c = component_rank d \<and> component_str c < component_str d"

instance
  by standard (auto simp: less_eq_component_def less_component_def intro: component_eqI)

end

definition cmp_path :: "string \<Rightarrow> string \<Rightarrow> ord_result" where
  "cmp_path p q = cmp_of (components p) (components q)"

interpretation path_order: comparison cmp_path
  unfolding cmp_path_def by (rule comparison_key [OF comparison_cmp_of])

end
