(* ===== verification/Host_Services.thy ===== *)
theory Host_Services
  imports Host_Danger Op_Text Op_Order
begin

text \<open>
  The services the setup wizard lists (\<open>mux-agent/src/wizard/services.rs\<close>, and the discovery of the
  first-party server in \<open>scan.rs\<close>): built from the scans, completed by the first-party server, stamped
  with the process ids of running servers, and checked for health.  What the program learns from
  outside is the record \<open>probes\<close>: the output of \<open>ps\<close> up to the first line that is not text, whether
  \<open>pip\<close> knows the package, and which sockets accept a connection.  The operations that start \<open>ps\<close> or \<open>pip\<close>
  return, beside their result, the commands they have started.  Process lines are ASCII text, so a
  letter or digit is an ASCII one.
\<close>

section \<open>Entries\<close>

datatype service_source =
    SrcClient host_kind string
  | SrcDefault string "string option"
  | SrcRunning

fun source_label :: "service_source \<Rightarrow> string" where
  "source_label (SrcClient kind p) = as_label kind"
| "source_label (SrcDefault label p) = ''default''"
| "source_label SrcRunning = ''running''"

datatype health_status = HealthUnknown | Healthy | Unhealthy

record service_entry =
  sy_name :: string
  sy_config :: server_config
  sy_health :: health_status
  sy_source :: service_source
  sy_pid :: "u32 option"
  sy_selected :: bool

record probes =
  pr_ps :: "string option"
  pr_pip :: bool
  pr_connects :: "string \<Rightarrow> bool"

text \<open>A process the program starts: the program's name and its arguments.\<close>

type_synonym command = "string \<times> string list"

definition ps_command :: command where
  "ps_command = (''ps'', [''-eo'', ''pid,args''])"

definition pip_command :: command where
  "pip_command = (''pip'', [''show'', ''vibecrafted-mcp''])"

text \<open>The configuration every discovered service starts with.\<close>

definition discovered_config ::
  "string \<Rightarrow> string option \<Rightarrow> string \<Rightarrow> string list \<Rightarrow> string option \<Rightarrow> (string, string) hashmap option \<Rightarrow>
   server_config" where
  "discovered_config name socket cmd args cwd env = \<lparr>sc_socket = socket, sc_cmd = Some cmd,
     sc_args = Some args, sc_cwd = cwd, sc_max_active_clients = Some 5, sc_tray = Some False,
     sc_service_name = Some name, sc_log_level = Some ''info'', sc_lazy_start = Some False,
     sc_max_request_bytes = Some 1048576, sc_request_timeout_ms = Some 30000,
     sc_restart_backoff_ms = Some 1000, sc_restart_backoff_max_ms = Some 30000,
     sc_max_restarts = Some 5, sc_status_file = None, sc_env = env,
     sc_heartbeat_interval_ms = Some 30000, sc_heartbeat_timeout_ms = Some 30000,
     sc_heartbeat_max_failures = Some 3, sc_heartbeat_enabled = Some True\<rparr>"

definition service_config :: "host_service \<Rightarrow> server_config" where
  "service_config svc = discovered_config (sv_name svc) (sv_socket svc) (sv_command svc) (sv_args svc)
     (sv_cwd svc) (sv_env svc)"

section \<open>From scans to entries\<close>

definition cmp_fst :: "string \<times> string \<Rightarrow> string \<times> string \<Rightarrow> ord_result" where
  "cmp_fst a b = cmp_of (fst a) (fst b)"

definition env_signature :: "(string, string) hashmap option \<Rightarrow> string" where
  "env_signature env = (case env of
     None \<Rightarrow> []
   | Some m \<Rightarrow> join '','' (map (\<lambda>(k, v). k @ ''='' @ v) (sort_by cmp_fst m)))"

definition svc_key :: "host_service \<Rightarrow> string" where
  "svc_key svc = sv_command svc @ ''|'' @ join '' '' (sv_args svc) @ ''|'' @ env_signature (sv_env svc)"

definition add_origin :: "host_file \<times> host_service \<Rightarrow> (string, host_kind \<times> string) hashmap \<Rightarrow>
   (string, host_kind \<times> string) hashmap" where
  "add_origin x idx = (if hm_get idx (svc_key (snd x)) = None
     then hm_insert (svc_key (snd x)) (hf_kind (fst x), hf_path (fst x)) idx else idx)"

definition origin_index :: "scan_result list \<Rightarrow> (string, host_kind \<times> string) hashmap" where
  "origin_index scans = fold add_origin (all_entries scans) []"

definition build_services_from_scans :: "scan_result list \<Rightarrow> service_entry list" where
  "build_services_from_scans scans = map (\<lambda>svc.
     \<lparr>sy_name = sv_name svc, sy_config = service_config svc, sy_health = HealthUnknown,
      sy_source = (case hm_get (origin_index scans) (svc_key svc) of
          Some (kind, p) \<Rightarrow> SrcClient kind p | None \<Rightarrow> SrcRunning),
      sy_pid = None, sy_selected = True\<rparr>) (mo_services (merge_services scans))"

section \<open>The first-party server\<close>

datatype discovered_source = DevPath | PipInstall

record discovered_mcp =
  dm_name :: string
  dm_source :: discovered_source
  dm_command :: string
  dm_args :: "string list"
  dm_cwd :: "string option"

definition into_host_service :: "discovered_mcp \<Rightarrow> host_service" where
  "into_host_service d = \<lparr>sv_name = dm_name d, sv_command = dm_command d, sv_args = dm_args d,
     sv_cwd = dm_cwd d, sv_socket = None, sv_env = None, sv_enabled = None\<rparr>"

definition project_name :: "json \<Rightarrow> string option" where
  "project_name root = (case jget root ''project'' of
     Some (JObj m) \<Rightarrow> Option.bind (map_of m ''name'') as_str | _ \<Rightarrow> None)"

definition vibecrafted_mcp_pip_show :: "probes \<Rightarrow> command list \<times> bool" where
  "vibecrafted_mcp_pip_show pr = ([pip_command], pr_pip pr)"

text \<open>\<open>pip_installed\<close> is only asked when the development path has nothing.\<close>

definition discover_vibecrafted_mcp_with ::
  "formats \<Rightarrow> fs_view \<Rightarrow> string \<Rightarrow> command list \<times> bool \<Rightarrow> command list \<times> discovered_mcp option" where
  "discover_vibecrafted_mcp_with fm fs search_root pip_installed =
     (if Option.bind (Option.bind (fv_read fs (path_join search_root ''pyproject.toml'')) (parse_toml fm))
           project_name = Some ''vibecrafted-mcp''
      then ([], Some \<lparr>dm_name = ''vibecrafted-mcp'', dm_source = DevPath, dm_command = ''python'',
             dm_args = [''-m'', ''vibecrafted_mcp''], dm_cwd = Some search_root\<rparr>)
      else (fst pip_installed, if snd pip_installed
        then Some \<lparr>dm_name = ''vibecrafted-mcp'', dm_source = PipInstall, dm_command = ''vibecrafted-mcp'',
             dm_args = [], dm_cwd = None\<rparr>
        else None))"

definition discover_vibecrafted_mcp ::
  "formats \<Rightarrow> fs_view \<Rightarrow> string option \<Rightarrow> probes \<Rightarrow> command list \<times> discovered_mcp option" where
  "discover_vibecrafted_mcp fm fs home pr =
     discover_vibecrafted_mcp_with fm fs (expand_path home ''~/Libraxis/vibecrafted/vibecrafted-mcp'')
       (vibecrafted_mcp_pip_show pr)"

definition append_default_services ::
  "formats \<Rightarrow> fs_view \<Rightarrow> string option \<Rightarrow> probes \<Rightarrow> service_entry list \<Rightarrow> command list \<times> service_entry list" where
  "append_default_services fm fs home pr services =
     apsnd (\<lambda>found. case found of
        None \<Rightarrow> services
      | Some d \<Rightarrow>
          services @ [\<lparr>sy_name = dm_name d, sy_config = service_config (into_host_service d),
            sy_health = HealthUnknown,
            sy_source = SrcDefault (case dm_source d of DevPath \<Rightarrow> ''vibecrafted-mcp dev path''
              | PipInstall \<Rightarrow> ''vibecrafted-mcp pip install'') (dm_cwd d),
            sy_pid = None, sy_selected = True\<rparr>]) (discover_vibecrafted_mcp fm fs home pr)"

section \<open>Running processes\<close>

definition MCP_PATTERNS :: "string list" where
  "MCP_PATTERNS = [''@modelcontextprotocol/'', ''mcp-server-'', ''-mcp-server'', ''mcp_server'', ''/mcp-'',
     ''-mcp/'', ''/loctree-mcp'', ''/aicx-mcp'', ''claude-mcp'']"

record running_process =
  rp_pid :: u32
  rp_command :: string
  rp_arguments :: "string list"
  rp_synthetic_name :: string

definition rsplit_last :: "char \<Rightarrow> string \<Rightarrow> string" where
  "rsplit_last c s = last (split_char c s)"

definition cmds_equivalent :: "string \<Rightarrow> string \<Rightarrow> bool" where
  "cmds_equivalent a b \<longleftrightarrow> a = b \<or> rsplit_last (CHR ''/'') a = rsplit_last (CHR ''/'') b"

definition proc_matches_entry :: "running_process \<Rightarrow> service_entry \<Rightarrow> bool" where
  "proc_matches_entry p svc =
     (let svc_cmd = (case sc_cmd (sy_config svc) of Some c \<Rightarrow> c | None \<Rightarrow> []);
          svc_args = (case sc_args (sy_config svc) of Some as \<Rightarrow> as | None \<Rightarrow> [])
      in cmds_equivalent (rp_command p) svc_cmd \<and>
         (case find (\<lambda>a. a \<noteq> []) svc_args of
            Some probe \<Rightarrow> \<exists>a \<in> set (rp_arguments p). str_contains a probe
          | None \<Rightarrow> True))"

text \<open>The first entry that matches gets the process id; \<open>None\<close> when no entry matches.\<close>

fun stamp_first :: "running_process \<Rightarrow> service_entry list \<Rightarrow> service_entry list option" where
  "stamp_first p [] = None"
| "stamp_first p (s # ss) =
     (if proc_matches_entry p s then Some (s\<lparr>sy_pid := Some (rp_pid p)\<rparr> # ss)
      else map_option (Cons s) (stamp_first p ss))"

definition orphan_entry :: "running_process \<Rightarrow> service_entry" where
  "orphan_entry p = \<lparr>sy_name = rp_synthetic_name p,
     sy_config = discovered_config (rp_synthetic_name p) None (rp_command p) (rp_arguments p) None None,
     sy_health = Healthy, sy_source = SrcRunning, sy_pid = Some (rp_pid p), sy_selected = False\<rparr>"

definition enrich_one :: "running_process \<Rightarrow> service_entry list \<Rightarrow> service_entry list" where
  "enrich_one p services =
     (case stamp_first p services of Some ss \<Rightarrow> ss | None \<Rightarrow> services @ [orphan_entry p])"

text \<open>\<open>str::find\<close>: what follows the first occurrence.\<close>

fun str_after :: "string \<Rightarrow> string \<Rightarrow> string option" where
  "str_after [] p = (if p = [] then Some [] else None)"
| "str_after (c # cs) p =
     (if starts_with (c # cs) p then Some (drop (length p) (c # cs)) else str_after cs p)"

definition name_after :: "string \<Rightarrow> string \<Rightarrow> string" where
  "name_after args mark = (case str_after args mark of
     None \<Rightarrow> []
   | Some rest \<Rightarrow> takeWhile (\<lambda>c. is_alnum c \<or> c = CHR ''-'' \<or> c = CHR ''_'') rest)"

definition extract_service_name :: "string \<Rightarrow> string" where
  "extract_service_name args =
     (let a = name_after args ''@modelcontextprotocol/''; b = name_after args ''mcp-server-'';
          c = name_after args ''server-''
      in if a \<noteq> [] then a else if b \<noteq> [] then ''mcp-'' @ b else if c \<noteq> [] then c else ''detected-mcp'')"

definition extract_cmd_and_args :: "string \<Rightarrow> string \<times> string list" where
  "extract_cmd_and_args args =
     (case split_whitespace args of
        [] \<Rightarrow> (''unknown'', [])
      | p # ps \<Rightarrow> (if CHR ''/'' \<in> set p then rsplit_last (CHR ''/'') p else p, ps))"

definition ensure_unique_name :: "string list \<Rightarrow> string \<Rightarrow> string" where
  "ensure_unique_name used candidate =
     (if candidate \<notin> set used then candidate
      else the (unique_search used candidate (Suc (length used)) 2))"

text \<open>\<open>splitn(2, char::is_whitespace)\<close> on a trimmed line, and \<open>parse::<u32>\<close>.\<close>

definition split_first_ws :: "string \<Rightarrow> (string \<times> string) option" where
  "split_first_ws s = (case dropWhile (\<lambda>c. \<not> is_space c) s of
     [] \<Rightarrow> None | c # rest \<Rightarrow> Some (takeWhile (\<lambda>c. \<not> is_space c) s, rest))"

definition parse_u32 :: "string \<Rightarrow> u32 option" where
  "parse_u32 s = (case parse_nat (if s \<noteq> [] \<and> hd s = CHR ''+'' then tl s else s) of
     Some n \<Rightarrow> if n < 2 ^ 32 then Some (of_nat n) else None | None \<Rightarrow> None)"

definition process_line :: "string \<Rightarrow> (u32 \<times> string) option" where
  "process_line line =
     (if starts_with (trim line) ''PID'' then None
      else case split_first_ws (trim line) of
        None \<Rightarrow> None
      | Some (a, b) \<Rightarrow>
          (case parse_u32 (trim a) of
             None \<Rightarrow> None
           | Some pid \<Rightarrow>
               (let args = trim b in
                if \<not> (\<exists>p \<in> set MCP_PATTERNS. str_contains args p) then None
                else if str_contains args ''rust-mux'' \<or> str_contains args ''rmcp_mux'' then None
                else Some (pid, args))))"

fun running_of :: "string list \<Rightarrow> (u32 \<times> string) list \<Rightarrow> running_process list" where
  "running_of seen [] = []"
| "running_of seen ((pid, args) # rest) =
     (let unique = ensure_unique_name seen (extract_service_name args);
          (cmd, cmd_args) = extract_cmd_and_args args
      in \<lparr>rp_pid = pid, rp_command = cmd, rp_arguments = cmd_args, rp_synthetic_name = unique\<rparr> #
         running_of (unique # seen) rest)"

definition list_running_mcp_processes :: "probes \<Rightarrow> command list \<times> running_process list" where
  "list_running_mcp_processes pr = ([ps_command], case pr_ps pr of
     None \<Rightarrow> []
   | Some out \<Rightarrow> running_of [] (List.map_filter process_line (str_lines out)))"

definition enrich_running_state :: "probes \<Rightarrow> service_entry list \<Rightarrow> command list \<times> service_entry list" where
  "enrich_running_state pr services =
     apsnd (\<lambda>running. if running = [] then services else fold enrich_one running services) (list_running_mcp_processes pr)"

section \<open>Health\<close>

definition check_health :: "string option \<Rightarrow> probes \<Rightarrow> server_config \<Rightarrow> health_status" where
  "check_health home pr cfg = (case sc_socket cfg of
     None \<Rightarrow> HealthUnknown
   | Some s \<Rightarrow> if pr_connects pr (expand_path home s) then Healthy else Unhealthy)"

section \<open>Where an entry comes from\<close>

lemma svc_key_rename [simp]: "svc_key (v\<lparr>sv_name := n\<rparr>) = svc_key v"
  by (simp add: svc_key_def)

text \<open>The index keeps the first source of a key.\<close>

lemma fold_add_origin:
  "hm_get (fold add_origin xs idx) k = (case hm_get idx k of Some o' \<Rightarrow> Some o'
     | None \<Rightarrow> map_option (\<lambda>x. (hf_kind (fst x), hf_path (fst x))) (find (\<lambda>x. svc_key (snd x) = k) xs))"
  by (induction xs arbitrary: idx) (auto simp: add_origin_def update_conv' split: option.splits)

lemma origin_index_get: "hm_get (origin_index scans) k =
    map_option (\<lambda>x. (hf_kind (fst x), hf_path (fst x))) (find (\<lambda>x. svc_key (snd x) = k) (all_entries scans))"
  by (simp add: origin_index_def fold_add_origin)

lemma built_covers: "m \<in> set (mo_services (merge_services scans)) \<Longrightarrow>
    \<exists>b \<in> set (build_services_from_scans scans). sy_name b = sv_name m \<and> sy_config b = service_config m \<and> sy_selected b"
  by (auto simp: build_services_from_scans_def)

lemma built_entry:
  assumes "e \<in> set (build_services_from_scans scans)"
  shows "\<exists>s \<in> set scans. \<exists>v \<in> set (sr_services s). sy_config e = service_config (v\<lparr>sv_name := sy_name e\<rparr>) \<and>
    kept_name (sv_name v) (sy_name e) \<and> sy_selected e \<and>
    (\<exists>h. find (\<lambda>x. svc_key (snd x) = svc_key v) (all_entries scans) = Some h \<and>
      sy_source e = SrcClient (hf_kind (fst h)) (hf_path (fst h)))"
proof -
  obtain m where m: "m \<in> set (mo_services (merge_services scans))"
    and e: "sy_name e = sv_name m" "sy_config e = service_config m" "sy_selected e"
      "sy_source e = (case hm_get (origin_index scans) (svc_key m) of
          Some (kind, p) \<Rightarrow> SrcClient kind p | None \<Rightarrow> SrcRunning)"
    using assms by (auto simp: build_services_from_scans_def)
  obtain s v where v: "s \<in> set scans" "v \<in> set (sr_services s)"
    and mv: "m = v\<lparr>sv_name := sv_name m\<rparr>" "kept_name (sv_name v) (sv_name m)"
    using merge_origin [OF m] by blast
  have key: "svc_key m = svc_key v" using mv(1) svc_key_rename by metis
  have "(sr_host s, v) \<in> set (all_entries scans)" using v by (auto simp: all_entries_iff)
  then obtain h where h: "find (\<lambda>x. svc_key (snd x) = svc_key v) (all_entries scans) = Some h"
    by (cases "find (\<lambda>x. svc_key (snd x) = svc_key v) (all_entries scans)") (auto simp: find_None_iff)
  show ?thesis
    using v mv e h by (intro bexI [OF _ v(1)] bexI [OF _ v(2)]) (auto simp: origin_index_get key)
qed

section \<open>What running processes change\<close>

definition unstamped :: "service_entry \<Rightarrow> service_entry" where
  "unstamped e = e\<lparr>sy_pid := None\<rparr>"

definition is_orphan :: "service_entry \<Rightarrow> bool" where
  "is_orphan e \<longleftrightarrow> \<not> sy_selected e \<and> sy_source e = SrcRunning \<and> sc_socket (sy_config e) = None"

lemma stamp_first_unstamped: "stamp_first p ss = Some ss' \<Longrightarrow> map unstamped ss' = map unstamped ss"
  by (induction ss arbitrary: ss') (auto simp: unstamped_def split: if_splits)

lemma enrich_one_frame:
  "\<exists>new. map unstamped (enrich_one p ss) = map unstamped ss @ new \<and> (\<forall>e \<in> set new. is_orphan e)"
  by (cases "stamp_first p ss")
    (auto simp: enrich_one_def stamp_first_unstamped orphan_entry_def is_orphan_def unstamped_def
      discovered_config_def)

lemma enrich_frame:
  "\<exists>new. map unstamped (snd (enrich_running_state pr ss)) = map unstamped ss @ new \<and> (\<forall>e \<in> set new. is_orphan e)"
proof -
  have "\<exists>new. map unstamped (fold enrich_one ps ss) = map unstamped ss @ new \<and> (\<forall>e \<in> set new. is_orphan e)" for ps
  proof (induction ps arbitrary: ss)
    case (Cons p ps)
    obtain a b where "map unstamped (enrich_one p ss) = map unstamped ss @ a" "\<forall>e \<in> set a. is_orphan e"
      "map unstamped (fold enrich_one ps (enrich_one p ss)) = map unstamped (enrich_one p ss) @ b"
      "\<forall>e \<in> set b. is_orphan e"
      using Cons.IH [of "enrich_one p ss"] enrich_one_frame [of p ss] by metis
    then show ?case by (intro exI [of _ "a @ b"]) auto
  qed simp
  then show ?thesis by (simp add: enrich_running_state_def Let_def)
qed

text \<open>Names of running processes are never given twice.\<close>

lemma ensure_unique_name_eq: "ensure_unique_name = ensure_unique"
  by (simp add: fun_eq_iff ensure_unique_name_def ensure_unique_def)

lemma running_names: "distinct (map rp_synthetic_name (running_of seen ps)) \<and>
    (\<forall>r \<in> set (running_of seen ps). rp_synthetic_name r \<notin> set seen)"
proof (induction ps arbitrary: seen)
  case (Cons p ps)
  let ?u = "ensure_unique_name seen (extract_service_name (snd p))"
  have "?u \<notin> set seen" using ensure_unique_cases by (auto simp: ensure_unique_name_eq)
  with Cons.IH [of "?u # seen"] show ?case
    by (cases p) (auto simp: Let_def split: prod.split)
qed simp

text \<open>The key of the index leaves out directory and socket: a service is attributed to the first client
  with the same command, arguments and environment, also where it came from another one.\<close>

theorem origin_misattributed:
  "map (\<lambda>e. (sy_name e, sc_cwd (sy_config e), sy_source e)) (build_services_from_scans
     [\<lparr>sr_host = example_host Claude, sr_services = [(example_svc ''a'' ''x'')\<lparr>sv_cwd := Some ''/one''\<rparr>]\<rparr>,
      \<lparr>sr_host = example_host Codex, sr_services = [(example_svc ''a'' ''x'')\<lparr>sv_cwd := Some ''/two''\<rparr>]\<rparr>]) =
   [(''a-from-claude'', Some ''/one'', SrcClient Claude (hf_path (example_host Claude))),
    (''a-from-codex'', Some ''/two'', SrcClient Claude (hf_path (example_host Claude)))]"
  by code_simp

end
