(* ===== verification/Host_Wizard.thy ===== *)
theory Host_Wizard
  imports Host_Services
begin

text \<open>
  The five steps of the setup wizard (\<open>mux-agent/src/wizard/types.rs\<close>, \<open>keys.rs\<close>, and the sources of
  \<open>mod.rs\<close>): the state is the record \<open>wizard\<close>, one function per step handles a key.  A key is handled in
  what the program sees at that moment, the record \<open>wizard_env\<close>: the file system, the parsers, the home
  directory and the probes.  A handler returns whether the terminal loop ends.  Characters outside
  ASCII are their UTF-8 bytes.
\<close>

section \<open>State\<close>

datatype wizard_step = DiscoverySources | ServerReview | StrategyChoice | SummaryConfirm | ResultAndTray

datatype strategy = Unified | PerClient | AutoRewire

datatype summary_action = Confirm | GoBack | Cancel

datatype tray_choice = StartNow | NoTray

datatype pending_action = GenerateUnified | GeneratePerClient | RunAutoRewire | StartTrayDaemon

datatype source_status = SourceOk nat | SourceEmpty | InvalidFormat string | Missing

fun status_short_label :: "source_status \<Rightarrow> string" where
  "status_short_label (SourceOk n) = nat_str n @ '' servers''"
| "status_short_label SourceEmpty = ''empty''"
| "status_short_label (InvalidFormat d) = ''invalid''"
| "status_short_label Missing = ''not found''"

record source_entry =
  so_host_file :: host_file
  so_status :: source_status
  so_selected :: bool

record custom_path_input =
  cp_buffer :: string
  cp_editing :: bool
  cp_status :: "string option"

text \<open>The last field is not part of the program's struct: it keeps the commands the loop has started.\<close>

record wizard =
  wz_step :: wizard_step
  wz_config_path :: string
  wz_sources :: "source_entry list"
  wz_selected_source :: nat
  wz_custom_path :: custom_path_input
  wz_services :: "service_entry list"
  wz_selected_service :: nat
  wz_strategy :: strategy
  wz_summary_action :: summary_action
  wz_tray_choice :: tray_choice
  wz_message :: string
  wz_dry_run :: bool
  wz_pending_action :: "pending_action option"
  wz_strategy_result :: "string option"
  wz_started :: "command list"

record wizard_env =
  we_home :: "string option"
  we_formats :: formats
  we_fs :: fs_view
  we_probes :: probes

section \<open>Sources and services\<close>

definition wz_scan :: "wizard_env \<Rightarrow> host_file \<Rightarrow> string + scan_result" where
  "wz_scan env = scan_host_file (parse_json (we_formats env)) (print_toml (we_formats env))
     (parse_toml (we_formats env)) (we_fs env)"

definition classify_source :: "wizard_env \<Rightarrow> host_file \<Rightarrow> source_status" where
  "classify_source env host =
     (if \<not> fv_exists (we_fs env) (hf_path host) then Missing
      else case wz_scan env host of
        Inl err \<Rightarrow> InvalidFormat err
      | Inr scan \<Rightarrow> if sr_services scan = [] then SourceEmpty else SourceOk (length (sr_services scan)))"

definition build_initial_sources :: "wizard_env \<Rightarrow> string list \<Rightarrow> source_entry list" where
  "build_initial_sources env imports =
     map (\<lambda>source. let status = classify_source env source in
        \<lparr>so_host_file = source, so_status = status, so_selected = (status \<noteq> Missing)\<rparr>)
       (default_sources (we_home env)) @
     map (\<lambda>p. let host = host_file_from_custom_path p in
        \<lparr>so_host_file = host, so_status = classify_source env host, so_selected = True\<rparr>) imports"

definition source_usable :: "source_entry \<Rightarrow> bool" where
  "source_usable s \<longleftrightarrow> so_selected s \<and> (case so_status s of SourceOk n \<Rightarrow> True | _ \<Rightarrow> False)"

definition ok_of :: "'e + 'a \<Rightarrow> 'a option" where
  "ok_of r = (case r of Inl e \<Rightarrow> None | Inr a \<Rightarrow> Some a)"

definition source_scans :: "wizard_env \<Rightarrow> source_entry list \<Rightarrow> scan_result list" where
  "source_scans env sources =
     List.map_filter (\<lambda>s. ok_of (wz_scan env (so_host_file s))) (filter source_usable sources)"

definition build_services_for_selected_sources ::
  "wizard_env \<Rightarrow> source_entry list \<Rightarrow> command list \<times> service_entry list" where
  "build_services_for_selected_sources env sources =
     (let (asked, services) = append_default_services (we_formats env) (we_fs env) (we_home env) (we_probes env)
            (build_services_from_scans (source_scans env sources));
          (listed, services') = enrich_running_state (we_probes env) services
      in (asked @ listed,
          map (\<lambda>svc. svc\<lparr>sy_health := check_health (we_home env) (we_probes env) (sy_config svc)\<rparr>) services'))"

section \<open>Messages\<close>

definition editing_message :: string where
  "editing_message = ''Editing custom path'' @ [CHR 0xE2, CHR 0x80, CHR 0xA6] @
     '' type a path, Enter to add, Esc to cancel.''"

definition count_selected_sources :: "wizard \<Rightarrow> nat" where
  "count_selected_sources app = length (filter so_selected (wz_sources app))"

definition refresh_step1_message :: "wizard \<Rightarrow> wizard" where
  "refresh_step1_message app = app\<lparr>wz_message := ''STEP 1: '' @ nat_str (count_selected_sources app) @ ''/'' @
     nat_str (length (wz_sources app)) @
     '' sources selected | Space toggle | i custom path | n next | q quit''\<rparr>"

definition update_step1_message :: "wizard \<Rightarrow> wizard" where
  "update_step1_message app =
     (if cp_editing (wz_custom_path app) then app\<lparr>wz_message := editing_message\<rparr>
      else refresh_step1_message app)"

definition count_selected_services :: "wizard \<Rightarrow> nat" where
  "count_selected_services app = length (filter sy_selected (wz_services app))"

definition update_step2_message :: "wizard \<Rightarrow> wizard" where
  "update_step2_message app = app\<lparr>wz_message := ''STEP 2: '' @ nat_str (count_selected_services app) @ ''/'' @
     nat_str (length (wz_services app)) @ '' servers selected | Space toggle | n next | p prev | q quit''\<rparr>"

definition update_step3_message :: "wizard \<Rightarrow> wizard" where
  "update_step3_message app = app\<lparr>wz_message :=
     ''STEP 3: Up/Down to choose strategy | 1/2/3 quick pick | n next | p prev''\<rparr>"

definition update_step4_message :: "wizard \<Rightarrow> wizard" where
  "update_step4_message app = app\<lparr>wz_message :=
     ''STEP 4: Up/Down to pick action | Enter to do it | p back | q quit''\<rparr>"

section \<open>Step 1\<close>

definition add_custom_source :: "wizard_env \<Rightarrow> string \<Rightarrow> wizard \<Rightarrow> wizard" where
  "add_custom_source env raw_path app =
     (let p = expand_path (we_home env) raw_path; host = host_file_from_custom_path p;
          status = (if \<not> fv_exists (we_fs env) p then Missing
            else case wz_scan env host of
              Inl err \<Rightarrow> InvalidFormat err
            | Inr scan \<Rightarrow> if sr_services scan = [] then SourceEmpty else SourceOk (length (sr_services scan)));
          sources = wz_sources app @ [\<lparr>so_host_file = host, so_status = status, so_selected = True\<rparr>]
      in app\<lparr>wz_custom_path := (wz_custom_path app)\<lparr>cp_status :=
               Some (''Added '' @ hf_path host @ '': '' @ status_short_label status)\<rparr>,
             wz_sources := sources, wz_selected_source := length sources - 1\<rparr>)"

definition advance_to_step2 :: "wizard_env \<Rightarrow> wizard \<Rightarrow> wizard" where
  "advance_to_step2 env app = (case build_services_for_selected_sources env (wz_sources app) of (started, services) \<Rightarrow>
     update_step2_message (app\<lparr>wz_services := services, wz_selected_service := 0, wz_step := ServerReview,
       wz_started := wz_started app @ started\<rparr>))"

definition toggle_source :: "wizard \<Rightarrow> wizard" where
  "toggle_source app =
     (let idx = min (wz_selected_source app) (length (wz_sources app) - 1); s = wz_sources app ! idx
      in update_step1_message (app\<lparr>wz_sources := (wz_sources app)[idx := s\<lparr>so_selected := \<not> so_selected s\<rparr>]\<rparr>))"

definition edit_custom_path :: "wizard_env \<Rightarrow> key_code \<Rightarrow> wizard \<Rightarrow> wizard" where
  "edit_custom_path env k app =
     (let c = wz_custom_path app in
      case k of
        KEsc \<Rightarrow> update_step1_message (app\<lparr>wz_custom_path := c\<lparr>cp_editing := False\<rparr>\<rparr>)
      | KEnter \<Rightarrow>
          (let p = cp_buffer c; app1 = app\<lparr>wz_custom_path := c\<lparr>cp_buffer := [], cp_editing := False\<rparr>\<rparr>
           in update_step1_message
             (if trim p = []
              then app1\<lparr>wz_custom_path := (wz_custom_path app1)\<lparr>cp_status := Some ''Path was empty.''\<rparr>\<rparr>
              else add_custom_source env p app1))
      | KBackspace \<Rightarrow> app\<lparr>wz_custom_path := c\<lparr>cp_buffer := butlast (cp_buffer c)\<rparr>\<rparr>
      | KChar ch \<Rightarrow> app\<lparr>wz_custom_path := c\<lparr>cp_buffer := cp_buffer c @ [ch]\<rparr>\<rparr>
      | _ \<Rightarrow> app)"

definition handle_step1 :: "wizard_env \<Rightarrow> key_code \<Rightarrow> wizard \<Rightarrow> bool \<times> wizard" where
  "handle_step1 env k app =
     (if cp_editing (wz_custom_path app) then (False, edit_custom_path env k app)
      else if k = KChar CHR ''q'' then (True, app)
      else if k = KChar CHR ''i'' then (False, app\<lparr>wz_custom_path := (wz_custom_path app)\<lparr>cp_editing := True\<rparr>,
        wz_message := editing_message\<rparr>)
      else if k = KUp \<and> 0 < wz_selected_source app
      then (False, app\<lparr>wz_selected_source := wz_selected_source app - 1\<rparr>)
      else if k = KDown \<and> wz_selected_source app + 1 < length (wz_sources app)
      then (False, app\<lparr>wz_selected_source := wz_selected_source app + 1\<rparr>)
      else if k = KChar CHR '' '' \<and> wz_sources app \<noteq> [] then (False, toggle_source app)
      else if k \<in> {KChar CHR ''n'', KEnter, KRight} then (False, advance_to_step2 env app)
      else (False, app))"

section \<open>Steps 2 to 5\<close>

definition toggle_service :: "wizard \<Rightarrow> wizard" where
  "toggle_service app =
     (let idx = min (wz_selected_service app) (length (wz_services app) - 1); s = wz_services app ! idx
      in update_step2_message (app\<lparr>wz_services := (wz_services app)[idx := s\<lparr>sy_selected := \<not> sy_selected s\<rparr>]\<rparr>))"

definition handle_step2 :: "key_code \<Rightarrow> wizard \<Rightarrow> bool \<times> wizard" where
  "handle_step2 k app =
     (if k = KChar CHR ''q'' then (True, app)
      else if k = KUp \<and> 0 < wz_selected_service app
      then (False, app\<lparr>wz_selected_service := wz_selected_service app - 1\<rparr>)
      else if k = KDown \<and> wz_selected_service app + 1 < length (wz_services app)
      then (False, app\<lparr>wz_selected_service := wz_selected_service app + 1\<rparr>)
      else if k = KChar CHR '' '' \<and> wz_services app \<noteq> [] then (False, toggle_service app)
      else if k \<in> {KChar CHR ''n'', KRight, KEnter}
      then (if count_selected_services app = 0
            then (False, app\<lparr>wz_message := ''Select at least one server (Space) before continuing.''\<rparr>)
            else (False, update_step3_message (app\<lparr>wz_step := StrategyChoice\<rparr>)))
      else if k \<in> {KChar CHR ''p'', KLeft}
      then (False, update_step1_message (app\<lparr>wz_step := DiscoverySources\<rparr>))
      else (False, app))"

text \<open>\<open>order[idx - 1]\<close> and \<open>order[idx + 1]\<close> on a list of all choices, where they exist.\<close>

definition position :: "'a \<Rightarrow> 'a list \<Rightarrow> nat" where
  "position x order = (let n = length (takeWhile (\<lambda>y. y \<noteq> x) order) in if n < length order then n else 0)"

definition handle_step3 :: "key_code \<Rightarrow> wizard \<Rightarrow> bool \<times> wizard" where
  "handle_step3 k app =
     (let order = [Unified, PerClient, AutoRewire]; idx = position (wz_strategy app) order in
      if k = KChar CHR ''q'' then (True, app)
      else if k = KUp \<and> 0 < idx then (False, app\<lparr>wz_strategy := order ! (idx - 1)\<rparr>)
      else if k = KDown \<and> idx + 1 < length order then (False, app\<lparr>wz_strategy := order ! (idx + 1)\<rparr>)
      else if k = KChar CHR ''1'' then (False, app\<lparr>wz_strategy := Unified\<rparr>)
      else if k = KChar CHR ''2'' then (False, app\<lparr>wz_strategy := PerClient\<rparr>)
      else if k = KChar CHR ''3'' then (False, app\<lparr>wz_strategy := AutoRewire\<rparr>)
      else if k \<in> {KChar CHR ''n'', KRight, KEnter}
      then (False, update_step4_message (app\<lparr>wz_step := SummaryConfirm, wz_summary_action := Confirm\<rparr>))
      else if k \<in> {KChar CHR ''p'', KLeft}
      then (False, update_step2_message (app\<lparr>wz_step := ServerReview\<rparr>))
      else (False, app))"

fun action_of :: "strategy \<Rightarrow> pending_action" where
  "action_of Unified = GenerateUnified"
| "action_of PerClient = GeneratePerClient"
| "action_of AutoRewire = RunAutoRewire"

definition queue_pending_for_strategy :: "wizard \<Rightarrow> wizard" where
  "queue_pending_for_strategy app = app\<lparr>wz_pending_action := Some (action_of (wz_strategy app))\<rparr>"

definition handle_step4 :: "key_code \<Rightarrow> wizard \<Rightarrow> bool \<times> wizard" where
  "handle_step4 k app =
     (let order = [Confirm, GoBack, Cancel]; idx = position (wz_summary_action app) order;
          to_strategy = update_step3_message (app\<lparr>wz_step := StrategyChoice\<rparr>) in
      if k = KChar CHR ''q'' then (True, app)
      else if k = KUp \<and> 0 < idx then (False, app\<lparr>wz_summary_action := order ! (idx - 1)\<rparr>)
      else if k = KDown \<and> idx + 1 < length order then (False, app\<lparr>wz_summary_action := order ! (idx + 1)\<rparr>)
      else if k \<in> {KChar CHR ''p'', KLeft} then (False, to_strategy)
      else if k = KEnter
      then (case wz_summary_action app of
              Confirm \<Rightarrow> (True, queue_pending_for_strategy app)
            | GoBack \<Rightarrow> (False, to_strategy)
            | Cancel \<Rightarrow> (True, app))
      else (False, app))"

definition handle_step5 :: "key_code \<Rightarrow> wizard \<Rightarrow> bool \<times> wizard" where
  "handle_step5 k app =
     (let order = [StartNow, NoTray]; idx = position (wz_tray_choice app) order in
      if k = KChar CHR ''q'' then (True, app)
      else if k = KUp \<and> 0 < idx then (False, app\<lparr>wz_tray_choice := order ! (idx - 1)\<rparr>)
      else if k = KDown \<and> idx + 1 < length order then (False, app\<lparr>wz_tray_choice := order ! (idx + 1)\<rparr>)
      else if k = KEnter
      then (case wz_tray_choice app of
              StartNow \<Rightarrow> (True, app\<lparr>wz_pending_action := Some StartTrayDaemon\<rparr>)
            | NoTray \<Rightarrow> (True, app))
      else (False, app))"

definition wizard_key :: "wizard_env \<Rightarrow> key_code \<Rightarrow> wizard \<Rightarrow> bool \<times> wizard" where
  "wizard_key env k app = (case wz_step app of
     DiscoverySources \<Rightarrow> handle_step1 env k app
   | ServerReview \<Rightarrow> handle_step2 k app
   | StrategyChoice \<Rightarrow> handle_step3 k app
   | SummaryConfirm \<Rightarrow> handle_step4 k app
   | ResultAndTray \<Rightarrow> handle_step5 k app)"

text \<open>The terminal loop, over the keys still to come; \<open>None\<close> while it waits for more.\<close>

fun wizard_loop :: "(wizard_env \<times> key_code) list \<Rightarrow> wizard \<Rightarrow> (wizard \<times> (wizard_env \<times> key_code) list) option" where
  "wizard_loop [] app = None"
| "wizard_loop ((env, k) # keys) app =
     (case wizard_key env k app of (done, app') \<Rightarrow>
        if done then Some (app', keys) else wizard_loop keys app')"

definition wizard_start :: "wizard_env \<Rightarrow> string option \<Rightarrow> string list \<Rightarrow> strategy option \<Rightarrow> bool \<Rightarrow> wizard" where
  "wizard_start env config imports strategy dry_run = refresh_step1_message \<lparr>
     wz_step = DiscoverySources,
     wz_config_path = (case config of Some p \<Rightarrow> p | None \<Rightarrow> expand_path (we_home env) ''~/.codex/mcp-mux.toml''),
     wz_sources = build_initial_sources env imports, wz_selected_source = 0,
     wz_custom_path = \<lparr>cp_buffer = [], cp_editing = False, cp_status = None\<rparr>,
     wz_services = [], wz_selected_service = 0,
     wz_strategy = (case strategy of Some s \<Rightarrow> s | None \<Rightarrow> Unified),
     wz_summary_action = Confirm, wz_tray_choice = NoTray, wz_message = [], wz_dry_run = dry_run,
     wz_pending_action = None, wz_strategy_result = None, wz_started = []\<rparr>"

section \<open>The invariant\<close>

text \<open>The cursors stay on their lists, the later steps have a selected server, only step 1 edits, and
  nothing is pending while the loop runs.\<close>

definition wizard_ok :: "wizard \<Rightarrow> bool" where
  "wizard_ok a \<longleftrightarrow>
     (wz_selected_source a = 0 \<or> wz_selected_source a < length (wz_sources a)) \<and>
     (wz_selected_service a = 0 \<or> wz_selected_service a < length (wz_services a)) \<and>
     (wz_step a \<in> {StrategyChoice, SummaryConfirm} \<longrightarrow> (\<exists>e \<in> set (wz_services a). sy_selected e)) \<and>
     (cp_editing (wz_custom_path a) \<longrightarrow> wz_step a = DiscoverySources) \<and>
     wz_step a \<noteq> ResultAndTray \<and> wz_pending_action a = None"

lemmas message_defs = refresh_step1_message_def update_step1_message_def update_step2_message_def
  update_step3_message_def update_step4_message_def

inductive wizard_reach :: "bool \<Rightarrow> wizard \<Rightarrow> bool" for dry where
  start: "wizard_reach dry (wizard_start env config imports strategy dry)"
| key: "wizard_reach dry a \<Longrightarrow> wizard_key env k a = (False, a') \<Longrightarrow> wizard_reach dry a'"

lemma ok_updates [simp]:
  "wizard_ok (a\<lparr>wz_message := m\<rparr>) = wizard_ok a"
  "wizard_ok (a\<lparr>wz_strategy := st\<rparr>) = wizard_ok a"
  "wizard_ok (a\<lparr>wz_summary_action := act\<rparr>) = wizard_ok a"
  "wizard_ok (refresh_step1_message a) = wizard_ok a" "wizard_ok (update_step1_message a) = wizard_ok a"
  "wizard_ok (update_step2_message a) = wizard_ok a" "wizard_ok (update_step3_message a) = wizard_ok a"
  "wizard_ok (update_step4_message a) = wizard_ok a"
  by (simp_all add: wizard_ok_def message_defs)

lemma step1_ok: "wizard_ok a \<Longrightarrow> wz_step a = DiscoverySources \<Longrightarrow> wizard_ok (snd (handle_step1 env k a))"
  by (auto simp: wizard_ok_def handle_step1_def edit_custom_path_def add_custom_source_def advance_to_step2_def
      toggle_source_def message_defs Let_def split: key_code.split prod.split)

lemma step2_ok: "wizard_ok a \<Longrightarrow> wz_step a = ServerReview \<Longrightarrow> wizard_ok (snd (handle_step2 k a))"
  by (auto simp: wizard_ok_def handle_step2_def toggle_service_def count_selected_services_def message_defs
      Let_def filter_empty_conv)

lemma back_ok: "wizard_ok a \<Longrightarrow> wz_step a \<in> {StrategyChoice, SummaryConfirm} \<Longrightarrow>
    t \<in> {ServerReview, StrategyChoice, SummaryConfirm} \<Longrightarrow> wizard_ok (a\<lparr>wz_step := t\<rparr>)"
  by (auto simp: wizard_ok_def)

lemma step3_ok: "wizard_ok a \<Longrightarrow> wz_step a = StrategyChoice \<Longrightarrow> wizard_ok (snd (handle_step3 k a))"
  using back_ok [of a SummaryConfirm] back_ok [of a ServerReview]
  by (simp add: handle_step3_def Let_def)

lemma step4_ok: "wizard_ok a \<Longrightarrow> wz_step a = SummaryConfirm \<Longrightarrow> handle_step4 k a = (False, a') \<Longrightarrow> wizard_ok a'"
  using back_ok [of a StrategyChoice]
  by (cases "wz_summary_action a") (auto simp: handle_step4_def Let_def split: if_split_asm)

lemma wizard_key_ok: "wizard_ok a \<Longrightarrow> wizard_key env k a = (False, a') \<Longrightarrow> wizard_ok a'"
  using step1_ok [of a env k] step2_ok [of a k] step3_ok [of a k] step4_ok [of a k a']
  by (cases "wz_step a") (simp_all add: wizard_key_def wizard_ok_def [of a])

lemma wizard_start_ok: "wizard_ok (wizard_start env config imports strategy dry)"
  by (simp add: wizard_ok_def wizard_start_def message_defs)

lemma reach_ok: "wizard_reach dry a \<Longrightarrow> wizard_ok a"
  by (induction rule: wizard_reach.induct) (simp_all add: wizard_start_ok wizard_key_ok)

lemma dry_messages [simp]:
  "wz_dry_run (refresh_step1_message a) = wz_dry_run a" "wz_dry_run (update_step1_message a) = wz_dry_run a"
  "wz_dry_run (update_step2_message a) = wz_dry_run a" "wz_dry_run (update_step3_message a) = wz_dry_run a"
  "wz_dry_run (update_step4_message a) = wz_dry_run a"
  by (simp_all add: message_defs)

lemma wizard_key_dry: "wizard_key env k a = (d, a') \<Longrightarrow> wz_dry_run a' = wz_dry_run a"
proof -
  have "wz_dry_run (edit_custom_path env k a) = wz_dry_run a"
    by (cases k) (simp_all add: edit_custom_path_def add_custom_source_def Let_def)
  then have "wz_dry_run (snd (handle_step1 env k a)) = wz_dry_run a"
    by (simp add: handle_step1_def toggle_source_def advance_to_step2_def Let_def split: prod.split)
  moreover have "wz_dry_run (snd (handle_step2 k a)) = wz_dry_run a" "wz_dry_run (snd (handle_step3 k a)) = wz_dry_run a"
    by (simp_all add: handle_step2_def toggle_service_def handle_step3_def Let_def)
  moreover have "wz_dry_run (snd (handle_step4 k a)) = wz_dry_run a"
    by (cases "wz_summary_action a") (simp_all add: handle_step4_def queue_pending_for_strategy_def Let_def)
  moreover have "wz_dry_run (snd (handle_step5 k a)) = wz_dry_run a"
    by (cases "wz_tray_choice a") (simp_all add: handle_step5_def Let_def)
  ultimately have "wz_dry_run (snd (wizard_key env k a)) = wz_dry_run a"
    by (cases "wz_step a") (simp_all add: wizard_key_def)
  then show "wizard_key env k a = (d, a') \<Longrightarrow> ?thesis" by simp
qed

lemma reach_dry: "wizard_reach dry a \<Longrightarrow> wz_dry_run a = dry"
  by (induction rule: wizard_reach.induct) (simp_all add: wizard_start_def wizard_key_dry)

text \<open>How the loop can end.\<close>

lemma wizard_key_end:
  assumes "wizard_ok a" and "wizard_key env k a = (True, a')"
  shows "a' = a \<or> (wz_step a = SummaryConfirm \<and> wz_summary_action a = Confirm \<and> k = KEnter \<and>
    a' = queue_pending_for_strategy a)"
  using assms
  by (cases "wz_step a")
    (auto simp: wizard_key_def wizard_ok_def handle_step1_def handle_step2_def handle_step3_def handle_step4_def
      Let_def split: if_splits summary_action.splits)

definition after_keys :: "(wizard_env \<times> key_code) list \<Rightarrow> wizard \<Rightarrow> wizard" where
  "after_keys ks a = fold (\<lambda>(env, k) a. snd (wizard_key env k a)) ks a"

lemma loop_end:
  "wizard_loop ks a = Some (a', rest) \<Longrightarrow> wizard_reach dry a \<Longrightarrow>
   \<exists>ks1 env k. ks = ks1 @ (env, k) # rest \<and> wizard_reach dry (after_keys ks1 a) \<and>
     wizard_key env k (after_keys ks1 a) = (True, a')"
proof (induction ks a rule: wizard_loop.induct)
  case (2 env k ks a)
  obtain d b where key: "wizard_key env k a = (d, b)" by (metis surj_pair)
  show ?case
  proof (cases d)
    case True
    with 2 key show ?thesis by (intro exI [of _ "[]"]) (simp add: after_keys_def)
  next
    case False
    with 2 key wizard_reach.key obtain ks1 env' k' where
      "ks = ks1 @ (env', k') # rest" "wizard_reach dry (after_keys ks1 b)" "wizard_key env' k' (after_keys ks1 b) = (True, a')"
      by fastforce
    with key show ?thesis by (intro exI [of _ "(env, k) # ks1"]) (auto simp: after_keys_def)
  qed
qed simp

section \<open>What the loop starts\<close>

text \<open>The only commands the loop starts are the two probes, and only the step from 1 to 2 starts them.\<close>

lemma build_services_started: "set (fst (build_services_for_selected_sources env sources)) \<subseteq> {ps_command, pip_command}"
  by (auto simp: build_services_for_selected_sources_def append_default_services_def enrich_running_state_def
      discover_vibecrafted_mcp_def discover_vibecrafted_mcp_with_def vibecrafted_mcp_pip_show_def
      list_running_mcp_processes_def case_prod_unfold Let_def split: if_splits)

lemma started_messages [simp]:
  "wz_started (refresh_step1_message a) = wz_started a" "wz_started (update_step1_message a) = wz_started a"
  "wz_started (update_step2_message a) = wz_started a" "wz_started (update_step3_message a) = wz_started a"
  "wz_started (update_step4_message a) = wz_started a"
  by (simp_all add: message_defs)

lemma wizard_key_started:
  "set (wz_started (snd (wizard_key env k a))) \<subseteq> set (wz_started a) \<union> {ps_command, pip_command}"
proof -
  have "wz_started (edit_custom_path env k a) = wz_started a"
    by (cases k) (simp_all add: edit_custom_path_def add_custom_source_def Let_def)
  then have "set (wz_started (snd (handle_step1 env k a))) \<subseteq> set (wz_started a) \<union> {ps_command, pip_command}"
    using build_services_started by (auto simp: handle_step1_def toggle_source_def advance_to_step2_def Let_def case_prod_unfold)
  moreover have "wz_started (snd (handle_step2 k a)) = wz_started a" "wz_started (snd (handle_step3 k a)) = wz_started a"
    by (simp_all add: handle_step2_def toggle_service_def handle_step3_def Let_def)
  moreover have "wz_started (snd (handle_step4 k a)) = wz_started a"
    by (cases "wz_summary_action a") (simp_all add: handle_step4_def queue_pending_for_strategy_def Let_def)
  moreover have "wz_started (snd (handle_step5 k a)) = wz_started a"
    by (cases "wz_tray_choice a") (simp_all add: handle_step5_def Let_def)
  ultimately show ?thesis by (cases "wz_step a") (auto simp: wizard_key_def)
qed

lemma loop_started:
  "wizard_loop ks a = Some (a', rest) \<Longrightarrow> set (wz_started a') \<subseteq> set (wz_started a) \<union> {ps_command, pip_command}"
proof (induction ks a rule: wizard_loop.induct)
  case (2 env k ks a)
  with wizard_key_started [of env k a] show ?case by (fastforce split: prod.splits if_splits)
qed simp

section \<open>What step 2 lists\<close>

lemma unstamped_mem:
  assumes "map unstamped xs = map unstamped ys @ new" and "y \<in> set ys"
  shows "\<exists>x \<in> set xs. unstamped x = unstamped y"
proof -
  have "unstamped y \<in> set (map unstamped xs)" using assms by simp
  then show ?thesis by auto
qed

lemma review_list:
  fixes env sources
  defines "base \<equiv> snd (append_default_services (we_formats env) (we_fs env) (we_home env) (we_probes env)
      (build_services_from_scans (source_scans env sources)))"
    and "listed \<equiv> snd (build_services_for_selected_sources env sources)"
  shows "\<forall>b \<in> set base. \<exists>e \<in> set listed. sy_name e = sy_name b \<and> sy_config e = sy_config b \<and>
      sy_source e = sy_source b \<and> sy_selected e = sy_selected b"
    and "\<forall>e \<in> set listed. sy_selected e \<longrightarrow>
      (\<exists>b \<in> set base. sy_name e = sy_name b \<and> sy_config e = sy_config b \<and> sy_source e = sy_source b)"
proof -
  let ?health = "\<lambda>svc. svc\<lparr>sy_health := check_health (we_home env) (we_probes env) (sy_config svc)\<rparr>"
  let ?rich = "snd (enrich_running_state (we_probes env) base)"
  have listed: "listed = map ?health ?rich"
    by (simp add: listed_def base_def build_services_for_selected_sources_def case_prod_unfold Let_def)
  obtain new where new: "map unstamped ?rich = map unstamped base @ new" "\<forall>e \<in> set new. is_orphan e"
    using enrich_frame by blast
  have same: "sy_name x = sy_name y \<and> sy_config x = sy_config y \<and> sy_source x = sy_source y \<and> sy_selected x = sy_selected y"
    if "unstamped x = unstamped y" for x y
    using arg_cong [OF that, of sy_name] arg_cong [OF that, of sy_config] arg_cong [OF that, of sy_source]
      arg_cong [OF that, of sy_selected] by (simp add: unstamped_def)
  show "\<forall>b \<in> set base. \<exists>e \<in> set listed. sy_name e = sy_name b \<and> sy_config e = sy_config b \<and>
      sy_source e = sy_source b \<and> sy_selected e = sy_selected b"
  proof
    fix b assume "b \<in> set base"
    with unstamped_mem [OF new(1)] obtain x where "x \<in> set ?rich" "unstamped x = unstamped b" by blast
    then have "?health x \<in> set listed" by (simp add: listed)
    moreover have "sy_name (?health x) = sy_name b \<and> sy_config (?health x) = sy_config b \<and>
        sy_source (?health x) = sy_source b \<and> sy_selected (?health x) = sy_selected b"
      using same [OF \<open>unstamped x = unstamped b\<close>] by simp
    ultimately show "\<exists>e \<in> set listed. sy_name e = sy_name b \<and> sy_config e = sy_config b \<and>
      sy_source e = sy_source b \<and> sy_selected e = sy_selected b" by blast
  qed
  show "\<forall>e \<in> set listed. sy_selected e \<longrightarrow>
      (\<exists>b \<in> set base. sy_name e = sy_name b \<and> sy_config e = sy_config b \<and> sy_source e = sy_source b)"
  proof (intro ballI impI)
    fix e assume "e \<in> set listed" and sel: "sy_selected e"
    then obtain x where x: "x \<in> set ?rich" "e = ?health x" by (auto simp: listed)
    then have "unstamped x \<in> set (map unstamped base) \<union> set new" using new(1) by (metis image_eqI list.set_map set_append)
    moreover have "\<not> is_orphan (unstamped x)" using sel x(2) by (simp add: is_orphan_def unstamped_def)
    ultimately obtain b where "b \<in> set base" "unstamped x = unstamped b" using new(2) by auto
    with same [of x b] x(2) show "\<exists>b \<in> set base. sy_name e = sy_name b \<and> sy_config e = sy_config b \<and> sy_source e = sy_source b"
      by (intro bexI [of _ b]) simp_all
  qed
qed

text \<open>A scanned service is listed with everything it was found with.\<close>

definition lists_service :: "service_entry \<Rightarrow> host_service \<Rightarrow> bool" where
  "lists_service e v \<longleftrightarrow> kept_name (sv_name v) (sy_name e) \<and> sc_cmd (sy_config e) = Some (sv_command v) \<and>
     sc_args (sy_config e) = Some (sv_args v) \<and> sc_cwd (sy_config e) = sv_cwd v \<and>
     sc_socket (sy_config e) = sv_socket v \<and> env_equal (sc_env (sy_config e)) (sv_env v)"

definition entry_env_ok :: "service_entry \<Rightarrow> bool" where
  "entry_env_ok e = (case sc_env (sy_config e) of None \<Rightarrow> True | Some m \<Rightarrow> hm_ok m)"

lemma listed_eq: "wz_services (advance_to_step2 env a) = snd (build_services_for_selected_sources env (wz_sources a))"
  by (simp add: advance_to_step2_def update_step2_message_def case_prod_unfold)

lemma review_covers:
  fixes env a
  defines "scans \<equiv> source_scans env (wz_sources a)"
  assumes ok: "\<forall>s \<in> set scans. \<forall>v \<in> set (sr_services s). service_ok v"
    and sv: "s \<in> set scans" "v \<in> set (sr_services s)"
  shows "\<exists>e \<in> set (wz_services (advance_to_step2 env a)). sy_selected e \<and> lists_service e v \<and> entry_env_ok e"
proof -
  obtain m where m: "m \<in> set (mo_services (merge_services scans))" "services_equivalent m v"
    "kept_name (sv_name v) (sv_name m)" using merge_covers [OF ok sv] by blast
  obtain s' v' where "s' \<in> set scans" "v' \<in> set (sr_services s')" and mv: "m = v'\<lparr>sv_name := sv_name m\<rparr>"
    using merge_origin [OF m(1)] by blast
  with ok have "service_ok v'" by blast
  with arg_cong [OF mv, of sv_env] have env_ok: "service_ok m" by (simp add: service_ok_def)
  obtain b where b: "b \<in> set (build_services_from_scans scans)" "sy_name b = sv_name m" "sy_config b = service_config m" "sy_selected b"
    using built_covers [OF m(1)] by blast
  have "set (build_services_from_scans scans) \<subseteq> set (snd (append_default_services (we_formats env) (we_fs env)
      (we_home env) (we_probes env) (build_services_from_scans scans)))"
    by (auto simp: append_default_services_def split: option.split)
  with b(1) obtain e where "e \<in> set (wz_services (advance_to_step2 env a))" "sy_name e = sy_name b"
    "sy_config e = sy_config b" "sy_selected e = sy_selected b"
    using review_list(1) [of env "wz_sources a", folded scans_def] unfolding listed_eq by blast
  with b(2-4) have "e \<in> set (wz_services (advance_to_step2 env a))" "sy_name e = sv_name m"
    "sy_config e = service_config m" "sy_selected e" by simp_all
  with m env_ok show ?thesis
    by (intro bexI [of _ e]) (auto simp: lists_service_def entry_env_ok_def service_ok_def service_config_def
      discovered_config_def services_equivalent_def)
qed

end
