(* ===== verification/Op_Launch.thy ===== *)
theory Op_Launch
  imports Op_Text "HOL-Library.Sublist"
begin

text \<open>
  Launch commands of the terminal operator (\<open>tui-agent/src/launch.rs\<close>): kinds and runtimes, the command
  for the deck, the zellij command with its layout text, and the readiness probe.  The environment
  variable \<open>ZELLIJ_CONFIG_DIR\<close>, the test for a file and the output of the probe's process are inputs.
  What the texts mean is given by two readers: \<open>kdl_string\<close> for quoted strings of the KDL document
  language and \<open>sh_word\<close> for the quoting rules of the POSIX shell; where a reader meets a character
  with a meaning of its own outside quotes, it gives up.
\<close>

section \<open>Kinds, runtimes, requests\<close>

datatype launch_kind = Workflow | Research | Review | Marbles

fun kind_label :: "launch_kind \<Rightarrow> string" where
  "kind_label Workflow = ''workflow''"
| "kind_label Research = ''research''"
| "kind_label Review = ''review''"
| "kind_label Marbles = ''marbles''"

fun human_title :: "launch_kind \<Rightarrow> string" where
  "human_title Workflow = ''Workflow''"
| "human_title Research = ''Research swarm''"
| "human_title Review = ''Review''"
| "human_title Marbles = ''Marbles loop''"

fun human_description :: "launch_kind \<Rightarrow> string" where
  "human_description Workflow = ''Best default. Examine the surface, plan the cut, then implement.''"
| "human_description Research = ''Send a research pass first when the shape is still unclear.''"
| "human_description Review = ''Audit an existing surface for risk, regressions, and weak claims.''"
| "human_description Marbles = ''Run convergence loops when the code works but still lies or drifts.''"

datatype launch_runtime = Headless | Terminal | Visible

fun runtime_label :: "launch_runtime \<Rightarrow> string" where
  "runtime_label Headless = ''headless''"
| "runtime_label Terminal = ''terminal''"
| "runtime_label Visible = ''visible''"

fun runtime_cycle :: "launch_runtime \<Rightarrow> launch_runtime" where
  "runtime_cycle Headless = Terminal"
| "runtime_cycle Terminal = Visible"
| "runtime_cycle Visible = Headless"

definition runtime_default :: launch_runtime where
  "runtime_default = Terminal"

definition runtime_from_str :: "string \<Rightarrow> string + launch_runtime" where
  "runtime_from_str raw =
     (let s = to_ascii_lowercase (trim raw) in
      if s = ''headless'' then Inr Headless
      else if s = ''terminal'' then Inr Terminal
      else if s = ''visible'' then Inr Visible
      else Inl (''unsupported runtime: '' @ s @ '' (expected headless|terminal|visible)''))"

record launch_request =
  lr_kind :: launch_kind
  lr_agent :: string
  lr_prompt :: string
  lr_runtime :: launch_runtime
  lr_root :: "string option"
  lr_terminal_binary :: "string option"
  lr_env :: "(string \<times> string) list"
  lr_count :: "u32 option"
  lr_depth :: "u32 option"
  lr_session_name :: "string option"

record launch_command =
  lc_program :: string
  lc_args :: "string list"
  lc_env :: "(string \<times> string) list"

record readiness_probe =
  rp_program :: string
  rp_probe_args :: "string list"
  rp_probe_env :: "(string \<times> string) list"
  rp_session_name :: string

definition command_line :: "launch_command \<Rightarrow> string" where
  "command_line c = join '' '' (lc_program c # lc_args c)"

section \<open>Readiness probe\<close>

text \<open>\<open>windows(2).find(...)\<close>: the value behind the first occurrence of a flag.\<close>

fun flag_value :: "string \<Rightarrow> string list \<Rightarrow> string option" where
  "flag_value f (x # y # zs) = (if x = f then Some y else flag_value f (y # zs))"
| "flag_value f _ = None"

definition probe_of :: "launch_command \<Rightarrow> readiness_probe option" where
  "probe_of c = map_option (\<lambda>session. \<lparr>rp_program = lc_program c,
       rp_probe_args = (case flag_value ''--config-dir'' (lc_args c) of
           Some dir \<Rightarrow> [''--config-dir'', dir] | None \<Rightarrow> []) @
         [''list-sessions'', ''--short'', ''--no-formatting''],
       rp_probe_env = lc_env c, rp_session_name = session\<rparr>) (flag_value ''--session'' (lc_args c))"

text \<open>The output of the probe's process: whether it exited with success, its status text, both streams; an
  error text when it could not be run.\<close>

record probe_output =
  po_success :: bool
  po_status :: string
  po_stdout :: string
  po_stderr :: string

definition is_session_visible :: "readiness_probe \<Rightarrow> string + probe_output \<Rightarrow> string + bool" where
  "is_session_visible p out =
     (case out of
        Inl e \<Rightarrow> Inl (''failed to run zellij readiness probe: '' @ e)
      | Inr o' \<Rightarrow>
          if \<not> po_success o'
          then (if trim (po_stderr o') \<noteq> []
                then Inl (''zellij readiness probe exited with '' @ po_status o' @ '': '' @ trim (po_stderr o'))
                else Inr False)
          else Inr (\<exists>line \<in> set (str_lines (po_stdout o')). trim line = rp_session_name p))"

section \<open>Quoting\<close>

definition shell_quote :: "string \<Rightarrow> string" where
  "shell_quote raw = [sq] @ replace_char sq [sq, dq, sq, dq, sq] raw @ [sq]"

definition shell_name :: "string \<Rightarrow> string" where
  "shell_name raw = filter (\<lambda>c. is_alnum c \<or> c = CHR ''_'') raw"

definition shell_join :: "string \<Rightarrow> string list \<Rightarrow> string" where
  "shell_join program args = join '' '' (shell_quote program # map shell_quote args)"

definition kdl_quote :: "string \<Rightarrow> string" where
  "kdl_quote raw = [dq] @ replace_char nl [bs, CHR ''n'']
     (replace_char dq [bs, dq] (replace_char bs [bs, bs] raw)) @ [dq]"

section \<open>Commands\<close>

record launch_os =
  lo_zellij_config_dir :: "string option"
  lo_is_file :: "string \<Rightarrow> bool"

definition resolved_zellij_config_dir :: "launch_os \<Rightarrow> string option \<Rightarrow> string option" where
  "resolved_zellij_config_dir os root =
     (case lo_zellij_config_dir os of
        Some (c # cs) \<Rightarrow> Some (c # cs)
      | _ \<Rightarrow> (case root of
          None \<Rightarrow> None
        | Some r \<Rightarrow> (let repo = path_join r ''config/zellij''
                     in if lo_is_file os (path_join repo ''config.kdl'') then Some repo else None)))"

definition prompt_args :: "launch_request \<Rightarrow> string list" where
  "prompt_args req = (if trim (lr_prompt req) \<noteq> [] then [''--prompt'', lr_prompt req] else [])"

definition count_str :: "u32 option \<Rightarrow> string" where
  "count_str n = nat_str (case n of Some k \<Rightarrow> unat k | None \<Rightarrow> 3)"

definition build_deck_launch_command :: "string \<Rightarrow> launch_request \<Rightarrow> launch_command" where
  "build_deck_launch_command deck req = \<lparr>lc_program = deck,
     lc_args = [kind_label (lr_kind req)] @
       (case lr_kind req of
          Research \<Rightarrow> prompt_args req
        | Marbles \<Rightarrow> [lr_agent req, ''--count'', count_str (lr_count req),
                     ''--depth'', count_str (lr_depth req)] @ prompt_args req
        | _ \<Rightarrow> [lr_agent req] @ prompt_args req) @
       [''--runtime'', runtime_label (lr_runtime req)] @
       (case lr_root req of Some r \<Rightarrow> [''--root'', r] | None \<Rightarrow> []),
     lc_env = lr_env req\<rparr>"

definition tooling_profile_snippets :: "string list" where
  "tooling_profile_snippets =
     [''if command -v starship >/dev/null 2>&1; then eval '' @ [dq] @ ''$(starship init bash)'' @ [dq] @ ''; fi'',
      ''if command -v zoxide >/dev/null 2>&1; then eval '' @ [dq] @ ''$(zoxide init bash)'' @ [dq] @ ''; fi'',
      ''if command -v atuin >/dev/null 2>&1; then eval '' @ [dq] @ ''$(atuin init bash --disable-up-arrow)'' @
        [dq] @ ''; fi'']"

definition export_line :: "string \<times> string \<Rightarrow> string" where
  "export_line kv = ''export '' @ shell_name (fst kv) @ ''='' @ shell_quote (snd kv)"

definition pane_parts :: "launch_os \<Rightarrow> string \<Rightarrow> launch_request \<Rightarrow> string list" where
  "pane_parts os deck req =
     (case resolved_zellij_config_dir os (lr_root req) of
        Some dir \<Rightarrow> [''export ZELLIJ_CONFIG_DIR='' @ shell_quote dir] | None \<Rightarrow> []) @
     map export_line (lr_env req) @ tooling_profile_snippets @
     [''exec '' @ shell_join deck (lc_args (build_deck_launch_command deck req))]"

definition build_pane_shell_command :: "launch_os \<Rightarrow> string \<Rightarrow> launch_request \<Rightarrow> string" where
  "build_pane_shell_command os deck req = join ''; '' (pane_parts os deck req)"

definition layout_head :: "launch_request \<Rightarrow> string" where
  "layout_head req =
     ''layout { tab name='' @ kdl_quote (''Operator '' @ human_title (lr_kind req)) @
     '' focus=true { pane name='' @ kdl_quote ''launch'' @ '' focus=true command='' @ kdl_quote ''bash'' @ '' '' @
     (case lr_root req of Some r \<Rightarrow> ''cwd='' @ kdl_quote r @ '' '' | None \<Rightarrow> []) @
     ''{ args '' @ kdl_quote ''-lc'' @ '' ''"

definition build_zellij_layout_string :: "launch_os \<Rightarrow> string \<Rightarrow> launch_request \<Rightarrow> string" where
  "build_zellij_layout_string os deck req =
     layout_head req @ kdl_quote (build_pane_shell_command os deck req) @ '' } } } }''"

definition build_terminal_launch_command :: "launch_os \<Rightarrow> string \<Rightarrow> launch_request \<Rightarrow> launch_command" where
  "build_terminal_launch_command os deck req = \<lparr>
     lc_program = (case lr_terminal_binary req of Some b \<Rightarrow> b | None \<Rightarrow> ''zellij''),
     lc_args = (case lr_session_name req of Some n \<Rightarrow> [''--session'', n] | None \<Rightarrow> []) @ [''options''] @
       (case resolved_zellij_config_dir os (lr_root req) of Some d \<Rightarrow> [''--config-dir'', d] | None \<Rightarrow> []) @
       [''--layout-string'', build_zellij_layout_string os deck req],
     lc_env = lr_env req\<rparr>"

definition build_launch_command :: "launch_os \<Rightarrow> string \<Rightarrow> launch_request \<Rightarrow> launch_command" where
  "build_launch_command os deck req =
     (if lr_runtime req = Terminal \<or> lr_runtime req = Visible
      then build_terminal_launch_command os deck req else build_deck_launch_command deck req)"

section \<open>Readers\<close>

fun kdl_escape :: "char \<Rightarrow> char option" where
  "kdl_escape c =
     (if c = CHR ''n'' then Some nl else if c = CHR ''r'' then Some cr
      else if c = CHR ''t'' then Some (CHR 0x09) else if c = CHR ''b'' then Some (CHR 0x08)
      else if c = CHR ''f'' then Some (CHR 0x0C)
      else if c = bs \<or> c = dq \<or> c = CHR ''/'' then Some c else None)"

fun kdl_body :: "string \<Rightarrow> (string \<times> string) option" where
  "kdl_body [] = None"
| "kdl_body (c # s) =
     (if c = dq then Some ([], s)
      else if c = bs
      then (case s of
              [] \<Rightarrow> None
            | d # s' \<Rightarrow> (case kdl_escape d of
                None \<Rightarrow> None
              | Some x \<Rightarrow> map_option (\<lambda>(w, r). (x # w, r)) (kdl_body s')))
      else map_option (\<lambda>(w, r). (c # w, r)) (kdl_body s))"

fun kdl_string :: "string \<Rightarrow> (string \<times> string) option" where
  "kdl_string [] = None"
| "kdl_string (c # s) = (if c = dq then kdl_body s else None)"

datatype sh_mode = Bare | Single | Double

definition sh_end :: "char \<Rightarrow> bool" where
  "sh_end c \<longleftrightarrow> c = CHR '' '' \<or> c = CHR '';'' \<or> c = nl"

definition sh_plain :: "char \<Rightarrow> bool" where
  "sh_plain c \<longleftrightarrow> is_alnum c \<or> c \<in> set ''_-./=:,@%+''"

fun sh_word :: "sh_mode \<Rightarrow> string \<Rightarrow> (string \<times> string) option" where
  "sh_word Bare [] = Some ([], [])"
| "sh_word Bare (c # s) =
     (if sh_end c then Some ([], c # s)
      else if c = sq then sh_word Single s
      else if c = dq then sh_word Double s
      else if c = bs
      then (case s of
              [] \<Rightarrow> None
            | d # s' \<Rightarrow> if d = nl then None else map_option (\<lambda>(w, r). (d # w, r)) (sh_word Bare s'))
      else if sh_plain c then map_option (\<lambda>(w, r). (c # w, r)) (sh_word Bare s)
      else None)"
| "sh_word Single [] = None"
| "sh_word Single (c # s) =
     (if c = sq then sh_word Bare s else map_option (\<lambda>(w, r). (c # w, r)) (sh_word Single s))"
| "sh_word Double [] = None"
| "sh_word Double (c # s) =
     (if c = dq then sh_word Bare s
      else if c \<in> {CHR ''$'', CHR 0x60, bs} then None
      else map_option (\<lambda>(w, r). (c # w, r)) (sh_word Double s))"

definition sh_ends :: "string \<Rightarrow> bool" where
  "sh_ends r \<longleftrightarrow> r = [] \<or> sh_end (hd r)"

section \<open>What is written is what is read\<close>

lemma kdl_body_quote:
  "kdl_body (replace_char nl [bs, CHR ''n''] (replace_char dq [bs, dq] (replace_char bs [bs, bs] s)) @ dq # r) =
     Some (s, r)"
  by (induction s) auto

lemma sh_word_plain: "\<forall>c \<in> set p. sh_plain c \<Longrightarrow>
    sh_word Bare (p @ s) = map_option (\<lambda>(w, r). (p @ w, r)) (sh_word Bare s)"
proof (induction p)
  case (Cons c p)
  then have c: "\<not> sh_end c" "c \<noteq> sq" "c \<noteq> dq" "c \<noteq> bs" "sh_plain c" by (auto simp: sh_end_def sh_plain_def)
  from Cons have "sh_word Bare (p @ s) = map_option (\<lambda>(w, r). (p @ w, r)) (sh_word Bare s)" by simp
  with c show ?case by (auto simp: option.map_comp comp_def case_prod_unfold)
qed (simp add: option.map_ident case_prod_unfold)

lemma sh_word_ends: "sh_ends r \<Longrightarrow> sh_word Bare r = Some ([], r)"
  by (cases r) (auto simp: sh_ends_def)

lemma sh_word_quote:
  "sh_ends r \<Longrightarrow> sh_word Single (replace_char sq [sq, dq, sq, dq, sq] s @ sq # r) = Some (s, r)"
  by (induction s) (auto simp: sh_word_ends sh_end_def)

interpretation sh: quoting shell_quote "sh_word Bare" "\<lambda>_. True" sh_ends
  by unfold_locales (auto simp: shell_quote_def sh_word_quote sh_ends_def sh_end_def)

interpretation kdl: quoting kdl_quote kdl_string "\<lambda>_. True" "\<lambda>_. True"
  by unfold_locales (auto simp: kdl_quote_def kdl_body_quote)

lemma export_line_read:
  assumes "shell_name k = k" and "sh_ends r"
  shows "sh_word Bare (drop (length ''export '') (export_line (k, v)) @ r) = Some (k @ ''='' @ v, r)"
proof -
  have "\<forall>c \<in> set k. is_alnum c \<or> c = CHR ''_''" using assms(1) unfolding shell_name_def filter_id_conv .
  then have "\<forall>c \<in> set (k @ ''=''). sh_plain c" by (auto simp: sh_plain_def)
  from sh_word_plain [OF this, of "shell_quote v @ r"] sh.read_quote [of r v] assms show ?thesis
    by (simp add: export_line_def)
qed

text \<open>C8: what the operator types reaches the worker unchanged.  Zellij reads the pane's command back from
  the layout text exactly as it was built; that command ends in \<open>exec\<close> and a text which the shell splits
  into the deck and its arguments word for word, prompts with quotes, blanks or line breaks included.\<close>

theorem launch_words_survive:
  fixes os deck req
  defines "cmd \<equiv> build_pane_shell_command os deck req"
    and "args \<equiv> lc_args (build_deck_launch_command deck req)"
  shows "kdl_string (drop (length (layout_head req)) (build_zellij_layout_string os deck req)) =
      Some (cmd, '' } } } }'') \<and>
    suffix (''exec '' @ shell_join deck args) cmd \<and>
    read_items (sh_word Bare) (Suc (length args)) (shell_join deck args) = Some (deck # args)"
proof (intro conjI)
  show "kdl_string (drop (length (layout_head req)) (build_zellij_layout_string os deck req)) =
      Some (cmd, '' } } } }'')"
    using kdl.read_quote [of cmd "'' } } } }''"] by (simp add: build_zellij_layout_string_def cmd_def)
next
  have "suffix x (join sep (xs @ [x]))" for sep and xs :: "string list" and x
  proof (induction xs)
    case (Cons y ys)
    then show ?case by (cases "ys @ [x]") (auto intro: suffix_appendI)
  qed simp
  then show "suffix (''exec '' @ shell_join deck args) cmd"
    unfolding cmd_def args_def build_pane_shell_command_def pane_parts_def by (metis append_assoc)
next
  show "read_items (sh_word Bare) (Suc (length args)) (shell_join deck args) = Some (deck # args)"
    using sh.read_items_quoted [of "deck # args" "Suc (length args)"] by (simp add: shell_join_def)
qed

text \<open>The runtime's name is read back, in any case and with blanks around it; cycling visits all three.\<close>

lemma runtime_roundtrip: "runtime_from_str (runtime_label r) = Inr r"
proof -
  have "\<forall>r \<in> {Headless, Terminal, Visible}. runtime_from_str (runtime_label r) = Inr r" by code_simp
  then show ?thesis by (cases r) simp_all
qed

lemma runtime_cycle_period: "runtime_cycle (runtime_cycle (runtime_cycle r)) = r \<and> runtime_cycle r \<noteq> r"
  by (cases r) simp_all

text \<open>The readiness probe asks the right zellij.  For a launch with a session name the probe looks for
  that session, with the program, the environment and the configuration directory of the launch itself;
  it reports the session exactly when a line of the listing is its name.\<close>

theorem probe_matches_launch:
  assumes rt: "lr_runtime req \<noteq> Headless" and n: "lr_session_name req = Some n" "n \<noteq> ''--config-dir''"
  shows "\<exists>p. probe_of (build_launch_command os deck req) = Some p \<and> rp_session_name p = n \<and>
    rp_program p = lc_program (build_launch_command os deck req) \<and> rp_probe_env p = lr_env req \<and>
    flag_value ''--config-dir'' (rp_probe_args p) = resolved_zellij_config_dir os (lr_root req) \<and>
    (\<forall>status out err. is_session_visible p (Inr \<lparr>po_success = True, po_status = status, po_stdout = out,
       po_stderr = err\<rparr>) = Inr (n \<in> trim ` set (str_lines out)))"
proof -
  have cmd: "build_launch_command os deck req = build_terminal_launch_command os deck req"
    using rt by (cases "lr_runtime req") (simp_all add: build_launch_command_def)
  show ?thesis
  proof (cases "resolved_zellij_config_dir os (lr_root req)")
    case None
    with n cmd show ?thesis
      by (auto simp: build_terminal_launch_command_def probe_of_def is_session_visible_def image_iff)
  next
    case (Some d)
    with n cmd show ?thesis
      by (auto simp: build_terminal_launch_command_def probe_of_def is_session_visible_def image_iff)
  qed
qed

definition example_os :: launch_os where
  "example_os = \<lparr>lo_zellij_config_dir = Some ''/z'', lo_is_file = (\<lambda>_. False)\<rparr>"

definition example_request :: launch_request where
  "example_request = \<lparr>lr_kind = Workflow, lr_agent = ''codex'', lr_prompt = ''it'' @ [sq] @ ''s'', lr_runtime = Visible,
     lr_root = Some ''/r'', lr_terminal_binary = None, lr_env = [(''A'', ''b'')], lr_count = Some 3,
     lr_depth = Some 3, lr_session_name = Some ''vc-op-workflow-00001''\<rparr>"

theorem probe_matches_launch_witness:
  "\<exists>p. probe_of (build_launch_command example_os ''deck'' example_request) = Some p \<and>
     rp_session_name p = ''vc-op-workflow-00001'' \<and> rp_program p = ''zellij'' \<and>
     flag_value ''--config-dir'' (rp_probe_args p) = Some ''/z''"
proof -
  have "lr_runtime example_request \<noteq> Headless" "lr_session_name example_request = Some ''vc-op-workflow-00001''"
    by (simp_all add: example_request_def)
  moreover have "lc_program (build_launch_command example_os ''deck'' example_request) = ''zellij''"
    "resolved_zellij_config_dir example_os (lr_root example_request) = Some ''/z''" by code_simp+
  ultimately show ?thesis
    using probe_matches_launch [of example_request "''vc-op-workflow-00001''" example_os "''deck''"] by auto
qed

end
