(* ===== verification/Host_Out.thy ===== *)
theory Host_Out
  imports Host_Danger Host_Gen Op_Launch
begin

text \<open>
  What the setup tools put out: the generated files on disk (\<open>write_mux_outputs\<close>,
  \<open>write_per_client_outputs\<close> of \<open>mux_gen.rs\<close>), the instructions for each client program, the preview of a
  rewrite and the commands that undo it (\<open>format_preview\<close>, \<open>rollback_commands\<close> of \<open>danger.rs\<close>).  Printing
  a value as TOML or JSON is a parameter.  Characters outside ASCII are their UTF-8 bytes.
\<close>

section \<open>Writing\<close>

definition write_file :: "os_env \<Rightarrow> string \<Rightarrow> string \<Rightarrow> files \<Rightarrow> (string + unit) \<times> files" where
  "write_file os p contents fl =
     (case fs_write os p contents fl of (True, fl') \<Rightarrow> (Inr (), fl') | (False, fl') \<Rightarrow> (Inl (''failed to write '' @ p), fl'))"

fun write_files :: "os_env \<Rightarrow> (string \<times> string) list \<Rightarrow> files \<Rightarrow> (string + unit) \<times> files" where
  "write_files os [] fl = (Inr (), fl)"
| "write_files os ((p, c) # rest) fl =
     (case write_file os p c fl of (Inl e, fl') \<Rightarrow> (Inl e, fl') | (Inr _, fl') \<Rightarrow> write_files os rest fl')"

definition with_mux_dirs ::
  "os_env \<Rightarrow> string \<Rightarrow> string \<Rightarrow> (files \<Rightarrow> (string + 'a) \<times> files) \<Rightarrow> files \<Rightarrow> (string + 'a) \<times> files" where
  "with_mux_dirs os mux_dir socket_dir k fl =
     (if \<not> os_mkdir os mux_dir then (Inl (''failed to create mux directory '' @ mux_dir), fl)
      else if \<not> os_mkdir os socket_dir then (Inl (''failed to create socket directory '' @ socket_dir), fl)
      else k fl)"

record printers =
  pn_config_toml :: "config \<Rightarrow> string option"
  pn_client_json :: "string \<times> (string, client_server) hashmap \<Rightarrow> string option"
  pn_client_toml :: "string \<times> (string, client_server) hashmap \<Rightarrow> string option"

record mux_texts =
  mt_config_toml :: string
  mt_mcp_json :: string
  mt_mcp_toml :: string

text \<open>The texts of \<open>build_mux_outputs\<close>; printing happens before anything is written.\<close>

definition mux_output_texts :: "printers \<Rightarrow> mux_outputs \<Rightarrow> string + mux_texts" where
  "mux_output_texts pn out =
     (case pn_config_toml pn (mo_config out) of None \<Rightarrow> Inl ''serialize daemon config.toml''
      | Some c \<Rightarrow> (case pn_client_json pn (mo_mcp_json out) of None \<Rightarrow> Inl ''serialize mcp.json''
      | Some j \<Rightarrow> (case pn_client_toml pn (mo_mcp_toml out) of None \<Rightarrow> Inl ''serialize mcp.toml''
      | Some t \<Rightarrow> Inr \<lparr>mt_config_toml = c, mt_mcp_json = j, mt_mcp_toml = t\<rparr>)))"

record mux_files =
  mf_config_toml_path :: string
  mf_mcp_json_path :: string
  mf_mcp_toml_path :: string

definition write_mux_outputs :: "os_env \<Rightarrow> mux_outputs \<Rightarrow> mux_texts \<Rightarrow> files \<Rightarrow> (string + mux_files) \<times> files" where
  "write_mux_outputs os out txt = with_mux_dirs os (mo_mux_dir out) (mo_socket_dir out) (\<lambda>fl.
     case write_files os [(mo_config_toml_path out, mt_config_toml txt), (mo_mcp_json_path out, mt_mcp_json txt),
            (mo_mcp_toml_path out, mt_mcp_toml txt)] fl of
       (Inl e, fl') \<Rightarrow> (Inl e, fl')
     | (Inr _, fl') \<Rightarrow> (Inr \<lparr>mf_config_toml_path = mo_config_toml_path out, mf_mcp_json_path = mo_mcp_json_path out,
         mf_mcp_toml_path = mo_mcp_toml_path out\<rparr>, fl'))"

text \<open>The texts of \<open>build_per_client_outputs\<close>: the daemon's configuration, then one per client.\<close>

definition client_text :: "printers \<Rightarrow> per_client_file \<Rightarrow> string option" where
  "client_text pn c = (case pc_format c of FmtToml \<Rightarrow> pn_client_toml pn (pc_contents c)
     | FmtJson \<Rightarrow> pn_client_json pn (pc_contents c))"

fun client_texts :: "printers \<Rightarrow> per_client_file list \<Rightarrow> string + (string \<times> string) list" where
  "client_texts pn [] = Inr []"
| "client_texts pn (c # cs) =
     (case client_text pn c of
        None \<Rightarrow> Inl (case pc_format c of FmtToml \<Rightarrow> ''serialize codex per-client mux file''
                  | FmtJson \<Rightarrow> ''serialize per-client mux JSON file'')
      | Some t \<Rightarrow> (case client_texts pn cs of Inl e \<Rightarrow> Inl e | Inr ts \<Rightarrow> Inr ((pc_path c, t) # ts)))"

definition per_client_texts :: "printers \<Rightarrow> per_client_outputs \<Rightarrow> string + (string \<times> string) list" where
  "per_client_texts pn out =
     (case pn_config_toml pn (po_config out) of
        None \<Rightarrow> Inl ''serialize daemon config.toml''
      | Some c \<Rightarrow> (case client_texts pn (po_clients out) of
          Inl e \<Rightarrow> Inl e | Inr ts \<Rightarrow> Inr ((po_config_toml_path out, c) # ts)))"

definition write_per_client_outputs ::
  "os_env \<Rightarrow> per_client_outputs \<Rightarrow> (string \<times> string) list \<Rightarrow> files \<Rightarrow> (string + string list) \<times> files" where
  "write_per_client_outputs os out txts = with_mux_dirs os (po_mux_dir out) (po_socket_dir out) (\<lambda>fl.
     case write_files os txts fl of (Inl e, fl') \<Rightarrow> (Inl e, fl') | (Inr _, fl') \<Rightarrow> (Inr (map fst txts), fl'))"

section \<open>Instructions\<close>

record client_instruction =
  ci_kind :: host_kind
  ci_headline :: string
  ci_commands :: "string list"
  ci_note :: string

definition quoted :: "string \<Rightarrow> string" where
  "quoted s = [dq] @ s @ [dq]"

definition safe_path_instructions :: "mux_outputs \<Rightarrow> client_instruction list" where
  "safe_path_instructions out =
     (let mcp_json = mo_mcp_json_path out; mcp_toml = mo_mcp_toml_path out in
      [\<lparr>ci_kind = Claude, ci_headline = ''Claude Code (strict config)'',
        ci_commands = [''claude --strict-mcp-config --mcp-config '' @ quoted mcp_json],
        ci_note = ''Strict mode prevents Claude Code from loading any other MCP config alongside the mux one.''\<rparr>,
       \<lparr>ci_kind = ClaudeDesktop, ci_headline = ''Claude Desktop'',
        ci_commands = [''Open ~/Library/Application Support/Claude/claude_desktop_config.json and merge the `mcpServers` block from '' @ mcp_json],
        ci_note = ''Claude Desktop has no strict-config CLI flag; merge by hand or use the [DANGER] flow.''\<rparr>,
       \<lparr>ci_kind = Codex, ci_headline = ''Codex CLI'',
        ci_commands = [''# Codex'' @ [sq] @ ''s `-c/--config` is a key=value override, not a config-file flag.'',
          ''# Either merge the [mcp_servers] block from the file below into ~/.codex/config.toml,'',
          ''# or `codex mcp add` each server pointing at rust-mux-proxy. Source: '' @ mcp_toml],
        ci_note = ''There is no verified Codex flag that swaps the entire MCP config file; merge or `codex mcp add` is required.''\<rparr>,
       \<lparr>ci_kind = Junie, ci_headline = ''Junie'',
        ci_commands = [''junie --mcp-location '' @ quoted mcp_json],
        ci_note = ''`--mcp-default-locations` lets Junie keep its other MCP files alongside the mux one if you prefer additive mode.''\<rparr>,
       \<lparr>ci_kind = Gemini, ci_headline = ''Gemini CLI'',
        ci_commands = gemini_mcp_add_commands (mo_out_services out) (mo_socket_dir out),
        ci_note = ''No verified Gemini flag for a strict config file; use `gemini mcp add` per server or fall back to the [DANGER] flow.''\<rparr>])"

definition per_client_text :: "string \<Rightarrow> per_client_file \<Rightarrow> string \<times> string list \<times> string" where
  "per_client_text socket_dir c =
     (let p = pc_path c; tail_text = '' (per-client mux config)'' in
      case pc_kind c of
        Claude \<Rightarrow> (''Claude Code'' @ tail_text, [''claude --strict-mcp-config --mcp-config '' @ quoted p],
          ''Strict mode keeps Claude on the mux config only.'')
      | ClaudeDesktop \<Rightarrow> (''Claude Desktop'' @ tail_text,
          [''Replace the `mcpServers` block in ~/Library/Application Support/Claude/claude_desktop_config.json with the contents of '' @ p],
          ''Claude Desktop has no strict-config flag; either swap by hand or use the [DANGER] strategy.'')
      | Codex \<Rightarrow> (''Codex CLI'' @ tail_text,
          [''# Codex has no flag that swaps the entire config file.'',
           ''# Merge the [mcp_servers] block from '' @ p @ '' into ~/.codex/config.toml,'',
           ''# or run `codex mcp add` for each entry pointing at rust-mux-proxy.''],
          ''There is no verified Codex flag for an alternative MCP config file.'')
      | Junie \<Rightarrow> (''Junie'' @ tail_text, [''junie --mcp-location '' @ quoted p],
          ''Junie supports `--mcp-location` for an alternative MCP file.'')
      | Gemini \<Rightarrow> (''Gemini CLI'' @ tail_text, gemini_mcp_add_commands (pc_services c) socket_dir,
          ''Gemini has no strict-config flag; use `gemini mcp add` per server.'')
      | k \<Rightarrow> if k \<in> {Cursor, VSCode, JetBrains}
          then (display_name k @ tail_text,
            [''Merge the `mcpServers` block from '' @ p @ '' into the editor'' @ [sq] @ ''s MCP settings.''],
            ''These editors load MCP from their settings file; the mux file is provided as a drop-in snippet.'')
          else (display_name k @ tail_text,
            [''Use '' @ p @ '' according to your client'' @ [sq] @ ''s MCP config conventions.''],
            ''Unknown client: refer to the application'' @ [sq] @ ''s MCP setup documentation.''))"

definition per_client_instructions :: "per_client_outputs \<Rightarrow> client_instruction list" where
  "per_client_instructions out = map (\<lambda>c. case per_client_text (po_socket_dir out) c of
     (headline, commands, note) \<Rightarrow> \<lparr>ci_kind = pc_kind c, ci_headline = headline, ci_commands = commands,
       ci_note = note\<rparr>) (po_clients out)"

section \<open>Preview and rollback\<close>

definition bullet :: string where "bullet = [CHR 0xE2, CHR 0x80, CHR 0xA2]"
definition warn_sign :: string where
  "warn_sign = [CHR 0xE2, CHR 0x9A, CHR 0xA0, CHR 0xEF, CHR 0xB8, CHR 0x8F]"

fun danger_short_status :: "danger_status \<Rightarrow> string" where
  "danger_short_status Planned = ''planned''"
| "danger_short_status SkippedInvalid = ''invalid''"
| "danger_short_status SkippedIneligible = ''ineligible''"
| "danger_short_status SkippedEmpty = ''empty''"

definition planned_text :: "danger_action \<Rightarrow> string" where
  "planned_text a =
     ''  '' @ bullet @ '' '' @ hf_path (da_source a) @ '' ('' @
     (case hf_format (da_source a) of FmtJson \<Rightarrow> ''JSON'' | FmtToml \<Rightarrow> ''TOML'') @ '' format, '' @
     nat_str (length (da_existing_services a)) @ '' services)'' @ [nl] @
     concat (map (\<lambda>change. ''      - '' @ change @ [nl]) (da_change_lines a)) @
     ''      backup target: '' @ hf_path (da_source a) @ ''.<unix_seconds>.bak'' @ [nl]"

definition skipped_text :: "danger_action \<Rightarrow> string" where
  "skipped_text a = ''  '' @ bullet @ '' '' @ hf_path (da_source a) @ '': '' @ danger_short_status (da_status a) @
     '' ('' @ (case da_skip_reason a of Some r \<Rightarrow> r | None \<Rightarrow> ''(unspecified)'') @ '')'' @ [nl]"

definition format_preview :: "danger_plan \<Rightarrow> string" where
  "format_preview plan =
     (let planned = filter (\<lambda>a. da_status a = Planned) (dp_actions plan);
          skipped = filter (\<lambda>a. da_status a \<noteq> Planned) (dp_actions plan)
      in warn_sign @ ''  [DANGER] Automatic client configuration plan'' @ [nl] @
         ''===================================================='' @ [nl] @
         ''Proxy command : '' @ dp_proxy_cmd plan @ [nl] @
         (if dp_proxy_args plan \<noteq> [] then ''Proxy pre-args: '' @ join '' '' (dp_proxy_args plan) @ [nl] else []) @
         ''Socket dir    : '' @ dp_socket_dir plan @ [nl, nl] @
         ''Planned changes ('' @ nat_str (length planned) @ '' file(s)):'' @ [nl] @
         concat (map planned_text planned) @
         (if skipped \<noteq> []
          then [nl] @ ''Skipped ('' @ nat_str (length skipped) @ ''):'' @ [nl] @ concat (map skipped_text skipped)
          else []) @
         [nl] @ ''Notes:'' @ [nl] @
         ''  - Every modified file gets a timestamped .bak next to it before mutation.'' @ [nl] @
         ''  - TOML rewrites lose comments and key order; .bak preserves the original.'' @ [nl] @
         ''  - Files with parse errors are NEVER modified.'' @ [nl] @
         ''  - Unrelated config keys/tables are preserved.'' @ [nl])"

definition path_shell_quote :: "string \<Rightarrow> string" where
  "path_shell_quote s =
     (if \<forall>c \<in> set s. is_alnum c \<or> c \<in> set ''/.-_~'' then s
      else [sq] @ replace_char sq [sq, bs, sq, sq] s @ [sq])"

definition rollback_command :: "danger_outcome \<Rightarrow> string option" where
  "rollback_command r = map_option (\<lambda>b. ''cp -p '' @ path_shell_quote b @ '' '' @ path_shell_quote (do_path r))
     (do_backup r)"

definition rollback_commands :: "danger_outcome list \<Rightarrow> string list" where
  "rollback_commands outcomes = List.map_filter rollback_command outcomes"

section \<open>Reading a rollback command\<close>

text \<open>A path the shell takes as written: a tilde is expanded and an empty word is dropped.\<close>

definition shell_path :: "string \<Rightarrow> bool" where
  "shell_path p \<longleftrightarrow> p \<noteq> [] \<and> CHR ''~'' \<notin> set p"

lemma sh_word_escape_quote:
  "sh_ends r \<Longrightarrow> sh_word Single (replace_char sq [sq, bs, sq, sq] s @ sq # r) = Some (s, r)"
  by (induction s) (auto simp: sh_word_ends sh_end_def)

interpretation cp: quoting path_shell_quote "sh_word Bare" shell_path sh_ends
proof unfold_locales
  fix s r assume s: "shell_path s" and r: "sh_ends r"
  show "sh_word Bare (path_shell_quote s @ r) = Some (s, r)"
  proof (cases "\<forall>c \<in> set s. is_alnum c \<or> c \<in> set ''/.-_~''")
    case True
    have "set ''/.-_~'' - {CHR ''~''} \<subseteq> set ''_-./=:,@%+''" by auto
    with True have "\<forall>c \<in> set s. sh_plain c" using s unfolding shell_path_def sh_plain_def by blast
    moreover have "path_shell_quote s = s" using True unfolding path_shell_quote_def by (rule if_P)
    ultimately show ?thesis using sh_word_plain [of s r] by (simp add: sh_word_ends [OF r])
  next
    case False
    then have "path_shell_quote s @ r = sq # (replace_char sq [sq, bs, sq, sq] s @ sq # r)"
      unfolding path_shell_quote_def if_not_P [OF False] by simp
    moreover have "\<not> sh_end sq" by (simp add: sh_end_def)
    ultimately show ?thesis by (simp add: sh_word_escape_quote [OF r])
  qed
qed (simp_all add: sh_ends_def sh_end_def)

lemma rollback_command_read:
  assumes "rollback_command r = Some c" and "do_backup r = Some b" and "shell_path b" and "shell_path (do_path r)"
  shows "read_items (sh_word Bare) 4 c = Some [''cp'', ''-p'', b, do_path r]"
proof -
  have plain: "path_shell_quote ''cp'' = ''cp''" "path_shell_quote ''-p'' = ''-p''" by code_simp+
  have "c = join '' '' (map path_shell_quote [''cp'', ''-p'', b, do_path r])"
    using assms(1,2) by (simp add: rollback_command_def plain)
  moreover have "\<forall>w \<in> set [''cp'', ''-p'', b, do_path r]. shell_path w"
    using assms(3,4) by (simp add: shell_path_def)
  ultimately show ?thesis using cp.read_items_quoted [of "[''cp'', ''-p'', b, do_path r]" 4] by simp
qed

section \<open>A backup of a plain path is a plain path\<close>

lemma split_char_chars: "q \<in> set (split_char c s) \<Longrightarrow> set q \<subseteq> set s"
proof (induction s arbitrary: q)
  case (Cons d s)
  obtain y ys where y: "split_char c s = y # ys" by (cases "split_char c s") simp_all
  with Cons.IH have "\<forall>q \<in> set (y # ys). set q \<subseteq> set s" by simp
  with y Cons.prems show ?case by (auto split: if_splits)
qed simp

lemma join_chars: "x \<in> set (join sep ws) \<Longrightarrow> x \<in> set sep \<or> (\<exists>w \<in> set ws. x \<in> set w)"
  by (induction sep ws rule: join.induct) auto

lemma component_chars:
  assumes "k \<in> set (components p)" and "x \<in> set (component_str k)"
  shows "x = CHR ''.'' \<or> x \<in> set p"
  using assms
  by (auto simp: components_def piece_component_def Let_def split: if_splits dest!: split_char_chars)

lemma parent_chars:
  assumes "path_parent p = Some d" and "x \<in> set d"
  shows "x = CHR ''.'' \<or> x = CHR ''/'' \<or> x \<in> set p"
proof -
  obtain k cs where cs: "rev (components p) = k # cs" "d = render (rev cs)"
    using assms(1) by (auto simp: path_parent_def split: list.splits component.splits)
  have sub: "set cs \<subseteq> set (components p)" by (metis cs(1) set_rev set_subset_Cons)
  consider "x = CHR ''/''" | "x \<in> set (join ''/'' (map component_str (rev cs)))"
    using assms(2) cs(2) by (auto simp: render_def split: if_splits)
  then show ?thesis
  proof cases
    case 2
    then show ?thesis using join_chars [OF 2] component_chars [of _ p x] sub by auto
  qed simp
qed

lemma name_chars: "file_name p = Some n \<Longrightarrow> x \<in> set n \<Longrightarrow> x \<in> set p"
  using file_name_Some(1) split_char_chars by blast

lemma nat_str_no_tilde [simp]: "CHR ''~'' \<notin> set (nat_str n)"
  using nat_str_digits [of n] by (auto simp: digits_def)

lemma join_no_tilde: "CHR ''~'' \<notin> set d \<Longrightarrow> CHR ''~'' \<notin> set n \<Longrightarrow> CHR ''~'' \<notin> set (path_join d n)"
  by (auto simp: path_join_def)

lemma join_nonempty: "n \<noteq> [] \<Longrightarrow> path_join d n \<noteq> []"
  by (simp add: path_join_def)

lemma backup_path_plain:
  assumes "shell_path p"
  shows "shell_path (backup_path p secs sfx)"
proof -
  have p: "CHR ''~'' \<notin> set p" using assms by (simp add: shell_path_def)
  have d: "CHR ''~'' \<notin> set d" if "path_parent p = Some d" for d
    using parent_chars [OF that] p by auto
  have n: "CHR ''~'' \<notin> set n" if "file_name p = Some n" for n
    using name_chars [OF that] p by auto
  have "CHR ''~'' \<notin> set (backup_path p secs sfx)"
    using p d n by (auto simp: backup_path_def Let_def join_no_tilde split: option.splits)
  moreover have "backup_path p secs sfx \<noteq> []"
    by (simp add: backup_path_def join_nonempty Let_def split: option.split)
  ultimately show ?thesis by (simp add: shell_path_def)
qed

lemma find_backup_plain:
  "find_backup ex p secs fuel counter b0 = Some b \<Longrightarrow> shell_path p \<Longrightarrow> shell_path b0 \<Longrightarrow> shell_path b"
  by (induction ex p secs fuel counter b0 rule: find_backup.induct)
    (auto split: if_splits simp: backup_path_plain)

section \<open>Rollback restores\<close>

text \<open>Running one line: the shell reads four words and \<open>cp\<close> copies.\<close>

definition run_cp :: "os_env \<Rightarrow> string \<Rightarrow> files \<Rightarrow> files option" where
  "run_cp os line fl = (case read_items (sh_word Bare) 4 line of
     Some [c, opt, b, p] \<Rightarrow> if c = ''cp'' \<and> opt = ''-p''
       then map_option (\<lambda>data. fl(os_loc os p \<mapsto> data)) (fl (os_loc os b)) else None
   | _ \<Rightarrow> None)"

fun run_cps :: "os_env \<Rightarrow> string list \<Rightarrow> files \<Rightarrow> files option" where
  "run_cps os [] fl = Some fl"
| "run_cps os (l # ls) fl = Option.bind (run_cp os l fl) (run_cps os ls)"

definition backed :: "os_env \<Rightarrow> danger_outcome list \<Rightarrow> string set" where
  "backed os outs = {os_loc os (do_path r) |r. r \<in> set outs \<and> do_backup r \<noteq> None}"

text \<open>The outcome of an action whose backup was made and whose file could not be written.\<close>

definition write_failed :: "danger_outcome \<Rightarrow> bool" where
  "write_failed r \<longleftrightarrow> \<not> do_written r \<and> do_error r = Some (''failed to write '' @ do_path r)"

definition planned_locs :: "os_env \<Rightarrow> danger_action list \<Rightarrow> string list" where
  "planned_locs os as = map (\<lambda>a. os_loc os (hf_path (da_source a))) (filter (\<lambda>a. da_status a = Planned) as)"

lemma backed_simps [simp]: "backed os [] = {}"
  "backed os (r # outs) = (if do_backup r = None then backed os outs else insert (os_loc os (do_path r)) (backed os outs))"
  by (auto simp: backed_def)

text \<open>One action leaves every existing file alone, or backs up and replaces one, or backs up and cuts one.\<close>

lemma execute_action_cases:
  assumes ok: "os_ok os" "\<And>p. os_loc os (os_loc os p) = os_loc os p"
    and old: "da_status a = Planned \<Longrightarrow> fl (os_loc os (hf_path (da_source a))) \<noteq> None"
    and x: "execute_action os secs a fl = (r, fl1)"
  obtains (skip) "do_backup r = None" "\<And>q. fl q \<noteq> None \<Longrightarrow> fl1 q = fl q"
  | (changed) b where "da_status a = Planned" "do_path r = hf_path (da_source a)"
      "fl (os_loc os b) = None" "fl1 (os_loc os b) = fl (os_loc os (do_path r))" "fl1 (os_loc os (do_path r)) \<noteq> None"
      "\<And>q. q \<noteq> os_loc os b \<Longrightarrow> q \<noteq> os_loc os (do_path r) \<Longrightarrow> fl1 q = fl q"
      "do_backup r = Some b \<and> (shell_path (do_path r) \<longrightarrow> shell_path b) \<or> do_backup r = None \<and> write_failed r"
proof (cases "\<exists>c. da_status a = Planned \<and> da_new_contents a = Some c")
  case True
  then obtain c where c: "da_status a = Planned" "da_new_contents a = Some c" by blast
  let ?p = "hf_path (da_source a)"
  have old': "fl (os_loc os ?p) \<noteq> None" by (rule old [OF c(1)])
  obtain res fl' where w: "write_with_timestamped_backup os secs ?p c fl = (res, fl')" by (metis surj_pair)
  show thesis
  proof (rule backup_outcome [OF ok(1) w])
    fix e assume "res = Inl e" "\<And>q. fl q \<noteq> None \<Longrightarrow> fl' q = fl q"
    with w x c show thesis by (intro skip) (auto simp: execute_action_def)
  next
    fix b assume h: "res = Inr b" "fl (os_loc os b) = None" "fl' (os_loc os ?p) = Some c"
      "fl (os_loc os ?p) \<noteq> None \<Longrightarrow> fl' (os_loc os b) = fl (os_loc os (os_loc os ?p))"
      "\<And>q. q \<noteq> os_loc os b \<Longrightarrow> q \<noteq> os_loc os ?p \<Longrightarrow> fl' q = fl q"
      "find_backup (fv_exists (view_of os fl)) ?p secs 1001 1 (backup_path ?p secs None) = Some b"
    have r: "do_path r = ?p" "do_backup r = Some b" "fl1 = fl'" using w x c h(1) by (auto simp: execute_action_def)
    have "shell_path ?p \<longrightarrow> shell_path b" using find_backup_plain [OF h(6) _ backup_path_plain] by blast
    with r h c(1) old' ok(2) show thesis by (intro changed [of b]) auto
  next
    fix b n assume h: "res = Inl (''failed to write '' @ ?p)" "fl (os_loc os b) = None" "fl' (os_loc os ?p) = Some (take n c)"
      "fl (os_loc os ?p) \<noteq> None \<Longrightarrow> fl' (os_loc os b) = fl (os_loc os (os_loc os ?p))"
      "\<And>q. q \<noteq> os_loc os b \<Longrightarrow> q \<noteq> os_loc os ?p \<Longrightarrow> fl' q = fl q"
    have r: "do_path r = ?p" "do_backup r = None" "write_failed r" "fl1 = fl'"
      using w x c h(1) by (auto simp: execute_action_def write_failed_def)
    with h c(1) old' ok(2) show thesis by (intro changed [of b]) auto
  qed
next
  case False
  then have "do_backup r = None \<and> fl1 = fl"
    using x by (auto simp: execute_action_def split: danger_status.splits option.splits)
  then show thesis using skip by simp
qed

text \<open>What holds after all actions.  No file disappears; only backed up files and the files of a set \<open>torn\<close> change; each
  backup is a new file with the old contents of its file; and a torn file has a failed write among the
  outcomes and its old contents in some new file.\<close>

definition executed :: "os_env \<Rightarrow> files \<Rightarrow> danger_outcome list \<Rightarrow> string set \<Rightarrow> files \<Rightarrow> bool" where
  "executed os fl outs torn fl' \<longleftrightarrow>
     (\<forall>q. fl q \<noteq> None \<longrightarrow> fl' q \<noteq> None) \<and>
     (\<forall>q. fl q \<noteq> None \<longrightarrow> q \<notin> backed os outs \<longrightarrow> q \<notin> torn \<longrightarrow> fl' q = fl q) \<and>
     (\<forall>r \<in> set outs. \<forall>b. do_backup r = Some b \<longrightarrow>
        fl (os_loc os b) = None \<and> fl' (os_loc os b) = fl (os_loc os (do_path r)) \<and>
        fl (os_loc os (do_path r)) \<noteq> None \<and> (shell_path (do_path r) \<longrightarrow> shell_path b)) \<and>
     (\<forall>q \<in> torn. (\<exists>r \<in> set outs. write_failed r \<and> os_loc os (do_path r) = q) \<and> (\<exists>b. fl b = None \<and> fl' b = fl q))"

text \<open>The last action first: what the other actions do to the files it leaves.\<close>

lemma executed_earlier:
  assumes x: "executed os fl1 outs torn fl'" and mono: "\<And>q. fl q \<noteq> None \<Longrightarrow> fl1 q \<noteq> None"
    and keep: "\<And>l. l \<in> backed os outs \<union> torn \<Longrightarrow> fl1 l = fl l"
  shows "fl q \<noteq> None \<Longrightarrow> fl' q \<noteq> None"
    and "r \<in> set outs \<Longrightarrow> do_backup r = Some b \<Longrightarrow> fl (os_loc os b) = None \<and> fl' (os_loc os b) = fl (os_loc os (do_path r)) \<and>
      fl (os_loc os (do_path r)) \<noteq> None \<and> (shell_path (do_path r) \<longrightarrow> shell_path b)"
    and "q \<in> torn \<Longrightarrow> (\<exists>r \<in> set outs. write_failed r \<and> os_loc os (do_path r) = q) \<and> (\<exists>b. fl b = None \<and> fl' b = fl q)"
proof -
  show "fl q \<noteq> None \<Longrightarrow> fl' q \<noteq> None" using x mono by (simp add: executed_def)
  show "fl (os_loc os b) = None \<and> fl' (os_loc os b) = fl (os_loc os (do_path r)) \<and>
      fl (os_loc os (do_path r)) \<noteq> None \<and> (shell_path (do_path r) \<longrightarrow> shell_path b)"
    if r: "r \<in> set outs" "do_backup r = Some b"
  proof -
    have "os_loc os (do_path r) \<in> backed os outs" using r by (auto simp: backed_def)
    then have "fl1 (os_loc os (do_path r)) = fl (os_loc os (do_path r))" by (simp add: keep)
    with x r mono show ?thesis unfolding executed_def by metis
  qed
  show "(\<exists>r \<in> set outs. write_failed r \<and> os_loc os (do_path r) = q) \<and> (\<exists>b. fl b = None \<and> fl' b = fl q)" if q: "q \<in> torn"
  proof -
    from x q obtain b where "fl1 b = None" "fl' b = fl1 q" unfolding executed_def by blast
    moreover have "fl b = None" using mono [of b] \<open>fl1 b = None\<close> by blast
    ultimately show ?thesis using x q keep [of q] unfolding executed_def by auto
  qed
qed

lemma execute_actions_ok:
  assumes ok: "os_ok os" "\<And>p. os_loc os (os_loc os p) = os_loc os p"
    and ex: "\<forall>l \<in> set (planned_locs os as). fl l \<noteq> None" and dist: "distinct (planned_locs os as)"
    and x: "execute_actions os secs as fl = (outs, fl')"
  shows "\<exists>torn. executed os fl outs torn fl' \<and> backed os outs \<union> torn \<subseteq> set (planned_locs os as)"
  using ex dist x
proof (induction as arbitrary: fl outs)
  case (Cons a as)
  let ?t = "os_loc os (hf_path (da_source a))"
  obtain r fl1 outs2 where a: "execute_action os secs a fl = (r, fl1)"
    and rest: "execute_actions os secs as fl1 = (outs2, fl')" and outs: "outs = r # outs2"
    using Cons.prems(3) by (auto simp: Let_def split: prod.splits)
  have later: "set (planned_locs os as) \<subseteq> set (planned_locs os (a # as))" by (auto simp: planned_locs_def)
  have planned: "da_status a = Planned \<Longrightarrow> fl ?t \<noteq> None" using Cons.prems(1) by (simp add: planned_locs_def)
  have dist: "distinct (planned_locs os as)" using Cons.prems(2) by (simp add: planned_locs_def split: if_splits)
  show ?case
  proof (rule execute_action_cases [OF ok planned a])
    assume skip: "do_backup r = None" "\<And>q. fl q \<noteq> None \<Longrightarrow> fl1 q = fl q"
    have "\<forall>l \<in> set (planned_locs os as). fl1 l \<noteq> None" using Cons.prems(1) skip(2) later by auto
    from Cons.IH [OF this dist rest] obtain torn where
      ih: "executed os fl1 outs2 torn fl'" "backed os outs2 \<union> torn \<subseteq> set (planned_locs os as)" by blast
    have mono: "fl1 q \<noteq> None" if "fl q \<noteq> None" for q using that skip(2) by metis
    have keep: "fl1 l = fl l" if "l \<in> backed os outs2 \<union> torn" for l
      using that skip(2) ih(2) later Cons.prems(1) by blast
    have "fl' q = fl q" if "fl q \<noteq> None" "q \<notin> backed os outs2" "q \<notin> torn" for q
      using that mono [OF that(1)] skip(2) ih(1) unfolding executed_def by metis
    then have "executed os fl outs torn fl'"
      using executed_earlier [OF ih(1) mono keep] skip(1) by (simp add: executed_def outs)
    with ih(2) later skip(1) show ?thesis by (intro exI [of _ torn]) (auto simp: outs)
  next
    fix b assume ch: "da_status a = Planned" "do_path r = hf_path (da_source a)"
      "fl (os_loc os b) = None" "fl1 (os_loc os b) = fl (os_loc os (do_path r))" "fl1 (os_loc os (do_path r)) \<noteq> None"
      "\<And>q. q \<noteq> os_loc os b \<Longrightarrow> q \<noteq> os_loc os (do_path r) \<Longrightarrow> fl1 q = fl q"
      and how: "do_backup r = Some b \<and> (shell_path (do_path r) \<longrightarrow> shell_path b) \<or> do_backup r = None \<and> write_failed r"
    have locs: "planned_locs os (a # as) = ?t # planned_locs os as" using ch(1) by (simp add: planned_locs_def)
    have t: "fl ?t \<noteq> None" using planned ch(1) .
    have keep: "fl1 l = fl l" if "l \<in> set (planned_locs os as)" for l
      using that Cons.prems(1,2) ch(2,3,6) by (metis distinct.simps(2) list.set_intros(2) locs)
    then have "\<forall>l \<in> set (planned_locs os as). fl1 l \<noteq> None" using Cons.prems(1) locs by simp
    from Cons.IH [OF this dist rest] obtain torn where
      ih: "executed os fl1 outs2 torn fl'" "backed os outs2 \<union> torn \<subseteq> set (planned_locs os as)" by blast
    have mono: "fl1 q \<noteq> None" if "fl q \<noteq> None" for q
      using that ch(2-6) by (cases "q = ?t") (auto, metis option.distinct(1))
    have "os_loc os b \<notin> backed os outs2 \<union> torn" using ih(2) ch(3) Cons.prems(1) locs
      by (metis list.set_intros(2) subsetD)
    then have saved: "fl' (os_loc os b) = fl ?t" using ih(1) ch(2,4) t by (simp add: executed_def)
    have same: "fl' q = fl q" if "fl q \<noteq> None" "q \<noteq> ?t" "q \<notin> backed os outs2" "q \<notin> torn" for q
      using that ih(1) mono ch(2,3,6) unfolding executed_def by metis
    note earlier = executed_earlier [OF ih(1) mono keep [OF subsetD [OF ih(2)]]]
    show ?thesis using how
    proof
      assume "do_backup r = Some b \<and> (shell_path (do_path r) \<longrightarrow> shell_path b)"
      with earlier saved same ch(2,3) t have "executed os fl outs torn fl'" by (simp add: executed_def outs)
      with ih(2) ch(2) how show ?thesis by (intro exI [of _ torn]) (auto simp: outs locs)
    next
      assume failed: "do_backup r = None \<and> write_failed r"
      with earlier saved same ch(2,3) t have "executed os fl outs (insert ?t torn) fl'" by (auto simp: executed_def outs)
      with ih(2) failed show ?thesis by (intro exI [of _ "insert ?t torn"]) (auto simp: outs locs)
    qed
  qed
qed (auto simp: executed_def intro: exI [of _ "{}"])

lemma rollback_runs:
  assumes plain: "\<forall>r \<in> set outs. do_backup r \<noteq> None \<longrightarrow> shell_path (do_path r)"
    and sh: "\<forall>r \<in> set outs. \<forall>b. do_backup r = Some b \<longrightarrow> shell_path b \<and> fl (os_loc os b) = None \<and>
      g (os_loc os b) = fl (os_loc os (do_path r)) \<and> fl (os_loc os (do_path r)) \<noteq> None"
  shows "\<exists>g'. run_cps os (rollback_commands outs) g = Some g' \<and>
    (\<forall>q. g' q = (if q \<in> backed os outs then fl q else g q))"
  using assms
proof (induction outs arbitrary: g)
  case (Cons r outs)
  show ?case
  proof (cases "do_backup r")
    case None
    then have "rollback_commands (r # outs) = rollback_commands outs"
      by (simp add: rollback_commands_def rollback_command_def List.map_filter_simps)
    with Cons.IH [of g] Cons.prems None show ?thesis by simp
  next
    case (Some b)
    let ?p = "os_loc os (do_path r)" and ?g = "g(os_loc os (do_path r) := fl (os_loc os (do_path r)))"
    obtain c where c: "rollback_command r = Some c" using Some by (simp add: rollback_command_def)
    have b: "shell_path b" "g (os_loc os b) = fl ?p" "fl ?p \<noteq> None" "shell_path (do_path r)"
      using Cons.prems Some by simp_all
    have "read_items (sh_word Bare) 4 c = Some [''cp'', ''-p'', b, do_path r]"
      by (rule rollback_command_read [OF c Some b(1,4)])
    then have run: "run_cp os c g = Some ?g" using b(2,3) by (auto simp: run_cp_def)
    have "\<exists>g'. run_cps os (rollback_commands outs) ?g = Some g' \<and>
        (\<forall>q. g' q = (if q \<in> backed os outs then fl q else ?g q))"
    proof (rule Cons.IH)
      show "\<forall>r \<in> set outs. do_backup r \<noteq> None \<longrightarrow> shell_path (do_path r)" using Cons.prems(1) by simp
      show "\<forall>r \<in> set outs. \<forall>b. do_backup r = Some b \<longrightarrow> shell_path b \<and> fl (os_loc os b) = None \<and>
          ?g (os_loc os b) = fl (os_loc os (do_path r)) \<and> fl (os_loc os (do_path r)) \<noteq> None"
        using Cons.prems(2) b(3) by (auto simp: fun_upd_def)
    qed
    moreover have "rollback_commands (r # outs) = c # rollback_commands outs"
      using c by (simp add: rollback_commands_def List.map_filter_simps)
    ultimately show ?thesis using run Some by auto
  qed
qed (simp add: rollback_commands_def List.map_filter_simps)

lemma execute_paths:
  "execute_actions os secs as fl = (outs, fl') \<Longrightarrow> do_path ` set outs \<subseteq> (\<lambda>a. hf_path (da_source a)) ` set as"
proof (induction as arbitrary: fl outs)
  case (Cons a as)
  have "do_path (fst (execute_action os secs a fl)) = hf_path (da_source a)"
  proof (cases "\<exists>c. da_status a = Planned \<and> da_new_contents a = Some c")
    case True
    then obtain c where c: "da_status a = Planned" "da_new_contents a = Some c" by blast
    obtain res fl2 where "write_with_timestamped_backup os secs (hf_path (da_source a)) c fl = (res, fl2)"
      by (metis surj_pair)
    with c show ?thesis by (cases res) (simp_all add: execute_action_def)
  next
    case False
    then show ?thesis by (auto simp: execute_action_def split: danger_status.splits option.splits)
  qed
  moreover obtain r fl1 outs2 where "execute_action os secs a fl = (r, fl1)"
    "execute_actions os secs as fl1 = (outs2, fl')" "outs = r # outs2"
    using Cons.prems by (auto simp: Let_def split: prod.splits)
  ultimately show ?case using Cons.IH [of fl1 outs2] by auto
qed simp

text \<open>C10: a rewrite can be undone, but for a file whose writing broke off.  Execute a plan whose planned files exist and lie
  at different places and have no tilde in their paths, then let a shell run the printed rollback commands: they
  all run, and every file that existed before the rewrite has its old contents again, unless the report says
  that this very file could not be written.  Such a file may be cut short, and no command restores it; but its
  old contents are still in a file that was not there before.\<close>

theorem rollback_restores_files:
  assumes ok: "os_ok os" "\<And>p. os_loc os (os_loc os p) = os_loc os p"
    and ex: "\<forall>l \<in> set (planned_locs os (dp_actions plan)). fl l \<noteq> None"
    and dist: "distinct (planned_locs os (dp_actions plan))"
    and plain: "\<forall>a \<in> set (dp_actions plan). shell_path (hf_path (da_source a))"
    and x: "execute_plan os secs plan True fl = (Inr outs, fl')"
  shows "\<exists>fl''. run_cps os (rollback_commands outs) fl' = Some fl'' \<and>
    (\<forall>q. fl q \<noteq> None \<longrightarrow> fl'' q = fl q \<or>
      (\<exists>r \<in> set outs. write_failed r \<and> os_loc os (do_path r) = q) \<and> (\<exists>b. fl b = None \<and> fl'' b = fl q))"
proof -
  have x': "execute_actions os secs (dp_actions plan) fl = (outs, fl')"
    using x by (simp add: execute_plan_def split: prod.splits)
  obtain torn where dn: "executed os fl outs torn fl'" and sub: "backed os outs \<subseteq> set (planned_locs os (dp_actions plan))"
    using execute_actions_ok [OF ok ex dist x'] by blast
  have plain': "\<forall>r \<in> set outs. shell_path (do_path r)" using execute_paths [OF x'] plain by force
  then obtain fl'' where run: "run_cps os (rollback_commands outs) fl' = Some fl''"
    and fl'': "\<forall>q. fl'' q = (if q \<in> backed os outs then fl q else fl' q)"
    using rollback_runs [of outs fl os fl'] dn by (auto simp: executed_def)
  have "fl'' q = fl q \<or> (\<exists>r \<in> set outs. write_failed r \<and> os_loc os (do_path r) = q) \<and> (\<exists>b. fl b = None \<and> fl'' b = fl q)"
    if q: "fl q \<noteq> None" for q
  proof (cases "q \<in> torn")
    case True
    with dn obtain b where "fl b = None" "fl' b = fl q" unfolding executed_def by blast
    moreover have "b \<notin> backed os outs" using sub ex \<open>fl b = None\<close> by blast
    ultimately show ?thesis using dn True fl'' unfolding executed_def by auto
  next
    case False
    with dn q fl'' show ?thesis by (simp add: executed_def)
  qed
  with run show ?thesis by blast
qed

definition example_plan :: danger_plan where
  "example_plan = \<lparr>dp_actions = [\<lparr>da_source = (example_host Claude)\<lparr>hf_path := ''/cfg/it '' @ [sq] @ ''s.json''\<rparr>,
     da_status = Planned, da_new_contents = Some ''new'', da_change_lines = [], da_skip_reason = None,
     da_existing_services = []\<rparr>], dp_proxy_cmd = ''rust-mux-proxy'', dp_proxy_args = [], dp_socket_dir = ''/s''\<rparr>"

theorem rollback_restores_files_witness:
  "\<exists>outs fl' fl''. execute_plan flat_os 7 example_plan True [''it '' @ [sq] @ ''s.json'' \<mapsto> ''old''] = (Inr outs, fl') \<and>
     fl' (''it '' @ [sq] @ ''s.json'') = Some ''new'' \<and>
     run_cps flat_os (rollback_commands outs) fl' = Some fl'' \<and> fl'' (''it '' @ [sq] @ ''s.json'') = Some ''old''"
proof -
  let ?f = "''it '' @ [sq] @ ''s.json''"
  let ?fl = "[?f \<mapsto> ''old''] :: files"
  have "case execute_plan flat_os 7 example_plan True ?fl of (Inr outs, fl') \<Rightarrow> fl' ?f = Some ''new'' | _ \<Rightarrow> False"
    by code_simp
  then obtain outs fl' where x: "execute_plan flat_os 7 example_plan True ?fl = (Inr outs, fl')"
    and new: "fl' ?f = Some ''new''" by (auto split: prod.splits sum.splits)
  have locs: "planned_locs flat_os (dp_actions example_plan) = [?f]" by code_simp
  have ex: "\<forall>l \<in> set (planned_locs flat_os (dp_actions example_plan)). ?fl l \<noteq> None"
    and dist: "distinct (planned_locs flat_os (dp_actions example_plan))" by (simp_all add: locs)
  have plain: "\<forall>a \<in> set (dp_actions example_plan). shell_path (hf_path (da_source a))" by code_simp
  have "case execute_plan flat_os 7 example_plan True ?fl of (Inr outs, fl') \<Rightarrow> list_all do_written outs | _ \<Rightarrow> False"
    by code_simp
  then have "list_all do_written outs" unfolding x by simp
  then have "\<not> (\<exists>r \<in> set outs. write_failed r)" by (auto simp: list_all_iff write_failed_def)
  with rollback_restores_files [OF flat_os_ok flat_os_idem ex dist plain x] obtain fl'' where
    r: "run_cps flat_os (rollback_commands outs) fl' = Some fl''" "\<forall>q. ?fl q \<noteq> None \<longrightarrow> fl'' q = ?fl q" by blast
  from r(2) have "fl'' ?f = Some ''old''" by (metis fun_upd_same option.distinct(1))
  with x new r(1) show ?thesis by blast
qed

text \<open>The exception is real: with a disk that is full after one byte, the file is cut, the report names no backup, and
  no rollback command is printed.\<close>

theorem torn_write_not_undone:
  "case execute_plan (flat_os\<lparr>os_write := (\<lambda>p. if p = ''/cfg/it '' @ [sq] @ ''s.json'' then CutAfter 1 else Written)\<rparr>) 7
      example_plan True [''it '' @ [sq] @ ''s.json'' \<mapsto> ''old''] of
     (Inr outs, fl') \<Rightarrow> fl' (''it '' @ [sq] @ ''s.json'') = Some ''n'' \<and>
       fl' (''it '' @ [sq] @ ''s.json.7.bak'') = Some ''old'' \<and> rollback_commands outs = []
   | _ \<Rightarrow> False"
  by code_simp

end
