(* ===== verification/Host_Setup.thy ===== *)
theory Host_Setup
  imports Host_Wizard Host_Out
begin

text \<open>
  What the setup wizard does once the terminal loop ends (\<open>mux-agent/src/wizard/persist.rs\<close> and the
  entry points of \<open>mod.rs\<close>): the three strategies, the start of the tray daemon, and the whole run.  The
  outside world is the record \<open>setup_world\<close>: files, the processes that were started (the probes \<open>ps\<close> and \<open>pip\<close>
  among them, which are listed when they are tried), and what each print call printed.  What the
  system decides is the record \<open>setup_os\<close>: paths, writes, the clock, the answer typed at the prompt and
  the result of a spawn.  \<open>None\<close> stands for a terminal loop that still waits for a key.  Switching the
  terminal between its modes is left out.
\<close>

section \<open>The world\<close>

record setup_world =
  sw_files :: files
  sw_spawned :: "(string \<times> string list) list"
  sw_console :: "string list"

record setup_os =
  xo_os :: os_env
  xo_home :: "string option"
  xo_formats :: formats
  xo_printers :: printers
  xo_probes :: probes
  xo_secs :: u64
  xo_answer :: "string + string"
  xo_current_exe :: "string option"
  xo_spawn :: "string \<Rightarrow> string list \<Rightarrow> string + u32"

definition env_of :: "setup_os \<Rightarrow> setup_world \<Rightarrow> wizard_env" where
  "env_of x w = \<lparr>we_home = xo_home x, we_formats = xo_formats x, we_fs = view_of (xo_os x) (sw_files w),
     we_probes = xo_probes x\<rparr>"

definition println :: "string \<Rightarrow> setup_world \<Rightarrow> setup_world" where
  "println s w = w\<lparr>sw_console := sw_console w @ [s]\<rparr>"

section \<open>The selection of step 2\<close>

record service_shape_key =
  sk_command :: string
  sk_args :: "string list"
  sk_socket :: "string option"
  sk_env :: "(string \<times> string) list"

definition sorted_env :: "(string, string) hashmap option \<Rightarrow> (string \<times> string) list" where
  "sorted_env env = (case env of None \<Rightarrow> [] | Some m \<Rightarrow> sort_by cmp_fst m)"

definition entry_shape :: "service_entry \<Rightarrow> service_shape_key" where
  "entry_shape e = \<lparr>sk_command = (case sc_cmd (sy_config e) of Some c \<Rightarrow> c | None \<Rightarrow> []),
     sk_args = (case sc_args (sy_config e) of Some as \<Rightarrow> as | None \<Rightarrow> []),
     sk_socket = sc_socket (sy_config e), sk_env = sorted_env (sc_env (sy_config e))\<rparr>"

definition service_shape :: "host_service \<Rightarrow> service_shape_key" where
  "service_shape svc = \<lparr>sk_command = sv_command svc, sk_args = sv_args svc, sk_socket = sv_socket svc,
     sk_env = sorted_env (sv_env svc)\<rparr>"

record selected_service_filter =
  sf_exact :: "(string \<times> service_shape_key) list"
  sf_conflict_shapes :: "service_shape_key list"

definition filter_from_app :: "wizard \<Rightarrow> selected_service_filter" where
  "filter_from_app app =
     (let chosen = filter sy_selected (wz_services app) in
      \<lparr>sf_exact = map (\<lambda>e. (sy_name e, entry_shape e)) chosen,
       sf_conflict_shapes = map entry_shape (filter (\<lambda>e. str_contains (sy_name e) ''-from-'') chosen)\<rparr>)"

definition filter_matches :: "selected_service_filter \<Rightarrow> host_service \<Rightarrow> bool" where
  "filter_matches f svc \<longleftrightarrow> (sv_name svc, service_shape svc) \<in> set (sf_exact f) \<or>
     service_shape svc \<in> set (sf_conflict_shapes f)"

definition selected_scans :: "wizard_env \<Rightarrow> wizard \<Rightarrow> scan_result list" where
  "selected_scans env app =
     map (\<lambda>scan. scan\<lparr>sr_services := filter (filter_matches (filter_from_app app)) (sr_services scan)\<rparr>)
       (source_scans env (wz_sources app))"

definition selected_danger_scans :: "wizard_env \<Rightarrow> wizard \<Rightarrow> scan_result list" where
  "selected_danger_scans env app = filter (\<lambda>s. hf_eligible_for_danger (sr_host s)) (selected_scans env app)"

definition build_merge_from_services :: "wizard \<Rightarrow> merge_outcome" where
  "build_merge_from_services app = \<lparr>mo_services = map (\<lambda>e.
       \<lparr>sv_name = sy_name e, sv_command = (case sc_cmd (sy_config e) of Some c \<Rightarrow> c | None \<Rightarrow> []),
        sv_args = (case sc_args (sy_config e) of Some as \<Rightarrow> as | None \<Rightarrow> []), sv_cwd = sc_cwd (sy_config e),
        sv_socket = sc_socket (sy_config e), sv_env = sc_env (sy_config e), sv_enabled = None\<rparr>)
       (filter sy_selected (wz_services app)), mo_conflicts = []\<rparr>"

section \<open>Unified\<close>

definition mdash :: string where "mdash = [CHR 0xE2, CHR 0x80, CHR 0x94]"

definition instruction_text :: "client_instruction \<Rightarrow> string" where
  "instruction_text inst = bullet @ '' '' @ ci_headline inst @ '' ('' @ as_label (ci_kind inst) @ '')'' @ [nl] @
     concat (map (\<lambda>cmd. ''    '' @ cmd @ [nl]) (ci_commands inst)) @ ''    note: '' @ ci_note inst @ [nl, nl]"

definition start_mux_text :: "string \<Rightarrow> string" where
  "start_mux_text config_toml_path =
     ''Start the mux:'' @ [nl] @ ''  rust-mux --config '' @ config_toml_path @ [nl, nl]"

definition unified_summary :: "mux_outputs \<Rightarrow> string" where
  "unified_summary out =
     ''Wrote rust-mux config under '' @ mo_mux_dir out @ '':'' @ [nl] @
     ''  - '' @ mo_config_toml_path out @ '' (daemon truth)'' @ [nl] @
     ''  - '' @ mo_mcp_json_path out @ '' (client JSON)'' @ [nl] @
     ''  - '' @ mo_mcp_toml_path out @ '' (client TOML)'' @ [nl] @ [nl] @
     start_mux_text (mo_config_toml_path out) @
     ''Use it from your AI clients:'' @ [nl] @ concat (map instruction_text (safe_path_instructions out)) @
     (if mo_out_conflicts out \<noteq> []
      then warn_sign @ ''  '' @ nat_str (length (mo_out_conflicts out)) @ '' server-name conflict(s) surfaced '' @
        mdash @ '' review the config.toml entries.'' @ [nl]
      else [])"

definition run_unified_generate :: "setup_os \<Rightarrow> wizard \<Rightarrow> setup_world \<Rightarrow> (string + string) \<times> setup_world" where
  "run_unified_generate x app w =
     (let merged = build_merge_from_services app;
          out = build_mux_outputs merged (default_mux_dir (xo_home x)) ''rust-mux-proxy'' []
      in if mo_services merged = [] then (Inr (''No services selected '' @ mdash @ '' nothing generated.''), w)
         else case mux_output_texts (xo_printers x) out of
           Inl e \<Rightarrow> (Inl e, w)
         | Inr txt \<Rightarrow>
             if wz_dry_run app
             then (Inr (''(dry-run) Would generate:'' @ [nl] @ ''  - '' @ mo_config_toml_path out @ [nl] @
                     ''  - '' @ mo_mcp_json_path out @ [nl] @ ''  - '' @ mo_mcp_toml_path out @ [nl] @
                     ''Per-client setup commands would be printed on completion.''), w)
             else case write_mux_outputs (xo_os x) out txt (sw_files w) of
               (Inl e, fl) \<Rightarrow> (Inl e, w\<lparr>sw_files := fl\<rparr>)
             | (Inr _, fl) \<Rightarrow> (Inr (unified_summary out), w\<lparr>sw_files := fl\<rparr>))"

section \<open>Per client\<close>

definition client_line :: "per_client_file \<Rightarrow> string" where
  "client_line c = ''  - '' @ pc_path c @ '' ('' @ nat_str (length (pc_services c)) @ '' servers)'' @ [nl]"

definition per_client_summary :: "per_client_outputs \<Rightarrow> string" where
  "per_client_summary out =
     ''Wrote rust-mux per-client configs under '' @ po_mux_dir out @ '':'' @ [nl] @
     ''  - '' @ po_config_toml_path out @ '' (daemon truth, '' @ nat_str (po_total_services out) @
     '' unique servers)'' @ [nl] @ concat (map client_line (po_clients out)) @ [nl] @
     start_mux_text (po_config_toml_path out) @
     ''Use the per-client mux files from each AI client:'' @ [nl] @
     concat (map instruction_text (per_client_instructions out)) @
     (if po_conflicts out \<noteq> []
      then warn_sign @ ''  '' @ nat_str (length (po_conflicts out)) @
        '' server-name conflict(s) surfaced across clients '' @ mdash @
        '' daemon config kept the variants apart with -from-<kind> suffixes.'' @ [nl]
      else [])"

definition run_per_client_generate :: "setup_os \<Rightarrow> wizard \<Rightarrow> setup_world \<Rightarrow> (string + string) \<times> setup_world" where
  "run_per_client_generate x app w =
     (let scans = selected_scans (env_of x w) app;
          out = build_per_client_outputs scans (default_mux_dir (xo_home x)) ''rust-mux-proxy'' []
      in if \<forall>s \<in> set scans. sr_services s = []
         then (Inr (''No selected services parsed cleanly '' @ mdash @ '' nothing generated.''), w)
         else case per_client_texts (xo_printers x) out of
           Inl e \<Rightarrow> (Inl e, w)
         | Inr txts \<Rightarrow>
             if wz_dry_run app
             then (Inr (''(dry-run) Would write under '' @ po_mux_dir out @ '':'' @ [nl] @
                     ''  - '' @ po_config_toml_path out @ '' (daemon truth)'' @ [nl] @
                     concat (map client_line (po_clients out))), w)
             else case write_per_client_outputs (xo_os x) out txts (sw_files w) of
               (Inl e, fl) \<Rightarrow> (Inl e, w\<lparr>sw_files := fl\<rparr>)
             | (Inr _, fl) \<Rightarrow> (Inr (per_client_summary out), w\<lparr>sw_files := fl\<rparr>))"

section \<open>Rewrite\<close>

fun debug_status :: "danger_status \<Rightarrow> string" where
  "debug_status Planned = ''Planned''"
| "debug_status SkippedInvalid = ''SkippedInvalid''"
| "debug_status SkippedIneligible = ''SkippedIneligible''"
| "debug_status SkippedEmpty = ''SkippedEmpty''"

definition result_line :: "danger_outcome \<Rightarrow> string" where
  "result_line r =
     (if do_status r = Planned \<and> do_written r
      then ''  '' @ [CHR 0xE2, CHR 0x9C, CHR 0x93] @ '' wrote '' @ do_path r @ '' (backup: '' @
        (case do_backup r of Some b \<Rightarrow> b | None \<Rightarrow> ''(none)'') @ '')''
      else ''  '' @ [CHR 0xC2, CHR 0xB7] @ '' '' @ do_path r @ '' skipped ('' @ debug_status (do_status r) @ '')'' @
        (case do_error r of None \<Rightarrow> [] | Some e \<Rightarrow> if e = [] then [] else '': '' @ e))"

definition print_results :: "danger_outcome list \<Rightarrow> setup_world \<Rightarrow> setup_world" where
  "print_results outs w =
     (let w1 = fold println (map result_line outs) (println ([nl] @ ''Results:'') w);
          cmds = rollback_commands outs
      in if cmds = [] then w1
         else fold println (map (\<lambda>c. ''  '' @ c) cmds)
           (println ([nl] @ ''Rollback (paste any line to restore that file):'') w1))"

definition danger_plan_for :: "setup_os \<Rightarrow> setup_world \<Rightarrow> scan_result list \<Rightarrow> danger_plan" where
  "danger_plan_for x w scans = plan_danger_rewrite_for_scans (xo_formats x) (view_of (xo_os x) (sw_files w)) scans
     ''rust-mux-proxy'' [] (expand_path (xo_home x) ''~/.config/mux/sockets'')"

definition run_danger_auto_configure :: "setup_os \<Rightarrow> wizard \<Rightarrow> setup_world \<Rightarrow> (string + string) \<times> setup_world" where
  "run_danger_auto_configure x app w =
     (let merged = build_merge_from_services app; scans = selected_danger_scans (env_of x w) app;
          plan = danger_plan_for x w scans; w1 = println ([nl] @ format_preview plan) w
      in if mo_services merged = []
         then (Inr (''No services selected '' @ mdash @ '' danger flow has nothing to do.''), w)
         else if scans = []
         then (Inr ''No selected sources are eligible for danger rewrite (or none parsed cleanly).'', w)
         else if \<not> (\<exists>a \<in> set (dp_actions plan). da_status a = Planned)
         then (Inr ''No eligible files to rewrite.'',
               println (''(no files planned for change '' @ mdash @ '' nothing to confirm)'' @ [nl]) w1)
         else if wz_dry_run app
         then (Inr ''Dry-run: danger plan rendered, no writes performed.'',
               println (''(dry-run) plan above would have been executed; no files modified.'' @ [nl]) w1)
         else
           (let w2 = println ''> '' (println
                  ''Type CONFIRM (uppercase) and press Enter to apply the rewrite, anything else to cancel:'' w1)
            in case xo_answer x of
                 Inl e \<Rightarrow> (Inl ''read confirmation prompt'', w2)
               | Inr line \<Rightarrow>
                   if trim line \<noteq> ''CONFIRM''
                   then (Inr ''Danger flow cancelled by operator.'',
                         println (''Cancelled '' @ mdash @ '' no files modified.'' @ [nl]) w2)
                   else case execute_plan (xo_os x) (xo_secs x) plan True (sw_files w2) of
                     (Inl e, fl) \<Rightarrow> (Inl e, w2\<lparr>sw_files := fl\<rparr>)
                   | (Inr outs, fl) \<Rightarrow>
                       (Inr (''Auto-rewire applied to '' @
                          nat_str (length (filter (\<lambda>r. do_status r = Planned \<and> do_written r) outs)) @
                          '' file(s); see terminal for details and rollback commands.''),
                        print_results outs (w2\<lparr>sw_files := fl\<rparr>))))"

section \<open>The tray daemon\<close>

definition tray_config :: "setup_os \<Rightarrow> wizard \<Rightarrow> setup_world \<Rightarrow> string" where
  "tray_config x app w =
     (let mux_config = path_join (default_mux_dir (xo_home x)) ''config.toml''
      in if fv_exists (view_of (xo_os x) (sw_files w)) mux_config then mux_config else wz_config_path app)"

definition tray_binary :: "setup_os \<Rightarrow> setup_world \<Rightarrow> string" where
  "tray_binary x w =
     (case Option.bind (xo_current_exe x) (\<lambda>p. map_option (\<lambda>d. path_join d ''rust-mux'') (path_parent p)) of
        Some p \<Rightarrow> if fv_exists (view_of (xo_os x) (sw_files w)) p then p else ''rust-mux''
      | None \<Rightarrow> ''rust-mux'')"

definition start_tray_daemon :: "setup_os \<Rightarrow> wizard \<Rightarrow> setup_world \<Rightarrow> string \<times> setup_world" where
  "start_tray_daemon x app w =
     (if wz_dry_run app then (''(dry-run) tray daemon would be started in the background.'', w)
      else let config_arg = tray_config x app w; bin = tray_binary x w; args = [''--tray'', ''--config'', config_arg]
        in case xo_spawn x bin args of
             Inr pid \<Rightarrow> (''Started tray daemon (pid '' @ nat_str (unat pid) @ '') using config '' @ config_arg,
                        w\<lparr>sw_spawned := sw_spawned w @ [(bin, args)]\<rparr>)
           | Inl err \<Rightarrow> (''Could not start tray daemon: '' @ err @ ''. Run manually: rust-mux --tray --config '' @
                        config_arg, w))"

definition tray_and_print :: "setup_os \<Rightarrow> wizard \<Rightarrow> setup_world \<Rightarrow> setup_world" where
  "tray_and_print x app w = (case start_tray_daemon x app w of
     (summary, w') \<Rightarrow> println ([nl] @ summary @ [nl]) w')"

section \<open>The whole run\<close>

type_synonym keys = "(wizard_env \<times> key_code) list"

definition advance_to_step5 ::
  "setup_os \<Rightarrow> string \<Rightarrow> keys \<Rightarrow> wizard \<Rightarrow> setup_world \<Rightarrow> ((string + unit) \<times> wizard \<times> setup_world) option" where
  "advance_to_step5 x summary ks app w =
     (let app1 = app\<lparr>wz_step := ResultAndTray, wz_tray_choice := NoTray, wz_strategy_result := Some summary,
            wz_message := ''STEP 5: Up/Down to choose, Enter to confirm, q to quit.''\<rparr>
      in map_option (\<lambda>(app2, rest). let app3 = app2\<lparr>wz_pending_action := None\<rparr> in
           (Inr (), app3, if wz_pending_action app2 = Some StartTrayDaemon then tray_and_print x app3 w else w))
         (wizard_loop ks app1))"

definition drain_pending_actions ::
  "setup_os \<Rightarrow> keys \<Rightarrow> wizard \<Rightarrow> setup_world \<Rightarrow> ((string + unit) \<times> wizard \<times> setup_world) option" where
  "drain_pending_actions x ks app w =
     (let app1 = app\<lparr>wz_pending_action := None\<rparr>;
          after = (\<lambda>(res, w1). case res of
            Inl e \<Rightarrow> Some (Inl e, app1, w1)
          | Inr summary \<Rightarrow> advance_to_step5 x summary ks app1 (println ([nl] @ summary) w1))
      in case wz_pending_action app of
           None \<Rightarrow> Some (Inr (), app, w)
         | Some GenerateUnified \<Rightarrow> after (run_unified_generate x app1 w)
         | Some GeneratePerClient \<Rightarrow> after (run_per_client_generate x app1 w)
         | Some RunAutoRewire \<Rightarrow> after (run_danger_auto_configure x app1 w)
         | Some StartTrayDaemon \<Rightarrow> Some (Inr (), app1, tray_and_print x app1 w))"

text \<open>What the loop has started enters the world when the loop ends; nothing reads the list before.\<close>

definition started_by :: "wizard \<Rightarrow> setup_world \<Rightarrow> setup_world" where
  "started_by app w = w\<lparr>sw_spawned := sw_spawned w @ wz_started app\<rparr>"

definition run_tui ::
  "setup_os \<Rightarrow> keys \<Rightarrow> wizard \<Rightarrow> setup_world \<Rightarrow> ((string + unit) \<times> wizard \<times> setup_world) option" where
  "run_tui x ks app w = Option.bind (wizard_loop ks app) (\<lambda>(app', rest).
     drain_pending_actions x rest app' (started_by app' w))"

fun run_strategy :: "strategy \<Rightarrow> setup_os \<Rightarrow> wizard \<Rightarrow> setup_world \<Rightarrow> (string + string) \<times> setup_world" where
  "run_strategy Unified = run_unified_generate"
| "run_strategy PerClient = run_per_client_generate"
| "run_strategy AutoRewire = run_danger_auto_configure"

definition dry_run_app :: "setup_os \<Rightarrow> string list \<Rightarrow> string \<Rightarrow> strategy \<Rightarrow> setup_world \<Rightarrow> wizard" where
  "dry_run_app x imports config_path strat w =
     (let sources = build_initial_sources (env_of x w) imports;
          (started, services) = build_services_for_selected_sources (env_of x w) sources in
      \<lparr>wz_step = SummaryConfirm, wz_config_path = config_path, wz_sources = sources, wz_selected_source = 0,
       wz_custom_path = \<lparr>cp_buffer = [], cp_editing = False, cp_status = None\<rparr>,
       wz_services = services,
       wz_selected_service = 0, wz_strategy = strat, wz_summary_action = Confirm, wz_tray_choice = NoTray,
       wz_message = [], wz_dry_run = True, wz_pending_action = None, wz_strategy_result = None,
       wz_started = started\<rparr>)"

definition print_selected :: "wizard \<Rightarrow> setup_world \<Rightarrow> setup_world" where
  "print_selected app w = println [] (fold println
     (map (\<lambda>s. ''  - '' @ sy_name s @ '' ['' @ source_label (sy_source s) @ '']'') (filter sy_selected (wz_services app)))
     (println ''Selected services:'' w))"

definition run_noninteractive_dry_run ::
  "setup_os \<Rightarrow> string list \<Rightarrow> string \<Rightarrow> strategy \<Rightarrow> setup_world \<Rightarrow> (string + unit) \<times> setup_world" where
  "run_noninteractive_dry_run x imports config_path strat w =
     (let app = dry_run_app x imports config_path strat w in
      case run_strategy (wz_strategy app) x app (print_selected app (started_by app w)) of
        (Inl e, w') \<Rightarrow> (Inl e, w')
      | (Inr summary, w') \<Rightarrow> (Inr (), println summary w'))"

definition run_wizard ::
  "setup_os \<Rightarrow> bool \<Rightarrow> string option \<Rightarrow> string list \<Rightarrow> strategy option \<Rightarrow> bool \<Rightarrow> keys \<Rightarrow> setup_world \<Rightarrow>
   ((string + unit) \<times> setup_world) option" where
  "run_wizard x tty config imports strat dry ks w =
     (if \<not> tty
      then (if dry
            then Some (run_noninteractive_dry_run x imports
              (case config of Some p \<Rightarrow> p | None \<Rightarrow> expand_path (xo_home x) ''~/.codex/mcp-mux.toml'')
              (case strat of Some s \<Rightarrow> s | None \<Rightarrow> Unified) w)
            else Some (Inl ''wizard requires an interactive TTY; use the CLI subcommands (scan / rewire / health) for non-interactive mode'', w))
      else map_option (\<lambda>(res, _, w'). (res, w'))
        (run_tui x ks (wizard_start (env_of x w) config imports strat dry) w))"

section \<open>What a run leaves alone\<close>

lemma println_frame [simp]: "sw_files (println s w) = sw_files w" "sw_spawned (println s w) = sw_spawned w"
  by (simp_all add: println_def)

lemma printlns_frame [simp]: "sw_files (fold println ss w) = sw_files w" "sw_spawned (fold println ss w) = sw_spawned w"
  by (induction ss arbitrary: w) simp_all

lemma print_results_frame [simp]:
  "sw_files (print_results outs w) = sw_files w" "sw_spawned (print_results outs w) = sw_spawned w"
  by (simp_all add: print_results_def Let_def)

lemma write_files_frame: "q \<notin> os_loc os ` fst ` set ps \<Longrightarrow> snd (write_files os ps fl) q = fl q"
  by (induction os ps fl rule: write_files.induct) 
    (force simp: write_file_def fs_write_def split: write_result.splits)+

lemma with_mux_dirs_frame: "snd (k fl) q = fl q \<Longrightarrow> snd (with_mux_dirs os d sd k fl) q = fl q"
  by (simp add: with_mux_dirs_def)

lemma snd_case_result: "snd (case p of (Inl e, fl') \<Rightarrow> (Inl e, fl') | (Inr _, fl') \<Rightarrow> (Inr r, fl')) = snd p"
  by (cases p; cases "fst p") auto

definition unified_names :: "string set" where
  "unified_names = {''config.toml'', ''mcp.json'', ''mcp.toml''}"

definition client_names :: "string set" where
  "client_names = {''config.toml'', ''codex.toml''} \<union> {as_label k @ ''.json'' |k. True}"

lemma run_unified_frame:
  assumes "run_unified_generate x app w = (res, w')"
  shows "sw_spawned w' = sw_spawned w \<and> (wz_dry_run app \<longrightarrow> w' = w) \<and>
    (\<forall>q. q \<notin> os_loc (xo_os x) ` path_join (default_mux_dir (xo_home x)) ` unified_names \<longrightarrow> sw_files w' q = sw_files w q)"
proof -
  let ?out = "build_mux_outputs (build_merge_from_services app) (default_mux_dir (xo_home x)) ''rust-mux-proxy'' []"
  have frame: "snd (write_mux_outputs (xo_os x) ?out tx fl) q = fl q"
    if "q \<notin> os_loc (xo_os x) ` path_join (default_mux_dir (xo_home x)) ` unified_names" for q tx fl
    unfolding write_mux_outputs_def
    by (rule with_mux_dirs_frame, unfold snd_case_result, rule write_files_frame)
      (use that in \<open>simp add: build_mux_outputs_def unified_names_def Let_def\<close>)
  show ?thesis
  proof (cases "mux_output_texts (xo_printers x) ?out")
    case (Inl e)
    with assms show ?thesis by (auto simp: run_unified_generate_def Let_def split: if_splits)
  next
    case (Inr tx)
    obtain r fl where wr: "write_mux_outputs (xo_os x) ?out tx (sw_files w) = (r, fl)" by (metis surj_pair)
    with frame [of _ tx "sw_files w"] assms Inr show ?thesis
      by (cases r) (auto simp: run_unified_generate_def Let_def split: if_splits)
  qed
qed

lemma client_texts_paths: "client_texts pn cs = Inr ts \<Longrightarrow> map fst ts = map pc_path cs"
  by (induction cs arbitrary: ts) (auto split: option.splits sum.splits)

lemma per_client_paths:
  assumes "per_client_texts pn (build_per_client_outputs scans d cmd args) = Inr ts"
  shows "fst ` set ts \<subseteq> path_join d ` client_names"
proof -
  let ?out = "build_per_client_outputs scans d cmd args"
  obtain c ts' where ts: "ts = (po_config_toml_path ?out, c) # ts'" "client_texts pn (po_clients ?out) = Inr ts'"
    using assms by (auto simp: per_client_texts_def split: option.splits sum.splits)
  have "pc_path (per_client_file_of d cmd args s) \<in> path_join d ` client_names" for s
    by (auto simp: per_client_file_of_def client_native_payload_def client_names_def)
  then have "pc_path ` set (po_clients ?out) \<subseteq> path_join d ` client_names"
    by (auto simp: build_per_client_outputs_def Let_def)
  moreover have "fst ` set ts' = pc_path ` set (po_clients ?out)"
    using arg_cong [OF client_texts_paths [OF ts(2)], of set] by simp
  moreover have "po_config_toml_path ?out \<in> path_join d ` client_names"
    by (simp add: build_per_client_outputs_def client_names_def Let_def)
  ultimately show ?thesis using ts(1) by auto
qed

lemma run_per_client_frame:
  assumes "run_per_client_generate x app w = (res, w')"
  shows "sw_spawned w' = sw_spawned w \<and> (wz_dry_run app \<longrightarrow> w' = w) \<and>
    (\<forall>q. q \<notin> os_loc (xo_os x) ` path_join (default_mux_dir (xo_home x)) ` client_names \<longrightarrow> sw_files w' q = sw_files w q)"
proof -
  let ?out = "build_per_client_outputs (selected_scans (env_of x w) app) (default_mux_dir (xo_home x)) ''rust-mux-proxy'' []"
  show ?thesis
  proof (cases "per_client_texts (xo_printers x) ?out")
    case (Inl e)
    with assms show ?thesis by (auto simp: run_per_client_generate_def Let_def split: if_splits)
  next
    case (Inr ts)
    have frame: "snd (write_per_client_outputs (xo_os x) ?out ts fl) q = fl q"
      if "q \<notin> os_loc (xo_os x) ` path_join (default_mux_dir (xo_home x)) ` client_names" for q fl
      unfolding write_per_client_outputs_def
      by (rule with_mux_dirs_frame, unfold snd_case_result, rule write_files_frame)
        (use that per_client_paths [OF Inr] in blast)
    obtain r fl where wr: "write_per_client_outputs (xo_os x) ?out ts (sw_files w) = (r, fl)" by (metis surj_pair)
    with frame [of _ "sw_files w"] assms Inr show ?thesis
      by (cases r) (auto simp: run_per_client_generate_def Let_def split: if_splits)
  qed
qed

lemma execute_action_frame:
  assumes ok: "os_ok os" and x: "execute_action os secs a fl = (r, fl1)"
    and q: "fl q \<noteq> None" "da_status a = Planned \<Longrightarrow> q \<noteq> os_loc os (hf_path (da_source a))"
  shows "fl1 q = fl q"
proof (cases "\<exists>c. da_status a = Planned \<and> da_new_contents a = Some c")
  case True
  then obtain c where c: "da_status a = Planned" "da_new_contents a = Some c" by blast
  obtain res fl' where w: "write_with_timestamped_backup os secs (hf_path (da_source a)) c fl = (res, fl')"
    by (metis surj_pair)
  with x c have "fl1 = fl'" by (cases res) (simp_all add: execute_action_def)
  with backup_frame [OF ok w q(1)] q(2) c(1) show ?thesis by simp
next
  case False
  then show ?thesis using x by (auto simp: execute_action_def split: danger_status.splits option.splits)
qed

lemma execute_actions_frame:
  assumes ok: "os_ok os" and x: "execute_actions os secs as fl = (outs, fl')"
    and q: "fl q \<noteq> None" "q \<notin> set (planned_locs os as)"
  shows "fl' q = fl q"
  using x q
proof (induction as arbitrary: fl outs)
  case (Cons a as)
  obtain r fl1 outs2 where a: "execute_action os secs a fl = (r, fl1)"
    and rest: "execute_actions os secs as fl1 = (outs2, fl')"
    using Cons.prems(1) by (auto simp: Let_def split: prod.splits)
  have "fl1 q = fl q"
    by (rule execute_action_frame [OF ok a Cons.prems(2)]) (use Cons.prems(3) in \<open>simp add: planned_locs_def\<close>)
  with Cons.IH [OF rest] Cons.prems(2,3) show ?case by (simp add: planned_locs_def split: if_splits)
qed simp

text \<open>The files the rewrite may replace.\<close>

definition rewire_paths :: "wizard \<Rightarrow> string set" where
  "rewire_paths a = {hf_path (so_host_file s) |s. s \<in> set (wz_sources a) \<and> source_usable s \<and>
     hf_eligible_for_danger (so_host_file s)}"

lemma scan_host: "wz_scan env h = Inr r \<Longrightarrow> sr_host r = h"
  by (auto simp: wz_scan_def scan_host_file_def Let_def split: sum.splits)

lemma danger_scan_path:
  assumes "s \<in> set (selected_danger_scans env a)"
  shows "hf_path (sr_host s) \<in> rewire_paths a"
proof -
  obtain r where r: "r \<in> set (source_scans env (wz_sources a))" "sr_host s = sr_host r" "hf_eligible_for_danger (sr_host r)"
    using assms by (auto simp: selected_danger_scans_def selected_scans_def)
  then obtain e where "e \<in> set (wz_sources a)" "source_usable e" "wz_scan env (so_host_file e) = Inr r"
    by (auto simp: source_scans_def List.map_filter_def ok_of_def split: sum.splits)
  with r scan_host show ?thesis unfolding rewire_paths_def by fastforce
qed

lemma planned_locs_scans:
  assumes "l \<in> set (planned_locs os (dp_actions (plan_danger_rewrite_for_scans fm fs scans cmd args dir)))"
  shows "\<exists>s \<in> set scans. l = os_loc os (hf_path (sr_host s))"
  using assms
  by (auto simp: planned_locs_def plan_danger_rewrite_for_scans_def skip_action_def empty_action_def
      rewrite_action_def Let_def split: if_splits sum.splits)

lemma run_danger_frame:
  assumes ok: "os_ok (xo_os x)" and "run_danger_auto_configure x app w = (res, w')"
  shows "sw_spawned w' = sw_spawned w \<and>
    (sw_files w' \<noteq> sw_files w \<longrightarrow> \<not> wz_dry_run app \<and> (\<exists>line. xo_answer x = Inr line \<and> trim line = ''CONFIRM'')) \<and>
    (\<forall>q. sw_files w q \<noteq> None \<longrightarrow> q \<notin> os_loc (xo_os x) ` rewire_paths app \<longrightarrow> sw_files w' q = sw_files w q)"
proof -
  let ?scans = "selected_danger_scans (env_of x w) app"
  let ?plan = "danger_plan_for x w ?scans"
  obtain outs fl' where ex: "execute_actions (xo_os x) (xo_secs x) (dp_actions ?plan) (sw_files w) = (outs, fl')"
    by (metis surj_pair)
  then have plan: "execute_plan (xo_os x) (xo_secs x) ?plan True (sw_files w) = (Inr outs, fl')"
    by (simp add: execute_plan_def)
  have frame: "fl' q = sw_files w q" if "sw_files w q \<noteq> None" "q \<notin> os_loc (xo_os x) ` rewire_paths app" for q
  proof (rule execute_actions_frame [OF ok ex that(1)])
    show "q \<notin> set (planned_locs (xo_os x) (dp_actions ?plan))"
      using that(2) planned_locs_scans danger_scan_path unfolding danger_plan_for_def by blast
  qed
  show ?thesis
  proof (cases "xo_answer x")
    case (Inl e)
    with assms(2) show ?thesis by (auto simp: run_danger_auto_configure_def Let_def split: if_splits)
  next
    case (Inr line)
    with assms(2) plan frame show ?thesis
      by (auto simp: run_danger_auto_configure_def Let_def split: if_splits)
  qed
qed

lemma tray_frame:
  "sw_files (tray_and_print x app w) = sw_files w"
  "\<exists>acts. sw_spawned (tray_and_print x app w) = sw_spawned w @ acts \<and> (wz_dry_run app \<longrightarrow> acts = [])"
  by (auto simp: tray_and_print_def start_tray_daemon_def Let_def split: sum.split)

lemma loop_dry: "wizard_loop ks a = Some (a', rest) \<Longrightarrow> wz_dry_run a' = wz_dry_run a"
  by (induction ks a rule: wizard_loop.induct) (auto split: prod.splits if_splits dest: wizard_key_dry)

lemma step5_frame:
  assumes "advance_to_step5 x summary ks app w = Some (res, app', w')"
  shows "sw_files w' = sw_files w \<and> (\<exists>acts. sw_spawned w' = sw_spawned w @ acts \<and> (wz_dry_run app \<longrightarrow> acts = []))"
proof -
  define app1 where "app1 = app\<lparr>wz_step := ResultAndTray, wz_tray_choice := NoTray, wz_strategy_result := Some summary,
      wz_message := ''STEP 5: Up/Down to choose, Enter to confirm, q to quit.''\<rparr>"
  have dry: "wz_dry_run app1 = wz_dry_run app" by (simp add: app1_def)
  obtain app2 rest where loop: "wizard_loop ks app1 = Some (app2, rest)"
    using assms unfolding advance_to_step5_def Let_def app1_def [symmetric] by (cases "wizard_loop ks app1") auto
  then have w': "w' = (if wz_pending_action app2 = Some StartTrayDaemon then tray_and_print x (app2\<lparr>wz_pending_action := None\<rparr>) w else w)"
    using assms unfolding advance_to_step5_def Let_def app1_def [symmetric] by simp
  show ?thesis
    using tray_frame(2) [of x "app2\<lparr>wz_pending_action := None\<rparr>" w] loop_dry [OF loop] dry w'
    by (simp add: tray_frame(1))
qed

text \<open>Which existing files a strategy may replace.\<close>

definition strategy_target :: "setup_os \<Rightarrow> wizard \<Rightarrow> string \<Rightarrow> bool" where
  "strategy_target x a q = (let loc = os_loc (xo_os x); in_mux = path_join (default_mux_dir (xo_home x)) in
     case wz_strategy a of
       Unified \<Rightarrow> q \<in> loc ` in_mux ` unified_names
     | PerClient \<Rightarrow> q \<in> loc ` in_mux ` client_names
     | AutoRewire \<Rightarrow> q \<in> loc ` rewire_paths a \<and> (\<exists>line. xo_answer x = Inr line \<and> trim line = ''CONFIRM''))"

definition only_targets :: "setup_os \<Rightarrow> wizard \<Rightarrow> setup_world \<Rightarrow> setup_world \<Rightarrow> bool" where
  "only_targets x a w w' \<longleftrightarrow>
     (\<exists>acts. sw_spawned w' = sw_spawned w @ acts \<and> (wz_dry_run a \<longrightarrow> sw_files w' = sw_files w \<and> acts = [])) \<and>
     (\<forall>q. sw_files w q \<noteq> None \<longrightarrow> sw_files w' q \<noteq> sw_files w q \<longrightarrow> strategy_target x a q)"

lemma run_strategy_targets:
  assumes ok: "os_ok (xo_os x)" and run: "run_strategy (wz_strategy a) x a w = (res, w')"
  shows "only_targets x a w w' \<and> sw_spawned w' = sw_spawned w"
proof (cases "wz_strategy a")
  case Unified
  then show ?thesis using run_unified_frame [of x a w res w'] run
    by (auto simp: only_targets_def strategy_target_def Let_def)
next
  case PerClient
  then show ?thesis using run_per_client_frame [of x a w res w'] run
    by (auto simp: only_targets_def strategy_target_def Let_def)
next
  case AutoRewire
  then have fr: "sw_spawned w' = sw_spawned w"
    "sw_files w' \<noteq> sw_files w \<Longrightarrow> \<not> wz_dry_run a \<and> (\<exists>line. xo_answer x = Inr line \<and> trim line = ''CONFIRM'')"
    "\<And>q. sw_files w q \<noteq> None \<Longrightarrow> q \<notin> os_loc (xo_os x) ` rewire_paths a \<Longrightarrow> sw_files w' q = sw_files w q"
    using run_danger_frame [OF ok, of a w res w'] run by auto
  have "strategy_target x a q" if "sw_files w q \<noteq> None" "sw_files w' q \<noteq> sw_files w q" for q
  proof -
    have "sw_files w' \<noteq> sw_files w" using that(2) by metis
    with fr(2) fr(3) [OF that(1)] that(2) show ?thesis
      unfolding strategy_target_def AutoRewire by (simp add: Let_def) blast
  qed
  then show ?thesis using fr(1,2) by (auto simp: only_targets_def)
qed

lemma drain_targets:
  assumes ok: "os_ok (xo_os x)" and pend: "wz_pending_action a = None"
    and run: "drain_pending_actions x ks (queue_pending_for_strategy a) w = Some (res, a', w')"
  shows "only_targets x a w w'"
proof -
  have app: "queue_pending_for_strategy a\<lparr>wz_pending_action := None\<rparr> = a"
    using pend by (cases a) (simp add: queue_pending_for_strategy_def)
  obtain r w1 where st: "run_strategy (wz_strategy a) x a w = (r, w1)" by (metis surj_pair)
  have w1: "only_targets x a w w1" "sw_spawned w1 = sw_spawned w" using run_strategy_targets [OF ok st] by simp_all
  have "drain_pending_actions x ks (queue_pending_for_strategy a) w = (case r of
      Inl e \<Rightarrow> Some (Inl e, a, w1)
    | Inr summary \<Rightarrow> advance_to_step5 x summary ks a (println ([nl] @ summary) w1))"
    using st app by (cases "wz_strategy a")
      (simp_all add: drain_pending_actions_def Let_def queue_pending_for_strategy_def)
  with run have "sw_files w' = sw_files w1 \<and> (\<exists>acts. sw_spawned w' = sw_spawned w1 @ acts \<and> (wz_dry_run a \<longrightarrow> acts = []))"
    by (cases r) (auto dest!: step5_frame)
  with w1 show ?thesis by (auto simp: only_targets_def)
qed

lemma noninteractive_keeps:
  assumes ok: "os_ok (xo_os x)" and run: "run_noninteractive_dry_run x imports cfg st w = (res, w')"
  shows "sw_files w' = sw_files w \<and> (\<exists>probes. sw_spawned w' = sw_spawned w @ probes \<and> set probes \<subseteq> {ps_command, pip_command})"
proof -
  let ?app = "dry_run_app x imports cfg st w"
  obtain r w2 where st: "run_strategy (wz_strategy ?app) x ?app (print_selected ?app (started_by ?app w)) = (r, w2)"
    by (metis surj_pair)
  have "wz_dry_run ?app" by (simp add: dry_run_app_def Let_def case_prod_unfold)
  with run_strategy_targets [OF ok st] have w2: "sw_files w2 = sw_files w" "sw_spawned w2 = sw_spawned w @ wz_started ?app"
    by (simp_all add: only_targets_def print_selected_def started_by_def)
  have "set (wz_started ?app) \<subseteq> {ps_command, pip_command}"
    using build_services_started by (simp add: dry_run_app_def Let_def case_prod_unfold)
  with w2 run st show ?thesis by (cases r) (auto simp: run_noninteractive_dry_run_def Let_def)
qed

text \<open>C4: the wizard acts only on a confirmed summary.  Whatever the run starts before, on a terminal or as a dry run, is
  one of its two probes: the list of processes and the question to \<open>pip\<close>.  If it has changed any file
  or started any other process, then it ran on a terminal and not as a dry run, and the operator pressed Enter
  on Confirm in step 4 with at least one server selected.  Of the files that existed, only those the
  chosen strategy owns can have changed: the generated files of the mux directory, or, for the
  rewrite and after CONFIRM was typed, the files of selected, readable and eligible sources.\<close>

theorem wizard_acts_only_confirmed:
  assumes ok: "os_ok (xo_os x)"
    and run: "run_wizard x tty config imports strat dry ks w = Some (res, w')"
  shows "\<exists>probes acts. sw_spawned w' = sw_spawned w @ probes @ acts \<and> set probes \<subseteq> {ps_command, pip_command} \<and>
    (sw_files w' \<noteq> sw_files w \<or> acts \<noteq> [] \<longrightarrow>
      tty \<and> \<not> dry \<and> (\<exists>ks1 env rest a. ks = ks1 @ (env, KEnter) # rest \<and>
      a = after_keys ks1 (wizard_start (env_of x w) config imports strat dry) \<and>
      wz_step a = SummaryConfirm \<and> wz_summary_action a = Confirm \<and> (\<exists>e \<in> set (wz_services a). sy_selected e) \<and>
      (\<forall>q. sw_files w q \<noteq> None \<longrightarrow> sw_files w' q \<noteq> sw_files w q \<longrightarrow> strategy_target x a q)))"
proof (cases tty)
  case False
  then have "sw_files w' = sw_files w \<and> (\<exists>probes. sw_spawned w' = sw_spawned w @ probes \<and> set probes \<subseteq> {ps_command, pip_command})"
  proof (cases dry)
    case True
    with False run noninteractive_keeps [OF ok] show ?thesis
      by (auto simp: run_wizard_def Let_def split: if_splits prod.splits)
  qed (use False run in \<open>auto simp: run_wizard_def\<close>)
  then obtain probes where "sw_files w' = sw_files w" "sw_spawned w' = sw_spawned w @ probes"
    "set probes \<subseteq> {ps_command, pip_command}" by blast
  then show ?thesis by (intro exI [of _ probes] exI [of _ "[]"]) simp
next
  case True
  let ?start = "wizard_start (env_of x w) config imports strat dry"
  obtain a1 rest a' where loop: "wizard_loop ks ?start = Some (a1, rest)"
    and drain: "drain_pending_actions x rest a1 (started_by a1 w) = Some (res, a', w')"
    using run True by (auto simp: run_wizard_def run_tui_def bind_eq_Some_conv)
  have probes: "set (wz_started a1) \<subseteq> {ps_command, pip_command}"
    using loop_started [OF loop] by (simp add: wizard_start_def)
  obtain ks1 env k where ks: "ks = ks1 @ (env, k) # rest" and reach: "wizard_reach dry (after_keys ks1 ?start)"
    and key: "wizard_key env k (after_keys ks1 ?start) = (True, a1)"
    using loop_end [OF loop wizard_reach.start] by blast
  let ?a = "after_keys ks1 ?start"
  have inv: "wizard_ok ?a" and dry: "wz_dry_run ?a = dry" using reach_ok [OF reach] reach_dry [OF reach] by simp_all
  show ?thesis
  proof (cases "a1 = ?a")
    case True
    with drain inv have "w' = started_by a1 w" by (auto simp: drain_pending_actions_def wizard_ok_def)
    with probes show ?thesis by (intro exI [of _ "wz_started a1"] exI [of _ "[]"]) (simp add: started_by_def)
  next
    case False
    with wizard_key_end [OF inv key] have step: "wz_step ?a = SummaryConfirm" "wz_summary_action ?a = Confirm" "k = KEnter"
      and a1: "a1 = queue_pending_for_strategy ?a" by auto
    have "only_targets x ?a (started_by a1 w) w'"
      unfolding a1 by (rule drain_targets [OF ok _ drain [unfolded a1]]) (use inv in \<open>simp add: wizard_ok_def\<close>)
    then obtain acts where t: "dry \<longrightarrow> sw_files w' = sw_files w \<and> acts = []" "sw_spawned w' = sw_spawned w @ wz_started a1 @ acts"
      "\<forall>q. sw_files w q \<noteq> None \<longrightarrow> sw_files w' q \<noteq> sw_files w q \<longrightarrow> strategy_target x ?a q"
      using dry by (auto simp: only_targets_def started_by_def)
    have "\<exists>e \<in> set (wz_services ?a). sy_selected e" using inv step(1) by (simp add: wizard_ok_def)
    with t probes ks step True show ?thesis by blast
  qed
qed

section \<open>The review is complete\<close>

text \<open>the review lists every server, whatever runs.  When step 1 is left, every server of every
  selected readable source is in the list and selected, with its command, arguments, directory,
  socket and environment, under its name or its name with a \<open>-from-\<close> suffix; and whatever is selected
  there is such a server, attributed to a scanned client, or the first-party server.  Running
  processes add process ids and unselected entries, no more.\<close>

theorem review_lists_every_service:
  fixes env a
  defines "scans \<equiv> source_scans env (wz_sources a)"
    and "listed \<equiv> wz_services (advance_to_step2 env a)"
  assumes ok: "\<forall>s \<in> set scans. \<forall>v \<in> set (sr_services s). service_ok v"
  shows "(\<forall>s \<in> set scans. \<forall>v \<in> set (sr_services s). \<exists>e \<in> set listed. sy_selected e \<and> lists_service e v) \<and>
    (\<forall>e \<in> set listed. sy_selected e \<longrightarrow>
      (\<exists>s \<in> set scans. \<exists>v \<in> set (sr_services s). lists_service e v \<and>
         (\<exists>h \<in> set scans. sy_source e = SrcClient (hf_kind (sr_host h)) (hf_path (sr_host h)))) \<or>
      (\<exists>d. snd (discover_vibecrafted_mcp (we_formats env) (we_fs env) (we_home env) (we_probes env)) = Some d \<and>
         sy_name e = dm_name d \<and> sy_config e = service_config (into_host_service d)))"
proof -
  let ?built = "build_services_from_scans scans"
  let ?base = "snd (append_default_services (we_formats env) (we_fs env) (we_home env) (we_probes env) ?built)"
  note rv = review_list(2) [of env "wz_sources a", folded scans_def listed_eq, folded listed_def]
  have "\<exists>e \<in> set listed. sy_selected e \<and> lists_service e v" if "s \<in> set scans" "v \<in> set (sr_services s)" for s v
    using review_covers [of env a, folded scans_def listed_def, OF ok that] by blast
  moreover have "(\<exists>s \<in> set scans. \<exists>v \<in> set (sr_services s). lists_service e v \<and>
         (\<exists>h \<in> set scans. sy_source e = SrcClient (hf_kind (sr_host h)) (hf_path (sr_host h)))) \<or>
      (\<exists>d. snd (discover_vibecrafted_mcp (we_formats env) (we_fs env) (we_home env) (we_probes env)) = Some d \<and>
         sy_name e = dm_name d \<and> sy_config e = service_config (into_host_service d))"
    if e: "e \<in> set listed" "sy_selected e" for e
  proof -
    obtain b where b: "b \<in> set ?base" and eq: "sy_name e = sy_name b" "sy_config e = sy_config b" "sy_source e = sy_source b"
      using rv e by blast
    show ?thesis
    proof (cases "b \<in> set ?built")
      case True
      from built_entry [OF this] obtain s v h where v: "s \<in> set scans" "v \<in> set (sr_services s)"
        and c: "sy_config b = service_config (v\<lparr>sv_name := sy_name b\<rparr>)" "kept_name (sv_name v) (sy_name b)"
        and h: "find (\<lambda>x. svc_key (snd x) = svc_key v) (all_entries scans) = Some h"
          "sy_source b = SrcClient (hf_kind (fst h)) (hf_path (fst h))" by blast
      have "h \<in> set (all_entries scans)" using h(1) by (auto simp: find_Some_iff)
      then obtain s' where "s' \<in> set scans" "fst h = sr_host s'" by (auto simp: all_entries_iff)
      moreover have "env_equal (sv_env v) (sv_env v)"
        using ok v equivalent_refl [of v] by (simp add: services_equivalent_def)
      then have "lists_service e v"
        using c eq by (simp add: lists_service_def service_config_def discovered_config_def)
      ultimately show ?thesis using v h(2) eq(3) by metis
    next
      case False
      with b eq show ?thesis by (auto simp: append_default_services_def split: option.splits)
    qed
  qed
  ultimately show ?thesis by blast
qed

section \<open>The selection is respected\<close>

lemma sort_by_fst: "sort_by cmp_fst m = sort_key fst m"
proof -
  have "insert_by cmp_fst = insort_key fst"
  proof (intro ext)
    fix x ys show "insert_by cmp_fst x ys = insort_key fst x ys"
      by (induction ys) (auto simp: cmp_fst_def not_less)
  qed
  then show ?thesis by (simp add: sort_by_def sort_key_def)
qed

lemma sort_env_eq:
  assumes "hm_ok a" "hm_ok b" "hm_eq a b"
  shows "sort_by cmp_fst a = sort_by cmp_fst b"
proof -
  have sub: "set a \<subseteq> set b" using assms(3) by (auto simp: hm_eq_def list_all_iff dest!: map_of_SomeD)
  moreover have "card (set a) = card (set b)"
    using assms distinct_card [of a] distinct_card [of b] by (simp add: hm_eq_def distinct_map)
  ultimately have eq: "set a = set b" by (simp add: card_subset_eq)
  have inj: "inj_on fst (set b)" using assms(2) by (simp add: distinct_map)
  show ?thesis unfolding sort_by_fst
    by (rule map_sorted_distinct_set_unique [of fst])
      (use assms(1,2) inj eq in \<open>simp_all add: distinct_map\<close>)
qed

lemma listed_matches:
  assumes e: "e \<in> set (wz_services app)" "sy_selected e" and l: "lists_service e v"
    and ok: "service_ok v" "entry_env_ok e"
  shows "filter_matches (filter_from_app app) v"
proof -
  have env: "sorted_env (sc_env (sy_config e)) = sorted_env (sv_env v)"
    using l ok sort_env_eq by (auto simp: lists_service_def env_equal_def sorted_env_def service_ok_def
      entry_env_ok_def split: option.splits)
  have shape: "entry_shape e = service_shape v"
    using l env by (simp add: entry_shape_def service_shape_def lists_service_def)
  show ?thesis
  proof (cases "sy_name e = sv_name v")
    case True
    have "(sy_name e, entry_shape e) \<in> set (sf_exact (filter_from_app app))"
      using e by (auto simp: filter_from_app_def Let_def)
    then show ?thesis by (simp add: filter_matches_def True shape)
  next
    case False
    then obtain t where "sy_name e = sv_name v @ ''-from-'' @ t"
      using l by (auto simp: lists_service_def kept_name_def starts_with_iff)
    then have "str_contains (sy_name e) ''-from-''" unfolding str_contains_iff by blast
    then have "entry_shape e \<in> set (sf_conflict_shapes (filter_from_app app))"
      using e by (auto simp: filter_from_app_def Let_def)
    then show ?thesis by (simp add: filter_matches_def shape)
  qed
qed

text \<open>the strategies see the selection of step 2.  When nothing was unticked, the scans the
  per-client files and the rewrite work on hold every server of every selected source.  And whatever
  was ticked or unticked, a server they hold has the command, arguments, socket and environment of a
  ticked entry, which has the server's name or a name with \<open>-from-\<close> in it.\<close>

theorem selection_respected:
  assumes ok: "\<forall>s \<in> set (source_scans env (wz_sources a)). \<forall>v \<in> set (sr_services s). service_ok v"
  shows "selected_scans env (advance_to_step2 env a) = source_scans env (wz_sources a) \<and>
    (\<forall>s \<in> set (selected_scans env app). \<forall>v \<in> set (sr_services s). \<exists>e \<in> set (wz_services app).
      sy_selected e \<and> entry_shape e = service_shape v \<and>
      (sy_name e = sv_name v \<or> str_contains (sy_name e) ''-from-''))"
proof
  let ?app = "advance_to_step2 env a"
  have "filter (filter_matches (filter_from_app ?app)) (sr_services s) = sr_services s"
    if "s \<in> set (source_scans env (wz_sources a))" for s
    unfolding filter_id_conv using review_covers [OF ok that] listed_matches ok that by blast
  moreover have "wz_sources ?app = wz_sources a"
    by (simp add: advance_to_step2_def update_step2_message_def split: prod.split)
  ultimately show "selected_scans env ?app = source_scans env (wz_sources a)"
    by (simp add: selected_scans_def map_idI)
  show "\<forall>s \<in> set (selected_scans env app). \<forall>v \<in> set (sr_services s). \<exists>e \<in> set (wz_services app).
      sy_selected e \<and> entry_shape e = service_shape v \<and>
      (sy_name e = sv_name v \<or> str_contains (sy_name e) ''-from-'')"
    by (auto simp: selected_scans_def filter_matches_def filter_from_app_def Let_def)
qed

section \<open>Examples\<close>

definition example_client_file :: json where
  "example_client_file = JObj [(''mcpServers'', JObj [
     (''memory'', JObj [(''args'', JArr [JStr ''server-memory'']), (''command'', JStr ''npx'')])])]"

definition example_setup :: setup_os where
  "example_setup = \<lparr>xo_os = flat_os, xo_home = None,
     xo_formats = \<lparr>parse_json = (\<lambda>s. if s = ''A'' then Some example_client_file else None), print_json = (\<lambda>_. ''B''),
       parse_toml = (\<lambda>_. None), print_toml = (\<lambda>_. None)\<rparr>,
     xo_printers = \<lparr>pn_config_toml = (\<lambda>_. Some ''c''), pn_client_json = (\<lambda>_. Some ''j''), pn_client_toml = (\<lambda>_. Some ''t'')\<rparr>,
     xo_probes = \<lparr>pr_ps = None, pr_pip = True, pr_connects = (\<lambda>_. False)\<rparr>, xo_secs = 7,
     xo_answer = Inr ''CONFIRM'', xo_current_exe = None, xo_spawn = (\<lambda>_ _. Inr 42)\<rparr>"

definition example_world :: setup_world where
  "example_world = \<lparr>sw_files = [''.claude.json'' \<mapsto> ''A''], sw_spawned = [], sw_console = []\<rparr>"

definition example_wizard_env :: wizard_env where
  "example_wizard_env = env_of example_setup example_world"

definition example_keys :: keys where
  "example_keys = map (Pair example_wizard_env) [KChar CHR ''n'', KEnter, KEnter, KEnter, KUp, KEnter]"

theorem wizard_acts_only_confirmed_witness:
  "\<exists>res w'. run_wizard example_setup True None [] None False example_keys example_world = Some (res, w') \<and>
     sw_files w' ''config.toml'' = Some ''c'' \<and> sw_files w' ''.claude.json'' = Some ''A'' \<and>
     sw_spawned w' = [pip_command, ps_command, (''rust-mux'', [''--tray'', ''--config'', ''~/.config/mux/config.toml''])] \<and>
     (\<exists>ks1 env rest. example_keys = ks1 @ (env, KEnter) # rest \<and>
       wz_step (after_keys ks1 (wizard_start example_wizard_env None [] None False)) = SummaryConfirm)"
proof -
  let ?run = "run_wizard example_setup True None [] None False example_keys example_world"
  have "case ?run of None \<Rightarrow> False | Some (res, w') \<Rightarrow> sw_files w' ''config.toml'' = Some ''c'' \<and>
      sw_files w' ''.claude.json'' = Some ''A'' \<and>
      sw_spawned w' = [pip_command, ps_command, (''rust-mux'', [''--tray'', ''--config'', ''~/.config/mux/config.toml''])]"
    by code_simp
  then obtain res w' where run: "?run = Some (res, w')" and w: "sw_files w' ''config.toml'' = Some ''c''"
    "sw_files w' ''.claude.json'' = Some ''A''"
    "sw_spawned w' = [pip_command, ps_command, (''rust-mux'', [''--tray'', ''--config'', ''~/.config/mux/config.toml''])]"
    by (auto split: option.splits)
  have ok: "os_ok (xo_os example_setup)" using flat_os_ok by (simp add: example_setup_def)
  have acts: "sw_files w' \<noteq> sw_files example_world" using w(1) by (auto simp: example_world_def)
  from wizard_acts_only_confirmed [OF ok run] acts obtain ks1 env rest where
    "example_keys = ks1 @ (env, KEnter) # rest"
    "wz_step (after_keys ks1 (wizard_start example_wizard_env None [] None False)) = SummaryConfirm"
    unfolding example_wizard_env_def by blast
  with run w show ?thesis by blast
qed

definition example_review :: wizard where
  "example_review = advance_to_step2 example_wizard_env (wizard_start example_wizard_env None [] None False)"

theorem selection_respected_witness:
  "map sr_services (selected_scans example_wizard_env example_review) =
     [[\<lparr>sv_name = ''memory'', sv_command = ''npx'', sv_args = [''server-memory''], sv_cwd = None, sv_socket = None,
        sv_env = None, sv_enabled = None\<rparr>]]"
proof -
  let ?a = "wizard_start example_wizard_env None [] None False"
  have scans: "map sr_services (source_scans example_wizard_env (wz_sources ?a)) =
     [[\<lparr>sv_name = ''memory'', sv_command = ''npx'', sv_args = [''server-memory''], sv_cwd = None, sv_socket = None,
        sv_env = None, sv_enabled = None\<rparr>]]" by code_simp
  have ok: "\<forall>s \<in> set (source_scans example_wizard_env (wz_sources ?a)). \<forall>v \<in> set (sr_services s). service_ok v" by code_simp
  from selection_respected [OF ok] scans show ?thesis by (simp add: example_review_def)
qed

theorem review_lists_every_service_witness:
  "\<exists>e \<in> set (wz_services example_review). sy_selected e \<and> lists_service e
     \<lparr>sv_name = ''memory'', sv_command = ''npx'', sv_args = [''server-memory''], sv_cwd = None, sv_socket = None,
      sv_env = None, sv_enabled = None\<rparr>"
proof -
  let ?a = "wizard_start example_wizard_env None [] None False"
  let ?v = "\<lparr>sv_name = ''memory'', sv_command = ''npx'', sv_args = [''server-memory''], sv_cwd = None, sv_socket = None,
      sv_env = None, sv_enabled = None\<rparr>"
  have ok: "\<forall>s \<in> set (source_scans example_wizard_env (wz_sources ?a)). \<forall>v \<in> set (sr_services s). service_ok v" by code_simp
  have "\<exists>s \<in> set (source_scans example_wizard_env (wz_sources ?a)). ?v \<in> set (sr_services s)" by code_simp
  with review_lists_every_service [OF ok] show ?thesis by (auto simp: example_review_def)
qed

text \<open>A selected first-party server is lost by the per-client strategy: it is ticked in step 2, but
  the daemon's configuration is built from the client files alone.\<close>

theorem per_client_drops_first_party:
  "map (\<lambda>e. (sy_name e, sy_selected e)) (wz_services example_review) = [(''memory'', True), (''vibecrafted-mcp'', True)] \<and>
   map fst (po_config (build_per_client_outputs (selected_scans example_wizard_env example_review) ''/m'' ''rust-mux-proxy'' [])) =
     [''memory''] \<and>
   map fst (mo_config (build_mux_outputs (build_merge_from_services example_review) ''/m'' ''rust-mux-proxy'' [])) =
     [''memory'', ''vibecrafted-mcp'']"
  by code_simp

text \<open>An unticked server can be rewritten: its shape is that of a ticked server that was renamed.\<close>

definition twin_scans :: "scan_result list" where
  "twin_scans = [\<lparr>sr_host = example_host Claude, sr_services = [example_svc ''a'' ''x'', example_svc ''b'' ''x'']\<rparr>,
     \<lparr>sr_host = example_host Codex, sr_services = [example_svc ''a'' ''y'']\<rparr>]"

definition twin_review :: wizard where
  "twin_review = example_review\<lparr>wz_services := map (\<lambda>e. e\<lparr>sy_selected := (sy_name e \<noteq> ''b'')\<rparr>)
     (build_services_from_scans twin_scans)\<rparr>"

theorem unticked_twin_kept:
  "map (\<lambda>e. (sy_name e, sy_selected e)) (wz_services twin_review) =
     [(''a-from-claude'', True), (''a-from-codex'', True), (''b'', False)] \<and>
   map (\<lambda>s. map sv_name (filter (filter_matches (filter_from_app twin_review)) (sr_services s))) twin_scans =
     [[''a'', ''b''], [''a'']]"
  by code_simp

text \<open>The health of a detected process never reaches step 2: entries without a socket, and orphans have
  none, are reset to unknown.\<close>

theorem socketless_health_unknown:
  "e \<in> set (wz_services (advance_to_step2 env a)) \<Longrightarrow> sc_socket (sy_config e) = None \<Longrightarrow> sy_health e = HealthUnknown"
  by (auto simp: listed_eq build_services_for_selected_sources_def check_health_def case_prod_unfold Let_def)

end
