(* ===== verification/Host_Cli.thy ===== *)
theory Host_Cli
  imports Host_Setup
begin

text \<open>
  The commands \<open>scan\<close>, \<open>rewire\<close> and \<open>status\<close> of the command line (\<open>mux-agent/src/scan.rs\<close>): manifest and
  snippets on disk, the rewrite of one host file with a \<open>.bak\<close> file beside it, and the report which
  servers go through the proxy.  Files and printed text are those of \<open>setup_world\<close>; printing a value in
  one of the three formats is a parameter.
\<close>

section \<open>Arguments\<close>

record scan_args =
  sa_manifest :: "string option"
  sa_manifest_format :: string
  sa_snippet :: "string option"
  sa_snippet_format :: string
  sa_socket_dir :: string
  sa_dry_run :: bool

record rewire_args =
  ra_path :: "string option"
  ra_host :: "string option"
  ra_socket_dir :: string
  ra_proxy_cmd :: string
  ra_proxy_args :: "string list"
  ra_dry_run :: bool

record status_args =
  ta_path :: "string option"
  ta_host :: "string option"
  ta_proxy_cmd :: string

record rewire_outcome =
  ro_path :: string
  ro_backup :: "string option"
  ro_written :: bool

record cli_os =
  lo_os :: os_env
  lo_home :: "string option"
  lo_formats :: formats
  lo_print_config :: "string \<Rightarrow> config \<Rightarrow> string option"
  lo_print_value :: "string \<Rightarrow> json \<Rightarrow> string option"

definition cli_fs :: "cli_os \<Rightarrow> setup_world \<Rightarrow> fs_view" where
  "cli_fs x w = view_of (lo_os x) (sw_files w)"

definition cli_scan :: "cli_os \<Rightarrow> setup_world \<Rightarrow> host_file \<Rightarrow> string + scan_result" where
  "cli_scan x w = scan_host_file (parse_json (lo_formats x)) (print_toml (lo_formats x))
     (parse_toml (lo_formats x)) (cli_fs x w)"

section \<open>Printing\<close>

definition serialize_config :: "cli_os \<Rightarrow> config \<Rightarrow> string \<Rightarrow> string + string" where
  "serialize_config x cfg fmt =
     (if fmt = ''json'' then (case lo_print_config x ''json'' cfg of Some t \<Rightarrow> Inr t | None \<Rightarrow> Inl ''serialize json'')
      else if fmt = ''yaml'' \<or> fmt = ''yml''
      then (case lo_print_config x ''yaml'' cfg of Some t \<Rightarrow> Inr t | None \<Rightarrow> Inl ''serialize yaml'')
      else if fmt = ''toml'' then (case lo_print_config x ''toml'' cfg of Some t \<Rightarrow> Inr t | None \<Rightarrow> Inl ''serialize toml'')
      else Inl (''unsupported format '' @ fmt))"

definition serialize_snippet :: "cli_os \<Rightarrow> json \<Rightarrow> string \<Rightarrow> string + string" where
  "serialize_snippet x v fmt =
     (if fmt = ''json'' then (case lo_print_value x ''json'' v of Some t \<Rightarrow> Inr t | None \<Rightarrow> Inl ''serialize snippet json'')
      else if fmt = ''yaml'' \<or> fmt = ''yml''
      then (case lo_print_value x ''yaml'' v of Some t \<Rightarrow> Inr t | None \<Rightarrow> Inl ''serialize snippet yaml'')
      else if fmt = ''toml'' then (case lo_print_value x ''toml'' v of Some t \<Rightarrow> Inr t | None \<Rightarrow> Inl ''serialize snippet toml'')
      else Inl (''unsupported format '' @ fmt))"

definition format_for_host :: "host_file \<Rightarrow> string" where
  "format_for_host host = (case hf_format host of FmtJson \<Rightarrow> ''json'' | FmtToml \<Rightarrow> ''toml'')"

section \<open>Writing with a backup\<close>

text \<open>\<open>Path::with_extension\<close>: what follows the stem of the last name is replaced, a trailing slash or
  \<open>/.\<close> goes, the text before the name stays.\<close>

fun strip_tail_rev :: "string \<Rightarrow> string" where
  "strip_tail_rev (c # s) =
     (if c = CHR ''/'' then strip_tail_rev s
      else if c = CHR ''.'' \<and> s \<noteq> [] \<and> hd s = CHR ''/'' then strip_tail_rev s else c # s)"
| "strip_tail_rev [] = []"

definition with_extension :: "string \<Rightarrow> string \<Rightarrow> string" where
  "with_extension p ext = (case file_name p of
     None \<Rightarrow> p
   | Some n \<Rightarrow> (let s = rev (strip_tail_rev (rev p)) in
       take (length s - length n) s @ fst (split_name n) @ ''.'' @ ext))"

definition write_with_backup ::
  "os_env \<Rightarrow> string \<Rightarrow> string \<Rightarrow> bool \<Rightarrow> setup_world \<Rightarrow> (string + string option) \<times> setup_world" where
  "write_with_backup os p contents dry_run w =
     (if dry_run
      then (Inr None, println (''--- '' @ p @ '' (dry-run) ---'' @ [nl] @ contents) w)
      else if (case path_parent p of None \<Rightarrow> False | Some d \<Rightarrow> \<not> os_mkdir os d)
      then (Inl (''failed to create '' @ the (path_parent p)), w)
      else
        (let backup = with_extension p ''bak''; fl = sw_files w
         in case (if fv_exists (view_of os fl) p then copy_file os p backup fl else (True, fl)) of
              (False, fl1) \<Rightarrow> (Inl (''failed to create backup '' @ backup), w\<lparr>sw_files := fl1\<rparr>)
            | (True, fl1) \<Rightarrow> (case fs_write os p contents fl1 of
                (True, fl2) \<Rightarrow> (Inr (Some backup), w\<lparr>sw_files := fl2\<rparr>)
              | (False, fl2) \<Rightarrow> (Inl (''failed to write '' @ p), w\<lparr>sw_files := fl2\<rparr>))))"

section \<open>Rewire\<close>

text \<open>The rewritten document.  The snippet is printed and read back before it goes in.\<close>

definition merged_host_text :: "cli_os \<Rightarrow> host_file \<Rightarrow> string \<Rightarrow> string \<Rightarrow> string + string" where
  "merged_host_text x host snippet_text data =
     (case hf_format host of
        FmtJson \<Rightarrow>
          (case parse_json (lo_formats x) data of
             None \<Rightarrow> Inl (''failed to parse json '' @ hf_path host)
           | Some (JObj m) \<Rightarrow>
               (case parse_json (lo_formats x) snippet_text of
                  None \<Rightarrow> Inl ''parse snippet json''
                | Some sn \<Rightarrow>
                    (case lo_print_value x ''json'' (JObj (obj_insert ''mcpServers''
                        (case jget sn ''mcpServers'' of Some v \<Rightarrow> v | None \<Rightarrow> JObj []) m)) of
                       Some t \<Rightarrow> Inr t | None \<Rightarrow> Inl ''serialize merged json''))
           | Some _ \<Rightarrow> Inl ''host json must be an object'')
      | FmtToml \<Rightarrow>
          (case parse_toml (lo_formats x) data of
             None \<Rightarrow> Inl (''failed to parse toml '' @ hf_path host)
           | Some root \<Rightarrow>
               (case parse_toml (lo_formats x) snippet_text of
                  None \<Rightarrow> Inl ''parse snippet toml''
                | Some sn \<Rightarrow>
                    (case root of
                       JObj m \<Rightarrow>
                         (case lo_print_value x ''toml'' (JObj (obj_insert
                             (if hf_kind host = Codex then ''mcp_servers'' else ''mcpServers'')
                             (case jget sn ''mcpServers'' of Some v \<Rightarrow> v | None \<Rightarrow> JObj []) m)) of
                            Some t \<Rightarrow> Inr t | None \<Rightarrow> Inl ''serialize merged toml'')
                     | _ \<Rightarrow> Inl ''host toml must be a table''))))"

definition rewire_host ::
  "cli_os \<Rightarrow> host_file \<Rightarrow> string \<Rightarrow> string \<Rightarrow> string list \<Rightarrow> bool \<Rightarrow> setup_world \<Rightarrow> (string + rewire_outcome) \<times> setup_world" where
  "rewire_host x host socket_dir proxy_cmd proxy_args dry_run w =
     (case cli_scan x w host of
        Inl e \<Rightarrow> (Inl e, w)
      | Inr scan \<Rightarrow>
          (case hm_get (generate_snippet [scan] socket_dir proxy_cmd proxy_args) (hf_kind host) of
             None \<Rightarrow> (Inl ''no snippet generated for host'', w)
           | Some snippet \<Rightarrow>
               (case serialize_snippet x snippet (format_for_host host) of
                  Inl e \<Rightarrow> (Inl e, w)
                | Inr snippet_text \<Rightarrow>
                    (case safe_read_to_string (cli_fs x w) (hf_path host) of
                       Inl e \<Rightarrow> (Inl (''failed to read '' @ hf_path host), w)
                     | Inr data \<Rightarrow>
                         (case merged_host_text x host snippet_text data of
                            Inl e \<Rightarrow> (Inl e, w)
                          | Inr merged \<Rightarrow>
                              (case write_with_backup (lo_os x) (hf_path host) merged dry_run w of
                                 (Inl e, w') \<Rightarrow> (Inl e, w')
                               | (Inr backup, w') \<Rightarrow> (Inr \<lparr>ro_path = hf_path host, ro_backup = backup,
                                   ro_written = (\<not> dry_run)\<rparr>, w')))))))"

definition run_rewire_cmd :: "cli_os \<Rightarrow> rewire_args \<Rightarrow> setup_world \<Rightarrow> (string + unit) \<times> setup_world" where
  "run_rewire_cmd x a w =
     (case resolve_host (lo_home x) (fv_exists (cli_fs x w)) (ra_path a) (ra_host a) of
        Inl e \<Rightarrow> (Inl e, w)
      | Inr target \<Rightarrow>
          (case rewire_host x target (expand_path (lo_home x) (ra_socket_dir a)) (ra_proxy_cmd a) (ra_proxy_args a)
              (ra_dry_run a) w of
             (Inl e, w') \<Rightarrow> (Inl e, w')
           | (Inr out, w') \<Rightarrow> (Inr (), println ((if ra_dry_run a then ''Would have '' else []) @ ''rewired '' @
               ro_path out @ '' (backup: '' @ (case ro_backup out of Some b \<Rightarrow> b | None \<Rightarrow> ''none'') @ '')'') w')))"

section \<open>Scan\<close>

definition backup_note :: "string option \<Rightarrow> string" where
  "backup_note b = (case b of Some p \<Rightarrow> '' (backup '' @ p @ '')'' | None \<Rightarrow> [])"

definition dry_note :: "bool \<Rightarrow> string" where
  "dry_note d = (if d then ''(dry-run) '' else [])"

definition snippet_path :: "string \<Rightarrow> host_kind \<Rightarrow> string \<Rightarrow> string" where
  "snippet_path base kind fmt =
     (let stem = (case file_stem base of Some s \<Rightarrow> s | None \<Rightarrow> ''snippet'');
          parent = (case path_parent base of Some d \<Rightarrow> d | None \<Rightarrow> ''.'')
      in path_join parent (stem @ ''-'' @ as_label kind @ ''.'' @ fmt))"

text \<open>The snippets come from a hash map; the model takes them in the order of the scans.\<close>

fun emit_snippets ::
  "cli_os \<Rightarrow> scan_args \<Rightarrow> (host_kind \<times> json) list \<Rightarrow> setup_world \<Rightarrow> (string + unit) \<times> setup_world" where
  "emit_snippets x a [] w = (Inr (), w)"
| "emit_snippets x a ((kind, snippet) # rest) w =
     (let fmt = to_ascii_lowercase (sa_snippet_format a) in
      case serialize_snippet x snippet fmt of
        Inl e \<Rightarrow> (Inl e, w)
      | Inr t \<Rightarrow>
          (case sa_snippet a of
             Some base \<Rightarrow>
               (let p = snippet_path base kind fmt in
                case write_with_backup (lo_os x) p t (sa_dry_run a) w of
                  (Inl e, w') \<Rightarrow> (Inl e, w')
                | (Inr backup, w') \<Rightarrow> emit_snippets x a rest (println (''Snippet for '' @ as_label kind @ '' '' @
                    dry_note (sa_dry_run a) @ ''written to '' @ p @ backup_note backup) w'))
           | None \<Rightarrow> emit_snippets x a rest (println (''--- snippet ('' @ as_label kind @ '') ---'' @ [nl] @ t) w)))"

definition emit_manifest ::
  "cli_os \<Rightarrow> scan_args \<Rightarrow> scan_result list \<Rightarrow> config \<Rightarrow> setup_world \<Rightarrow> (string + unit) \<times> setup_world" where
  "emit_manifest x a scans manifest w =
     (case sa_manifest a of
        Some p \<Rightarrow>
          (case serialize_config x manifest (to_ascii_lowercase (sa_manifest_format a)) of
             Inl e \<Rightarrow> (Inl e, w)
           | Inr t \<Rightarrow>
               (case write_with_backup (lo_os x) p t (sa_dry_run a) w of
                  (Inl e, w') \<Rightarrow> (Inl e, w')
                | (Inr backup, w') \<Rightarrow> (Inr (), println (''Manifest '' @ dry_note (sa_dry_run a) @ ''written to '' @ p @
                    backup_note backup) w')))
      | None \<Rightarrow> (Inr (), println (''Discovered '' @ nat_str (length scans) @ '' host(s), '' @ nat_str (length manifest) @
          '' service(s). Use --manifest to save mux config.'') w))"

definition run_scan_cmd :: "cli_os \<Rightarrow> scan_args \<Rightarrow> setup_world \<Rightarrow> (string + unit) \<times> setup_world" where
  "run_scan_cmd x a w =
     (let socket_dir = expand_path (lo_home x) (sa_socket_dir a);
          scans = scan_hosts (parse_json (lo_formats x)) (print_toml (lo_formats x)) (parse_toml (lo_formats x))
            (cli_fs x w) (lo_home x)
      in if scans = [] then (Inr (), println ''No host configs discovered.'' w)
         else case emit_manifest x a scans (build_manifest scans socket_dir) w of
           (Inl e, w') \<Rightarrow> (Inl e, w')
         | (Inr _, w') \<Rightarrow>
             if sa_snippet a \<noteq> None \<or> sa_dry_run a
             then emit_snippets x a (generate_snippet scans socket_dir ''rust-mux-proxy'' []) w'
             else (Inr (), w'))"

section \<open>Status\<close>

text \<open>\<open>{:?}\<close> of a list of strings, for texts without characters that need an escape.\<close>

definition debug_args :: "string list \<Rightarrow> string" where
  "debug_args as = ''['' @ join '', '' (map quoted as) @ '']''"

definition status_line_of :: "string \<Rightarrow> host_service \<Rightarrow> string" where
  "status_line_of proxy_cmd svc =
     (if sv_command svc = proxy_cmd then '' - '' @ sv_name svc @ '': OK (via '' @ sv_command svc @ '')''
      else '' - '' @ sv_name svc @ '': NOT rewired (command='' @ [sq] @ sv_command svc @ [sq] @ '', args='' @
        debug_args (sv_args svc) @ '')'')"

definition run_status_cmd :: "cli_os \<Rightarrow> status_args \<Rightarrow> setup_world \<Rightarrow> (string + unit) \<times> setup_world" where
  "run_status_cmd x a w =
     (case resolve_host (lo_home x) (fv_exists (cli_fs x w)) (ta_path a) (ta_host a) of
        Inl e \<Rightarrow> (Inl e, w)
      | Inr target \<Rightarrow>
          (case cli_scan x w target of
             Inl e \<Rightarrow> (Inl e, w)
           | Inr scan \<Rightarrow>
               if sr_services scan = []
               then (Inr (), println (hf_path target @ '': no services found in config'') w)
               else (Inr (), fold println (map (status_line_of (ta_proxy_cmd a)) (sr_services scan))
                 (println (''Checking '' @ hf_path target @ '' ('' @ as_label (hf_kind target) @ '')'') w))))"

section \<open>Dry runs\<close>

lemma write_with_backup_dry: "sw_files (snd (write_with_backup os p t True w)) = sw_files w"
  by (simp add: write_with_backup_def)

lemma emit_snippets_dry: "sa_dry_run a \<Longrightarrow> sw_files (snd (emit_snippets x a ss w)) = sw_files w"
proof (induction ss arbitrary: w)
  case (Cons s ss)
  obtain kind v where s: "s = (kind, v)" by (cases s)
  have dry: "write_with_backup os p t True w = (Inr None, println (''--- '' @ p @ '' (dry-run) ---'' @ [nl] @ t) w)" for os p t
    by (simp add: write_with_backup_def)
  show ?case using Cons by (simp add: s dry Let_def split: sum.split option.split)
qed simp

text \<open>With \<open>--dry-run\<close> the commands leave every file as it is, and so does the status report.\<close>

theorem cli_dry_run_keeps_files:
  "sa_dry_run a \<Longrightarrow> sw_files (snd (run_scan_cmd x a w)) = sw_files w"
  "ra_dry_run b \<Longrightarrow> sw_files (snd (run_rewire_cmd x b w)) = sw_files w"
  "sw_files (snd (run_status_cmd x c w)) = sw_files w"
proof -
  have dry: "write_with_backup os p t True w = (Inr None, println (''--- '' @ p @ '' (dry-run) ---'' @ [nl] @ t) w)" for os p t
    by (simp add: write_with_backup_def)
  have manifest: "sw_files (snd (emit_manifest x a scans m w)) = sw_files w" if "sa_dry_run a" for scans m
    using that by (simp add: emit_manifest_def dry split: option.split sum.split)
  show "sw_files (snd (run_scan_cmd x a w)) = sw_files w" if d: "sa_dry_run a"
  proof -
    let ?scans = "scan_hosts (parse_json (lo_formats x)) (print_toml (lo_formats x)) (parse_toml (lo_formats x)) (cli_fs x w) (lo_home x)"
    let ?m = "build_manifest ?scans (expand_path (lo_home x) (sa_socket_dir a))"
    obtain r w1 where m: "emit_manifest x a ?scans ?m w = (r, w1)" by (metis surj_pair)
    with manifest [OF d, of ?scans ?m] have "sw_files w1 = sw_files w" by simp
    with m show ?thesis by (cases r) (simp_all add: run_scan_cmd_def Let_def emit_snippets_dry [OF d])
  qed
  have "sw_files (snd (rewire_host x h d cmd args True w)) = sw_files w" for h d cmd args
    by (simp add: rewire_host_def dry split: sum.split option.split)
  then show "sw_files (snd (run_rewire_cmd x b w)) = sw_files w" if "ra_dry_run b"
    using that by (simp add: run_rewire_cmd_def split: sum.split prod.split) (metis snd_conv)
  show "sw_files (snd (run_status_cmd x c w)) = sw_files w"
    by (simp add: run_status_cmd_def split: sum.split)
qed

section \<open>A rewired host reports OK\<close>

lemma dec_strings_map [simp]: "dec_strings (JArr (map JStr xs)) = Some xs"
  by (induction xs) (simp_all add: dec_strings_def)

lemma set_obj_insert: "set (obj_insert k v m) \<subseteq> insert (k, v) (set m)"
  by (induction k v m rule: obj_insert.induct) (auto split: if_splits)

lemma set_obj_of: "set (obj_of kvs) \<subseteq> set kvs"
proof -
  have "set (fold (\<lambda>(k, v) m. obj_insert k v m) kvs m) \<subseteq> set kvs \<union> set m" for m
    by (induction kvs arbitrary: m) (use set_obj_insert in fastforce)+
  from this [of "[]"] show ?thesis by (simp add: obj_of_def)
qed

lemma dec_pairs_strings:
  "\<forall>(k, v) \<in> set m. \<exists>s. v = JStr s \<Longrightarrow> \<exists>r. dec_pairs m = Some r \<and> (\<forall>k. map_of r k = Option.bind (map_of m k) as_str)"
proof (induction m)
  case (Cons kv m)
  then obtain k s r where "kv = (k, JStr s)" "dec_pairs m = Some r" "\<forall>k. map_of r k = Option.bind (map_of m k) as_str" by auto
  then show ?case by simp
qed simp

lemma map_of_find: "map_of m k = map_option snd (find (\<lambda>x. fst x = k) m)"
  by (induction m) auto

lemma map_of_obj_of: "distinct (map fst kvs) \<Longrightarrow> map_of (obj_of kvs) k = map_of kvs k"
  using obj_dict.get_fill_distinct [of fst kvs snd "[]" k]
  by (simp add: obj_of_def case_prod_unfold map_of_find split: option.split)

lemma dec_env_json:
  assumes "hm_ok env"
  shows "\<exists>r. dec_env (env_json env) = Some r \<and> map_of r = map_of env"
proof -
  let ?m = "obj_of (map (\<lambda>(k, v). (k, JStr v)) env)"
  have "\<forall>(k, v) \<in> set ?m. \<exists>s. v = JStr s" using set_obj_of [of "map (\<lambda>(k, v). (k, JStr v)) env"] by auto
  from dec_pairs_strings [OF this] obtain r where
    r: "dec_pairs ?m = Some r" "\<And>k. map_of r k = Option.bind (map_of ?m k) as_str" by blast
  have "distinct (map fst (map (\<lambda>(k, v). (k, JStr v)) env))" using assms by (simp add: comp_def case_prod_unfold)
  then have "map_of ?m k = map_option JStr (map_of env k)" for k
    by (simp add: map_of_obj_of map_of_map)
  then have "map_of r k = map_of env k" for k by (cases "map_of env k") (simp_all add: r(2))
  with r(1) show ?thesis by (auto simp: dec_env_def env_json_def)
qed

lemma proxy_entry_read:
  assumes "service_ok svc"
  shows "\<exists>s. Option.bind (raw_of_value (proxy_entry cmd args sock svc)) (service_of_raw name) = Some s \<and>
     sv_name s = name \<and> sv_command s = cmd \<and> sv_args s = args @ [''--socket'', sock] \<and>
     sv_cwd s = sv_cwd svc \<and> rel_option (\<lambda>a b. map_of a = map_of b) (sv_env s) (sv_env svc)"
proof -
  obtain r where r: "dec_opt dec_env (map_option env_json (sv_env svc)) = Some r"
    "rel_option (\<lambda>a b. map_of a = map_of b) r (sv_env svc)"
  proof (cases "sv_env svc")
    case (Some e)
    then obtain r where "dec_env (env_json e) = Some r" "map_of r = map_of e"
      using dec_env_json [of e] assms by (auto simp: service_ok_def)
    then show ?thesis using that [of "Some r"] Some by (simp add: dec_opt_def env_json_def)
  qed (use that [of None] in \<open>simp add: dec_opt_def\<close>)
  let ?as = "args @ [''--socket'', sock]"
  let ?fs = "[(''command'', JStr cmd), (''args'', JArr (map JStr ?as))] @
      (case sv_cwd svc of None \<Rightarrow> [] | Some cwd \<Rightarrow> [(''cwd'', JStr cwd)]) @
      (case sv_env svc of None \<Rightarrow> [] | Some env \<Rightarrow> [(''env'', env_json env)])"
  have get: "map_of (obj_of ?fs) ''command'' = Some (JStr cmd)"
    "map_of (obj_of ?fs) ''args'' = Some (JArr (map JStr ?as))"
    "map_of (obj_of ?fs) ''cwd'' = map_option JStr (sv_cwd svc)" "map_of (obj_of ?fs) ''socket'' = None"
    "map_of (obj_of ?fs) ''env'' = map_option env_json (sv_env svc)" "map_of (obj_of ?fs) ''enabled'' = None"
    by (auto simp: obj_of_def map_of_obj_insert split: option.splits)
  have fields: "dec_opt as_str (map_option JStr (sv_cwd svc)) = Some (sv_cwd svc)"
    "dec_opt as_str (Some (JStr cmd)) = Some (Some cmd)"
    "dec_opt dec_strings (Some (JArr (map JStr ?as))) = Some (Some ?as)"
    "dec_opt as_str None = Some None" "dec_opt dec_bool None = Some None"
    by (cases "sv_cwd svc", simp_all add: dec_opt_def del: map_append)
  show ?thesis unfolding proxy_entry_def raw_of_value_def
    by (simp only: json.case get raw_fields_def r(1) fields) (simp add: service_of_raw_def r(2))
qed

lemma read_back:
  assumes "\<And>p. os_loc os (os_loc os p) = os_loc os p" and "\<not> has_parent_component p" and "fl (os_loc os p) = Some c"
  shows "safe_read_to_string (view_of os fl) p = Inr c"
  using assms by (simp add: safe_read_to_string_def vetted_existing_file_def reject_parent_components_def view_of_def)

lemma write_with_backup_written:
  "write_with_backup os p c False w = (Inr b, w') \<Longrightarrow> sw_files w' (os_loc os p) = Some c"
  by (auto simp: write_with_backup_def Let_def fs_write_def split: if_splits prod.splits bool.splits write_result.splits)

lemma filter_key_single: "distinct (map f xs) \<Longrightarrow> x \<in> set xs \<Longrightarrow> filter (\<lambda>y. f y = f x) xs = [x]"
  by (induction xs) (auto simp: filter_empty_conv image_iff)

lemma fold_merge_single:
  "\<forall>g \<in> set gs. \<exists>x. snd g = [x] \<Longrightarrow>
     ma_services (fold merge_name gs acc) = ma_services acc @ map (\<lambda>g. snd (hd (snd g))) gs"
proof (induction gs arbitrary: acc)
  case (Cons g gs)
  then obtain x where "snd g = [x]" by auto
  then have "ma_services (merge_name g acc) = ma_services acc @ [snd x]"
    by (simp add: merge_name_def unique_variants_def push_unique_def)
  with Cons \<open>snd g = [x]\<close> show ?case by simp
qed simp

text \<open>One file with distinct server names has no conflicts: the merge changes nothing but the order.\<close>

lemma merge_one_file:
  assumes d: "distinct (map sv_name (sr_services scan))"
  shows "set (mo_services (merge_services [scan])) = set (sr_services scan)"
proof -
  let ?es = "all_entries [scan]"
  have es: "?es = map (\<lambda>v. (sr_host scan, v)) (sr_services scan)" by (simp add: all_entries_def)
  have de: "distinct (map (\<lambda>x. sv_name (snd x)) ?es)" using d by (simp add: es comp_def)
  have single: "\<exists>x \<in> set ?es. snd g = [x]" if g: "g \<in> set (group_by_name [scan])" for g
  proof -
    have "fst g \<in> set (map fst (group_by_name [scan]))" using g by simp
    from group_keys [OF this] obtain x where x: "x \<in> set ?es" "sv_name (snd x) = fst g" by blast
    have "snd g = filter (\<lambda>y. sv_name (snd y) = fst g) ?es" using group_entries [of "fst g" "snd g"] g by simp
    then show ?thesis using filter_key_single [OF de x(1)] x by auto
  qed
  then have all: "mo_services (merge_services [scan]) = map (\<lambda>g. snd (hd (snd g))) (group_by_name [scan])"
    unfolding merge_services_fold by (subst fold_merge_single) (blast, simp)
  show ?thesis
  proof
    show "set (mo_services (merge_services [scan])) \<subseteq> set (sr_services scan)"
      unfolding all using single by (fastforce simp: es)
    show "set (sr_services scan) \<subseteq> set (mo_services (merge_services [scan]))"
    proof
      fix v assume "v \<in> set (sr_services scan)"
      then have "(sr_host scan, v) \<in> set ?es" by (simp add: es)
      from group_covers [OF this] obtain vs where vs: "(sv_name v, vs) \<in> set (group_by_name [scan])"
        "(sr_host scan, v) \<in> set vs" by auto
      then have "snd (hd vs) = v" using single [OF vs(1)] by auto
      then show "v \<in> set (mo_services (merge_services [scan]))" unfolding all using vs(1) by force
    qed
  qed
qed

text \<open>What the file holds under \<open>mcpServers\<close> when the command has written it.\<close>

definition proxied :: "string \<Rightarrow> string \<Rightarrow> string list \<Rightarrow> host_service \<Rightarrow> host_service \<Rightarrow> bool" where
  "proxied socket_dir cmd args old new \<longleftrightarrow> sv_name new = sv_name old \<and> sv_command new = cmd \<and>
     sv_args new = args @ [''--socket'', service_socket socket_dir old] \<and> sv_cwd new = sv_cwd old \<and>
     rel_option (\<lambda>a b. map_of a = map_of b) (sv_env new) (sv_env old)"

lemma keys_obj_of: "fst ` set (obj_of kvs) = fst ` set kvs"
proof -
  have "fst ` set (fold (\<lambda>(k, v) m. obj_insert k v m) kvs m) = fst ` set kvs \<union> fst ` set m" for m
    by (induction kvs arbitrary: m) (simp_all add: case_prod_unfold del: image_set)
  from this [of "[]"] show ?thesis by (simp add: obj_of_def)
qed

lemma snippet_read:
  fixes dir :: string and args :: "string list" and cmd :: string
  assumes ok: "\<forall>s \<in> set ss. service_ok s"
  defines "news \<equiv> List.map_filter (\<lambda>(name, raw). Option.bind (raw_of_value raw) (service_of_raw name))
      (obj_of (map (\<lambda>s. (sv_name s, proxy_entry cmd args (service_socket dir s) s)) ss))"
  shows "sv_name ` set news = sv_name ` set ss \<and> (\<forall>n \<in> set news. \<exists>s \<in> set ss. proxied dir cmd args s n)"
proof -
  let ?kvs = "map (\<lambda>s. (sv_name s, proxy_entry cmd args (service_socket dir s) s)) ss"
  let ?f = "\<lambda>(name, raw). Option.bind (raw_of_value raw) (service_of_raw name)"
  have entry: "\<exists>s \<in> set ss. \<exists>n. ?f kv = Some n \<and> proxied dir cmd args s n \<and> sv_name n = fst kv" if "kv \<in> set (obj_of ?kvs)" for kv
  proof -
    from that set_obj_of [of ?kvs] obtain s where s: "s \<in> set ss"
      "kv = (sv_name s, proxy_entry cmd args (service_socket dir s) s)" by auto
    from proxy_entry_read [OF bspec [OF ok s(1)], of cmd args "service_socket dir s" "sv_name s"] s show ?thesis
      unfolding proxied_def by auto
  qed
  have news: "n \<in> set news \<longleftrightarrow> (\<exists>kv \<in> set (obj_of ?kvs). ?f kv = Some n)" for n
    unfolding news_def by (force simp: List.map_filter_def)
  have names: "sv_name ` set news = fst ` set (obj_of ?kvs)"
  proof
    show "sv_name ` set news \<subseteq> fst ` set (obj_of ?kvs)" using entry news by force
    show "fst ` set (obj_of ?kvs) \<subseteq> sv_name ` set news" using entry news by (metis (no_types, lifting) image_subsetI imageI)
  qed
  have "fst ` set ?kvs = sv_name ` set ss" by force
  with names have "sv_name ` set news = sv_name ` set ss" by (simp only: keys_obj_of)
  moreover have "\<exists>s \<in> set ss. proxied dir cmd args s n" if "n \<in> set news" for n
  proof -
    from that news obtain kv where kv: "kv \<in> set (obj_of ?kvs)" "?f kv = Some n" by blast
    from entry [OF kv(1)] kv(2) show ?thesis by auto
  qed
  ultimately show ?thesis by simp
qed

lemma scan_json_read:
  assumes "hf_format host = FmtJson" and "hf_schema host \<noteq> ServersJson"
    and "safe_read_to_string (cli_fs x w) (hf_path host) = Inr t" and "parse_json (lo_formats x) t = Some root"
    and "jget root ''mcpServers'' = Some (JObj m)"
    and "List.map_filter (\<lambda>(name, raw). Option.bind (raw_of_value raw) (service_of_raw name)) m = ss" and "ss \<noteq> []"
  shows "cli_scan x w host = Inr \<lparr>sr_host = host, sr_services = ss\<rparr>"
  using assms by (cases "hf_schema host")
    (simp_all add: cli_scan_def scan_host_file_def Let_def parse_json_servers_under_key_def)

lemma cli_scan_host: "cli_scan x w host = Inr scan \<Longrightarrow> sr_host scan = host"
  by (auto simp: cli_scan_def scan_host_file_def Let_def split: sum.splits)

text \<open>What a successful rewrite of a JSON file did.\<close>

lemma rewire_written:
  assumes json: "hf_format host = FmtJson" and scan: "cli_scan x w host = Inr scan"
    and rt: "\<And>v t. lo_print_value x ''json'' v = Some t \<Longrightarrow> parse_json (lo_formats x) t = Some v"
    and run: "rewire_host x host dir cmd args False w = (Inr out, w')"
  shows "\<exists>data m t. safe_read_to_string (cli_fs x w) (hf_path host) = Inr data \<and> parse_json (lo_formats x) data = Some (JObj m) \<and>
     parse_json (lo_formats x) t = Some (JObj (obj_insert ''mcpServers''
       (JObj (obj_of (map (\<lambda>s. (sv_name s, proxy_entry cmd args (service_socket dir s) s)) (mo_services (merge_services [scan]))))) m)) \<and>
     sw_files w' (os_loc (lo_os x) (hf_path host)) = Some t"
proof -
  let ?sn = "snippet_value [scan] dir cmd args"
  have sn: "hm_get (generate_snippet [scan] dir cmd args) (hf_kind host) = Some ?sn"
    by (simp add: generate_snippet_def cli_scan_host [OF scan] hm_get_insert)
  obtain st where st: "serialize_snippet x ?sn ''json'' = Inr st"
    using run by (cases "serialize_snippet x ?sn ''json''") (simp_all add: rewire_host_def scan sn json format_for_host_def)
  then have st': "parse_json (lo_formats x) st = Some ?sn"
    by (simp add: serialize_snippet_def rt split: option.splits)
  obtain data where data: "safe_read_to_string (cli_fs x w) (hf_path host) = Inr data"
    using run by (cases "safe_read_to_string (cli_fs x w) (hf_path host)") (simp_all add: rewire_host_def scan sn json format_for_host_def st)
  obtain t where t: "merged_host_text x host st data = Inr t"
    using run by (cases "merged_host_text x host st data") (simp_all add: rewire_host_def scan sn json format_for_host_def st data)
  have "\<exists>b. write_with_backup (lo_os x) (hf_path host) t False w = (Inr b, w')"
    using run by (auto simp: rewire_host_def scan sn json format_for_host_def st data t split: prod.splits sum.splits)
  then have "sw_files w' (os_loc (lo_os x) (hf_path host)) = Some t" using write_with_backup_written by blast
  moreover obtain m where m: "parse_json (lo_formats x) data = Some (JObj m)"
    using t by (simp add: merged_host_text_def json split: option.splits json.splits)
  moreover have "jget ?sn ''mcpServers'' = Some (JObj (obj_of (map (\<lambda>s. (sv_name s, proxy_entry cmd args (service_socket dir s) s))
      (mo_services (merge_services [scan])))))"
    by (simp add: snippet_value_def jget_def obj_of_def)
  ultimately show ?thesis using t rt by (auto simp: merged_host_text_def json st' data m split: option.splits)
qed

definition host_document :: "cli_os \<Rightarrow> setup_world \<Rightarrow> host_file \<Rightarrow> json option" where
  "host_document x w host = (case safe_read_to_string (cli_fs x w) (hf_path host) of
     Inl _ \<Rightarrow> None | Inr data \<Rightarrow> parse_json (lo_formats x) data)"

lemma read_no_parent: "safe_read_to_string fs p = Inr d \<Longrightarrow> \<not> has_parent_component p"
  by (auto simp: safe_read_to_string_def vetted_existing_file_def reject_parent_components_def split: if_splits)

text \<open>C15: what a successful rewire of a JSON file leaves, and what the status command says of it.  Take a file that is read
  under \<open>mcpServers\<close> and whose readable servers, those with a command, have distinct names and environments without
  repeated keys.  Afterwards \<open>mcpServers\<close> has an entry for each of them and no other: entries without a command
  are gone.  Each server is read back under its name with its directory and environment, started through the proxy with its
  socket, and the status command prints one line for each, that it is OK.  Every other key of the document is as before.\<close>

theorem rewire_then_status:
  assumes json: "hf_format host = FmtJson" "hf_schema host \<noteq> ServersJson"
    and rt: "\<And>v t. lo_print_value x ''json'' v = Some t \<Longrightarrow> parse_json (lo_formats x) t = Some v"
    and idem: "\<And>p. os_loc (lo_os x) (os_loc (lo_os x) p) = os_loc (lo_os x) p"
    and scan: "cli_scan x w host = Inr scan" "sr_services scan \<noteq> []" "distinct (map sv_name (sr_services scan))"
    and ok: "\<forall>s \<in> set (sr_services scan). service_ok s"
    and run: "rewire_host x host dir cmd args False w = (Inr out, w')"
  shows "\<exists>scan' root root' servers. cli_scan x w' host = Inr scan' \<and>
     sv_name ` set (sr_services scan') = sv_name ` set (sr_services scan) \<and>
     (\<forall>n \<in> set (sr_services scan'). \<exists>s \<in> set (sr_services scan). proxied dir cmd args s n) \<and>
     (\<forall>a. resolve_host (lo_home x) (fv_exists (cli_fs x w')) (ta_path a) (ta_host a) = Inr host \<and> ta_proxy_cmd a = cmd \<longrightarrow>
       run_status_cmd x a w' = (Inr (), fold println (map (\<lambda>n. '' - '' @ sv_name n @ '': OK (via '' @ cmd @ '')'') (sr_services scan'))
         (println (''Checking '' @ hf_path host @ '' ('' @ as_label (hf_kind host) @ '')'') w'))) \<and>
     host_document x w host = Some root \<and> host_document x w' host = Some root' \<and>
     jget root' ''mcpServers'' = Some (JObj servers) \<and> fst ` set servers = sv_name ` set (sr_services scan) \<and>
     (\<forall>k. k \<noteq> ''mcpServers'' \<longrightarrow> jget root' k = jget root k)"
proof -
  let ?ms = "mo_services (merge_services [scan])"
  let ?servers = "obj_of (map (\<lambda>s. (sv_name s, proxy_entry cmd args (service_socket dir s) s)) ?ms)"
  let ?news = "List.map_filter (\<lambda>(name, raw). Option.bind (raw_of_value raw) (service_of_raw name)) ?servers"
  obtain data m t where data: "safe_read_to_string (cli_fs x w) (hf_path host) = Inr data"
    and m: "parse_json (lo_formats x) data = Some (JObj m)"
    and t: "parse_json (lo_formats x) t = Some (JObj (obj_insert ''mcpServers'' (JObj ?servers) m))"
    and f: "sw_files w' (os_loc (lo_os x) (hf_path host)) = Some t"
    using rewire_written [OF json(1) scan(1) rt run] by blast
  have rd: "safe_read_to_string (cli_fs x w') (hf_path host) = Inr t"
    unfolding cli_fs_def using idem read_no_parent [OF data] f by (intro read_back)
  have ms: "set ?ms = set (sr_services scan)" by (rule merge_one_file [OF scan(3)])
  have news: "sv_name ` set ?news = sv_name ` set (sr_services scan)"
    "\<forall>n \<in> set ?news. \<exists>s \<in> set (sr_services scan). proxied dir cmd args s n"
    using snippet_read [of ?ms cmd args dir] ok ms by simp_all
  have "?news \<noteq> []"
  proof
    assume "?news = []"
    with news(1) scan(2) show False by (metis image_is_empty set_empty)
  qed
  then have scan': "cli_scan x w' host = Inr \<lparr>sr_host = host, sr_services = ?news\<rparr>"
    by (intro scan_json_read [OF json rd t _ refl]) (simp_all add: jget_def map_of_obj_insert)
  have "status_line_of cmd n = '' - '' @ sv_name n @ '': OK (via '' @ cmd @ '')''" if "n \<in> set ?news" for n
    using bspec [OF news(2) that] unfolding status_line_of_def proxied_def by fastforce
  then have lines: "map (status_line_of cmd) ?news = map (\<lambda>n. '' - '' @ sv_name n @ '': OK (via '' @ cmd @ '')'') ?news" by simp
  have status: "run_status_cmd x a w' = (Inr (), fold println (map (\<lambda>n. '' - '' @ sv_name n @ '': OK (via '' @ cmd @ '')'') ?news)
         (println (''Checking '' @ hf_path host @ '' ('' @ as_label (hf_kind host) @ '')'') w'))"
    if "resolve_host (lo_home x) (fv_exists (cli_fs x w')) (ta_path a) (ta_host a) = Inr host" "ta_proxy_cmd a = cmd" for a
    unfolding run_status_cmd_def that lines [symmetric] by (simp only: scan' sum.case scan_result.simps \<open>?news \<noteq> []\<close> if_False)
  have "fst ` set ?servers = sv_name ` set (sr_services scan)" by (simp add: keys_obj_of image_image ms)
  with scan' status news show ?thesis
    by (intro exI [of _ "\<lparr>sr_host = host, sr_services = ?news\<rparr>"] exI [of _ "JObj m"]
        exI [of _ "JObj (obj_insert ''mcpServers'' (JObj ?servers) m)"] exI [of _ ?servers])
      (simp add: host_document_def data rd m t jget_def map_of_obj_insert)
qed

section \<open>Examples\<close>

text \<open>A format that knows the documents of a table, each under one text.\<close>

definition table_os :: "(string \<times> json) list \<Rightarrow> cli_os" where
  "table_os tbl = \<lparr>lo_os = flat_os, lo_home = None,
     lo_formats = \<lparr>parse_json = map_of tbl, print_json = (\<lambda>_. []), parse_toml = map_of tbl,
       print_toml = (\<lambda>v. map_option fst (find (\<lambda>(t, u). u = v) tbl))\<rparr>,
     lo_print_config = (\<lambda>_ _. None), lo_print_value = (\<lambda>_ v. map_option fst (find (\<lambda>(t, u). u = v) tbl))\<rparr>"

lemma table_roundtrip:
  "distinct (map fst tbl) \<Longrightarrow> lo_print_value (table_os tbl) fmt v = Some t \<Longrightarrow> parse_json (lo_formats (table_os tbl)) t = Some v"
  by (auto simp: table_os_def find_Some_iff) (metis nth_mem)

definition npx_entry :: json where
  "npx_entry = JObj (obj_of [(''command'', JStr ''npx'')])"

definition web_entry :: json where
  "web_entry = JObj (obj_of [(''url'', JStr ''http://h'')])"

definition via_proxy :: "string \<Rightarrow> json" where
  "via_proxy name = JObj (obj_of [(''command'', JStr ''px''),
     (''args'', JArr [JStr ''--socket'', JStr (''/s/'' @ name @ ''.sock'')])])"

definition cli_table :: "(string \<times> json) list" where
  "cli_table = [(''old'', JObj (obj_of [(''theme'', JInt 1), (''mcpServers'', JObj (obj_of [(''a'', npx_entry), (''web'', web_entry)]))])),
     (''snippet'', JObj (obj_of [(''mcpServers'', JObj (obj_of [(''a'', via_proxy ''a'')]))])),
     (''new'', JObj (obj_of [(''theme'', JInt 1), (''mcpServers'', JObj (obj_of [(''a'', via_proxy ''a'')]))])),
     (''entry'', npx_entry),
     (''toml'', JObj (obj_of [(''mcp_servers'', JObj (obj_of [(''a'', npx_entry)]))])),
     (''newtoml'', JObj (obj_of [(''mcp_servers'', JObj (obj_of [(''a'', npx_entry)])),
        (''mcpServers'', JObj (obj_of [(''a'', via_proxy ''a'')]))]))]"

definition cli_world :: "string \<Rightarrow> string \<Rightarrow> setup_world" where
  "cli_world name t = \<lparr>sw_files = [name \<mapsto> t], sw_spawned = [], sw_console = []\<rparr>"

abbreviation cli_x :: cli_os where
  "cli_x \<equiv> table_os cli_table"

abbreviation rewire_file :: "string \<Rightarrow> setup_world \<Rightarrow> (string + unit) \<times> setup_world" where
  "rewire_file p \<equiv> run_rewire_cmd cli_x \<lparr>ra_path = Some p, ra_host = None, ra_socket_dir = ''/s'', ra_proxy_cmd = ''px'',
     ra_proxy_args = [], ra_dry_run = False\<rparr>"

abbreviation status_file_cmd :: "string \<Rightarrow> setup_world \<Rightarrow> (string + unit) \<times> setup_world" where
  "status_file_cmd p \<equiv> run_status_cmd cli_x \<lparr>ta_path = Some p, ta_host = None, ta_proxy_cmd = ''px''\<rparr>"

text \<open>A server without a command, one reached by its address, is not read, and is gone after the rewire.\<close>

theorem rewire_drops_remote_servers:
  "let w' = snd (rewire_file ''cfg/c.json'' (cli_world ''c.json'' ''old'')) in
   Option.bind (host_document cli_x (cli_world ''c.json'' ''old'') (host_file_from_custom_path ''cfg/c.json'')) (\<lambda>r. Option.bind (jget r ''mcpServers'') (\<lambda>m. jget m ''web'')) = Some web_entry \<and>
   Option.bind (host_document cli_x w' (host_file_from_custom_path ''cfg/c.json'')) (\<lambda>r. Option.bind (jget r ''mcpServers'') (\<lambda>m. jget m ''web'')) = None"
  by code_simp

text \<open>A second rewire writes the first one's result over the only backup: the original text is nowhere.\<close>

theorem second_rewire_loses_original:
  "let w1 = snd (rewire_file ''cfg/c.json'' (cli_world ''c.json'' ''old'')); w2 = snd (rewire_file ''cfg/c.json'' w1) in
   map (sw_files w1) [''c.json'', ''c.bak''] = [Some ''new'', Some ''old''] \<and>
   map (sw_files w2) [''c.json'', ''c.bak''] = [Some ''new'', Some ''new'']"
  by code_simp

text \<open>In a TOML file named by its path the proxies go under a key that no reader of the program looks at: the
  command reports success, the status command reports the server as not rewired.\<close>

theorem custom_toml_not_rewired:
  "let (r, w1) = rewire_file ''cfg/c.toml'' (cli_world ''c.toml'' ''toml''); (r2, w2) = status_file_cmd ''cfg/c.toml'' w1 in
   r = Inr () \<and> sw_files w1 ''c.toml'' = Some ''newtoml'' \<and>
   last (sw_console w2) = '' - a: NOT rewired (command='' @ [sq] @ ''npx'' @ [sq] @ '', args=[])''"
  by code_simp

text \<open>A file named without a directory cannot be rewired: the empty parent of its backup is not resolved.\<close>

theorem bare_name_not_rewired:
  "fst (rewire_file ''c.json'' (cli_world ''c.json'' ''old'')) = Inl ''failed to create backup c.bak''"
  by code_simp

abbreviation cli_host :: host_file where
  "cli_host \<equiv> host_file_from_custom_path ''cfg/c.json''"

definition cli_scanned :: scan_result where
  "cli_scanned = \<lparr>sr_host = cli_host, sr_services = [\<lparr>sv_name = ''a'', sv_command = ''npx'', sv_args = [], sv_cwd = None,
     sv_socket = None, sv_env = None, sv_enabled = None\<rparr>]\<rparr>"

definition cli_after :: setup_world where
  "cli_after = snd (rewire_host cli_x cli_host ''/s'' ''px'' [] False (cli_world ''c.json'' ''old''))"

theorem rewire_then_status_witness:
  "\<exists>scan'. cli_scan cli_x cli_after cli_host = Inr scan' \<and> sv_name ` set (sr_services scan') = {''a''} \<and>
     (\<forall>n \<in> set (sr_services scan'). \<exists>s \<in> set (sr_services cli_scanned). proxied ''/s'' ''px'' [] s n)"
proof -
  have host: "hf_format cli_host = FmtJson" "hf_schema cli_host \<noteq> ServersJson" by code_simp+
  have d: "distinct (map fst cli_table)" by code_simp
  have rt: "parse_json (lo_formats cli_x) t = Some v" if "lo_print_value cli_x ''json'' v = Some t" for v t
    by (rule table_roundtrip [OF d that])
  have idem: "os_loc (lo_os cli_x) (os_loc (lo_os cli_x) q) = os_loc (lo_os cli_x) q" for q
    by (simp add: table_os_def flat_os_idem)
  have scan: "cli_scan cli_x (cli_world ''c.json'' ''old'') cli_host = Inr cli_scanned" by code_simp
  have services: "sr_services cli_scanned \<noteq> []" "distinct (map sv_name (sr_services cli_scanned))"
    "\<forall>s \<in> set (sr_services cli_scanned). service_ok s" by code_simp+
  have out: "fst (rewire_host cli_x cli_host ''/s'' ''px'' [] False (cli_world ''c.json'' ''old'')) =
      Inr \<lparr>ro_path = ''cfg/c.json'', ro_backup = Some ''cfg/c.bak'', ro_written = True\<rparr>" by code_simp
  then have run: "rewire_host cli_x cli_host ''/s'' ''px'' [] False (cli_world ''c.json'' ''old'') =
      (Inr \<lparr>ro_path = ''cfg/c.json'', ro_backup = Some ''cfg/c.bak'', ro_written = True\<rparr>, cli_after)"
    unfolding cli_after_def by (metis prod.collapse)
  have "sv_name ` set (sr_services cli_scanned) = {''a''}" by code_simp
  with rewire_then_status [OF host rt idem scan services run] show ?thesis by metis
qed

end
