(* ===== verification/Tray_Agent.thy ===== *)
theory Tray_Agent
  imports Mux_Ipc Op_Text
begin

text \<open>
  The menu bar agent (\<open>tray-agent/src\<close>): its menu and how a click finds its action (\<open>menu.rs\<close>,
  \<open>types.rs\<close>, \<open>handlers.rs\<close>), the subscription to the daemon and the commands it sends (\<open>ipc_client.rs\<close>),
  and one turn of the event loop (\<open>lib.rs\<close>, \<open>state.rs\<close>).  Ids come from the menu library: the \<open>k\<close>-th item
  created gets \<open>ids k\<close>.  Processes, threads and messages are effects the turn leaves in a list.
\<close>

section \<open>Status\<close>

datatype tray_status = TrayIdle | TrayRouting | TraySaturated | TrayRestarting | TrayFailed

fun tray_label :: "tray_status \<Rightarrow> string" where
  "tray_label TrayIdle = ''Idle''"
| "tray_label TrayRouting = ''Routing''"
| "tray_label TraySaturated = ''Saturated''"
| "tray_label TrayRestarting = ''Restarting''"
| "tray_label TrayFailed = ''Failed''"

definition tray_tooltip :: "tray_status \<Rightarrow> string" where
  "tray_tooltip s = ''Vibecrafted mux - '' @ tray_label s"

definition menu_label :: "tray_status \<Rightarrow> nat \<Rightarrow> string" where
  "menu_label s service_count = ''Status: '' @ tray_label s @ '' ('' @ nat_str service_count @ '' services)''"

section \<open>The menu\<close>

type_synonym menu_id = string

datatype tray_menu_event =
    EvShowMuxDashboard | EvOpenMuxLogs | EvCopyRoutingTable | EvCopyDiagnostics | EvRestartService string
  | EvVerifyClient client_kind | EvContinueOnboarding | EvOpenSettings | EvOpenHelp | EvShowAbout | EvQuit

record menu_ids =
  mi_show_dashboard :: menu_id
  mi_open_logs :: menu_id
  mi_copy_routing_table :: menu_id
  mi_copy_diagnostics :: menu_id
  mi_continue_onboarding :: "menu_id option"
  mi_open_settings :: menu_id
  mi_help :: menu_id
  mi_about :: menu_id
  mi_quit :: menu_id
  mi_restart_services :: "(string \<times> menu_id) list"
  mi_verify_clients :: "(client_kind \<times> menu_id) list"

definition find_id :: "menu_id \<Rightarrow> ('a \<times> menu_id) list \<Rightarrow> 'a option" where
  "find_id i xs = map_option fst (find (\<lambda>x. snd x = i) xs)"

definition resolve_restart_service :: "menu_ids \<Rightarrow> menu_id \<Rightarrow> string option" where
  "resolve_restart_service m i = find_id i (mi_restart_services m)"

definition resolve_verify_client :: "menu_ids \<Rightarrow> menu_id \<Rightarrow> client_kind option" where
  "resolve_verify_client m i = find_id i (mi_verify_clients m)"

fun client_label :: "client_kind \<Rightarrow> string" where
  "client_label KindClaude = ''Claude''"
| "client_label KindCodex = ''Codex''"
| "client_label KindGemini = ''Gemini''"
| "client_label KindJunie = ''Junie''"
| "client_label (KindGeneric name) = name"

definition configured_services :: "string option \<Rightarrow> string list" where
  "configured_services var =
     (let items = (case var of None \<Rightarrow> [] | Some raw \<Rightarrow> filter (\<lambda>n. n \<noteq> []) (map trim (split_char (CHR '','') raw)))
      in if items \<noteq> [] then items else [''mux-agent''])"

record tray_env =
  te_home :: "string option"
  te_services_var :: "string option"
  te_editor :: "string option"
  te_exists :: "string \<Rightarrow> bool"
  te_version :: string

definition should_show_onboarding :: "tray_env \<Rightarrow> bool" where
  "should_show_onboarding e = (case te_home e of None \<Rightarrow> True
     | Some home \<Rightarrow> \<not> te_exists e (path_join home ''.vibecrafted/onboarding/wizard.completed''))"

datatype menu_entry = MenuItem string bool menu_id | MenuSeparator | Submenu string "(string \<times> menu_id) list"

definition build_menu :: "tray_env \<Rightarrow> (nat \<Rightarrow> menu_id) \<Rightarrow> menu_entry list \<times> menu_ids" where
  "build_menu e ids =
     (let services = configured_services (te_services_var e); n = length services;
          restart_services = zip services (map ids [4..<4 + n]);
          verify_clients = zip [KindClaude, KindCodex, KindGemini] (map ids [4 + n..<7 + n]);
          show_onboarding = should_show_onboarding e; b = (if show_onboarding then 10 + n else 9 + n)
      in ([MenuItem ''Status: Idle (0 services)'' False (ids 0), MenuItem ''Show Mux Dashboard'' True (ids 1),
           MenuItem ''Open Mux Logs'' True (ids 2), MenuItem ''Services: 0'' False (ids 3), MenuSeparator,
           Submenu ''Restart Service'' restart_services,
           Submenu ''Verify Clients'' (map (\<lambda>(k, i). (client_label k, i)) verify_clients),
           Submenu ''Diagnostics'' [(''Copy Routing Table'', ids (7 + n)), (''Copy Diagnostics'', ids (8 + n))],
           MenuSeparator] @
          (if show_onboarding then [MenuItem ''Continue Onboarding...'' True (ids (9 + n))] else []) @
          [MenuItem ''Settings'' True (ids b), MenuItem ''Help'' True (ids (b + 1)), MenuItem ''About'' True (ids (b + 2)),
           MenuSeparator, MenuItem ''Quit Mux'' True (ids (b + 3))],
          \<lparr>mi_show_dashboard = ids 1, mi_open_logs = ids 2, mi_copy_routing_table = ids (7 + n),
           mi_copy_diagnostics = ids (8 + n),
           mi_continue_onboarding = (if show_onboarding then Some (ids (9 + n)) else None),
           mi_open_settings = ids b, mi_help = ids (b + 1), mi_about = ids (b + 2), mi_quit = ids (b + 3),
           mi_restart_services = restart_services, mi_verify_clients = verify_clients\<rparr>))"

section \<open>Clicks\<close>

datatype menu_route =
    RouteShowDashboard | RouteOpenLogs | RouteCopyRoutingTable | RouteCopyDiagnostics | RouteContinueOnboarding
  | RouteOpenSettings | RouteHelp | RouteAbout | RouteQuit | RouteRestartService string | RouteVerifyClient client_kind

definition resolve_menu_route :: "menu_id \<Rightarrow> menu_ids \<Rightarrow> menu_route option" where
  "resolve_menu_route i m =
     (if i = mi_show_dashboard m then Some RouteShowDashboard
      else if i = mi_open_logs m then Some RouteOpenLogs
      else if i = mi_copy_routing_table m then Some RouteCopyRoutingTable
      else if i = mi_copy_diagnostics m then Some RouteCopyDiagnostics
      else if mi_continue_onboarding m = Some i then Some RouteContinueOnboarding
      else if i = mi_open_settings m then Some RouteOpenSettings
      else if i = mi_help m then Some RouteHelp
      else if i = mi_about m then Some RouteAbout
      else if i = mi_quit m then Some RouteQuit
      else case resolve_restart_service m i of
        Some name \<Rightarrow> Some (RouteRestartService name)
      | None \<Rightarrow> map_option RouteVerifyClient (resolve_verify_client m i))"

datatype tray_job = JobCopyRoutes | JobCopyDiagnostics | JobRestart string | JobVerify client_kind | JobStop

datatype tray_effect =
    SpawnProcess string "string list"
  | MakeDirs string
  | RunThread tray_job
  | Notify string string
  | SetClipboard string

definition home_path :: "tray_env \<Rightarrow> string \<Rightarrow> string" where
  "home_path e p = path_join (case te_home e of Some h \<Rightarrow> h | None \<Rightarrow> ''.'') p"

text \<open>The events for an embedding program, and what the click does.\<close>

fun menu_event_of :: "menu_route \<Rightarrow> tray_menu_event option" where
  "menu_event_of RouteShowDashboard = Some EvShowMuxDashboard"
| "menu_event_of RouteOpenLogs = Some EvOpenMuxLogs"
| "menu_event_of RouteCopyRoutingTable = None"
| "menu_event_of RouteCopyDiagnostics = None"
| "menu_event_of RouteContinueOnboarding = Some EvContinueOnboarding"
| "menu_event_of RouteOpenSettings = Some EvOpenSettings"
| "menu_event_of RouteHelp = Some EvOpenHelp"
| "menu_event_of RouteAbout = Some EvShowAbout"
| "menu_event_of RouteQuit = Some EvQuit"
| "menu_event_of (RouteRestartService name) = Some (EvRestartService name)"
| "menu_event_of (RouteVerifyClient kind) = Some (EvVerifyClient kind)"

fun route_effects :: "tray_env \<Rightarrow> menu_route \<Rightarrow> tray_effect list" where
  "route_effects e RouteShowDashboard = [SpawnProcess ''sh'' [''-lc'',
     ''command -v vc-operator-tui >/dev/null 2>&1 && open -a Terminal vc-operator-tui'']]"
| "route_effects e RouteOpenLogs = [MakeDirs (home_path e ''.rust-mux/logs''), SpawnProcess ''open'' [home_path e ''.rust-mux/logs'']]"
| "route_effects e RouteCopyRoutingTable = [RunThread JobCopyRoutes]"
| "route_effects e RouteCopyDiagnostics = [RunThread JobCopyDiagnostics]"
| "route_effects e RouteContinueOnboarding = [SpawnProcess ''open'' [''https://vibecrafted.io/en/install'']]"
| "route_effects e RouteOpenSettings = [SpawnProcess (case te_editor e of Some ed \<Rightarrow> ed | None \<Rightarrow> ''open'')
     [home_path e ''.config/mux/config.toml'']]"
| "route_effects e RouteHelp = [SpawnProcess ''open'' [''https://github.com/VetCoders/vibecrafted#readme'']]"
| "route_effects e RouteAbout = [Notify ''About Vibecrafted'' (''vc-mux-tray '' @ te_version e)]"
| "route_effects e RouteQuit = []"
| "route_effects e (RouteRestartService name) = [RunThread (JobRestart name)]"
| "route_effects e (RouteVerifyClient kind) = [RunThread (JobVerify kind)]"

definition quote_osascript :: "string \<Rightarrow> string" where
  "quote_osascript v = [dq] @ replace_char dq [bs, dq] (replace_char bs [bs, bs] v) @ [dq]"

text \<open>\<open>notify\<close> on macOS: the script of the process it starts.\<close>

definition notify_script :: "string \<Rightarrow> string \<Rightarrow> string" where
  "notify_script title message =
     ''display notification '' @ quote_osascript message @ '' with title '' @ quote_osascript title"

section \<open>Commands to the daemon\<close>

text \<open>What the socket does with one request: \<open>pe_reply\<close> is the first line read, if any.\<close>

record ipc_peer =
  pe_connect :: "string option"
  pe_write :: "string option"
  pe_reply :: "string + string option"

definition write_request :: "(control_command \<Rightarrow> string) \<Rightarrow> control_command \<Rightarrow> string" where
  "write_request enc c = enc c @ [nl]"

definition send_command ::
  "(string \<Rightarrow> string + control_response) \<Rightarrow> (control_command \<Rightarrow> string) \<Rightarrow> (string \<Rightarrow> ipc_peer) \<Rightarrow> control_command \<Rightarrow>
   string + control_response" where
  "send_command dec enc peer c =
     (let p = peer (write_request enc c) in
      case pe_connect p of
        Some e \<Rightarrow> Inl e
      | None \<Rightarrow>
          (case pe_write p of
             Some e \<Rightarrow> Inl e
           | None \<Rightarrow>
               (case pe_reply p of
                  Inl e \<Rightarrow> Inl e
                | Inr None \<Rightarrow> Inl ''mux IPC returned no response''
                | Inr (Some line) \<Rightarrow>
                    (case dec line of Inl e \<Rightarrow> Inl ''decode mux response'' | Inr r \<Rightarrow> Inr r))))"

text \<open>Texts of values: pretty JSON and \<open>{:?}\<close>.\<close>

record tray_texts =
  tt_routes :: "route list \<Rightarrow> string"
  tt_status :: "status_snapshot \<Rightarrow> string"
  tt_debug :: "control_response \<Rightarrow> string"

fun job_command :: "tray_job \<Rightarrow> control_command" where
  "job_command JobCopyRoutes = RouteSnapshot"
| "job_command JobCopyDiagnostics = GetStatus"
| "job_command (JobRestart name) = RestartService name"
| "job_command (JobVerify kind) = Verify kind"
| "job_command JobStop = Shutdown True"

definition route_text :: "tray_texts \<Rightarrow> string + control_response \<Rightarrow> string + string" where
  "route_text tt r = (case r of
     Inl e \<Rightarrow> Inl e
   | Inr (RespRoutes routes) \<Rightarrow> Inr (tt_routes tt routes)
   | Inr (RespError m) \<Rightarrow> Inl m
   | Inr other \<Rightarrow> Inr (tt_debug tt other))"

definition diagnostics_text :: "tray_texts \<Rightarrow> string + control_response \<Rightarrow> string + string" where
  "diagnostics_text tt r = (case r of
     Inl e \<Rightarrow> Inl e
   | Inr (RespStatus s) \<Rightarrow> Inr (tt_status tt s)
   | Inr (RespError m) \<Rightarrow> Inl m
   | Inr other \<Rightarrow> Inr (tt_debug tt other))"

definition verify_text :: "tray_texts \<Rightarrow> client_kind \<Rightarrow> string + control_response \<Rightarrow> string + string" where
  "verify_text tt kind r = (case r of
     Inl e \<Rightarrow> Inl e
   | Inr (RespVerify v) \<Rightarrow> Inr (client_label kind @ '': '' @ (if vr_ok v then ''ok'' else ''drift'') @ '' ('' @
       nat_str (length (vr_non_mux_servers v)) @ '' non-mux servers)'')
   | Inr (RespError m) \<Rightarrow> Inl m
   | Inr other \<Rightarrow> Inr (tt_debug tt other))"

definition copy_effects :: "bool \<Rightarrow> string \<Rightarrow> string + string \<Rightarrow> tray_effect list" where
  "copy_effects clipboard_ok label r = (case r of
     Inr t \<Rightarrow> if clipboard_ok then [SetClipboard t, Notify ''Vibecrafted'' (''Copied '' @ label @ '' to clipboard'')] else []
   | Inl e \<Rightarrow> [Notify ''Vibecrafted'' (''Could not copy '' @ label @ '': '' @ e)])"

text \<open>A thread: the command, its answer, and what it does with the answer.\<close>

fun job_effects :: "tray_texts \<Rightarrow> bool \<Rightarrow> tray_job \<Rightarrow> string + control_response \<Rightarrow> tray_effect list" where
  "job_effects tt clip JobCopyRoutes r = copy_effects clip ''routing table'' (route_text tt r)"
| "job_effects tt clip JobCopyDiagnostics r = copy_effects clip ''diagnostics'' (diagnostics_text tt r)"
| "job_effects tt clip (JobRestart name) r = [Notify ''Vibecrafted'' (case r of
     Inr (RespError m) \<Rightarrow> ''Restart '' @ name @ '': '' @ m
   | Inr _ \<Rightarrow> ''Restart request sent for '' @ name
   | Inl e \<Rightarrow> ''Restart '' @ name @ '' failed: '' @ e)]"
| "job_effects tt clip (JobVerify kind) r = [Notify ''Vibecrafted'' (case verify_text tt kind r of
     Inr t \<Rightarrow> t | Inl e \<Rightarrow> ''Verify failed: '' @ e)]"
| "job_effects tt clip JobStop r = []"

section \<open>The subscription\<close>

datatype tray_update = UpdateStatus tray_status | UpdateAlert string | UpdateNone

definition tray_status_from_health :: "u64 \<Rightarrow> string option \<Rightarrow> tray_status" where
  "tray_status_from_health restarts last_error =
     (if restarts > 0 \<and> last_error \<noteq> None then TrayFailed
      else if restarts > 0 then TrayRestarting else TrayIdle)"

fun from_mux_event :: "ipc_event \<Rightarrow> tray_update" where
  "from_mux_event (StateChange service old new) = UpdateNone"
| "from_mux_event (RouteUpdate client server rin rout) = UpdateStatus TrayRouting"
| "from_mux_event (ServerHealth server uptime restarts last_error) =
     UpdateStatus (tray_status_from_health restarts last_error)"
| "from_mux_event (ClientDrift client servers) = UpdateAlert (''Drift detected for '' @ client)"

text \<open>One connection: it fails, or the lines read from it and how it ended (\<open>None\<close>: closed by the daemon).\<close>

datatype tray_conn = ConnectFailed string | WriteFailed string | Streamed "string list" "string option"

fun read_stream :: "(string \<Rightarrow> string + control_response) \<Rightarrow> string list \<Rightarrow> string option \<Rightarrow> tray_status list \<times> (string + unit)" where
  "read_stream dec [] e = ([], Inl (case e of Some m \<Rightarrow> m | None \<Rightarrow> ''mux IPC stream closed''))"
| "read_stream dec (line # rest) e =
     (case dec line of
        Inl m \<Rightarrow> ([], Inl m)
      | Inr response \<Rightarrow>
          (let (sts, r) = read_stream dec rest e in
           case response of
             RespEvent ev \<Rightarrow> (case from_mux_event ev of UpdateStatus s \<Rightarrow> (s # sts, r) | _ \<Rightarrow> (sts, r))
           | _ \<Rightarrow> (sts, r)))"

definition subscribe_once ::
  "(string \<Rightarrow> string + control_response) \<Rightarrow> string \<Rightarrow> tray_conn \<Rightarrow> tray_status list \<times> (string + unit)" where
  "subscribe_once dec socket c = (case c of
     ConnectFailed e \<Rightarrow> ([], Inl (''connect '' @ socket @ '': '' @ e))
   | WriteFailed e \<Rightarrow> ([], Inl e)
   | Streamed ls e \<Rightarrow> read_stream dec ls e)"

text \<open>The loop over the connections it makes; when the list is used up it is still running.\<close>

record tray_sub =
  ts_statuses :: "tray_status list"
  ts_sleeps :: "duration list"
  ts_returned :: bool
  ts_left :: "tray_conn list"

fun subscribe_loop ::
  "(string \<Rightarrow> string + control_response) \<Rightarrow> string \<Rightarrow> u32 \<Rightarrow> duration \<Rightarrow> tray_conn list \<Rightarrow> tray_sub" where
  "subscribe_loop dec socket attempt backoff [] = \<lparr>ts_statuses = [], ts_sleeps = [], ts_returned = False, ts_left = []\<rparr>"
| "subscribe_loop dec socket attempt backoff (c # cs) =
     (case subscribe_once dec socket c of
        (sts, Inr _) \<Rightarrow>
          (let t = subscribe_loop dec socket 0 (from_secs 1) cs in t\<lparr>ts_statuses := sts @ ts_statuses t\<rparr>)
      | (sts, Inl e) \<Rightarrow>
          if attempt + 1 \<ge> 10
          then \<lparr>ts_statuses = sts @ [TrayFailed], ts_sleeps = [], ts_returned = True, ts_left = cs\<rparr>
          else (let t = subscribe_loop dec socket (attempt + 1) (min (backoff * 2) (from_secs 30)) cs
                in t\<lparr>ts_statuses := sts @ ts_statuses t, ts_sleeps := backoff # ts_sleeps t\<rparr>))"

section \<open>The event loop\<close>

text \<open>What the user sees, the flags, and what was done so far.  \<open>tr_menu_events\<close> is \<open>None\<close> until an embedding
  program asks for the receiver.\<close>

record tray =
  tr_status_text :: string
  tr_count_text :: string
  tr_onboarding :: "bool option"
  tr_tooltip :: string
  tr_icon :: tray_status
  tr_service_count :: nat
  tr_last_refresh :: instant
  tr_shutdown :: bool
  tr_exit :: bool
  tr_menu_events :: "tray_menu_event list option"
  tr_effects :: "tray_effect list"

definition send_menu_event :: "tray_menu_event \<Rightarrow> tray \<Rightarrow> tray" where
  "send_menu_event ev t = t\<lparr>tr_menu_events := map_option (\<lambda>evs. evs @ [ev]) (tr_menu_events t)\<rparr>"

definition handle_menu_event :: "tray_env \<Rightarrow> menu_id \<Rightarrow> menu_ids \<Rightarrow> tray \<Rightarrow> tray" where
  "handle_menu_event e i m t = (case resolve_menu_route i m of
     None \<Rightarrow> t
   | Some r \<Rightarrow> (let t1 = (case menu_event_of r of Some ev \<Rightarrow> send_menu_event ev t | None \<Rightarrow> t)
                in t1\<lparr>tr_effects := tr_effects t1 @ route_effects e r\<rparr>))"

definition refresh_service_count :: "nat \<Rightarrow> tray \<Rightarrow> tray" where
  "refresh_service_count n t = t\<lparr>tr_service_count := n\<rparr>"

definition update_service_count_label :: "tray \<Rightarrow> tray" where
  "update_service_count_label t = t\<lparr>tr_count_text := ''Services: '' @ nat_str (tr_service_count t)\<rparr>"

definition update_onboarding_item :: "tray_env \<Rightarrow> tray \<Rightarrow> tray" where
  "update_onboarding_item e t = t\<lparr>tr_onboarding := map_option (\<lambda>_. should_show_onboarding e) (tr_onboarding t)\<rparr>"

definition apply_status_update :: "tray_status \<Rightarrow> tray \<Rightarrow> tray" where
  "apply_status_update s t = t\<lparr>tr_status_text := menu_label s (tr_service_count t)\<rparr>"

definition tray_start :: "tray_env \<Rightarrow> instant \<Rightarrow> tray" where
  "tray_start e now = \<lparr>tr_status_text = ''Status: Idle (0 services)'', tr_count_text = ''Services: 0'',
     tr_onboarding = (if should_show_onboarding e then Some True else None), tr_tooltip = tray_tooltip TrayIdle,
     tr_icon = TrayIdle, tr_service_count = 0, tr_last_refresh = now, tr_shutdown = False, tr_exit = False,
     tr_menu_events = None, tr_effects = []\<rparr>"

datatype status_recv = StatusRecv tray_status | StatusEmpty | StatusDisconnected

record tray_turn_input =
  ti_now :: instant
  ti_env :: tray_env
  ti_status :: status_recv
  ti_icon_set :: bool
  ti_click :: "menu_id option"

definition tray_refresh :: "tray_turn_input \<Rightarrow> tray \<Rightarrow> tray" where
  "tray_refresh x t = (if ti_now x - tr_last_refresh t \<ge> from_secs 2
     then (update_onboarding_item (ti_env x) (update_service_count_label t))\<lparr>tr_last_refresh := ti_now x\<rparr> else t)"

definition tray_receive :: "tray_turn_input \<Rightarrow> tray \<Rightarrow> tray" where
  "tray_receive x t = (case ti_status x of
     StatusRecv s \<Rightarrow> (apply_status_update s t)\<lparr>tr_tooltip := tray_tooltip s,
       tr_icon := (if ti_icon_set x then s else tr_icon t)\<rparr>
   | StatusEmpty \<Rightarrow> t
   | StatusDisconnected \<Rightarrow> t\<lparr>tr_exit := True\<rparr>)"

definition tray_click :: "tray_turn_input \<Rightarrow> menu_ids \<Rightarrow> tray \<Rightarrow> tray" where
  "tray_click x m t = (case ti_click x of
     None \<Rightarrow> t
   | Some i \<Rightarrow> (let t1 = handle_menu_event (ti_env x) i m t in if i = mi_quit m then t1\<lparr>tr_shutdown := True\<rparr> else t1))"

definition tray_turn :: "menu_ids \<Rightarrow> tray_turn_input \<Rightarrow> tray \<Rightarrow> tray" where
  "tray_turn m x t =
     (if tr_shutdown t then t\<lparr>tr_effects := tr_effects t @ [RunThread JobStop], tr_exit := True\<rparr>
      else tray_click x m (tray_receive x (tray_refresh x t)))"

text \<open>The loop turns until a turn has asked for its end.\<close>

fun tray_run :: "menu_ids \<Rightarrow> tray_turn_input list \<Rightarrow> tray \<Rightarrow> tray" where
  "tray_run m [] t = t"
| "tray_run m (x # xs) t = (if tr_exit t then t else tray_run m xs (tray_turn m x t))"

definition tray_expand_home :: "string option \<Rightarrow> string \<Rightarrow> string" where
  "tray_expand_home home raw =
     (if starts_with raw ''~/'' then (case home of Some h \<Rightarrow> path_join h (drop 2 raw) | None \<Rightarrow> raw) else raw)"

definition tray_default_socket :: "string option \<Rightarrow> string" where
  "tray_default_socket home = path_join (case home of Some h \<Rightarrow> h | None \<Rightarrow> ''.'') ''.rust-mux/ipc/control.sock''"

section \<open>Every item does what it says\<close>

text \<open>The items of the menu with the titles on the way to them, and the titles of each action.\<close>

fun entry_items :: "menu_entry \<Rightarrow> (string list \<times> bool \<times> menu_id) list" where
  "entry_items (MenuItem l en i) = [([l], en, i)]"
| "entry_items MenuSeparator = []"
| "entry_items (Submenu title xs) = map (\<lambda>(l, i). ([title, l], True, i)) xs"

definition menu_items :: "menu_entry list \<Rightarrow> (string list \<times> bool \<times> menu_id) list" where
  "menu_items m = concat (map entry_items m)"

fun route_titles :: "menu_route \<Rightarrow> string list" where
  "route_titles RouteShowDashboard = [''Show Mux Dashboard'']"
| "route_titles RouteOpenLogs = [''Open Mux Logs'']"
| "route_titles RouteCopyRoutingTable = [''Diagnostics'', ''Copy Routing Table'']"
| "route_titles RouteCopyDiagnostics = [''Diagnostics'', ''Copy Diagnostics'']"
| "route_titles RouteContinueOnboarding = [''Continue Onboarding...'']"
| "route_titles RouteOpenSettings = [''Settings'']"
| "route_titles RouteHelp = [''Help'']"
| "route_titles RouteAbout = [''About'']"
| "route_titles RouteQuit = [''Quit Mux'']"
| "route_titles (RouteRestartService name) = [''Restart Service'', name]"
| "route_titles (RouteVerifyClient kind) = [''Verify Clients'', client_label kind]"

lemma find_id_zip:
  assumes "distinct js" and "length xs = length js" and "k < length xs"
  shows "find_id (js ! k) (zip xs js) = Some (xs ! k)"
proof -
  have "find (\<lambda>x. snd x = js ! k) (zip xs js) = Some (xs ! k, js ! k)"
    using assms by (auto simp: find_Some_iff nth_eq_iff_index_eq intro!: exI [of _ k])
  then show ?thesis by (simp add: find_id_def)
qed

lemma find_id_None: "i \<notin> set js \<Longrightarrow> find_id i (zip xs js) = None"
  by (auto simp: find_id_def find_None_iff dest: set_zip_rightD)

lemma build_menu_ids:
  fixes e :: tray_env and ids :: "nat \<Rightarrow> menu_id"
  defines "ss \<equiv> configured_services (te_services_var e)" and "m \<equiv> snd (build_menu e ids)"
    and "b \<equiv> if should_show_onboarding e then 10 + length (configured_services (te_services_var e)) else 9 + length (configured_services (te_services_var e))"
  shows "mi_show_dashboard m = ids 1" "mi_open_logs m = ids 2" "mi_copy_routing_table m = ids (7 + length ss)"
    "mi_copy_diagnostics m = ids (8 + length ss)"
    "mi_continue_onboarding m = (if should_show_onboarding e then Some (ids (9 + length ss)) else None)"
    "mi_open_settings m = ids b" "mi_help m = ids (b + 1)" "mi_about m = ids (b + 2)" "mi_quit m = ids (b + 3)"
    "mi_restart_services m = zip ss (map ids [4..<4 + length ss])"
    "mi_verify_clients m = zip [KindClaude, KindCodex, KindGemini] (map ids [4 + length ss..<7 + length ss])"
  unfolding m_def ss_def b_def build_menu_def Let_def by simp_all

text \<open>The number of an item decides where its click goes.\<close>

lemma resolve_by_number:
  fixes e :: tray_env and ids :: "nat \<Rightarrow> menu_id"
  assumes inj: "inj ids"
  defines "ss \<equiv> configured_services (te_services_var e)"
    and "b \<equiv> if should_show_onboarding e then 10 + length (configured_services (te_services_var e)) else 9 + length (configured_services (te_services_var e))"
  shows "resolve_menu_route (ids j) (snd (build_menu e ids)) =
    (if j = 1 then Some RouteShowDashboard else if j = 2 then Some RouteOpenLogs
     else if j = 7 + length ss then Some RouteCopyRoutingTable else if j = 8 + length ss then Some RouteCopyDiagnostics
     else if should_show_onboarding e \<and> j = 9 + length ss then Some RouteContinueOnboarding
     else if j = b then Some RouteOpenSettings else if j = b + 1 then Some RouteHelp
     else if j = b + 2 then Some RouteAbout else if j = b + 3 then Some RouteQuit
     else if 4 \<le> j \<and> j < 4 + length ss then Some (RouteRestartService (ss ! (j - 4)))
     else if 4 + length ss \<le> j \<and> j < 7 + length ss
       then Some (RouteVerifyClient ([KindClaude, KindCodex, KindGemini] ! (j - 4 - length ss))) else None)"
proof -
  let ?m = "snd (build_menu e ids)"
  note f = build_menu_ids [of e ids, folded ss_def b_def]
  have d: "distinct (map ids [x..<y])" for x y using inj by (simp add: distinct_map inj_on_def inj_def)
  have mem: "ids j \<in> set (map ids [x..<y]) \<longleftrightarrow> x \<le> j \<and> j < y" for x y using inj by (auto simp: inj_eq)
  have r: "resolve_restart_service ?m (ids j) = (if 4 \<le> j \<and> j < 4 + length ss then Some (ss ! (j - 4)) else None)"
  proof (cases "4 \<le> j \<and> j < 4 + length ss")
    case True
    then have "j - 4 < length ss" by linarith
    with True find_id_zip [OF d, of ss 4 "4 + length ss" "j - 4"] show ?thesis
      by (simp add: resolve_restart_service_def f)
  next
    case False
    then have "ids j \<notin> set (map ids [4..<4 + length ss])" unfolding mem .
    then show ?thesis unfolding if_not_P [OF False] resolve_restart_service_def f by (rule find_id_None)
  qed
  let ?ks = "[KindClaude, KindCodex, KindGemini]"
  have v: "resolve_verify_client ?m (ids j) = (if 4 + length ss \<le> j \<and> j < 7 + length ss
      then Some (?ks ! (j - 4 - length ss)) else None)"
  proof (cases "4 + length ss \<le> j \<and> j < 7 + length ss")
    case True
    then have "j - 4 - length ss < length ?ks" by simp linarith
    with True find_id_zip [OF d, of ?ks "4 + length ss" "7 + length ss" "j - 4 - length ss"] show ?thesis
      by (simp add: resolve_verify_client_def f)
  next
    case False
    then have "ids j \<notin> set (map ids [4 + length ss..<7 + length ss])" unfolding mem .
    then show ?thesis unfolding if_not_P [OF False] resolve_verify_client_def f by (rule find_id_None)
  qed
  show ?thesis unfolding resolve_menu_route_def r v f inj_eq [OF inj] by (simp add: inj_eq [OF inj])
qed

definition menu_numbers :: "tray_env \<Rightarrow> (string list \<times> bool \<times> nat) list" where
  "menu_numbers e =
     (let ss = configured_services (te_services_var e); n = length ss;
          b = (if should_show_onboarding e then 10 + n else 9 + n)
      in [([''Status: Idle (0 services)''], False, 0), ([''Show Mux Dashboard''], True, 1), ([''Open Mux Logs''], True, 2),
          ([''Services: 0''], False, 3)] @
         map (\<lambda>k. ([''Restart Service'', ss ! k], True, 4 + k)) [0..<n] @
         [([''Verify Clients'', ''Claude''], True, 4 + n), ([''Verify Clients'', ''Codex''], True, 5 + n),
          ([''Verify Clients'', ''Gemini''], True, 6 + n), ([''Diagnostics'', ''Copy Routing Table''], True, 7 + n),
          ([''Diagnostics'', ''Copy Diagnostics''], True, 8 + n)] @
         (if should_show_onboarding e then [([''Continue Onboarding...''], True, 9 + n)] else []) @
         [([''Settings''], True, b), ([''Help''], True, b + 1), ([''About''], True, b + 2), ([''Quit Mux''], True, b + 3)])"

lemma zip_numbers: "zip ss (map ids [a..<a + length ss]) = map (\<lambda>k. (ss ! k, ids (a + k))) [0..<length ss]"
  by (rule nth_equalityI) simp_all

lemma menu_items_numbers: "menu_items (fst (build_menu e ids)) = map (\<lambda>(t, en, j). (t, en, ids j)) (menu_numbers e)"
proof -
  have "[4 + n..<7 + n] = [4 + n, 5 + n, 6 + n]" for n :: nat by (simp add: upt_rec)
  then show ?thesis
    by (simp add: menu_items_def build_menu_def menu_numbers_def Let_def zip_numbers comp_def)
qed

text \<open>C32: the menu keeps its word.  Whatever services are configured, a click on an item that can be clicked
  runs the action with the titles of that item, and the two lines of text lead nowhere.\<close>

theorem menu_items_routed:
  assumes inj: "inj ids" and item: "(titles, enabled, i) \<in> set (menu_items (fst (build_menu e ids)))"
  shows "map_option route_titles (resolve_menu_route i (snd (build_menu e ids))) = (if enabled then Some titles else None)"
proof -
  obtain j where j: "(titles, enabled, j) \<in> set (menu_numbers e)" and i: "i = ids j"
    using item by (auto simp: menu_items_numbers)
  have "list_all (\<lambda>(t, en, j). map_option route_titles (resolve_menu_route (ids j) (snd (build_menu e ids))) =
      (if en then Some t else None)) (menu_numbers e)"
    unfolding resolve_by_number [OF inj] menu_numbers_def Let_def list_all_append
    by (cases "should_show_onboarding e") (simp_all add: list_all_iff)
  with j show ?thesis by (auto simp: i list_all_iff)
qed

section \<open>The subscription gives up\<close>

lemma read_stream_Inl: "\<exists>m. snd (read_stream dec ls e) = Inl m"
proof (induction ls)
  case (Cons l ls)
  then obtain sts m where "read_stream dec ls e = (sts, Inl m)" by (metis prod.collapse)
  then show ?case by (auto split: sum.split control_response.split tray_update.split)
qed simp

text \<open>A connection that was accepted and served for a year also ends as an error.\<close>

lemma subscribe_once_fails: "\<exists>m. subscribe_once dec socket c = (fst (subscribe_once dec socket c), Inl m)"
  using read_stream_Inl by (cases c) (simp_all add: subscribe_once_def, metis prod.collapse)

lemma subscribe_loop_Cons:
  "subscribe_loop dec socket attempt backoff (c # cs) =
     (let sts = fst (subscribe_once dec socket c) in
      if attempt + 1 \<ge> 10 then \<lparr>ts_statuses = sts @ [TrayFailed], ts_sleeps = [], ts_returned = True, ts_left = cs\<rparr>
      else let t = subscribe_loop dec socket (attempt + 1) (min (backoff * 2) (from_secs 30)) cs
           in t\<lparr>ts_statuses := sts @ ts_statuses t, ts_sleeps := backoff # ts_sleeps t\<rparr>)"
proof -
  obtain m where m: "subscribe_once dec socket c = (fst (subscribe_once dec socket c), Inl m)"
    using subscribe_once_fails by blast
  show ?thesis unfolding subscribe_loop.simps(2) by (subst m) (simp add: Let_def)
qed

text \<open>the subscription ends.  After ten connections, whether they were refused or worked and were closed
  later, the agent shows Failed for good; between them it waited 1, 2, 4, 8, 16 and four times 30 seconds,
  and whatever the daemon reported in between was passed on.\<close>

theorem subscription_gives_up:
  assumes "10 \<le> length cs"
  shows "subscribe_loop dec socket 0 (from_secs 1) cs =
    \<lparr>ts_statuses = concat (map (\<lambda>c. fst (subscribe_once dec socket c)) (take 10 cs)) @ [TrayFailed],
     ts_sleeps = map from_secs [1, 2, 4, 8, 16, 30, 30, 30, 30], ts_returned = True, ts_left = drop 10 cs\<rparr>"
proof -
  obtain c0 c1 c2 c3 c4 c5 c6 c7 c8 c9 r where cs: "cs = [c0, c1, c2, c3, c4, c5, c6, c7, c8, c9] @ r"
  proof -
    have "cs = take 10 cs @ drop 10 cs" by simp
    moreover have "length (take 10 cs) = 10" using assms by simp
    moreover have "\<exists>a b c d f g h i j k. xs = [a, b, c, d, f, g, h, i, j, k]" if "length xs = 10" for xs :: "tray_conn list"
      using that by (auto simp: numeral_eq_Suc length_Suc_conv)
    ultimately show ?thesis using that by metis
  qed
  have "\<not> (10::u32) \<le> 1" by (simp add: word_le_nat_alt)
  then show ?thesis unfolding cs by (simp add: subscribe_loop_Cons Let_def from_secs_def del: subscribe_loop.simps)
qed

section \<open>Turns\<close>

text \<open>The texts belong to one status, and it is always a status of no services: nothing ever counts them.\<close>

definition displays :: "tray_status \<Rightarrow> tray \<Rightarrow> bool" where
  "displays s t \<longleftrightarrow> tr_status_text t = menu_label s 0 \<and> tr_tooltip t = tray_tooltip s \<and> tr_service_count t = 0 \<and>
     tr_count_text t = ''Services: 0'' \<and> tr_menu_events t = None"

definition turn_status :: "tray_turn_input \<Rightarrow> tray_status \<Rightarrow> tray_status" where
  "turn_status x s = (case ti_status x of StatusRecv s' \<Rightarrow> s' | _ \<Rightarrow> s)"

lemma nat_str_0 [simp]: "nat_str 0 = ''0''"
  by code_simp

lemma displays_turn: "displays s t \<Longrightarrow> displays (if tr_shutdown t then s else turn_status x s) (tray_turn m x t)"
  by (auto simp: displays_def turn_status_def tray_turn_def tray_click_def tray_receive_def tray_refresh_def handle_menu_event_def
      send_menu_event_def apply_status_update_def update_service_count_label_def update_onboarding_item_def Let_def
      split: status_recv.split option.split)

lemma displays_start: "displays TrayIdle (tray_start e now)"
  by (simp add: displays_def tray_start_def menu_label_def)

lemma shutdown_turn:
  "tr_shutdown (tray_turn m x t) = (tr_shutdown t \<or> ti_click x = Some (mi_quit m))"
  by (auto simp: tray_turn_def tray_click_def tray_receive_def tray_refresh_def handle_menu_event_def
      send_menu_event_def apply_status_update_def update_service_count_label_def update_onboarding_item_def Let_def
      split: status_recv.split option.split)

text \<open>as long as nobody quits, menu line and tooltip show the status received last (Idle before the first),
  and the menu says that there are no services, whatever the daemon runs.\<close>

theorem tray_shows_last_status:
  assumes "\<forall>x \<in> set xs. ti_click x \<noteq> Some (mi_quit m) \<and> ti_status x \<noteq> StatusDisconnected"
  shows "displays (fold turn_status xs TrayIdle) (tray_run m xs (tray_start e now))"
proof -
  have exit: "tr_exit (tray_turn m x t) = tr_exit t" if "\<not> tr_shutdown t" "ti_status x \<noteq> StatusDisconnected" for x t
    using that by (auto simp: tray_turn_def tray_click_def tray_receive_def tray_refresh_def handle_menu_event_def
        send_menu_event_def apply_status_update_def update_service_count_label_def update_onboarding_item_def Let_def
        split: status_recv.split option.split)
  have "displays (fold turn_status xs s) (tray_run m xs t)" if "displays s t" "\<not> tr_shutdown t" "\<not> tr_exit t" for s t
    using that assms
  proof (induction xs arbitrary: s t)
    case (Cons x xs)
    have "displays (turn_status x s) (tray_turn m x t)" using displays_turn [OF Cons.prems(1)] Cons.prems(2) by simp
    moreover have "\<not> tr_shutdown (tray_turn m x t)" "\<not> tr_exit (tray_turn m x t)"
      using Cons.prems exit by (auto simp: shutdown_turn)
    ultimately show ?case using Cons by simp
  qed simp
  then show ?thesis using displays_start by (simp add: tray_start_def)
qed

text \<open>Quit: the next turn starts the thread that asks the daemon to stop, and is the last one.\<close>

theorem quit_ends_loop:
  assumes "\<not> tr_exit t" and "ti_click x = Some (mi_quit m)" and "\<not> tr_shutdown t" and "ti_status x \<noteq> StatusDisconnected"
  defines "t1 \<equiv> tray_turn m x t"
  shows "tray_run m (x # y # xs) t = t1\<lparr>tr_effects := tr_effects t1 @ [RunThread JobStop], tr_exit := True\<rparr>"
proof -
  have "tr_shutdown t1" unfolding t1_def shutdown_turn using assms by simp
  moreover have "\<not> tr_exit t1"
    unfolding t1_def using assms(1,3,4) by (auto simp: tray_turn_def tray_click_def tray_receive_def tray_refresh_def handle_menu_event_def
        send_menu_event_def apply_status_update_def update_service_count_label_def update_onboarding_item_def Let_def
        split: status_recv.split option.split)
  ultimately have "tray_turn m y t1 = t1\<lparr>tr_effects := tr_effects t1 @ [RunThread JobStop], tr_exit := True\<rparr>"
    and "tray_run m xs (t1\<lparr>tr_effects := tr_effects t1 @ [RunThread JobStop], tr_exit := True\<rparr>) =
      t1\<lparr>tr_effects := tr_effects t1 @ [RunThread JobStop], tr_exit := True\<rparr>"
    by (simp add: tray_turn_def, cases xs, simp_all)
  with \<open>\<not> tr_exit t1\<close> assms(1) show ?thesis by (simp add: t1_def)
qed

section \<open>The agent and the daemon\<close>

text \<open>The daemon's side of a request: a new connection of the same user, the first line it sends back.\<close>

definition daemon_peer ::
  "(string \<Rightarrow> string + control_command) \<Rightarrow> (control_response \<Rightarrow> string) \<Rightarrow> nat \<Rightarrow> u32 \<Rightarrow> ipc_env \<Rightarrow> string \<Rightarrow> ipc_peer" where
  "daemon_peer parse prnt cap uid env request = \<lparr>pe_connect = None, pe_write = None,
     pe_reply = Inr (case ic_sent (ipc_step parse cap (env, Chunk request) (ipc_open uid uid)) of
       [] \<Rightarrow> None | r # _ \<Rightarrow> Some (prnt r))\<rparr>"

text \<open>What the two programs rely on of the JSON library for one command and its answer: texts without line
  breaks that are read back.\<close>

definition wire_ok ::
  "(string \<Rightarrow> string + control_response) \<Rightarrow> (control_command \<Rightarrow> string) \<Rightarrow> (string \<Rightarrow> string + control_command) \<Rightarrow>
   (control_response \<Rightarrow> string) \<Rightarrow> ipc_env \<Rightarrow> control_command \<Rightarrow> bool" where
  "wire_ok dec enc parse prnt env c \<longleftrightarrow> parse (enc c) = Inr c \<and> enc c \<noteq> [] \<and> nl \<notin> set (enc c) \<and>
     (case handle_command env c of Inl _ \<Rightarrow> True | Inr r \<Rightarrow> dec (prnt r) = Inr r)"

lemma nl_code: "nl = char_of (10::nat)"
  by code_simp

lemma asked_daemon:
  assumes w: "wire_ok dec enc parse prnt env c" and c: "c \<noteq> Subscribe"
  shows "send_command dec enc (daemon_peer parse prnt cap uid env) c = handle_command env c"
proof -
  obtain r where r: "handle_command env c = Inr r" using handle_command_total by blast
  have p: "parse (enc c) = Inr c" "enc c \<noteq> []" "nl \<notin> set (enc c)" "dec (prnt r) = Inr r"
    using w r by (simp_all add: wire_ok_def)
  have "lines_of (write_request enc c) = [enc c]"
    using lines_of_commands [of "[enc c]"] p by (simp add: write_request_def nl_code)
  moreover have "ic_phase (ipc_open uid uid) = Reading" "ic_sent (ipc_open uid uid) = []" by (simp_all add: ipc_open_def)
  moreover have "respond parse env (enc c) = r" by (simp add: respond_def p r)
  ultimately have "ic_sent (ipc_step parse cap (env, Chunk (write_request enc c)) (ipc_open uid uid)) = [r]"
    using serve_lines_plain [of "[enc c]" parse env "ipc_open uid uid"] p c by simp
  then show ?thesis by (simp add: send_command_def daemon_peer_def Let_def p r)
qed

definition direct_servers :: "host_kind \<Rightarrow> scan_result list \<Rightarrow> host_service list" where
  "direct_servers k scans = concat (map (\<lambda>s. filter (\<lambda>v. \<not> runs_mux v) (sr_services s))
     (filter (\<lambda>s. hf_kind (sr_host s) = k) scans))"

lemma as_label_inj: "as_label a = as_label b \<longleftrightarrow> a = b"
  by (cases a; cases b; simp)

lemma non_mux_count: "length (concat (map (non_mux_of k) scans)) = length (direct_servers k scans)"
  by (induction scans) (auto simp: non_mux_of_def as_label_inj direct_servers_def)

lemma non_mux_empty: "(\<forall>s \<in> set scans. non_mux_of k s = []) \<longleftrightarrow> direct_servers k scans = []"
proof -
  have "concat (map (non_mux_of k) scans) = [] \<longleftrightarrow> direct_servers k scans = []"
    by (metis non_mux_count length_0_conv)
  then show ?thesis by simp
qed

text \<open>the answer to Verify Clients is true.  For a client with a configuration format of its own, the
  notification says how many of the servers configured in its files run without the mux, and \<open>ok\<close> exactly if
  there are none.\<close>

theorem verify_notice_true:
  assumes w: "wire_ok dec enc parse prnt env (job_command (JobVerify kind))" and k: "verified_kind kind = Some k"
  shows "job_effects tt clip (JobVerify kind) (send_command dec enc (daemon_peer parse prnt cap uid env) (job_command (JobVerify kind))) =
    [Notify ''Vibecrafted'' (client_label kind @ '': '' @ (if direct_servers k (ie_scans env) = [] then ''ok'' else ''drift'') @ '' ('' @
       nat_str (length (direct_servers k (ie_scans env))) @ '' non-mux servers)'')]"
  using asked_daemon [OF w] by (simp add: handle_verify_def k verify_text_def Let_def non_mux_count non_mux_empty)

text \<open>Restart Service reports that the request was sent, and nothing restarts: the daemon has no such command.
  Quit Mux asks the daemon to stop, which it does not do either.\<close>

theorem restart_notice_untrue:
  assumes "wire_ok dec enc parse prnt env (RestartService name)" and "wire_ok dec enc parse prnt env (Shutdown True)"
  shows "send_command dec enc (daemon_peer parse prnt cap uid env) (job_command (JobRestart name)) = Inr RespUnimplemented \<and>
    job_effects tt clip (JobRestart name) (Inr RespUnimplemented) = [Notify ''Vibecrafted'' (''Restart request sent for '' @ name)] \<and>
    send_command dec enc (daemon_peer parse prnt cap uid env) (job_command JobStop) = Inr RespUnimplemented"
  using asked_daemon [OF assms(1)] asked_daemon [OF assms(2)] by simp

section \<open>The text of a notification\<close>

text \<open>A quoted string of the script language: a backslash takes the next character.\<close>

fun osa_body :: "string \<Rightarrow> (string \<times> string) option" where
  "osa_body [] = None"
| "osa_body (c # s) = (if c = dq then Some ([], s)
     else if c = bs then (case s of [] \<Rightarrow> None | d # s' \<Rightarrow>
       if d = dq \<or> d = bs then map_option (\<lambda>(t, r). (d # t, r)) (osa_body s') else None)
     else map_option (\<lambda>(t, r). (c # t, r)) (osa_body s))"

definition osa_string :: "string \<Rightarrow> (string \<times> string) option" where
  "osa_string s = (case s of c # s' \<Rightarrow> if c = dq then osa_body s' else None | [] \<Rightarrow> None)"

lemma osa_body_quote:
  "osa_body (replace_char dq [bs, dq] (replace_char bs [bs, bs] s) @ dq # r) = Some (s, r)"
  by (induction s) auto

interpretation osa: quoting quote_osascript osa_string "\<lambda>_. True" "\<lambda>_. True"
  by unfold_locales (simp_all add: quote_osascript_def osa_string_def osa_body_quote)

text \<open>No message, whatever the daemon put in it, can end the string it is written into.\<close>

theorem notify_script_safe:
  "osa_string (drop (length ''display notification '') (notify_script title message)) =
     Some (message, '' with title '' @ quote_osascript title)"
  using osa.read_quote [of message "'' with title '' @ quote_osascript title"] by (simp add: notify_script_def)

section \<open>Examples\<close>

definition example_tray_env :: tray_env where
  "example_tray_env = \<lparr>te_home = Some ''/h'', te_services_var = Some ''memex, Help,,'', te_editor = None,
     te_exists = (\<lambda>_. False), te_version = ''1''\<rparr>"

definition unary_id :: "nat \<Rightarrow> menu_id" where
  "unary_id n = replicate n (CHR ''x'')"

theorem menu_items_routed_witness:
  "inj unary_id \<and> map_option route_titles (resolve_menu_route (unary_id 5) (snd (build_menu example_tray_env unary_id))) =
     Some [''Restart Service'', ''Help'']"
proof -
  have inj: "inj unary_id" by (rule injI) (metis unary_id_def length_replicate)
  have "([''Restart Service'', ''Help''], True, 5) \<in> set (menu_numbers example_tray_env)" by code_simp
  then have "([''Restart Service'', ''Help''], True, unary_id 5) \<in> set (menu_items (fst (build_menu example_tray_env unary_id)))"
    unfolding menu_items_numbers by force
  from menu_items_routed [OF inj this] inj show ?thesis by simp
qed

theorem subscription_gives_up_witness:
  "ts_statuses (subscribe_loop (\<lambda>_. Inr (RespEvent (RouteUpdate ''c'' ''s'' 0 0))) ''/s'' 0 (from_secs 1)
     (replicate 10 (Streamed [''l''] None))) = replicate 10 TrayRouting @ [TrayFailed]"
proof -
  have "10 \<le> length (replicate 10 (Streamed [''l''] None))" by simp
  from subscription_gives_up [OF this] show ?thesis
    by (simp add: subscribe_once_def)
qed

definition example_turn :: "status_recv \<Rightarrow> menu_id option \<Rightarrow> tray_turn_input" where
  "example_turn s c = \<lparr>ti_now = from_secs 5, ti_env = example_tray_env, ti_status = s, ti_icon_set = True, ti_click = c\<rparr>"

definition example_menu :: menu_ids where
  "example_menu = snd (build_menu example_tray_env unary_id)"

theorem tray_shows_last_status_witness:
  "displays TrayRouting (tray_run example_menu [example_turn (StatusRecv TrayFailed) None,
     example_turn (StatusRecv TrayRouting) (Some (unary_id 2)), example_turn StatusEmpty None] (tray_start example_tray_env 0))"
proof -
  let ?xs = "[example_turn (StatusRecv TrayFailed) None, example_turn (StatusRecv TrayRouting) (Some (unary_id 2)),
    example_turn StatusEmpty None]"
  have "\<forall>x \<in> set ?xs. ti_click x \<noteq> Some (mi_quit example_menu) \<and> ti_status x \<noteq> StatusDisconnected" by code_simp
  from tray_shows_last_status [OF this, of example_tray_env 0] show ?thesis by (simp add: turn_status_def example_turn_def)
qed

definition verify_env :: ipc_env where
  "verify_env = example_env\<lparr>ie_scans := [\<lparr>sr_host = host_file_from_custom_path ''c'',
       sr_services = [\<lparr>sv_name = ''a'', sv_command = ''npx'', sv_args = [], sv_cwd = None, sv_socket = None, sv_env = None, sv_enabled = None\<rparr>]\<rparr>,
     \<lparr>sr_host = (host_file_from_custom_path ''d'')\<lparr>hf_kind := Claude\<rparr>,
       sr_services = [\<lparr>sv_name = ''b'', sv_command = ''npx'', sv_args = [], sv_cwd = None, sv_socket = None, sv_env = None, sv_enabled = None\<rparr>]\<rparr>]\<rparr>"

definition verify_response :: control_response where
  "verify_response = (case handle_command verify_env (Verify KindClaude) of Inr r \<Rightarrow> r | Inl _ \<Rightarrow> RespOk)"

definition blank_texts :: tray_texts where
  "blank_texts = \<lparr>tt_routes = (\<lambda>_. []), tt_status = (\<lambda>_. []), tt_debug = (\<lambda>_. [])\<rparr>"

theorem verify_notice_true_witness:
  "job_effects blank_texts False (JobVerify KindClaude) (send_command (\<lambda>_. Inr verify_response) (\<lambda>_. ''v'')
      (daemon_peer (\<lambda>_. Inr (Verify KindClaude)) (\<lambda>_. ''r'') 128 7 verify_env) (Verify KindClaude)) =
    [Notify ''Vibecrafted'' ''Claude: drift (1 non-mux servers)'']"
proof -
  have w: "wire_ok (\<lambda>_. Inr verify_response) (\<lambda>_. ''v'') (\<lambda>_. Inr (Verify KindClaude)) (\<lambda>_. ''r'') verify_env (job_command (JobVerify KindClaude))"
    by (simp add: wire_ok_def verify_response_def handle_verify_def Let_def)
  have n: "direct_servers Claude (ie_scans verify_env) \<noteq> []" "length (direct_servers Claude (ie_scans verify_env)) = 1" by code_simp+
  have "nat_str 1 = ''1''" by code_simp
  then show ?thesis using verify_notice_true [OF w verified_kind.simps(1), of blank_texts False 128 7] n by simp
qed

end
