(* ===== verification/Tray_Icon.thy ===== *)
theory Tray_Icon
  imports Tray_Agent
begin

text \<open>
  The pictures of the menu bar agent (\<open>tray-agent/src/icons.rs\<close>): a disc in the colour of the status is
  painted into a buffer of four bytes per pixel.  Indexing outside the buffer is a panic (\<open>None\<close>); the
  index is computed in 32 bits.  Decoding and scaling of the built-in picture are a parameter.
\<close>

type_synonym byte = "8 word"
type_synonym rgb = "byte \<times> byte \<times> byte"

section \<open>Painting\<close>

fun color :: "tray_status \<Rightarrow> rgb" where
  "color TrayIdle = (80, 200, 100)"
| "color TrayRouting = (60, 130, 220)"
| "color TraySaturated = (255, 165, 0)"
| "color TrayRestarting = (255, 220, 60)"
| "color TrayFailed = (255, 50, 50)"

definition paint_index :: "u32 \<Rightarrow> int \<Rightarrow> int \<Rightarrow> nat" where
  "paint_index width x y = unat ((of_int y * width + of_int x) * 4 :: u32)"

definition paint :: "byte list \<Rightarrow> u32 \<Rightarrow> int \<Rightarrow> int \<Rightarrow> rgb \<Rightarrow> byte list option" where
  "paint rgba width x y c = (case c of (r, g, b) \<Rightarrow>
     let idx = paint_index width x y in
     if idx + 3 < length rgba then Some (rgba[idx := r, idx + 1 := g, idx + 2 := b, idx + 3 := 255]) else None)"

text \<open>A loop over the pixels of a rectangle, row by row, that paints those a condition picks.\<close>

fun paint_all :: "(int \<Rightarrow> int \<Rightarrow> bool) \<Rightarrow> u32 \<Rightarrow> rgb \<Rightarrow> (int \<times> int) list \<Rightarrow> byte list \<Rightarrow> byte list option" where
  "paint_all pick width c [] rgba = Some rgba"
| "paint_all pick width c ((x, y) # ps) rgba =
     (if pick x y then Option.bind (paint rgba width x y c) (paint_all pick width c ps)
      else paint_all pick width c ps rgba)"

definition pixels :: "int \<Rightarrow> int \<Rightarrow> int \<Rightarrow> int \<Rightarrow> (int \<times> int) list" where
  "pixels x0 x1 y0 y1 = concat (map (\<lambda>y. map (\<lambda>x. (x, y)) [x0..x1 - 1]) [y0..y1 - 1])"

definition in_glyph :: "int \<Rightarrow> int \<Rightarrow> tray_status \<Rightarrow> int \<Rightarrow> int \<Rightarrow> bool" where
  "in_glyph cx cy s x y =
     (let dx = x - cx; dy = y - cy; radius = 6; in_circle = dx * dx + dy * dy \<le> radius * radius;
          is_x = \<bar>dx - dy\<bar> \<le> 2 \<or> \<bar>dx + dy\<bar> \<le> 2
      in in_circle \<and> (s \<noteq> TrayFailed \<or> is_x))"

definition draw_status_glyph :: "byte list \<Rightarrow> u32 \<Rightarrow> u32 \<Rightarrow> tray_status \<Rightarrow> byte list option" where
  "draw_status_glyph rgba width height s =
     (let cx = sint width - 8; cy = sint height - 8; radius = 6
      in paint_all (in_glyph cx cy s) width (color s)
        (pixels (max (cx - radius) 0) (min (cx + radius) (sint width)) (max (cy - radius) 0) (min (cy + radius) (sint height)))
        rgba)"

definition ICON_SIZE :: u32 where
  "ICON_SIZE = 44"

text \<open>\<open>Icon::from_rgba\<close> accepts a buffer of the right length; a picture is the buffer with its size.\<close>

definition icon_from_rgba :: "byte list \<Rightarrow> u32 \<Rightarrow> u32 \<Rightarrow> (byte list \<times> u32 \<times> u32) option" where
  "icon_from_rgba rgba w h = (if length rgba = 4 * unat w * unat h then Some (rgba, w, h) else None)"

datatype icon_result = IconPanic | IconError | IconOk "byte list \<times> u32 \<times> u32"

definition finish_icon :: "byte list option \<Rightarrow> u32 \<Rightarrow> u32 \<Rightarrow> icon_result" where
  "finish_icon r w h = (case r of None \<Rightarrow> IconPanic
     | Some rgba \<Rightarrow> (case icon_from_rgba rgba w h of None \<Rightarrow> IconError | Some i \<Rightarrow> IconOk i))"

text \<open>\<open>decoded\<close>: the built-in picture in the size asked for, or \<open>None\<close> if it cannot be decoded.\<close>

definition load_custom_icon :: "byte list option \<Rightarrow> tray_status \<Rightarrow> icon_result" where
  "load_custom_icon decoded s = (case decoded of
     None \<Rightarrow> IconError
   | Some rgba \<Rightarrow> finish_icon (draw_status_glyph rgba ICON_SIZE ICON_SIZE s) ICON_SIZE ICON_SIZE)"

definition in_disc :: "int \<Rightarrow> int \<Rightarrow> bool" where
  "in_disc x y = (let dx = x - 11; dy = y - 11 in dx * dx + dy * dy \<le> 100)"

definition create_fallback_icon :: "tray_status \<Rightarrow> icon_result" where
  "create_fallback_icon s =
     finish_icon (paint_all in_disc 22 (color s) (pixels 0 22 0 22) (replicate (unat (22 * 22 * 4 :: u32)) 0)) 22 22"

definition to_icon :: "byte list option \<Rightarrow> tray_status \<Rightarrow> icon_result" where
  "to_icon decoded s = (case load_custom_icon decoded s of IconError \<Rightarrow> create_fallback_icon s | r \<Rightarrow> r)"

section \<open>Pixels\<close>

definition pixel :: "byte list \<Rightarrow> nat \<Rightarrow> nat \<Rightarrow> nat \<Rightarrow> byte list" where
  "pixel rgba w x y = (let k = (y * w + x) * 4 in [rgba ! k, rgba ! (k + 1), rgba ! (k + 2), rgba ! (k + 3)])"

definition rgba_of :: "rgb \<Rightarrow> byte list" where
  "rgba_of c = (case c of (r, g, b) \<Rightarrow> [r, g, b, 255])"

lemma cell_less: "x < w \<Longrightarrow> y < h \<Longrightarrow> y * w + x < h * (w::nat)"
proof -
  assume "x < w" "y < h"
  then have "y * w + x < Suc y * w" by simp
  also have "\<dots> \<le> h * w" using \<open>y < h\<close> by (intro mult_le_mono1) simp
  finally show ?thesis .
qed

lemma cell_inj:
  assumes "x < w" and "x' < (w::nat)" and "y * w + x = y' * w + x'"
  shows "y = y' \<and> x = x'"
proof -
  have "(y * w + x) div w = y" "(y' * w + x') div w = y'" "(y * w + x) mod w = x" "(y' * w + x') mod w = x'"
    using assms(1,2) by simp_all
  with assms(3) show ?thesis by simp
qed

lemma paint_index_nat:
  assumes "h * unat w \<le> 2 ^ 20" and "x < unat w" and "y < h"
  shows "paint_index w (int x) (int y) = (y * unat w + x) * 4"
proof -
  have "(y * unat w + x) * 4 < 2 ^ 32" using cell_less [OF assms(2,3)] assms(1) by simp
  moreover have "(of_int (int y) * w + of_int (int x)) * 4 = (of_nat ((y * unat w + x) * 4) :: u32)" by simp
  ultimately show ?thesis unfolding paint_index_def
    by (simp add: unat_of_nat take_bit_eq_mod del: of_nat_mult of_nat_add)
qed

lemma paint_pixel:
  assumes size: "h * unat w \<le> 2 ^ 20" "length rgba = h * unat w * 4" and xy: "x < unat w" "y < h"
  shows "\<exists>rgba'. paint rgba w (int x) (int y) c = Some rgba' \<and> length rgba' = length rgba \<and>
    (\<forall>x' < unat w. \<forall>y' < h. pixel rgba' (unat w) x' y' = (if x' = x \<and> y' = y then rgba_of c else pixel rgba (unat w) x' y'))"
proof -
  obtain r g b where c: "c = (r, g, b)" by (cases c)
  let ?k = "(y * unat w + x) * 4"
  have k: "?k + 3 < length rgba" using cell_less [OF xy] size(2) by simp
  let ?new = "rgba[?k := r, ?k + 1 := g, ?k + 2 := b, ?k + 3 := 255]"
  have "paint rgba w (int x) (int y) c = Some ?new"
    using k by (simp add: paint_def c Let_def paint_index_nat [OF size(1) xy])
  moreover have "pixel ?new (unat w) x' y' = (if x' = x \<and> y' = y then rgba_of c else pixel rgba (unat w) x' y')"
    if "x' < unat w" "y' < h" for x' y'
  proof (cases "x' = x \<and> y' = y")
    case True
    with k show ?thesis by (simp add: pixel_def Let_def rgba_of_def c)
  next
    case False
    let ?l = "(y' * unat w + x') * 4"
    have "y' * unat w + x' \<noteq> y * unat w + x" using cell_inj [OF that(1) xy(1)] False by blast
    then have ne: "?k + j \<noteq> ?l + i" if "i < 4" "j < 4" for i j using that by presburger
    have "?new ! (?l + i) = rgba ! (?l + i)" if "i < 4" for i
      using ne [OF that, of 0] ne [OF that, of 1] ne [OF that, of 2] ne [OF that, of 3] by simp
    from this [of 0] this [of 1] this [of 2] this [of 3] show ?thesis
      unfolding if_not_P [OF False] pixel_def Let_def by simp
  qed
  ultimately show ?thesis by (intro exI [of _ ?new]) simp
qed

lemma paint_all_pixels:
  assumes size: "h * unat w \<le> 2 ^ 20" "length rgba = h * unat w * 4"
    and ps: "\<forall>(x, y) \<in> set ps. 0 \<le> x \<and> x < int (unat w) \<and> 0 \<le> y \<and> y < int h"
  shows "\<exists>rgba'. paint_all pick w c ps rgba = Some rgba' \<and> length rgba' = length rgba \<and>
    (\<forall>x < unat w. \<forall>y < h. pixel rgba' (unat w) x y =
       (if (int x, int y) \<in> set ps \<and> pick (int x) (int y) then rgba_of c else pixel rgba (unat w) x y))"
  using size(2) ps
proof (induction ps arbitrary: rgba)
  case (Cons p ps)
  obtain x y where p: "p = (int x, int y)" "x < unat w" "y < h"
  proof -
    obtain a b where "p = (a, b)" by (cases p)
    with Cons.prems(2) that [of "nat a" "nat b"] show ?thesis by (auto simp: nat_less_iff)
  qed
  have ps: "\<forall>(x, y) \<in> set ps. 0 \<le> x \<and> x < int (unat w) \<and> 0 \<le> y \<and> y < int h" using Cons.prems(2) by simp
  show ?case
  proof (cases "pick (int x) (int y)")
    case True
    obtain r1 where r1: "paint rgba w (int x) (int y) c = Some r1" "length r1 = length rgba"
      "\<forall>x' < unat w. \<forall>y' < h. pixel r1 (unat w) x' y' = (if x' = x \<and> y' = y then rgba_of c else pixel rgba (unat w) x' y')"
      using paint_pixel [OF size(1) Cons.prems(1) p(2,3)] by blast
    have "length r1 = h * unat w * 4" using r1(2) Cons.prems(1) by simp
    from Cons.IH [OF this ps] obtain r2 where r2: "paint_all pick w c ps r1 = Some r2" "length r2 = length r1"
      "\<forall>x < unat w. \<forall>y < h. pixel r2 (unat w) x y =
         (if (int x, int y) \<in> set ps \<and> pick (int x) (int y) then rgba_of c else pixel r1 (unat w) x y)" by blast
    have "paint_all pick w c (p # ps) rgba = Some r2" by (simp add: p(1) True r1(1) r2(1))
    moreover have "length r2 = length rgba" by (simp add: r2(2) r1(2))
    ultimately show ?thesis using r1(3) r2(3) True by (intro exI [of _ r2]) (auto simp: p(1))
  next
    case False
    from Cons.IH [OF Cons.prems(1) ps] False show ?thesis by (auto simp: p(1))
  qed
qed simp

lemma set_pixels: "set (pixels x0 x1 y0 y1) = {x0..<x1} \<times> {y0..<y1}"
  by (auto simp: pixels_def)

lemma sint_small:
  assumes "unat w \<le> 2 ^ 10"
  shows "sint (w :: u32) = int (unat w)"
proof -
  have "int (unat w) \<le> int (2 ^ 10)" using assms by (rule of_nat_mono)
  then have "uint w < 2 ^ 31" by simp
  moreover have "- (2 ^ 31) \<le> uint w" by (rule order_trans [OF _ uint_ge_0]) simp
  ultimately have "signed_take_bit 31 (uint w) = uint w" by (rule signed_take_bit_int_eq_self [rotated])
  then show ?thesis by (simp add: sint_uint)
qed

lemma in_glyph_range: "in_glyph cx cy s x y \<Longrightarrow> cx - 6 \<le> x \<and> cy - 6 \<le> y"
proof -
  assume "in_glyph cx cy s x y"
  then have c: "(x - cx) * (x - cx) + (y - cy) * (y - cy) \<le> 36" by (simp add: in_glyph_def Let_def)
  have "\<bar>a\<bar> \<le> 6" if "a * a \<le> 36" for a :: int
    using that abs_le_square_iff [of a 6] by (simp add: power2_eq_square)
  moreover have "(x - cx) * (x - cx) \<le> 36" "(y - cy) * (y - cy) \<le> 36"
    using c zero_le_square [of "x - cx"] zero_le_square [of "y - cy"] by linarith+
  ultimately have "\<bar>x - cx\<bar> \<le> 6" "\<bar>y - cy\<bar> \<le> 6" by blast+
  then show ?thesis by linarith
qed

lemma glyph_pixels:
  assumes "unat width \<le> 2 ^ 10" and "unat height \<le> 2 ^ 10" and "length rgba = unat height * unat width * 4"
  defines "cx \<equiv> int (unat width) - 8" and "cy \<equiv> int (unat height) - 8"
  shows "\<exists>rgba'. draw_status_glyph rgba width height s = Some rgba' \<and> length rgba' = length rgba \<and>
    (\<forall>x < unat width. \<forall>y < unat height. pixel rgba' (unat width) x y =
       (if int x < cx + 6 \<and> int y < cy + 6 \<and> in_glyph cx cy s (int x) (int y)
        then rgba_of (color s) else pixel rgba (unat width) x y))"
proof -
  let ?ps = "pixels (max (cx - 6) 0) (min (cx + 6) (int (unat width))) (max (cy - 6) 0) (min (cy + 6) (int (unat height)))"
  have draw: "draw_status_glyph rgba width height s = paint_all (in_glyph cx cy s) width (color s) ?ps rgba"
    unfolding draw_status_glyph_def Let_def sint_small [OF assms(1)] sint_small [OF assms(2)] cx_def cy_def ..
  have "unat height * unat width \<le> 2 ^ 10 * 2 ^ 10" using assms(1,2) by (rule mult_le_mono [rotated])
  then have "unat height * unat width \<le> 2 ^ 20" by simp
  from paint_all_pixels [OF this assms(3), of ?ps "in_glyph cx cy s" "color s"] obtain r where
    r: "paint_all (in_glyph cx cy s) width (color s) ?ps rgba = Some r" "length r = length rgba"
    "\<forall>x < unat width. \<forall>y < unat height. pixel r (unat width) x y =
       (if (int x, int y) \<in> set ?ps \<and> in_glyph cx cy s (int x) (int y) then rgba_of (color s) else pixel rgba (unat width) x y)"
    by (auto simp: set_pixels)
  have "(int x, int y) \<in> set ?ps \<and> in_glyph cx cy s (int x) (int y) \<longleftrightarrow>
      int x < cx + 6 \<and> int y < cy + 6 \<and> in_glyph cx cy s (int x) (int y)" if "x < unat width" "y < unat height" for x y
  proof -
    have "int x < int (unat width)" "int y < int (unat height)" using that by (simp_all only: of_nat_less_iff)
    then show ?thesis using in_glyph_range [of cx cy s "int x" "int y"] unfolding set_pixels by auto
  qed
  with r draw show ?thesis by (intro exI [of _ r]) simp
qed

text \<open>The picture shown for a status, pixel by pixel.\<close>

definition shown_pixel :: "byte list option \<Rightarrow> tray_status \<Rightarrow> nat \<Rightarrow> nat \<Rightarrow> byte list" where
  "shown_pixel decoded s x y = (case decoded of
     Some rgba \<Rightarrow> if x < 42 \<and> y < 42 \<and> in_glyph 36 36 s (int x) (int y) then rgba_of (color s) else pixel rgba 44 x y
   | None \<Rightarrow> if in_disc (int x) (int y) then rgba_of (color s) else [0, 0, 0, 0])"

text \<open>C37: the agent always has a picture.  With the built-in picture decoded it is that picture with exactly
  the pixels of the disc in the lower right corner (of the cross in it, for Failed) in the colour of the status,
  fully opaque; without it a disc of that colour.  No index is out of range and no size is refused.\<close>

theorem tray_icon_painted:
  assumes "\<And>rgba. decoded = Some rgba \<Longrightarrow> length rgba = 44 * 44 * 4"
  shows "\<exists>r w. to_icon decoded s = IconOk (r, w, w) \<and> w = (if decoded = None then 22 else 44) \<and>
    (\<forall>x < unat w. \<forall>y < unat w. pixel r (unat w) x y = shown_pixel decoded s x y)"
proof (cases decoded)
  case None
  let ?zero = "replicate (unat (22 * 22 * 4 :: u32)) 0"
  have "\<forall>(x, y) \<in> set (pixels 0 22 0 22). 0 \<le> x \<and> x < int (unat (22::u32)) \<and> 0 \<le> y \<and> y < int 22" by (auto simp: set_pixels)
  from paint_all_pixels [OF _ _ this, of ?zero in_disc "color s"]
  obtain r where r: "paint_all in_disc 22 (color s) (pixels 0 22 0 22) ?zero = Some r" "length r = 22 * 22 * 4"
    "\<forall>x < 22. \<forall>y < 22. pixel r 22 x y = (if (int x, int y) \<in> set (pixels 0 22 0 22) \<and> in_disc (int x) (int y)
       then rgba_of (color s) else pixel ?zero 22 x y)" by auto
  have "pixel ?zero 22 x y = [0, 0, 0, 0]" if "x < 22" "y < 22" for x y
    using cell_less [OF that] by (simp add: pixel_def Let_def)
  then have "\<forall>x < 22. \<forall>y < 22. pixel r 22 x y = shown_pixel None s x y" using r(3) by (simp add: shown_pixel_def set_pixels)
  with None r show ?thesis
    by (intro exI [of _ r] exI [of _ 22])
      (simp add: to_icon_def load_custom_icon_def create_fallback_icon_def finish_icon_def icon_from_rgba_def)
next
  case (Some rgba)
  from assms [OF this] have len: "length rgba = unat (44::u32) * unat (44::u32) * 4" by simp
  from glyph_pixels [OF _ _ len, of s] obtain r where
    r: "draw_status_glyph rgba 44 44 s = Some r" "length r = length rgba"
    "\<forall>x < 44. \<forall>y < 44. pixel r 44 x y = (if int x < 42 \<and> int y < 42 \<and> in_glyph 36 36 s (int x) (int y)
       then rgba_of (color s) else pixel rgba 44 x y)" by auto
  with len Some show ?thesis
    by (intro exI [of _ r] exI [of _ 44])
      (simp add: to_icon_def load_custom_icon_def finish_icon_def icon_from_rgba_def ICON_SIZE_def shown_pixel_def)
qed

theorem tray_icon_painted_witness:
  "\<exists>r. to_icon None TrayFailed = IconOk (r, 22, 22) \<and> pixel r 22 11 1 = [255, 50, 50, 255] \<and> pixel r 22 0 0 = [0, 0, 0, 0]"
proof -
  from tray_icon_painted [of None TrayFailed] obtain r where r: "to_icon None TrayFailed = IconOk (r, 22, 22)"
    and px: "\<forall>x < 22. \<forall>y < 22. pixel r 22 x y = shown_pixel None TrayFailed x y" by auto
  from px have "pixel r 22 11 1 = shown_pixel None TrayFailed 11 1" "pixel r 22 0 0 = shown_pixel None TrayFailed 0 0" by simp_all
  with r show ?thesis by (simp add: shown_pixel_def in_disc_def rgba_of_def)
qed

end
