(* ===== verification/Tray_Watch.thy ===== *)
theory Tray_Watch
  imports Tray_Icon Mux_Accounting
begin

text \<open>
  The menu bar agent beside the daemon: what the daemon publishes in any schedule, and what the agent makes
  of it.
\<close>

section \<open>What the daemon publishes\<close>

definition event_log :: "mux_state \<Rightarrow> ipc_event list" where
  "event_log st = (case ms_event_tx st of None \<Rightarrow> [] | Some evs \<Rightarrow> evs)"

fun state_change :: "ipc_event \<Rightarrow> bool" where
  "state_change (StateChange a b c) = True"
| "state_change ev = False"

abbreviation changes_only :: "mux_state \<Rightarrow> bool" where
  "changes_only st \<equiv> list_all state_change (event_log st)"

named_theorems pub_simps \<open>what the operations publish\<close>

lemma publish_changes [pub_simps]: "changes_only (emit_event (StateChange a b c) st) = changes_only st"
  by (simp add: emit_event_def event_log_def split: option.split)

lemma published_ops [pub_simps]:
  "event_log (send_to cid m st) = event_log st"
  "event_log (unregister_client cid st) = event_log st"
  "event_log (snd (register_client now st)) = event_log st"
  "event_log (buffer_message cid m st) = event_log st"
  "event_log (snd (next_request_id st)) = event_log st"
  "event_log (snd (complete_handshake cid st)) = event_log st"
  "event_log (mark_running pid st) = event_log st"
  "event_log (cleanup_state b st) = event_log st"
  by (auto simp: event_log_def send_to_def unregister_client_def register_client_def buffer_message_def next_request_id_def
      complete_handshake_def mark_handshake_complete_def mark_running_def cleanup_state_def Let_def split: option.split)

lemma published_fold [pub_simps]: "event_log (fold (\<lambda>x. send_to (f x) (g x)) xs st) = event_log st"
  by (induction xs arbitrary: st) (simp_all add: pub_simps)

lemma published_worlds [pub_simps]:
  "event_log (w_state (update_queue_depth w)) = event_log (w_state w)"
  "chan_try_send m w = Some w' \<Longrightarrow> event_log (w_state w') = event_log (w_state w)"
  "chan_send m w = Some w' \<Longrightarrow> event_log (w_state w') = event_log (w_state w)"
  by (auto simp: event_log_def update_queue_depth_def chan_try_send_def chan_send_def Let_def split: if_splits)

lemma published_fields [pub_simps]:
  "event_log (st\<lparr>ms_pending := a\<rparr>) = event_log st" "event_log (st\<lparr>ms_next_global_id := b\<rparr>) = event_log st"
  "event_log (st\<lparr>ms_client_handshakes := c\<rparr>) = event_log st" "event_log (st\<lparr>ms_init_waiting := d\<rparr>) = event_log st"
  "event_log (st\<lparr>ms_cached_initialize := e\<rparr>) = event_log st" "event_log (st\<lparr>ms_initializing := f\<rparr>) = event_log st"
  "event_log (st\<lparr>ms_server_initialized := f\<rparr>) = event_log st" "event_log (st\<lparr>ms_heartbeat_metrics := g\<rparr>) = event_log st"
  "event_log (st\<lparr>ms_server_status := h\<rparr>) = event_log st" "event_log (st\<lparr>ms_last_reset := i\<rparr>) = event_log st"
  "event_log (st\<lparr>ms_queue_depth := j\<rparr>) = event_log st" "event_log (st\<lparr>ms_child_pid := k\<rparr>) = event_log st"
  "event_log (st\<lparr>ms_clients := l\<rparr>) = event_log st"
  by (simp_all add: event_log_def)

lemma changes_enqueue [pub_simps]:
  "changes_only (w_state (snd (enqueue_request now cid l m i w))) = changes_only (w_state w)"
proof (cases "MAX_PENDING \<le> length (ms_pending (w_state w))")
  case False
  let ?w = "w\<lparr>w_state := snd (add_pending now cid l i (w_state w))\<rparr>"
  have p: "event_log (w_state ?w) = event_log (w_state w)"
    by (simp add: add_pending_def next_request_id_def Let_def pub_simps)
  show ?thesis
    using False p by (cases "chan_send (set_id m (JStr (fst (add_pending now cid l i (w_state w))))) ?w")
      (simp_all add: enqueue_request_def Let_def case_prod_unfold pub_simps)
qed (simp add: enqueue_request_def pub_simps)

lemma changes_flush [pub_simps]: "changes_only (w_state (flush_buffered now cid ms w)) = changes_only (w_state w)"
  by (induction ms arbitrary: w) (simp_all add: forward_request_def pub_simps split: option.split)

lemma changes_frame:
  "changes_only (w_state (client_frame enc_len now cid msg w)) = changes_only (w_state w)"
proof -
  have notif: "changes_only (w_state (case chan_try_send m v of None \<Rightarrow> v | Some v' \<Rightarrow> v')) = changes_only (w_state v)" for m v
    by (cases "chan_try_send m v") (simp_all add: pub_simps)
  have fwd: "changes_only (w_state (forward_initialized msg w)) = changes_only (w_state w)"
    using notif by (simp add: forward_initialized_def Let_def pub_simps)
  have "changes_only (w_state (handle_initialized now cid msg w)) = changes_only (w_state w)"
    using fwd by (simp add: handle_initialized_def Let_def case_prod_unfold pub_simps)
  moreover have "changes_only (w_state (snd (handle_initialize now cid l msg w))) = changes_only (w_state w)" for l
    by (simp add: handle_initialize_def Let_def pub_simps split: option.split)
  ultimately show ?thesis unfolding client_frame_def handle_client_message_def
    using notif by (simp add: Let_def forward_request_def pub_simps split: option.split)
qed

lemma changes_server: "changes_only (w_state (snd (route_event now ev w))) = changes_only (w_state w)"
proof -
  have "changes_only (w_state (snd (handle_server_message now m w))) = changes_only (w_state w)" for m
    by (simp add: handle_server_message_def broadcast_def cache_initialize_def Let_def case_prod_unfold pub_simps split: option.split)
  moreover have "changes_only (w_state (reset_state now r w)) = changes_only (w_state w)" for r
    by (simp add: reset_state_def Let_def case_prod_unfold pub_simps)
  ultimately show ?thesis by (simp add: route_event_def split: server_event.split option.split)
qed

lemma changes_left: "leave_write_loop now c (b, w) = Some (b', w') \<Longrightarrow> changes_only (w_state w') = changes_only (w_state w)"
  by (auto simp: leave_write_loop_def queue_depth_guarded_def with_state_def publish_guarded_def acquire_def pub_simps
      split: exit_cause.splits if_splits bind_splits)

lemma changes_step: "mux_step enc_len s e t \<Longrightarrow> changes_only (w_state (sys_world t)) = changes_only (w_state (sys_world s))"
proof (induction rule: mux_step.induct)
  case (connect now s cid w)
  then show ?case by (auto simp: client_connect_def Let_def case_prod_unfold pub_simps split: if_splits)
next
  case (child_left now c s w)
  then show ?case using changes_left by simp
qed (simp_all add: changes_frame changes_server handshake_tick_def client_disconnect_def client_writer_closed_def
    client_decode_error_def reap_timeouts_def Let_def case_prod_unfold pub_simps)

lemma reach_changes: "mux_reach enc_len c es s \<Longrightarrow> mc_event_tx c = Some [] \<Longrightarrow> changes_only (w_state (sys_world s))"
proof (induction rule: mux_reach.induct)
  case start
  then show ?case by (simp add: sys_init_def mux_state_new_def event_log_def)
next
  case (step es s e t)
  then show ?case using changes_step [OF step.hyps(2)] by simp
qed

section \<open>What the agent sees of it\<close>

lemma read_changes:
  "list_all state_change evs \<Longrightarrow> (\<And>ev. ev \<in> set evs \<Longrightarrow> dec (prnt (RespEvent ev)) = Inr (RespEvent ev)) \<Longrightarrow>
     fst (read_stream dec (map (\<lambda>ev. prnt (RespEvent ev)) evs) fin) = []"
proof (induction evs)
  case (Cons ev evs)
  obtain a b c where "ev = StateChange a b c" using Cons.prems(1) by (cases ev) auto
  with Cons show ?case by (simp add: case_prod_unfold Let_def)
qed simp

text \<open>C21: the agent never learns anything.  In every schedule the daemon publishes state changes only, the one
  kind of event the agent passes over: whatever part of them a subscription delivers, the agent's status is
  not changed by it.\<close>

theorem agent_hears_nothing:
  assumes "mux_reach enc_len c es s" and "mc_event_tx c = Some []" and "set evs \<subseteq> set (event_log (w_state (sys_world s)))"
    and "\<And>ev. ev \<in> set evs \<Longrightarrow> dec (prnt (RespEvent ev)) = Inr (RespEvent ev)"
  shows "fst (subscribe_once dec socket (Streamed (map (\<lambda>ev. prnt (RespEvent ev)) evs) fin)) = []"
proof -
  have "list_all state_change evs" using reach_changes [OF assms(1,2)] assms(3) by (auto simp: list_all_iff)
  from read_changes [OF this assms(4)] show ?thesis by (simp add: subscribe_once_def)
qed

definition watched_config :: mux_state_config where
  "watched_config = example_config\<lparr>mc_event_tx := Some []\<rparr>"

definition watched_sys :: mux_sys where
  "watched_sys = the (mux_exec example_len [(0, Connect)] (sys_init watched_config))"

theorem agent_hears_nothing_witness:
  "event_log (w_state (sys_world watched_sys)) \<noteq> [] \<and>
   fst (subscribe_once (\<lambda>_. Inr (RespEvent (hd (event_log (w_state (sys_world watched_sys)))))) ''/s''
     (Streamed (map (\<lambda>ev. ''e'') [hd (event_log (w_state (sys_world watched_sys)))]) None)) = []"
proof -
  let ?log = "event_log (w_state (sys_world watched_sys))"
  have "mux_exec example_len [(0, Connect)] (sys_init watched_config) \<noteq> None" by code_simp
  then have reach: "mux_reach example_len watched_config [(0, Connect)] watched_sys"
    by (auto simp: mux_reach_exec watched_sys_def)
  have tx: "mc_event_tx watched_config = Some []" by (simp add: watched_config_def)
  have ne: "?log \<noteq> []" by code_simp
  then have sub: "set [hd ?log] \<subseteq> set ?log" by simp
  show ?thesis
    using ne agent_hears_nothing [OF reach tx sub, where dec = "\<lambda>_. Inr (RespEvent (hd ?log))" and prnt = "\<lambda>_. ''e''"
        and socket = "''/s''" and fin = None] by simp
qed

end
