(* ===== verification/Shell_Ffi.thy ===== *)
theory Shell_Ffi
  imports Tray_Watch
begin

text \<open>
  The bindings of the desktop shell (\<open>shell-agent/ffi/src/lib.rs\<close>): the socket path is set once, each call
  sends one command over it, and a subscription hands every line to a callback.  \<open>sock\<close> is how the process
  reaches a socket: a path and a command to the answer of \<open>send_command\<close>.
\<close>

section \<open>Data\<close>

datatype ffi_client_kind = FfiClaude | FfiCodex | FfiGemini | FfiJunie | FfiGeneric string

fun ffi_of_kind :: "client_kind \<Rightarrow> ffi_client_kind" where
  "ffi_of_kind KindClaude = FfiClaude"
| "ffi_of_kind KindCodex = FfiCodex"
| "ffi_of_kind KindGemini = FfiGemini"
| "ffi_of_kind KindJunie = FfiJunie"
| "ffi_of_kind (KindGeneric name) = FfiGeneric name"

fun kind_of_ffi :: "ffi_client_kind \<Rightarrow> client_kind" where
  "kind_of_ffi FfiClaude = KindClaude"
| "kind_of_ffi FfiCodex = KindCodex"
| "kind_of_ffi FfiGemini = KindGemini"
| "kind_of_ffi FfiJunie = KindJunie"
| "kind_of_ffi (FfiGeneric name) = KindGeneric name"

record ffi_server_status =
  fs_name :: string
  fs_status :: string
  fs_queue_depth :: u32
  fs_queue_capacity :: u32
  fs_restart_count :: u64

record ffi_route =
  fr_client :: ffi_client_kind
  fr_service :: string
  fr_state :: string

record ffi_verify_result =
  fv_kind :: ffi_client_kind
  fv_ok :: bool
  fv_detail :: string

section \<open>Calls\<close>

text \<open>The state of the library is the path, once set.\<close>

type_synonym ffi_state = "string option"
type_synonym sockets = "string \<Rightarrow> control_command \<Rightarrow> string + control_response"

definition init_runtime :: "string \<Rightarrow> ffi_state \<Rightarrow> (string + unit) \<times> ffi_state" where
  "init_runtime p st = (case st of None \<Rightarrow> (Inr (), Some p) | Some q \<Rightarrow> (Inl ''Already initialized'', st))"

definition get_socket_path :: "ffi_state \<Rightarrow> string + string" where
  "get_socket_path st = (case st of None \<Rightarrow> Inl ''Runtime not initialized'' | Some p \<Rightarrow> Inr p)"

definition ffi_send :: "sockets \<Rightarrow> ffi_state \<Rightarrow> control_command \<Rightarrow> string + control_response" where
  "ffi_send sock st c = (case get_socket_path st of Inl e \<Rightarrow> Inl e | Inr p \<Rightarrow> sock p c)"

definition get_server_status :: "sockets \<Rightarrow> ffi_state \<Rightarrow> string + ffi_server_status list" where
  "get_server_status sock st = (case ffi_send sock st GetStatus of
     Inl e \<Rightarrow> Inl e
   | Inr (RespStatus s) \<Rightarrow> Inr [\<lparr>fs_name = ss_service_name s, fs_status = server_status_debug (ss_server_status s),
       fs_queue_depth = of_nat (ss_pending_requests s), fs_queue_capacity = of_nat (ss_max_active_clients s),
       fs_restart_count = ss_restarts s\<rparr>]
   | Inr _ \<Rightarrow> Inl ''Unexpected response'')"

definition get_routes :: "sockets \<Rightarrow> ffi_state \<Rightarrow> string + ffi_route list" where
  "get_routes sock st = (case ffi_send sock st RouteSnapshot of
     Inl e \<Rightarrow> Inl e
   | Inr (RespRoutes rs) \<Rightarrow> Inr (map (\<lambda>r. \<lparr>fr_client = FfiGeneric (rt_client r), fr_service = rt_server r, fr_state = rt_status r\<rparr>) rs)
   | Inr _ \<Rightarrow> Inl ''Unexpected response'')"

definition ffi_verify_client :: "sockets \<Rightarrow> ffi_state \<Rightarrow> ffi_client_kind \<Rightarrow> string + ffi_verify_result" where
  "ffi_verify_client sock st k = (case ffi_send sock st (Verify (kind_of_ffi k)) of
     Inl e \<Rightarrow> Inl e
   | Inr (RespVerify v) \<Rightarrow> Inr \<lparr>fv_kind = ffi_of_kind (kind_of_ffi k), fv_ok = vr_ok v,
       fv_detail = nat_str (length (vr_non_mux_servers v)) @ '' non-mux''\<rparr>
   | Inr _ \<Rightarrow> Inl ''Unexpected response'')"

definition ffi_restart_service :: "sockets \<Rightarrow> ffi_state \<Rightarrow> string \<Rightarrow> string + unit" where
  "ffi_restart_service sock st name = (case ffi_send sock st (RestartService name) of Inl e \<Rightarrow> Inl e | Inr _ \<Rightarrow> Inr ())"

definition get_recent_logs :: "string \<Rightarrow> u32 \<Rightarrow> string + string list" where
  "get_recent_logs service n = Inr [''Logs for '' @ service @ '' not implemented in backend'']"

section \<open>Events\<close>

datatype ffi_callback = OnEvent string | OnError string

fun ffi_stream :: "string list \<Rightarrow> string option \<Rightarrow> ffi_callback list" where
  "ffi_stream [] fin = [OnError (case fin of None \<Rightarrow> ''Stream closed'' | Some e \<Rightarrow> e)]"
| "ffi_stream (line # rest) fin = OnEvent line # ffi_stream rest fin"

text \<open>The thread of a subscription: what its callback is given.  \<open>runtime\<close> is the error of the runtime's start.\<close>

definition ffi_subscription :: "string option \<Rightarrow> tray_conn \<Rightarrow> ffi_callback list" where
  "ffi_subscription runtime c = (case runtime of
     Some e \<Rightarrow> [OnError (''Failed to start event runtime: '' @ e)]
   | None \<Rightarrow> (case c of
       ConnectFailed e \<Rightarrow> [OnError e]
     | Tray_Agent.WriteFailed e \<Rightarrow> [OnError e]
     | Streamed ls fin \<Rightarrow> ffi_stream ls fin))"

text \<open>\<open>subscribe_events\<close>: its result, and the callbacks of the thread if one was started.\<close>

definition subscribe_events ::
  "ffi_state \<Rightarrow> string option \<Rightarrow> string option \<Rightarrow> tray_conn \<Rightarrow> (string + unit) \<times> ffi_callback list" where
  "subscribe_events st thread runtime c = (case get_socket_path st of
     Inl e \<Rightarrow> (Inl e, [])
   | Inr p \<Rightarrow> (case thread of
       Some e \<Rightarrow> (Inl (''Failed to start event subscription thread: '' @ e), [])
     | None \<Rightarrow> (Inr (), ffi_subscription runtime c)))"

section \<open>Properties\<close>

lemma kind_roundtrip [simp]: "kind_of_ffi (ffi_of_kind k) = k" "ffi_of_kind (kind_of_ffi f) = f"
  by (cases k, simp_all) (cases f, simp_all)

text \<open>The path is the first one given, whatever is asked later.\<close>

theorem init_once:
  "fold (\<lambda>p st. snd (init_runtime p st)) ps None = (case ps of [] \<Rightarrow> None | p # _ \<Rightarrow> Some p)"
proof -
  have "fold (\<lambda>p st. snd (init_runtime p st)) ps (Some q) = Some q" for ps q
    by (induction ps) (simp_all add: init_runtime_def)
  then show ?thesis by (simp add: init_runtime_def split: list.split)
qed

text \<open>A subscription delivers every line unchanged and in order, and then exactly one error, always.\<close>

theorem subscription_verbatim:
  assumes "st \<noteq> None"
  shows "subscribe_events st None None (Streamed ls fin) =
    (Inr (), map OnEvent ls @ [OnError (case fin of None \<Rightarrow> ''Stream closed'' | Some e \<Rightarrow> e)])"
proof -
  have "ffi_stream ls fin = map OnEvent ls @ [OnError (case fin of None \<Rightarrow> ''Stream closed'' | Some e \<Rightarrow> e)]" for ls
    by (induction ls) simp_all
  with assms show ?thesis by (auto simp: subscribe_events_def get_socket_path_def ffi_subscription_def)
qed

definition daemon_socket ::
  "string \<Rightarrow> (string \<Rightarrow> string + control_response) \<Rightarrow> (control_command \<Rightarrow> string) \<Rightarrow> (string \<Rightarrow> ipc_peer) \<Rightarrow> sockets" where
  "daemon_socket path dec enc peer p c = (if p = path then send_command dec enc peer c else Inl ''No such file or directory (os error 2)'')"

text \<open>C28: the shell sees the daemon.  Once the path of the daemon's socket has been set, the status call returns
  its name, its server's state and its restarts, the depth being the number of pending requests and the capacity
  the number of permits, and a verification names the clients as they were asked for and counts the servers that
  bypass the mux; all numbers are exact while they fit in 32 bits.\<close>

theorem shell_sees_daemon:
  fixes path :: string and cap :: nat and uid :: u32
  assumes s: "wire_ok dec enc parse prnt env GetStatus" and v: "wire_ok dec enc parse prnt env (Verify (kind_of_ffi f))"
    and k: "verified_kind (kind_of_ffi f) = Some k"
    and small: "length (ms_pending (ie_state env)) < 2 ^ 32" "ms_max_active_clients (ie_state env) < 2 ^ 32"
  defines "st \<equiv> snd (init_runtime path None)" and "sock \<equiv> daemon_socket path dec enc (daemon_peer parse prnt cap uid env)"
  shows "(\<exists>x. get_server_status sock st = Inr [x] \<and> fs_name x = ms_service_name (ie_state env) \<and>
      fs_status x = server_status_debug (ms_server_status (ie_state env)) \<and> fs_restart_count x = ms_restarts (ie_state env) \<and>
      unat (fs_queue_depth x) = length (ms_pending (ie_state env)) \<and>
      unat (fs_queue_capacity x) = ms_max_active_clients (ie_state env)) \<and>
    ffi_verify_client sock st f = Inr \<lparr>fv_kind = f, fv_ok = (direct_servers k (ie_scans env) = []),
      fv_detail = nat_str (length (direct_servers k (ie_scans env))) @ '' non-mux''\<rparr>"
proof -
  have send: "ffi_send sock st c = handle_command env c" if "wire_ok dec enc parse prnt env c" "c \<noteq> Subscribe" for c
    using asked_daemon [OF that]
    by (simp add: ffi_send_def sock_def st_def init_runtime_def get_socket_path_def daemon_socket_def)
  show ?thesis
    using send [OF s] send [OF v] small
    by (simp add: get_server_status_def ffi_verify_client_def snapshot_for_state_def Let_def handle_verify_def k unat_of_nat
        take_bit_eq_mod non_mux_count non_mux_empty)
qed

text \<open>Restarting a service succeeds whatever the daemon answers, and the daemon answers that it cannot.\<close>

theorem shell_restart_pretends:
  "ffi_restart_service (\<lambda>_ c. handle_command env c) (Some p) name = Inr () \<and>
   handle_command env (RestartService name) = Inr RespUnimplemented \<and>
   ffi_restart_service (\<lambda>_ _. Inr (RespError m)) (Some p) name = Inr ()"
  by (simp add: ffi_restart_service_def ffi_send_def get_socket_path_def)

definition shell_dec :: "string \<Rightarrow> string + control_response" where
  "shell_dec l = (if l = ''s'' then handle_command verify_env GetStatus else Inr verify_response)"

definition shell_enc :: "control_command \<Rightarrow> string" where
  "shell_enc c = (if c = GetStatus then ''g'' else ''v'')"

definition shell_parse :: "string \<Rightarrow> string + control_command" where
  "shell_parse l = (if l = ''g'' then Inr GetStatus else Inr (Verify KindClaude))"

definition shell_print :: "control_response \<Rightarrow> string" where
  "shell_print r = (if r = verify_response then ''v'' else ''s'')"

theorem shell_sees_daemon_witness:
  "ffi_verify_client (daemon_socket ''/d'' shell_dec shell_enc (daemon_peer shell_parse shell_print 128 7 verify_env)) (snd (init_runtime ''/d'' None)) FfiClaude =
     Inr \<lparr>fv_kind = FfiClaude, fv_ok = False, fv_detail = ''1 non-mux''\<rparr>"
proof -
  have s: "wire_ok shell_dec shell_enc shell_parse shell_print verify_env GetStatus"
    by (simp add: wire_ok_def shell_dec_def shell_enc_def shell_parse_def shell_print_def verify_response_def handle_verify_def Let_def)
  have v: "wire_ok shell_dec shell_enc shell_parse shell_print verify_env (Verify (kind_of_ffi FfiClaude))"
    by (simp add: wire_ok_def shell_dec_def shell_enc_def shell_parse_def shell_print_def verify_response_def handle_verify_def Let_def)
  have small: "length (ms_pending (ie_state verify_env)) < 2 ^ 32" "ms_max_active_clients (ie_state verify_env) < 2 ^ 32"
    by code_simp+
  have k: "verified_kind (kind_of_ffi FfiClaude) = Some Claude" by simp
  have n: "direct_servers Claude (ie_scans verify_env) \<noteq> []" "length (direct_servers Claude (ie_scans verify_env)) = 1" by code_simp+
  have "nat_str 1 = ''1''" by code_simp
  then show ?thesis using shell_sees_daemon [OF s v k small, of "''/d''" 128 7] n by simp
qed

end
