(* ===== verification/Mux_Dash.thy ===== *)
theory Mux_Dash
  imports Mux_Status Tray_Icon
begin

text \<open>
  The dashboards of the daemon: the terminal table (\<open>multi_tui.rs\<close>), the tray menu of one daemon
  (\<open>tray.rs\<close>) and the tray menu of all of them (\<open>tray_dashboard.rs\<close>).  Drawing itself is left out: a table is
  its cells, a menu its texts.  The hash map of statuses is the list of its values, in any order.
\<close>

section \<open>The terminal table\<close>

datatype server_command = CmdStart | CmdStop | CmdRestart

record multi_tui =
  mt_statuses :: "multi_server_status list"
  mt_selected :: "nat option"
  mt_should_quit :: bool

definition multi_tui_new :: multi_tui where
  "multi_tui_new = \<lparr>mt_statuses = [], mt_selected = None, mt_should_quit = False\<rparr>"

definition update_statuses :: "multi_server_status list \<Rightarrow> multi_tui \<Rightarrow> multi_tui" where
  "update_statuses values app =
     (let list = sort_key mss_name values; app1 = app\<lparr>mt_statuses := list\<rparr> in
      if list \<noteq> []
      then (let selected = (case mt_selected app1 of Some i \<Rightarrow> i | None \<Rightarrow> 0) in
            if selected \<ge> length list then app1\<lparr>mt_selected := Some (length list - 1)\<rparr>
            else if mt_selected app1 = None then app1\<lparr>mt_selected := Some 0\<rparr> else app1)
      else app1)"

definition select_previous :: "multi_tui \<Rightarrow> multi_tui" where
  "select_previous app =
     (if mt_statuses app = [] then app
      else app\<lparr>mt_selected := Some (case mt_selected app of
        Some i \<Rightarrow> if i = 0 then length (mt_statuses app) - 1 else i - 1 | None \<Rightarrow> 0)\<rparr>)"

definition select_next :: "multi_tui \<Rightarrow> multi_tui" where
  "select_next app =
     (if mt_statuses app = [] then app
      else app\<lparr>mt_selected := Some (case mt_selected app of
        Some i \<Rightarrow> if i \<ge> length (mt_statuses app) - 1 then 0 else i + 1 | None \<Rightarrow> 0)\<rparr>)"

definition selected_server :: "multi_tui \<Rightarrow> string option" where
  "selected_server app = (case mt_selected app of None \<Rightarrow> None
     | Some i \<Rightarrow> if i < length (mt_statuses app) then Some (mss_name (mt_statuses app ! i)) else None)"

datatype status_shade = Green | Yellow | Red | DarkGray

fun status_color :: "status_level \<Rightarrow> status_shade" where
  "status_color LevelOk = Green"
| "status_color LevelWarn = Yellow"
| "status_color LevelError = Red"
| "status_color LevelLazy = DarkGray"

definition tui_row :: "multi_server_status \<Rightarrow> string list" where
  "tui_row s = [mss_name s, mss_status_text s, nat_str (mss_active_clients s) @ ''/'' @ nat_str (mss_max_active_clients s),
     nat_str (mss_pending_requests s), nat_str (unat (mss_restarts s)), format_uptime (mss_uptime_ms s)]"

text \<open>One turn of the loop: a key, if one was pressed, then the statuses, if they changed.\<close>

definition tui_command :: "key_code \<Rightarrow> server_command option" where
  "tui_command k = (if k = KChar (CHR ''r'') then Some CmdRestart else if k = KChar (CHR ''s'') then Some CmdStop
     else if k = KChar (CHR ''S'') then Some CmdStart else None)"

definition tui_key :: "key_code \<Rightarrow> multi_tui \<times> (string \<times> server_command) list \<Rightarrow> multi_tui \<times> (string \<times> server_command) list" where
  "tui_key k = (\<lambda>(app, sent).
     if k = KChar (CHR ''q'') \<or> k = KEsc then (app\<lparr>mt_should_quit := True\<rparr>, sent)
     else if k = KChar (CHR ''j'') \<or> k = KDown then (select_next app, sent)
     else if k = KChar (CHR ''k'') \<or> k = KUp then (select_previous app, sent)
     else case tui_command k of
       Some cmd \<Rightarrow> (case selected_server app of Some name \<Rightarrow> (app, sent @ [(name, cmd)]) | None \<Rightarrow> (app, sent))
     | None \<Rightarrow> (app, sent))"

type_synonym tui_turn = "key_code option \<times> multi_server_status list option"

definition tui_turn_step :: "tui_turn \<Rightarrow> multi_tui \<times> (string \<times> server_command) list \<Rightarrow> multi_tui \<times> (string \<times> server_command) list" where
  "tui_turn_step x s =
     (let (app, sent) = (case fst x of None \<Rightarrow> s | Some k \<Rightarrow> tui_key k s)
      in (case snd x of None \<Rightarrow> app | Some values \<Rightarrow> update_statuses values app, sent))"

fun multi_tui_loop :: "tui_turn list \<Rightarrow> multi_tui \<times> (string \<times> server_command) list \<Rightarrow> multi_tui \<times> (string \<times> server_command) list" where
  "multi_tui_loop [] s = s"
| "multi_tui_loop (x # xs) s = (let s1 = tui_turn_step x s in if mt_should_quit (fst s1) then s1 else multi_tui_loop xs s1)"

definition run_multi_tui :: "multi_server_status list \<Rightarrow> tui_turn list \<Rightarrow> multi_tui \<times> (string \<times> server_command) list" where
  "run_multi_tui initial xs = multi_tui_loop xs (update_statuses initial multi_tui_new, [])"

section \<open>The tray menu of one daemon\<close>

fun status_words :: "server_status \<Rightarrow> string" where
  "status_words StStarting = ''Starting''"
| "status_words StRunning = ''Running''"
| "status_words StRestarting = ''Restarting''"
| "status_words StStopped = ''Stopped''"
| "status_words StLazy = ''Lazy''"
| "status_words StBackoff = ''Backoff''"
| "status_words (StFailed reason) = ''Failed: '' @ reason"

definition status_line :: "status_snapshot \<Rightarrow> string" where
  "status_line s = ''Status: '' @ status_words (ss_server_status s)"

definition client_count_line :: "status_snapshot \<Rightarrow> string" where
  "client_count_line s = ''Clients: '' @ nat_str (ss_connected_clients s) @ '' (active '' @ nat_str (ss_active_clients s) @ ''/'' @
     nat_str (ss_max_active_clients s) @ '')''"

definition pending_line :: "status_snapshot \<Rightarrow> string" where
  "pending_line s = ''Pending requests: '' @ nat_str (ss_pending_requests s)"

definition init_line :: "status_snapshot \<Rightarrow> string" where
  "init_line s = ''Initialize: '' @ (if ss_cached_initialize s then ''cached'' else ''uncached'') @ '', '' @
     (if ss_initializing s then ''initializing'' else ''idle'')"

definition restart_line :: "status_snapshot \<Rightarrow> string" where
  "restart_line s = (case ss_last_reset s of
     Some reason \<Rightarrow> ''Restarts: '' @ nat_str (unat (ss_restarts s)) @ '' (last: '' @ reason @ '')''
   | None \<Rightarrow> ''Restarts: '' @ nat_str (unat (ss_restarts s)))"

definition tray_lines :: "status_snapshot \<Rightarrow> string list" where
  "tray_lines s = [''Service: '' @ ss_service_name s, status_line s, client_count_line s, pending_line s, init_line s, restart_line s]"

text \<open>The channel between the forwarding task and the tray thread holds one snapshot.\<close>

definition send_latest :: "status_snapshot \<Rightarrow> status_snapshot option \<Rightarrow> status_snapshot option" where
  "send_latest snap chan = (case chan of None \<Rightarrow> Some snap | Some old \<Rightarrow> Some old)"

datatype tray_ui = TrayWaiting | TrayShown "string list" | TrayClosed

record mux_tray =
  mx_chan :: "status_snapshot option"
  mx_ui :: tray_ui
  mx_cancelled :: bool
  mx_live :: bool

datatype tray_input =
    SnapChanged status_snapshot
  | SnapClosed
  | TrayTurn "menu_id list" bool

text \<open>A turn of the tray thread: pending clicks, then stop signal or snapshot.  Building the menu may fail
  (\<open>built\<close>).  The stop signal follows the cancellation.  When the daemon's state is gone the forwarding task
  ends (\<open>SnapClosed\<close>), and the thread with it once the channel is empty.\<close>

definition tray_thread :: "bool \<Rightarrow> menu_id \<Rightarrow> menu_id list \<Rightarrow> bool \<Rightarrow> mux_tray \<Rightarrow> mux_tray" where
  "tray_thread built quit clicks stop t = (case mx_ui t of
     TrayClosed \<Rightarrow> t
   | TrayWaiting \<Rightarrow> (case mx_chan t of
       None \<Rightarrow> if mx_live t then t else t\<lparr>mx_ui := TrayClosed\<rparr>
     | Some s \<Rightarrow> t\<lparr>mx_chan := None, mx_ui := (if built then TrayShown (tray_lines s) else TrayClosed)\<rparr>)
   | TrayShown ls \<Rightarrow>
       if quit \<in> set clicks then t\<lparr>mx_ui := TrayClosed, mx_cancelled := True\<rparr>
       else if stop then t\<lparr>mx_ui := TrayClosed\<rparr>
       else case mx_chan t of
         None \<Rightarrow> if mx_live t then t else t\<lparr>mx_ui := TrayClosed\<rparr>
       | Some s \<Rightarrow> t\<lparr>mx_chan := None, mx_ui := TrayShown (tray_lines s)\<rparr>)"

fun tray_step :: "bool \<Rightarrow> menu_id \<Rightarrow> tray_input \<Rightarrow> mux_tray \<Rightarrow> mux_tray" where
  "tray_step built quit (SnapChanged s) t = (if mx_live t then t\<lparr>mx_chan := send_latest s (mx_chan t)\<rparr> else t)"
| "tray_step built quit SnapClosed t = t\<lparr>mx_live := False\<rparr>"
| "tray_step built quit (TrayTurn clicks stop) t = tray_thread built quit clicks stop t"

definition spawn_tray :: "status_snapshot \<Rightarrow> mux_tray" where
  "spawn_tray initial = \<lparr>mx_chan = send_latest initial None, mx_ui = TrayWaiting, mx_cancelled = False, mx_live = True\<rparr>"

definition gradient_icon :: "byte \<Rightarrow> byte list" where
  "gradient_icon red = concat (map (\<lambda>y. concat (map (\<lambda>x. [red, 0x60 + of_nat ((x + y) mod 32), 0xff, 0xff]) [0..<16])) [0..<16])"

definition default_icon :: icon_result where
  "default_icon = finish_icon (Some (gradient_icon 0x4b)) 16 16"

definition default_dashboard_icon :: icon_result where
  "default_dashboard_icon = finish_icon (Some (gradient_icon 0x8b)) 16 16"

text \<open>\<open>load\<close> reads and decodes one file.\<close>

definition find_tray_icon :: "string \<Rightarrow> (string \<Rightarrow> 'i option) \<Rightarrow> 'i option" where
  "find_tray_icon manifest_dir load =
     (case List.map_filter load [''public/icon.png'', ''../public/icon.png'', manifest_dir @ ''/public/icon.png''] of
        [] \<Rightarrow> None | i # _ \<Rightarrow> Some i)"

section \<open>The tray menu of all daemons\<close>

record server_items =
  si_title :: string
  si_lines :: "string list"

record dashboard =
  db_header :: string
  db_summary :: string
  db_servers :: "server_items list"

text \<open>The signs in front of the names are not ASCII; they are parameters here.\<close>

definition server_items_of :: "(status_level \<Rightarrow> string) \<Rightarrow> multi_server_status \<Rightarrow> server_items" where
  "server_items_of icon s = \<lparr>si_title = icon (mss_level s) @ '' '' @ mss_name s,
     si_lines = [''  Status: '' @ mss_status_text s,
       ''  Clients: '' @ nat_str (mss_active_clients s) @ ''/'' @ nat_str (mss_max_active_clients s),
       ''  Pending: '' @ nat_str (mss_pending_requests s), ''  Restarts: '' @ nat_str (unat (mss_restarts s)),
       ''  Heartbeat: '' @ (case mss_heartbeat_latency_ms s of Some ms \<Rightarrow> nat_str (unat ms) @ ''ms'' | None \<Rightarrow> ''-'')]\<rparr>"

definition dashboard_header :: "daemon_status \<Rightarrow> string" where
  "dashboard_header d = ''rust-mux v'' @ ds_version d @ '' | '' @ ds_uptime d"

definition dashboard_summary :: "daemon_status \<Rightarrow> string" where
  "dashboard_summary d = nat_str (ds_server_count d) @ '' servers: '' @ nat_str (ds_running_count d) @ '' running, '' @
     nat_str (ds_error_count d) @ '' errors''"

definition build_dashboard :: "(status_level \<Rightarrow> string) \<Rightarrow> daemon_status \<Rightarrow> dashboard" where
  "build_dashboard icon d = \<lparr>db_header = dashboard_header d, db_summary = dashboard_summary d,
     db_servers = map (server_items_of icon) (ds_servers d)\<rparr>"

fun update_items :: "(status_level \<Rightarrow> string) \<Rightarrow> multi_server_status list \<Rightarrow> server_items list \<Rightarrow> server_items list" where
  "update_items icon (s # ss) (i # is) = server_items_of icon s # update_items icon ss is"
| "update_items icon ss is = is"

definition dashboard_update :: "(status_level \<Rightarrow> string) \<Rightarrow> daemon_status \<Rightarrow> dashboard \<Rightarrow> dashboard" where
  "dashboard_update icon d ui = ui\<lparr>db_header := dashboard_header d, db_summary := dashboard_summary d,
     db_servers := update_items icon (ds_servers d) (db_servers ui)\<rparr>"

datatype dashboard_state = DashWaiting | DashShown dashboard | DashClosed bool

text \<open>One round: before the menu exists a query per second, then a tick with clicks and a query.  \<open>DashClosed True\<close>
  is the end after Quit, which cancels.\<close>

datatype dashboard_input = DashTick "menu_id list" "daemon_status option" | DashCancelled

fun dashboard_step :: "(status_level \<Rightarrow> string) \<Rightarrow> bool \<Rightarrow> menu_id \<Rightarrow> dashboard_input \<Rightarrow> dashboard_state \<Rightarrow> dashboard_state" where
  "dashboard_step icon built quit x (DashClosed c) = DashClosed c"
| "dashboard_step icon built quit DashCancelled DashWaiting = DashClosed False"
| "dashboard_step icon built quit DashCancelled (DashShown ui) = DashClosed False"
| "dashboard_step icon built quit (DashTick clicks q) DashWaiting = (case q of
     None \<Rightarrow> DashWaiting
   | Some d \<Rightarrow> if built then DashShown (build_dashboard icon d) else DashClosed False)"
| "dashboard_step icon built quit (DashTick clicks q) (DashShown ui) =
     (if quit \<in> set clicks then DashClosed True
      else DashShown (case q of None \<Rightarrow> ui | Some d \<Rightarrow> dashboard_update icon d ui))"

section \<open>The selection\<close>

definition tui_ok :: "multi_tui \<Rightarrow> bool" where
  "tui_ok app \<longleftrightarrow> (mt_statuses app \<noteq> [] \<longrightarrow> (\<exists>i < length (mt_statuses app). mt_selected app = Some i))"

lemma tui_ok_update: "tui_ok (update_statuses values app)"
proof (cases "values = []")
  case False
  then have "sort_key mss_name values \<noteq> []" by (metis set_sort set_empty)
  with False show ?thesis by (auto simp: tui_ok_def update_statuses_def Let_def split: option.split)
qed (simp add: tui_ok_def update_statuses_def)

lemma tui_ok_key: "tui_ok (fst s) \<Longrightarrow> tui_ok (fst (tui_key k s))"
  by (cases s) (auto simp: tui_ok_def tui_key_def select_next_def select_previous_def split: option.split)

lemma tui_ok_turn: "tui_ok (fst s) \<Longrightarrow> tui_ok (fst (tui_turn_step x s))"
  using tui_ok_key by (auto simp: tui_turn_step_def Let_def case_prod_unfold tui_ok_update split: option.split)

lemma tui_ok_run: "tui_ok (fst (run_multi_tui initial xs))"
proof -
  have "tui_ok (fst s) \<Longrightarrow> tui_ok (fst (multi_tui_loop xs s))" for s
    by (induction xs arbitrary: s) (simp_all add: Let_def tui_ok_turn)
  then show ?thesis by (simp add: run_multi_tui_def tui_ok_update)
qed

text \<open>C34: the table always has a row to act on.  After any keys and status changes, if servers are listed, one of
  them is selected, and a command key sends its command for that server.\<close>

theorem tui_acts_on_selection:
  assumes "run_multi_tui initial xs = (app, sent)" and "mt_statuses app \<noteq> []" and "tui_command k = Some cmd"
  shows "\<exists>i < length (mt_statuses app). mt_selected app = Some i \<and>
    tui_key k (app, sent) = (app, sent @ [(mss_name (mt_statuses app ! i), cmd)])"
proof -
  have "tui_ok app" using tui_ok_run [of initial xs] assms(1) by simp
  then obtain i where i: "i < length (mt_statuses app)" "mt_selected app = Some i" using assms(2) by (auto simp: tui_ok_def)
  have "k \<in> {KChar (CHR ''r''), KChar (CHR ''s''), KChar (CHR ''S'')}" using assms(3) by (auto simp: tui_command_def split: if_splits)
  then have "tui_key k (app, sent) = (app, sent @ [(mss_name (mt_statuses app ! i), cmd)])"
    using assms(3) i by (auto simp: tui_key_def selected_server_def)
  with i show ?thesis by blast
qed

text \<open>Going down and up is going nowhere, and going down past every server comes back.\<close>

lemma select_next_mod:
  assumes "i < length (mt_statuses app)" and "mt_selected app = Some i"
  shows "select_next app = app\<lparr>mt_selected := Some (Suc i mod length (mt_statuses app))\<rparr>"
proof (cases "i = length (mt_statuses app) - 1")
  case True
  with assms have "Suc i = length (mt_statuses app)" by simp
  with True assms show ?thesis by (auto simp: select_next_def)
next
  case False
  with assms show ?thesis by (auto simp: select_next_def)
qed

theorem select_cycles:
  assumes "i < length (mt_statuses app)" and "mt_selected app = Some i"
  shows "(select_next ^^ n) app = app\<lparr>mt_selected := Some ((i + n) mod length (mt_statuses app))\<rparr> \<and>
    select_previous (select_next app) = app \<and> select_next (select_previous app) = app"
proof (intro conjI)
  show "(select_next ^^ n) app = app\<lparr>mt_selected := Some ((i + n) mod length (mt_statuses app))\<rparr>"
  proof (induction n)
    case (Suc n)
    let ?a = "app\<lparr>mt_selected := Some ((i + n) mod length (mt_statuses app))\<rparr>"
    have "select_next ?a = ?a\<lparr>mt_selected := Some (Suc ((i + n) mod length (mt_statuses app)) mod length (mt_statuses app))\<rparr>"
      using assms(1) select_next_mod [of "(i + n) mod length (mt_statuses app)" ?a] by (cases "mt_statuses app") simp_all
    with Suc show ?case by (simp add: mod_Suc_eq)
  qed (use assms in simp)
  have ne: "mt_statuses app \<noteq> []" using assms(1) by auto
  have same: "app\<lparr>mt_selected := Some i\<rparr> = app" using assms(2) by simp
  show "select_previous (select_next app) = app"
    using assms ne same by (cases "i \<ge> length (mt_statuses app) - 1") (auto simp: select_next_def select_previous_def)
  show "select_next (select_previous app) = app"
    using assms ne same by (cases "i = 0") (auto simp: select_next_def select_previous_def)
qed

text \<open>The selection is a position: when a server is added in front, the highlighted row, and with it the target
  of the next command, is another server.\<close>

definition example_row :: "string \<Rightarrow> multi_server_status" where
  "example_row n = \<lparr>mss_name = n, mss_level = LevelOk, mss_status_text = ''Running'', mss_connected_clients = 0,
     mss_active_clients = 0, mss_max_active_clients = 5, mss_pending_requests = 0, mss_restarts = 0, mss_uptime_ms = 0,
     mss_in_backoff = False, mss_heartbeat_latency_ms = None\<rparr>"

theorem selection_slips:
  "selected_server (fst (run_multi_tui [example_row ''b''] [])) = Some ''b'' \<and>
   snd (run_multi_tui [example_row ''b''] [(None, Some [example_row ''b'', example_row ''a'']), (Some (KChar (CHR ''s'')), None)]) =
     [(''a'', CmdStop)]"
  by code_simp

theorem tui_acts_on_selection_witness:
  "\<exists>app. run_multi_tui [example_row ''b'', example_row ''a''] [(Some KDown, None)] = (app, []) \<and>
     tui_key (KChar (CHR ''r'')) (app, []) = (app, [(''b'', CmdRestart)])"
proof -
  let ?app = "fst (run_multi_tui [example_row ''b'', example_row ''a''] [(Some KDown, None)])"
  have sent: "snd (run_multi_tui [example_row ''b'', example_row ''a''] [(Some KDown, None)]) = []" by code_simp
  then have run: "run_multi_tui [example_row ''b'', example_row ''a''] [(Some KDown, None)] = (?app, [])" by (metis prod.collapse)
  have ne: "mt_statuses ?app \<noteq> []" by code_simp
  have cmd: "tui_command (KChar (CHR ''r'')) = Some CmdRestart" by code_simp
  have sel: "mt_selected ?app = Some 1" "mss_name (mt_statuses ?app ! 1) = ''b''" by code_simp+
  from tui_acts_on_selection [OF run ne cmd] sel run show ?thesis by auto
qed

section \<open>Menus\<close>

lemma update_items_all: "length ss = length is \<Longrightarrow> update_items icon ss is = map (server_items_of icon) ss"
  by (induction icon ss "is" rule: update_items.induct) simp_all

lemma update_items_short: "length (update_items icon ss is) = length is"
  by (induction icon ss "is" rule: update_items.induct) simp_all

text \<open>updating the dashboard is as good as building it anew, as long as the number of servers stays the
  same; otherwise the menu keeps the number of entries it was built with.\<close>

theorem dashboard_update_rebuilds:
  "dashboard_update icon d (build_dashboard icon d0) = build_dashboard icon d \<longleftrightarrow> length (ds_servers d) = length (ds_servers d0)"
proof
  assume "dashboard_update icon d (build_dashboard icon d0) = build_dashboard icon d"
  then have "db_servers (dashboard_update icon d (build_dashboard icon d0)) = db_servers (build_dashboard icon d)" by simp
  then have "length (update_items icon (ds_servers d) (map (server_items_of icon) (ds_servers d0))) = length (ds_servers d)"
    by (simp add: dashboard_update_def build_dashboard_def)
  then show "length (ds_servers d) = length (ds_servers d0)" by (simp add: update_items_short)
next
  assume "length (ds_servers d) = length (ds_servers d0)"
  then show "dashboard_update icon d (build_dashboard icon d0) = build_dashboard icon d"
    by (simp add: dashboard_update_def build_dashboard_def update_items_all)
qed

text \<open>What the tray shows is one of the snapshots, never a mixture; but of those sent while it was busy it shows
  the first, although the channel is meant to keep the latest, and keeps showing it until something changes.\<close>

definition tray_seen :: "status_snapshot set \<Rightarrow> mux_tray \<Rightarrow> bool" where
  "tray_seen S t \<longleftrightarrow> (\<forall>s. mx_chan t = Some s \<longrightarrow> s \<in> S) \<and> (\<forall>ls. mx_ui t = TrayShown ls \<longrightarrow> ls \<in> tray_lines ` S)"

lemma tray_seen_step:
  "tray_seen S t \<Longrightarrow> tray_seen (S \<union> (case x of SnapChanged s \<Rightarrow> {s} | _ \<Rightarrow> {})) (tray_step built quit x t)"
  by (cases x) (auto simp: tray_seen_def send_latest_def tray_thread_def split: option.splits tray_ui.splits)

theorem tray_shows_one_snapshot:
  assumes "mx_ui (fold (tray_step built quit) xs (spawn_tray s0)) = TrayShown ls"
  shows "\<exists>s \<in> insert s0 {s. SnapChanged s \<in> set xs}. ls = tray_lines s"
proof -
  have "tray_seen S t \<Longrightarrow> tray_seen (S \<union> {s. SnapChanged s \<in> set xs}) (fold (tray_step built quit) xs t)" for S t
  proof (induction xs arbitrary: S t)
    case (Cons x xs)
    from Cons.IH [OF tray_seen_step [OF Cons.prems, of x built quit]] show ?case
      by (cases x) (auto simp: Un_commute insert_commute elim!: back_subst [of "\<lambda>S. tray_seen S _"])
  qed simp
  moreover have "tray_seen {s0} (spawn_tray s0)" by (simp add: tray_seen_def spawn_tray_def send_latest_def)
  ultimately have "tray_seen ({s0} \<union> {s. SnapChanged s \<in> set xs}) (fold (tray_step built quit) xs (spawn_tray s0))" .
  with assms show ?thesis by (auto simp: tray_seen_def)
qed

theorem tray_shows_oldest:
  "mx_ui (fold (tray_step True quit) (map SnapChanged ss @ replicate (Suc n) (TrayTurn [] False)) (spawn_tray s0)) = TrayShown (tray_lines s0)"
proof -
  have chan: "fold (tray_step True quit) (map SnapChanged ss) t = t" if "mx_chan t = Some s0" for t
  proof -
    have step: "tray_step True quit (SnapChanged s) t = t" for s using that by (cases t) (simp add: send_latest_def)
    show ?thesis by (induction ss) (simp_all add: step del: tray_step.simps)
  qed
  have idle: "(tray_step True quit (TrayTurn [] False) ^^ n) t = t" if "mx_chan t = None" "mx_ui t = TrayShown ls" "mx_live t" for n t ls
    using that by (induction n) (simp_all add: tray_thread_def)
  show ?thesis by (simp add: chan spawn_tray_def send_latest_def) (simp add: tray_thread_def idle)
qed

theorem default_icons_ok: "\<exists>i j. default_icon = IconOk i \<and> default_dashboard_icon = IconOk j"
proof -
  have "length (gradient_icon r) = 1024" for r by (simp add: gradient_icon_def length_concat comp_def sum_list_triv)
  then show ?thesis by (simp add: default_icon_def default_dashboard_icon_def finish_icon_def icon_from_rgba_def)
qed

end
