(* ===== verification/Op_Runs.thy ===== *)
theory Op_Runs
  imports Op_Text Op_Order Mux_Json
begin

text \<open>
  The control-plane state the operator shows (\<open>tui-agent/src/state.rs\<close>): loading run snapshots, archive
  markers and events from a directory tree, classifying runs, ordering the board.  The directory tree
  is a record of what the operating system answers; time stamps are integers of nanoseconds, and their
  RFC 3339 form and the calendar's range (chrono) are inputs, as is the reading of JSON.  Lower case is
  the ASCII one.
\<close>

section \<open>Data\<close>

record run_snapshot =
  rn_run_id :: string
  rn_session_id :: "string option"
  rn_agent :: "string option"
  rn_skill :: "string option"
  rn_mode :: "string option"
  rn_state :: "string option"
  rn_status :: "string option"
  rn_started_at :: "string option"
  rn_updated_at :: "string option"
  rn_last_heartbeat :: "string option"
  rn_root :: "string option"
  rn_operator_session :: "string option"
  rn_latest_report :: "string option"
  rn_latest_transcript :: "string option"
  rn_last_error :: "string option"
  rn_extra :: "(string, json) hashmap"

record run_event =
  ev_ts :: string
  ev_run_id :: "string option"
  ev_kind :: string
  ev_message :: "string option"
  ev_payload :: "json option"

datatype run_kind = Active | Recent | Completed | Failed | Stalled | Paused | Unknown

fun run_label :: "run_kind \<Rightarrow> string" where
  "run_label Active = ''active''"
| "run_label Recent = ''recent''"
| "run_label Completed = ''completed''"
| "run_label Failed = ''failed''"
| "run_label Stalled = ''stalled''"
| "run_label Paused = ''paused''"
| "run_label Unknown = ''unknown''"

fun sort_rank :: "run_kind \<Rightarrow> nat" where
  "sort_rank Active = 0"
| "sort_rank Stalled = 1"
| "sort_rank Failed = 2"
| "sort_rank Paused = 3"
| "sort_rank Recent = 4"
| "sort_rank Completed = 5"
| "sort_rank Unknown = 6"

record rendered_run =
  rr_snapshot :: run_snapshot
  rr_kind :: run_kind
  rr_age_label :: string
  rr_recent_events :: "run_event list"

record control_plane_state =
  cp_root :: string
  cp_runs :: "run_snapshot list"
  cp_events :: "run_event list"
  cp_archived_run_ids :: "string set"

definition cp_empty :: "string \<Rightarrow> control_plane_state" where
  "cp_empty root = \<lparr>cp_root = root, cp_runs = [], cp_events = [], cp_archived_run_ids = {}\<rparr>"

definition display_state :: "run_snapshot \<Rightarrow> string" where
  "display_state s = (case rn_state s of Some x \<Rightarrow> x | None \<Rightarrow>
     (case rn_status s of Some x \<Rightarrow> x | None \<Rightarrow> ''unknown''))"

section \<open>Time\<close>

record calendar =
  cal_rfc3339 :: "string \<Rightarrow> int option"
  cal_timestamp :: "int \<Rightarrow> int option"

definition parse_timestamp :: "calendar \<Rightarrow> string \<Rightarrow> int option" where
  "parse_timestamp cal raw = (case cal_rfc3339 cal raw of Some t \<Rightarrow> Some t
     | None \<Rightarrow> Option.bind (parse_i64 raw) (cal_timestamp cal))"

definition stamp :: "calendar \<Rightarrow> string option \<Rightarrow> int option" where
  "stamp cal raw = Option.bind raw (parse_timestamp cal)"

text \<open>\<open>num_minutes\<close>, \<open>num_hours\<close> and \<open>num_days\<close> cut towards zero.\<close>

definition whole :: "int \<Rightarrow> int \<Rightarrow> int" where
  "whole unit d = (if d < 0 then - ((- d) div unit) else d div unit)"

abbreviation minute_ns :: int where "minute_ns \<equiv> 60000000000"
abbreviation hour_ns :: int where "hour_ns \<equiv> 3600000000000"
abbreviation day_ns :: int where "day_ns \<equiv> 86400000000000"

definition is_recent :: "int option \<Rightarrow> int \<Rightarrow> bool" where
  "is_recent ts now = (case ts of Some t \<Rightarrow> whole hour_ns (now - t) < 24 | None \<Rightarrow> False)"

definition is_stale :: "int option \<Rightarrow> int \<Rightarrow> bool" where
  "is_stale ts now = (case ts of Some t \<Rightarrow> 15 < whole minute_ns (now - t) | None \<Rightarrow> False)"

definition relative_age :: "int \<Rightarrow> int \<Rightarrow> string" where
  "relative_age t now =
     (let delta = now - t; minutes = max 0 (whole minute_ns delta); hours = max 0 (whole hour_ns delta) in
      if 24 \<le> hours then nat_str (nat (max 0 (whole day_ns delta))) @ ''d ago''
      else if 0 < hours then nat_str (nat hours) @ ''h ago''
      else nat_str (nat minutes) @ ''m ago'')"

definition age_label :: "calendar \<Rightarrow> run_snapshot \<Rightarrow> int \<Rightarrow> string" where
  "age_label cal s now =
     (case (case stamp cal (rn_last_heartbeat s) of Some t \<Rightarrow> Some t
            | None \<Rightarrow> (case stamp cal (rn_updated_at s) of Some t \<Rightarrow> Some t
              | None \<Rightarrow> stamp cal (rn_started_at s))) of
        Some t \<Rightarrow> relative_age t now | None \<Rightarrow> ''age unknown'')"

section \<open>Classification\<close>

definition is_active_like :: "string \<Rightarrow> bool" where
  "is_active_like s \<longleftrightarrow> (\<exists>p \<in> set [''active'', ''run'', ''watch'', ''queued'', ''pending'', ''in-progress'',
     ''progress'', ''loop'']. str_contains s p)"

definition is_done_like :: "string \<Rightarrow> bool" where
  "is_done_like s \<longleftrightarrow> (\<exists>p \<in> set [''done'', ''complete'', ''succeed'', ''converged'', ''stopped'', ''gc'']. str_contains s p)"

definition run_heartbeat :: "calendar \<Rightarrow> run_snapshot \<Rightarrow> int option" where
  "run_heartbeat cal s = (case stamp cal (rn_last_heartbeat s) of Some t \<Rightarrow> Some t
     | None \<Rightarrow> stamp cal (rn_updated_at s))"

definition classify_run :: "calendar \<Rightarrow> run_snapshot \<Rightarrow> int \<Rightarrow> run_kind" where
  "classify_run cal s now =
     (let state = to_ascii_lowercase (display_state s); hb = run_heartbeat cal s in
      if rn_last_error s \<noteq> None \<or> str_contains state ''fail'' \<or> str_contains state ''error'' then Failed
      else if str_contains state ''stalled'' then Stalled
      else if str_contains state ''pause'' then Paused
      else if is_done_like state then (if is_recent hb now then Recent else Completed)
      else if is_active_like state then (if is_stale hb now then Stalled else Active)
      else if is_recent hb now then Recent
      else Unknown)"

section \<open>The board\<close>

definition compare_timestamp :: "calendar \<Rightarrow> string option \<Rightarrow> string option \<Rightarrow> ord_result" where
  "compare_timestamp cal l r =
     (case (stamp cal l, stamp cal r) of
        (Some a, Some b) \<Rightarrow> cmp_of b a
      | (Some _, None) \<Rightarrow> OLess
      | (None, Some _) \<Rightarrow> OGreater
      | (None, None) \<Rightarrow> OEqual)"

definition compare_runs :: "calendar \<Rightarrow> rendered_run \<Rightarrow> rendered_run \<Rightarrow> ord_result" where
  "compare_runs cal l r =
     (let a = rr_snapshot l; b = rr_snapshot r in
      then_with (cmp_of (sort_rank (rr_kind l)) (sort_rank (rr_kind r)))
      (then_with (compare_timestamp cal (rn_updated_at b) (rn_updated_at a))
      (then_with (compare_timestamp cal (rn_started_at b) (rn_started_at a))
      (then_with (compare_timestamp cal (rn_last_heartbeat b) (rn_last_heartbeat a))
        (cmp_of (rn_run_id a) (rn_run_id b))))))"

definition recent_events_for :: "run_event list \<Rightarrow> string \<Rightarrow> run_event list" where
  "recent_events_for evs run_id =
     take 8 (sort_by (\<lambda>l r. cmp_of (ev_ts r) (ev_ts l)) (filter (\<lambda>e. ev_run_id e = Some run_id) evs))"

definition render_run :: "calendar \<Rightarrow> int \<Rightarrow> run_event list \<Rightarrow> run_snapshot \<Rightarrow> rendered_run" where
  "render_run cal now evs s = \<lparr>rr_snapshot = s, rr_kind = classify_run cal s now,
     rr_age_label = age_label cal s now, rr_recent_events = recent_events_for evs (rn_run_id s)\<rparr>"

definition render_runs :: "calendar \<Rightarrow> int \<Rightarrow> control_plane_state \<Rightarrow> rendered_run list" where
  "render_runs cal now st = sort_by (compare_runs cal) (map (render_run cal now (cp_events st)) (cp_runs st))"

section \<open>Loading\<close>

datatype node_kind = PlainFile | PlainDir | Symlink | OtherNode

text \<open>What the file system answers: whether a path exists, what \<open>symlink_metadata\<close> sees, where a path
  really is, the entries of a directory and the text of a file (\<open>None\<close> is an error).\<close>

record dir_view =
  dv_exists :: "string \<Rightarrow> bool"
  dv_kind :: "string \<Rightarrow> node_kind option"
  dv_canonicalize :: "string \<Rightarrow> string option"
  dv_read_dir :: "string \<Rightarrow> string list option"
  dv_read :: "string \<Rightarrow> string option"

definition path_starts_with :: "string \<Rightarrow> string \<Rightarrow> bool" where
  "path_starts_with p root = (take (length (components root)) (components p) = components root)"

definition is_json_file :: "string \<Rightarrow> bool" where
  "is_json_file p = (extension p = Some ''json'')"

definition safe_root :: "dir_view \<Rightarrow> string \<Rightarrow> string + string option" where
  "safe_root fs root =
     (if \<not> dv_exists fs root then Inr None
      else case dv_canonicalize fs root of
        None \<Rightarrow> Inl ''canonicalize''
      | Some c \<Rightarrow> Inr (if dv_kind fs c = Some PlainDir then Some c else None))"

definition safe_file :: "dir_view \<Rightarrow> string \<Rightarrow> string \<Rightarrow> string + string option" where
  "safe_file fs root p =
     (case dv_kind fs p of
        None \<Rightarrow> Inr None
      | Some Symlink \<Rightarrow> Inr None
      | Some _ \<Rightarrow> (case path_parent p of
          None \<Rightarrow> Inr None
        | Some d \<Rightarrow> (case dv_kind fs d of
            None \<Rightarrow> Inl ''symlink_metadata''
          | Some Symlink \<Rightarrow> Inr None
          | Some _ \<Rightarrow> (case dv_canonicalize fs p of
              None \<Rightarrow> Inl ''canonicalize''
            | Some c \<Rightarrow> Inr (if path_starts_with c root then Some c else None)))))"

fun safe_json_files :: "dir_view \<Rightarrow> string \<Rightarrow> string list \<Rightarrow> string + string list" where
  "safe_json_files fs root [] = Inr []"
| "safe_json_files fs root (p # ps) =
     (if \<not> is_json_file p then safe_json_files fs root ps
      else case safe_file fs root p of
        Inl e \<Rightarrow> Inl e
      | Inr None \<Rightarrow> safe_json_files fs root ps
      | Inr (Some c) \<Rightarrow> map_sum id (Cons c) (safe_json_files fs root ps))"

definition json_files_in :: "dir_view \<Rightarrow> string \<Rightarrow> string \<Rightarrow> string + string list" where
  "json_files_in fs root d =
     (if \<not> dv_exists fs d then Inr []
      else case dv_read_dir fs d of None \<Rightarrow> Inl ''read_dir'' | Some ps \<Rightarrow> safe_json_files fs root ps)"

definition runs_dir :: "string \<Rightarrow> string" where
  "runs_dir root = path_join root ''runs''"

definition archived_dir :: "string \<Rightarrow> string" where
  "archived_dir root = path_join (runs_dir root) ''.archived''"

definition load_run ::
  "(string \<Rightarrow> run_snapshot option) \<Rightarrow> dir_view \<Rightarrow> string \<Rightarrow> (string, run_snapshot) hashmap \<Rightarrow> (string, run_snapshot) hashmap" where
  "load_run parse fs p m = (case Option.bind (dv_read fs p) parse of
     None \<Rightarrow> m | Some s \<Rightarrow> hm_insert (rn_run_id s) s m)"

definition load_runs ::
  "(string \<Rightarrow> run_snapshot option) \<Rightarrow> dir_view \<Rightarrow> string \<Rightarrow> string + run_snapshot list" where
  "load_runs parse fs root = map_sum id (\<lambda>ps. map snd (fold (load_run parse fs) ps []))
     (json_files_in fs root (runs_dir root))"

definition archived_id_from_marker :: "(string \<Rightarrow> json option) \<Rightarrow> dir_view \<Rightarrow> string \<Rightarrow> string option" where
  "archived_id_from_marker parse fs p =
     (case dv_read fs p of
        None \<Rightarrow> None
      | Some text \<Rightarrow>
          (case Option.bind (Option.bind (parse text) (\<lambda>v. jget v ''run_id'')) as_str of
             Some i \<Rightarrow> Some i
           | None \<Rightarrow> (case file_stem p of Some [] \<Rightarrow> None | x \<Rightarrow> x)))"

definition load_archived_run_ids :: "(string \<Rightarrow> json option) \<Rightarrow> dir_view \<Rightarrow> string \<Rightarrow> string + string set" where
  "load_archived_run_ids parse fs root =
     map_sum id (\<lambda>ps. set (List.map_filter (archived_id_from_marker parse fs) ps))
       (json_files_in fs root (archived_dir root))"

definition load_events ::
  "(string \<Rightarrow> run_event option) \<Rightarrow> dir_view \<Rightarrow> string \<Rightarrow> string + run_event list" where
  "load_events parse fs root =
     map_sum id (\<lambda>f. case Option.bind f (dv_read fs) of
         None \<Rightarrow> []
       | Some text \<Rightarrow> List.map_filter parse (filter (\<lambda>l. trim l \<noteq> []) (str_lines text)))
       (safe_file fs root (path_join root ''events.jsonl''))"

record parsers =
  ps_run :: "string \<Rightarrow> run_snapshot option"
  ps_json :: "string \<Rightarrow> json option"
  ps_event :: "string \<Rightarrow> run_event option"

definition load_state :: "parsers \<Rightarrow> dir_view \<Rightarrow> string \<Rightarrow> string + control_plane_state" where
  "load_state ps fs requested =
     (case safe_root fs requested of
        Inl e \<Rightarrow> Inl e
      | Inr None \<Rightarrow> Inr (cp_empty requested)
      | Inr (Some root) \<Rightarrow>
      (case load_archived_run_ids (ps_json ps) fs root of
        Inl e \<Rightarrow> Inl e
      | Inr archived \<Rightarrow>
      (case load_runs (ps_run ps) fs root of
        Inl e \<Rightarrow> Inl e
      | Inr runs \<Rightarrow>
      (case load_events (ps_event ps) fs root of
        Inl e \<Rightarrow> Inl e
      | Inr events \<Rightarrow> Inr \<lparr>cp_root = root, cp_runs = filter (\<lambda>s. rn_run_id s \<notin> archived) runs,
          cp_events = events, cp_archived_run_ids = archived\<rparr>))))"

section \<open>Order of the board\<close>

lemma comparison_timestamp: "comparison (compare_timestamp cal)"
proof
  fix x y z
  show "compare_timestamp cal y x = ord_reverse (compare_timestamp cal x y)"
    by (auto simp: compare_timestamp_def cmp_of_def split: option.splits)
  show "compare_timestamp cal x y \<noteq> OGreater \<Longrightarrow> compare_timestamp cal y z \<noteq> OGreater \<Longrightarrow>
      compare_timestamp cal x z \<noteq> OGreater"
    by (auto simp: compare_timestamp_def split: option.splits)
qed

lemma comparison_runs: "comparison (compare_runs cal)"
  unfolding compare_runs_def Let_def
  by (intro comparison_then comparison_key [OF comparison_cmp_of]
      comparison_rev [OF comparison_key [OF comparison_timestamp]])

interpretation board: comparison "compare_runs cal" for cal
  by (rule comparison_runs)

interpretation newest: comparison "\<lambda>l r :: run_event. cmp_of (ev_ts r) (ev_ts l)"
  by (intro comparison_rev [OF comparison_key [OF comparison_cmp_of]])

lemma compare_runs_le:
  assumes "compare_runs cal l r \<noteq> OGreater"
  shows "sort_rank (rr_kind l) \<le> sort_rank (rr_kind r)"
    and "sort_rank (rr_kind l) = sort_rank (rr_kind r) \<Longrightarrow>
      stamp cal (rn_updated_at (rr_snapshot l)) = Some a \<Longrightarrow>
      stamp cal (rn_updated_at (rr_snapshot r)) = Some b \<Longrightarrow> a \<le> b"
  using assms by (auto simp: compare_runs_def Let_def then_with_eq compare_timestamp_def)

text \<open>the order of the board.  Nothing is lost or added; the kinds appear in the order active, stalled,
  failed, paused, recent, completed, unknown; and within a kind the run updated longest ago comes
  first, the comparison of time stamps being applied with its arguments exchanged.\<close>

theorem board_order:
  fixes cal now st
  defines "rs \<equiv> render_runs cal now st"
  shows "mset (map rr_snapshot rs) = mset (cp_runs st) \<and> sorted (map (\<lambda>r. sort_rank (rr_kind r)) rs) \<and>
    sorted_wrt (\<lambda>l r. rr_kind l = rr_kind r \<longrightarrow>
      (case (stamp cal (rn_updated_at (rr_snapshot l)), stamp cal (rn_updated_at (rr_snapshot r))) of
         (Some a, Some b) \<Rightarrow> a \<le> b | _ \<Rightarrow> True)) rs"
proof (intro conjI)
  have "mset rs = mset (map (render_run cal now (cp_events st)) (cp_runs st))"
    by (simp only: rs_def render_runs_def mset_sort_by)
  then have "mset (map rr_snapshot rs) = mset (map rr_snapshot (map (render_run cal now (cp_events st)) (cp_runs st)))"
    by (simp only: mset_map)
  then show "mset (map rr_snapshot rs) = mset (cp_runs st)" by (simp add: render_run_def comp_def)
next
  have s: "sorted_wrt (\<lambda>x y. compare_runs cal x y \<noteq> OGreater) rs"
    unfolding rs_def render_runs_def by (rule board.sorted_sort_by)
  show "sorted (map (\<lambda>r. sort_rank (rr_kind r)) rs)"
    unfolding sorted_wrt_map by (rule sorted_wrt_mono_rel [OF _ s]) (rule compare_runs_le(1))
  show "sorted_wrt (\<lambda>l r. rr_kind l = rr_kind r \<longrightarrow>
      (case (stamp cal (rn_updated_at (rr_snapshot l)), stamp cal (rn_updated_at (rr_snapshot r))) of
         (Some a, Some b) \<Rightarrow> a \<le> b | _ \<Rightarrow> True)) rs"
    by (rule sorted_wrt_mono_rel [OF _ s]) (auto dest: compare_runs_le(2) split: option.splits)
qed

theorem board_order_witness:
  "sorted (map (\<lambda>r. sort_rank (rr_kind r)) (render_runs \<lparr>cal_rfc3339 = (\<lambda>_. None), cal_timestamp = Some\<rparr> 0 (cp_empty ''/s'')))"
  using board_order [of "\<lparr>cal_rfc3339 = (\<lambda>_. None), cal_timestamp = Some\<rparr>" 0 "cp_empty ''/s''"] by blast

text \<open>The events shown are the latest ones.  At most eight events are shown, all of that run, newest first,
  and no event of the run that is left out has a later time stamp than one that is shown.\<close>

theorem recent_events_latest:
  fixes evs i
  defines "shown \<equiv> recent_events_for evs i" and "own \<equiv> filter (\<lambda>e. ev_run_id e = Some i) evs"
  shows "length shown = min 8 (length own) \<and> sorted_wrt (\<lambda>a b. ev_ts b \<le> ev_ts a) shown \<and>
    (\<exists>rest. mset own = mset shown + mset rest \<and> (\<forall>a \<in> set shown. \<forall>b \<in> set rest. ev_ts b \<le> ev_ts a))"
proof (intro conjI)
  let ?s = "sort_by (\<lambda>l r. cmp_of (ev_ts r) (ev_ts l)) own"
  have shown: "shown = take 8 ?s" by (simp add: shown_def own_def recent_events_for_def)
  show "length shown = min 8 (length own)" by (simp add: shown min.commute)
  have "sorted_wrt (\<lambda>a b. ev_ts b \<le> ev_ts a) ?s"
    using newest.sorted_sort_by [of own] by (simp add: not_less)
  then show "sorted_wrt (\<lambda>a b. ev_ts b \<le> ev_ts a) shown" by (simp add: shown sorted_wrt_take)
  have "mset own = mset shown + mset (drop 8 ?s)"
    unfolding shown by (metis append_take_drop_id mset_append mset_sort_by)
  moreover have "\<forall>a \<in> set shown. \<forall>b \<in> set (drop 8 ?s). ev_ts b \<le> ev_ts a"
    using newest.sort_by_take [of _ 8 own] by (auto simp: shown not_less)
  ultimately show "\<exists>rest. mset own = mset shown + mset rest \<and> (\<forall>a \<in> set shown. \<forall>b \<in> set rest. ev_ts b \<le> ev_ts a)"
    by blast
qed

section \<open>Ages\<close>

lemma whole_less: "0 < unit \<Longrightarrow> 0 < n \<Longrightarrow> whole unit d < n \<longleftrightarrow> d < n * unit"
proof (cases "d < 0")
  case True
  assume u: "0 < unit" and n: "0 < n"
  have "0 \<le> (- d) div unit" using u True by (simp add: pos_imp_zdiv_nonneg_iff)
  moreover have "d < n * unit" using mult_pos_pos [OF n u] True by linarith
  ultimately show ?thesis using True n by (simp add: whole_def)
next
  case False
  assume "0 < unit"
  then have d: "d = d div unit * unit + d mod unit" and m: "0 \<le> d mod unit" "d mod unit < unit"
    by simp_all
  have "d div unit < n \<longleftrightarrow> d < n * unit"
  proof
    assume "d div unit < n"
    then have "(d div unit + 1) * unit \<le> n * unit" using \<open>0 < unit\<close> by (intro mult_right_mono) simp_all
    then have "d div unit * unit + unit \<le> n * unit" by (simp add: distrib_right)
    with d m show "d < n * unit" by linarith
  next
    assume less: "d < n * unit"
    show "d div unit < n"
    proof (rule ccontr)
      assume "\<not> d div unit < n"
      then have "n * unit \<le> d div unit * unit" using \<open>0 < unit\<close> by (intro mult_right_mono) simp_all
      with d m less show False by linarith
    qed
  qed
  with False show ?thesis by (simp add: whole_def)
qed

text \<open>When a working run counts as stalled.  A run whose state names work in progress, and nothing that
  ends, pauses or fails, is active until sixteen full minutes after its last sign of life and stalled
  from then on; without any readable time stamp it stays active for ever, and a time stamp in the
  future keeps it active.\<close>

theorem working_run_stalls:
  assumes err: "rn_last_error s = None" and st: "state = to_ascii_lowercase (display_state s)"
    and work: "is_active_like state" "\<not> is_done_like state"
    and no: "\<not> str_contains state ''fail''" "\<not> str_contains state ''error''"
      "\<not> str_contains state ''stalled''" "\<not> str_contains state ''pause''"
  shows "classify_run cal s now = (case run_heartbeat cal s of
     None \<Rightarrow> Active | Some t \<Rightarrow> if t + 16 * minute_ns \<le> now then Stalled else Active)"
proof -
  have "is_stale (Some t) now \<longleftrightarrow> t + 16 * minute_ns \<le> now" for t
    using whole_less [of minute_ns 16 "now - t"] by (auto simp: is_stale_def)
  moreover have "\<not> is_stale None now" by (simp add: is_stale_def)
  ultimately show ?thesis
    using assms by (auto simp: classify_run_def Let_def split: option.splits)
qed

definition example_run :: "string \<Rightarrow> run_snapshot" where
  "example_run i = \<lparr>rn_run_id = i, rn_session_id = None, rn_agent = Some ''codex'', rn_skill = None, rn_mode = None,
     rn_state = Some ''Running'', rn_status = None, rn_started_at = None, rn_updated_at = Some ''5'',
     rn_last_heartbeat = None, rn_root = Some ''/r'', rn_operator_session = None, rn_latest_report = None,
     rn_latest_transcript = None, rn_last_error = None, rn_extra = []\<rparr>"

definition example_calendar :: calendar where
  "example_calendar = \<lparr>cal_rfc3339 = (\<lambda>_. None), cal_timestamp = (\<lambda>s. Some (s * 1000000000))\<rparr>"

theorem working_run_stalls_witness:
  "classify_run example_calendar (example_run ''a'') 964000000000 = Active \<and>
   classify_run example_calendar (example_run ''a'') 965000000000 = Stalled"
proof -
  have "rn_last_error (example_run ''a'') = None" by (simp add: example_run_def)
  moreover have "''running'' = to_ascii_lowercase (display_state (example_run ''a''))" by code_simp
  moreover have "is_active_like ''running''" "\<not> is_done_like ''running''" "\<not> str_contains ''running'' ''fail''"
    "\<not> str_contains ''running'' ''error''" "\<not> str_contains ''running'' ''stalled''" "\<not> str_contains ''running'' ''pause''"
    by code_simp+
  moreover have "run_heartbeat example_calendar (example_run ''a'') = Some 5000000000" by code_simp
  ultimately show ?thesis
    using working_run_stalls [of "example_run ''a''" "''running''" example_calendar] by simp
qed

section \<open>What is loaded\<close>

text \<open>A path that may be read: it and its directory are there and are no symbolic links, and its real place \<open>c\<close> is
  inside the root.\<close>

definition confined :: "dir_view \<Rightarrow> string \<Rightarrow> string \<Rightarrow> string \<Rightarrow> bool" where
  "confined fs root p c \<longleftrightarrow> dv_kind fs p \<notin> {None, Some Symlink} \<and>
     (\<exists>d. path_parent p = Some d \<and> dv_kind fs d \<notin> {None, Some Symlink}) \<and>
     dv_canonicalize fs p = Some c \<and> path_starts_with c root"

lemma safe_file_Some: "safe_file fs root p = Inr (Some c) \<Longrightarrow> confined fs root p c"
  by (auto simp: safe_file_def confined_def split: option.splits node_kind.splits if_splits)

lemma map_sum_eq_Inr: "map_sum id f x = Inr y \<longleftrightarrow> (\<exists>z. x = Inr z \<and> y = f z)"
  by (cases x) auto

lemma in_map_filter: "y \<in> set (List.map_filter f xs) \<longleftrightarrow> (\<exists>x \<in> set xs. f x = Some y)"
  by (force simp: List.map_filter_def)

lemma safe_json_files_sound:
  assumes "safe_json_files fs root ps = Inr cs" and "c \<in> set cs"
  shows "\<exists>p \<in> set ps. is_json_file p \<and> confined fs root p c"
  using assms
proof (induction ps arbitrary: cs)
  case (Cons p ps)
  then show ?case
    by (auto simp: map_sum_eq_Inr split: if_splits sum.splits option.splits dest: safe_file_Some)
qed simp

text \<open>A JSON file of a directory that may be read.\<close>

definition json_place :: "dir_view \<Rightarrow> string \<Rightarrow> string \<Rightarrow> string \<Rightarrow> bool" where
  "json_place fs root d c \<longleftrightarrow> (\<exists>entries p. dv_read_dir fs d = Some entries \<and> p \<in> set entries \<and> is_json_file p \<and> confined fs root p c)"

lemma json_files_in_sound: "json_files_in fs root d = Inr cs \<Longrightarrow> c \<in> set cs \<Longrightarrow> json_place fs root d c"
  by (auto simp: json_files_in_def json_place_def split: if_splits option.splits dest: safe_json_files_sound)

lemma json_place_inside: "json_place fs root d c \<Longrightarrow> path_starts_with c root"
  by (auto simp: json_place_def confined_def)

text \<open>Which files are looked at does not depend on what is in them.\<close>

lemma safe_file_read [simp]: "safe_file (fs\<lparr>dv_read := rd\<rparr>) root p = safe_file fs root p"
  by (simp add: safe_file_def split: option.split node_kind.split)

lemma safe_json_files_read [simp]: "safe_json_files (fs\<lparr>dv_read := rd\<rparr>) root ps = safe_json_files fs root ps"
  by (induction ps) (simp_all split: sum.split option.split)

lemma json_files_in_read [simp]: "json_files_in (fs\<lparr>dv_read := rd\<rparr>) root d = json_files_in fs root d"
  by (simp add: json_files_in_def split: option.split)

lemma safe_root_read [simp]: "safe_root (fs\<lparr>dv_read := rd\<rparr>) root = safe_root fs root"
  by (simp add: safe_root_def split: option.split)

lemma fold_load_run_read:
  "\<forall>c \<in> set cs. rd c = dv_read fs c \<Longrightarrow>
   fold (load_run parse (fs\<lparr>dv_read := rd\<rparr>)) cs m = fold (load_run parse fs) cs m"
  by (intro fold_cong) (auto simp: load_run_def)

lemma load_runs_read:
  assumes "\<forall>c. path_starts_with c root \<longrightarrow> rd c = dv_read fs c"
  shows "load_runs parse (fs\<lparr>dv_read := rd\<rparr>) root = load_runs parse fs root"
proof (cases "json_files_in fs root (runs_dir root)")
  case (Inr cs)
  with assms have "\<forall>c \<in> set cs. rd c = dv_read fs c" by (blast dest: json_files_in_sound json_place_inside)
  from fold_load_run_read [OF this] Inr show ?thesis by (simp add: load_runs_def)
qed (simp add: load_runs_def)

lemma load_archived_run_ids_read:
  assumes "\<forall>c. path_starts_with c root \<longrightarrow> rd c = dv_read fs c"
  shows "load_archived_run_ids parse (fs\<lparr>dv_read := rd\<rparr>) root = load_archived_run_ids parse fs root"
proof (cases "json_files_in fs root (archived_dir root)")
  case (Inr cs)
  with assms have "\<forall>c \<in> set cs. rd c = dv_read fs c" by (blast dest: json_files_in_sound json_place_inside)
  then have "\<forall>c \<in> set cs. archived_id_from_marker parse (fs\<lparr>dv_read := rd\<rparr>) c = archived_id_from_marker parse fs c"
    by (simp add: archived_id_from_marker_def)
  with Inr show ?thesis by (simp add: load_archived_run_ids_def in_map_filter set_eq_iff)
qed (simp add: load_archived_run_ids_def)

lemma load_events_read:
  assumes "\<forall>c. path_starts_with c root \<longrightarrow> rd c = dv_read fs c"
  shows "load_events parse (fs\<lparr>dv_read := rd\<rparr>) root = load_events parse fs root"
proof (cases "safe_file fs root (path_join root ''events.jsonl'')")
  case (Inr f)
  with assms show ?thesis
    by (cases f) (auto simp: load_events_def confined_def dest: safe_file_Some)
qed (simp add: load_events_def)

text \<open>Nothing outside the root reaches the loaded state, whichever files it is made from.\<close>

lemma load_state_read:
  assumes "\<forall>root c. safe_root fs req = Inr (Some root) \<and> path_starts_with c root \<longrightarrow> rd c = dv_read fs c"
  shows "load_state ps (fs\<lparr>dv_read := rd\<rparr>) req = load_state ps fs req"
proof (cases "safe_root fs req")
  case (Inr r)
  show ?thesis
  proof (cases r)
    case (Some root)
    with Inr assms have "\<forall>c. path_starts_with c root \<longrightarrow> rd c = dv_read fs c" by simp
    with Inr Some show ?thesis
      by (simp add: load_state_def load_runs_read load_archived_run_ids_read load_events_read split: sum.split)
  qed (simp add: load_state_def Inr)
qed (simp add: load_state_def)

lemma load_runs_map:
  assumes "hm_ok m" and "hm_all (\<lambda>i s. rn_run_id s = i \<and> P s) m"
    and "\<forall>p \<in> set ps. \<forall>s. Option.bind (dv_read fs p) parse = Some s \<longrightarrow> P s"
  shows "hm_ok (fold (load_run parse fs) ps m) \<and> hm_all (\<lambda>i s. rn_run_id s = i \<and> P s) (fold (load_run parse fs) ps m)"
  using assms
proof (induction ps arbitrary: m)
  case (Cons p ps)
  have "hm_ok (load_run parse fs p m)"
    using Cons.prems(1) by (simp add: load_run_def distinct_update split: option.splits)
  moreover have "hm_all (\<lambda>i s. rn_run_id s = i \<and> P s) (load_run parse fs p m)"
    using Cons.prems(2,3) by (simp add: load_run_def hm_all_insert split: option.splits)
  ultimately show ?case using Cons by simp
qed simp

lemma load_runs_sound:
  assumes "load_runs parse fs root = Inr runs"
  shows "distinct (map rn_run_id runs) \<and> (\<forall>s \<in> set runs. \<exists>c text. json_place fs root (runs_dir root) c \<and>
    dv_read fs c = Some text \<and> parse text = Some s)"
proof -
  define P where "P s \<longleftrightarrow> (\<exists>c text. json_place fs root (runs_dir root) c \<and> dv_read fs c = Some text \<and> parse text = Some s)" for s
  obtain cs where cs: "json_files_in fs root (runs_dir root) = Inr cs"
    and m: "runs = map snd (fold (load_run parse fs) cs [])"
    using assms unfolding load_runs_def by (cases "json_files_in fs root (runs_dir root)") simp_all
  have "P s" if "c \<in> set cs" "Option.bind (dv_read fs c) parse = Some s" for c s
    using json_files_in_sound [OF cs that(1)] that(2) unfolding P_def by (auto simp: bind_eq_Some_conv)
  then have ok: "hm_ok (fold (load_run parse fs) cs [])"
    "hm_all (\<lambda>i s. rn_run_id s = i \<and> P s) (fold (load_run parse fs) cs [])"
    using load_runs_map [of "[]" P cs fs parse] by auto
  have "map rn_run_id runs = map fst (fold (load_run parse fs) cs [])"
    using ok(2) by (auto simp: m hm_all_def)
  then have "distinct (map rn_run_id runs)" using ok(1) by simp
  moreover have "\<forall>s \<in> set runs. P s" using ok(2) by (auto simp: m hm_all_def)
  ultimately show ?thesis unfolding P_def by blast
qed

lemma load_archived_run_ids_sound:
  assumes "load_archived_run_ids parse fs root = Inr ids" and "i \<in> ids"
  shows "\<exists>c. json_place fs root (archived_dir root) c \<and> archived_id_from_marker parse fs c = Some i"
proof -
  obtain cs where cs: "json_files_in fs root (archived_dir root) = Inr cs"
    and ids: "ids = set (List.map_filter (archived_id_from_marker parse fs) cs)"
    using assms(1) by (auto simp: load_archived_run_ids_def map_sum_eq_Inr)
  with assms(2) json_files_in_sound [OF cs] show ?thesis by (auto simp: in_map_filter)
qed

lemma load_events_sound:
  assumes "load_events parse fs root = Inr evs" and "e \<in> set evs"
  shows "\<exists>c text line. confined fs root (path_join root ''events.jsonl'') c \<and> dv_read fs c = Some text \<and>
    line \<in> set (str_lines text) \<and> parse line = Some e"
  using assms unfolding load_events_def
  by (cases "safe_file fs root (path_join root ''events.jsonl'')")
    (auto simp: in_map_filter bind_eq_Some_conv split: option.splits dest!: safe_file_Some, blast)

text \<open>C26: only what lies inside the state directory is shown.  Every run on the loaded board has its own id, is not
  archived, and was read from a JSON file of the directory of runs; every archived id comes from a JSON
  file of the directory of markers, every event from a line of the event stream.  Each of these files,
  like its directory, is no symbolic link and has its real place inside the real state directory.  And
  whatever the files elsewhere contain, the loaded state is the same.\<close>

theorem load_state_confined:
  assumes l: "load_state ps fs req = Inr st" and r: "safe_root fs req = Inr (Some root)"
  shows "distinct (map rn_run_id (cp_runs st)) \<and> rn_run_id ` set (cp_runs st) \<inter> cp_archived_run_ids st = {} \<and>
    (\<forall>s \<in> set (cp_runs st). \<exists>c text. json_place fs root (runs_dir root) c \<and>
      dv_read fs c = Some text \<and> ps_run ps text = Some s) \<and>
    (\<forall>i \<in> cp_archived_run_ids st. \<exists>c. json_place fs root (archived_dir root) c \<and>
      archived_id_from_marker (ps_json ps) fs c = Some i) \<and>
    (\<forall>e \<in> set (cp_events st). \<exists>c text line. confined fs root (path_join root ''events.jsonl'') c \<and>
      dv_read fs c = Some text \<and> line \<in> set (str_lines text) \<and> ps_event ps line = Some e) \<and>
    (\<forall>rd. (\<forall>c. path_starts_with c root \<longrightarrow> rd c = dv_read fs c) \<longrightarrow>
      load_state ps (fs\<lparr>dv_read := rd\<rparr>) req = Inr st)"
proof -
  obtain archived runs evs where runs: "load_runs (ps_run ps) fs root = Inr runs"
    and ids: "load_archived_run_ids (ps_json ps) fs root = Inr archived"
    and evs: "load_events (ps_event ps) fs root = Inr evs"
    and st: "cp_runs st = filter (\<lambda>s. rn_run_id s \<notin> archived) runs" "cp_archived_run_ids st = archived" "cp_events st = evs"
    using l r by (auto simp: load_state_def split: sum.splits)
  have "load_state ps (fs\<lparr>dv_read := rd\<rparr>) req = Inr st" if "\<forall>c. path_starts_with c root \<longrightarrow> rd c = dv_read fs c" for rd
    using load_state_read [of fs req rd ps] that r l by simp
  moreover have "distinct (map rn_run_id (cp_runs st))"
    using load_runs_sound [OF runs] unfolding st by (simp add: distinct_map_filter)
  ultimately show ?thesis
    using load_runs_sound [OF runs] load_archived_run_ids_sound [OF ids] load_events_sound [OF evs] unfolding st by auto
qed

definition example_dir :: dir_view where
  "example_dir = \<lparr>dv_exists = (\<lambda>p. p \<in> set [''/s'', ''/s/runs'']),
     dv_kind = (\<lambda>p. if p \<in> set [''/s'', ''/s/runs''] then Some PlainDir
       else if p = ''/s/runs/a.json'' then Some PlainFile else None),
     dv_canonicalize = Some, dv_read_dir = (\<lambda>_. Some [''/s/runs/a.json'']), dv_read = (\<lambda>_. Some ''{}'')\<rparr>"

definition example_parsers :: parsers where
  "example_parsers = \<lparr>ps_run = (\<lambda>_. Some (example_run ''a'')), ps_json = (\<lambda>_. None), ps_event = (\<lambda>_. None)\<rparr>"

theorem load_state_confined_witness:
  "\<exists>st. load_state example_parsers example_dir ''/s'' = Inr st \<and> cp_runs st = [example_run ''a''] \<and>
     load_state example_parsers (example_dir\<lparr>dv_read := (\<lambda>p. if path_starts_with p ''/s'' then Some ''{}'' else None)\<rparr>) ''/s'' = Inr st"
proof -
  have root: "safe_root example_dir ''/s'' = Inr (Some ''/s'')" by code_simp
  obtain st where st: "load_state example_parsers example_dir ''/s'' = Inr st" "cp_runs st = [example_run ''a'']"
  proof -
    have "map_sum id cp_runs (load_state example_parsers example_dir ''/s'') = Inr [example_run ''a'']" by code_simp
    then show ?thesis using that by (cases "load_state example_parsers example_dir ''/s''") auto
  qed
  have "\<forall>c. path_starts_with c ''/s'' \<longrightarrow> (if path_starts_with c ''/s'' then Some ''{}'' else None) = dv_read example_dir c"
    by (simp add: example_dir_def)
  then have "load_state example_parsers (example_dir\<lparr>dv_read := (\<lambda>p. if path_starts_with p ''/s'' then Some ''{}'' else None)\<rparr>) ''/s'' = Inr st"
    using load_state_confined [OF st(1) root] by simp
  with st show ?thesis by (intro exI [of _ st]) simp
qed

end
