(* ===== verification/Op_Decode.thy ===== *)
theory Op_Decode
  imports Mux_Json
begin

text \<open>
  Reading typed values out of JSON the way the readers derived by \<open>serde\<close> do: a required field must be
  there, a field of option type may be missing or null, an unknown field is skipped, an integer must
  fit its width.  A codec is a writer with the reader that undoes it; the writers are those derived
  for the same types.
\<close>

locale codec =
  fixes enc :: "'a \<Rightarrow> json" and dec :: "json \<Rightarrow> 'a option" and ok :: "'a \<Rightarrow> bool"
  assumes dec_enc: "ok x \<Longrightarrow> dec (enc x) = Some x"
begin

lemma enc_inj: "ok x \<Longrightarrow> ok y \<Longrightarrow> enc x = enc y \<Longrightarrow> x = y"
  by (metis dec_enc option.inject)

end

section \<open>Scalars\<close>

fun de_bool :: "json \<Rightarrow> bool option" where
  "de_bool (JBool b) = Some b"
| "de_bool _ = None"

definition de_u64 :: "json \<Rightarrow> u64 option" where
  "de_u64 v = map_option of_nat (as_u64 v)"

definition de_usize :: "json \<Rightarrow> nat option" where
  "de_usize v = as_u64 v"

definition de_u32 :: "json \<Rightarrow> u32 option" where
  "de_u32 v = Option.bind (as_u64 v) (\<lambda>n. if n < 2 ^ 32 then Some (of_nat n) else None)"

definition de_option :: "(json \<Rightarrow> 'a option) \<Rightarrow> json \<Rightarrow> 'a option option" where
  "de_option dec v = (if v = JNull then Some None else map_option Some (dec v))"

definition en_usize :: "nat \<Rightarrow> json" where
  "en_usize n = JInt (int n)"

definition en_u64 :: "u64 \<Rightarrow> json" where
  "en_u64 w = en_usize (unat w)"

definition en_u32 :: "u32 \<Rightarrow> json" where
  "en_u32 w = en_usize (unat w)"

definition en_option :: "('a \<Rightarrow> json) \<Rightarrow> 'a option \<Rightarrow> json" where
  "en_option enc v = (case v of None \<Rightarrow> JNull | Some x \<Rightarrow> enc x)"

section \<open>Fields\<close>

definition de_field :: "(json \<Rightarrow> 'a option) \<Rightarrow> json \<Rightarrow> string \<Rightarrow> 'a option" where
  "de_field dec v k = Option.bind (jget v k) dec"

text \<open>A field marked \<open>serde(default)\<close> of option type.\<close>

definition de_default :: "(json \<Rightarrow> 'a option) \<Rightarrow> json \<Rightarrow> string \<Rightarrow> 'a option option" where
  "de_default dec v k = (case jget v k of None \<Rightarrow> Some None | Some x \<Rightarrow> de_option dec x)"

section \<open>The codecs\<close>

lemma as_u64_usize: "n < 2 ^ 64 \<Longrightarrow> as_u64 (en_usize n) = Some n"
  by (simp add: en_usize_def)

lemma unat_u64_bound: "unat (w :: u64) < 2 ^ 64"
  using unsigned_less [of w] by simp

lemma unat_u32_bound: "unat (w :: u32) < 2 ^ 32"
  using unsigned_less [of w] by simp

interpretation str_codec: codec JStr as_str "\<lambda>_. True"
  by unfold_locales simp

interpretation bool_codec: codec JBool de_bool "\<lambda>_. True"
  by unfold_locales simp

interpretation u64_codec: codec en_u64 de_u64 "\<lambda>_. True"
  by unfold_locales (simp add: en_u64_def de_u64_def as_u64_usize [OF unat_u64_bound])

interpretation usize_codec: codec en_usize de_usize "\<lambda>n. n < 2 ^ 64"
  by unfold_locales (simp add: de_usize_def as_u64_usize)

interpretation u32_codec: codec en_u32 de_u32 "\<lambda>_. True"
proof
  fix x :: u32
  have "unat x < 2 ^ 64" using unat_u32_bound [of x] by simp
  then show "de_u32 (en_u32 x) = Some x" 
    using unat_u32_bound [of x] by (simp add: en_u32_def de_u32_def as_u64_usize)
qed

lemma codec_option:
  assumes "codec enc dec ok" and "\<And>x. enc x \<noteq> JNull"
  shows "codec (en_option enc) (de_option dec) (pred_option ok)"
proof
  fix v assume "pred_option ok v"
  then show "de_option dec (en_option enc v) = Some v"
    using assms codec.dec_enc [OF assms(1)] by (cases v) (simp_all add: en_option_def de_option_def)
qed

interpretation opt_str_codec: codec "en_option JStr" "de_option as_str" "pred_option (\<lambda>_. True)"
  by (rule codec_option) (unfold_locales, simp)

interpretation opt_u32_codec: codec "en_option en_u32" "de_option de_u32" "pred_option (\<lambda>_. True)"
  by (rule codec_option) (unfold_locales, simp add: en_u32_def en_usize_def)

lemmas codec_simps = str_codec.dec_enc bool_codec.dec_enc u64_codec.dec_enc usize_codec.dec_enc
  u32_codec.dec_enc opt_str_codec.dec_enc opt_u32_codec.dec_enc

end
