(* ===== verification/Op_Mux.thy ===== *)
theory Op_Mux
  imports Op_Runs Op_Decode Mux_Runtime
begin

text \<open>
  How the terminal operator watches the mux daemon (\<open>tui-agent/src/mux.rs\<close>): it mirrors the daemon's
  status snapshot and reads it from status files, and it subscribes to the daemon's event socket.
  The texts of operating system and JSON errors, the JSON reader and the outcomes of connecting are
  parameters.  The writer of the snapshot is the one \<open>serde\<close> derives in \<open>mux-agent/src/state.rs\<close>.
  Records are read from objects; that the derived readers also take an array of the fields in order
  is left out, since no writer of the program produces one.
\<close>

section \<open>What the daemon writes\<close>

fun en_server_status :: "server_status \<Rightarrow> json" where
  "en_server_status StStarting = JStr ''Starting''"
| "en_server_status StRunning = JStr ''Running''"
| "en_server_status StRestarting = JStr ''Restarting''"
| "en_server_status (StFailed reason) = JObj [(''Failed'', JStr reason)]"
| "en_server_status StStopped = JStr ''Stopped''"
| "en_server_status StLazy = JStr ''Lazy''"
| "en_server_status StBackoff = JStr ''Backoff''"

fun en_status_level :: "status_level \<Rightarrow> json" where
  "en_status_level LevelOk = JStr ''Ok''"
| "en_status_level LevelWarn = JStr ''Warn''"
| "en_status_level LevelError = JStr ''Error''"
| "en_status_level LevelLazy = JStr ''Lazy''"

definition en_heartbeat_metrics :: "heartbeat_metrics \<Rightarrow> json" where
  "en_heartbeat_metrics m = JObj (obj_of
     [(''enabled'', JBool (hbm_enabled m)),
      (''latency_ms'', en_option en_u64 (hbm_latency_ms m)),
      (''last_heartbeat_ms'', en_option en_u64 (hbm_last_heartbeat_ms m)),
      (''avg_response_ms'', en_option en_u64 (hbm_avg_response_ms m)),
      (''total_success'', en_u64 (hbm_total_success m)),
      (''total_failures'', en_u64 (hbm_total_failures m)),
      (''consecutive_failures'', en_u32 (hbm_consecutive_failures m))])"

definition status_fields :: "status_snapshot \<Rightarrow> (string \<times> json) list" where
  "status_fields s =
     [(''service_name'', JStr (ss_service_name s)), (''name'', JStr (ss_name s)),
      (''server_status'', en_server_status (ss_server_status s)),
      (''status_text'', JStr (ss_status_text s)), (''level'', en_status_level (ss_level s)),
      (''restarts'', en_u64 (ss_restarts s)),
      (''connected_clients'', en_usize (ss_connected_clients s)),
      (''active_clients'', en_usize (ss_active_clients s)),
      (''max_active_clients'', en_usize (ss_max_active_clients s)),
      (''pending_requests'', en_usize (ss_pending_requests s)),
      (''cached_initialize'', JBool (ss_cached_initialize s)),
      (''initializing'', JBool (ss_initializing s)),
      (''last_reset'', en_option JStr (ss_last_reset s)),
      (''queue_depth'', en_usize (ss_queue_depth s)),
      (''child_pid'', en_option en_u32 (ss_child_pid s)),
      (''max_request_bytes'', en_usize (ss_max_request_bytes s)),
      (''health_status'', en_server_status (ss_health_status s)),
      (''heartbeat_latency_ms'', en_option en_u64 (ss_heartbeat_latency_ms s)),
      (''heartbeat'', en_heartbeat_metrics (ss_heartbeat s)),
      (''uptime_ms'', en_u64 (ss_uptime_ms s)), (''in_backoff'', JBool (ss_in_backoff s)),
      (''restart_backoff_ms'', en_u64 (ss_restart_backoff_ms s)),
      (''restart_backoff_max_ms'', en_u64 (ss_restart_backoff_max_ms s)),
      (''max_restarts'', en_u64 (ss_max_restarts s))]"

definition en_status_snapshot :: "status_snapshot \<Rightarrow> json" where
  "en_status_snapshot s = JObj (obj_of (status_fields s))"

section \<open>The operator's mirror\<close>

datatype mux_server_status = MxStarting | MxRunning | MxRestarting | MxFailed string | MxStopped

fun mux_label :: "mux_server_status \<Rightarrow> string" where
  "mux_label MxStarting = ''Starting''"
| "mux_label MxRunning = ''Running''"
| "mux_label MxRestarting = ''Restarting''"
| "mux_label (MxFailed _) = ''Failed''"
| "mux_label MxStopped = ''Stopped''"

fun mux_is_healthy :: "mux_server_status \<Rightarrow> bool" where
  "mux_is_healthy MxRunning = True"
| "mux_is_healthy MxStarting = True"
| "mux_is_healthy MxRestarting = True"
| "mux_is_healthy _ = False"

fun failure_reason :: "mux_server_status \<Rightarrow> string option" where
  "failure_reason (MxFailed reason) = Some reason"
| "failure_reason _ = None"

text \<open>The derived reader: a variant without contents is its name, or an object whose only key is the
  name, with null behind it; \<open>Failed\<close> is an object with the reason.\<close>

definition unit_variant :: "string \<Rightarrow> mux_server_status option" where
  "unit_variant n =
     (if n = ''Starting'' then Some MxStarting else if n = ''Running'' then Some MxRunning
      else if n = ''Restarting'' then Some MxRestarting else if n = ''Stopped'' then Some MxStopped else None)"

definition de_mux_server_status :: "json \<Rightarrow> mux_server_status option" where
  "de_mux_server_status v =
     (case v of
        JStr n \<Rightarrow> unit_variant n
      | JObj [(n, x)] \<Rightarrow>
          if n = ''Failed'' then map_option MxFailed (as_str x)
          else if x = JNull then unit_variant n else None
      | _ \<Rightarrow> None)"

record mux_status_snapshot =
  mx_service_name :: string
  mx_server_status :: mux_server_status
  mx_restarts :: u64
  mx_connected_clients :: nat
  mx_active_clients :: nat
  mx_max_active_clients :: nat
  mx_pending_requests :: nat
  mx_cached_initialize :: bool
  mx_initializing :: bool
  mx_last_reset :: "string option"
  mx_queue_depth :: nat
  mx_child_pid :: "u32 option"
  mx_max_request_bytes :: nat
  mx_restart_backoff_ms :: u64
  mx_restart_backoff_max_ms :: u64
  mx_max_restarts :: u64

definition de_mux_status_snapshot :: "json \<Rightarrow> mux_status_snapshot option" where
  "de_mux_status_snapshot v =
     Option.bind (de_field as_str v ''service_name'') (\<lambda>name.
     Option.bind (de_field de_mux_server_status v ''server_status'') (\<lambda>status.
     Option.bind (de_field de_u64 v ''restarts'') (\<lambda>restarts.
     Option.bind (de_field de_usize v ''connected_clients'') (\<lambda>connected.
     Option.bind (de_field de_usize v ''active_clients'') (\<lambda>active.
     Option.bind (de_field de_usize v ''max_active_clients'') (\<lambda>max_active.
     Option.bind (de_field de_usize v ''pending_requests'') (\<lambda>pending.
     Option.bind (de_field de_bool v ''cached_initialize'') (\<lambda>cached.
     Option.bind (de_field de_bool v ''initializing'') (\<lambda>initializing.
     Option.bind (de_default as_str v ''last_reset'') (\<lambda>last_reset.
     Option.bind (de_field de_usize v ''queue_depth'') (\<lambda>depth.
     Option.bind (de_default de_u32 v ''child_pid'') (\<lambda>pid.
     Option.bind (de_field de_usize v ''max_request_bytes'') (\<lambda>bytes.
     Option.bind (de_field de_u64 v ''restart_backoff_ms'') (\<lambda>backoff.
     Option.bind (de_field de_u64 v ''restart_backoff_max_ms'') (\<lambda>backoff_max.
     Option.bind (de_field de_u64 v ''max_restarts'') (\<lambda>max_restarts.
       Some \<lparr>mx_service_name = name, mx_server_status = status, mx_restarts = restarts,
         mx_connected_clients = connected, mx_active_clients = active, mx_max_active_clients = max_active,
         mx_pending_requests = pending, mx_cached_initialize = cached, mx_initializing = initializing,
         mx_last_reset = last_reset, mx_queue_depth = depth, mx_child_pid = pid, mx_max_request_bytes = bytes,
         mx_restart_backoff_ms = backoff, mx_restart_backoff_max_ms = backoff_max,
         mx_max_restarts = max_restarts\<rparr>))))))))))))))))"

definition mux_snapshot_line :: "mux_status_snapshot \<Rightarrow> string" where
  "mux_snapshot_line s = join '' '' (
     [mx_service_name s @ '': '' @ mux_label (mx_server_status s) @ '' clients='' @ nat_str (mx_active_clients s) @
        ''/'' @ nat_str (mx_connected_clients s) @ '' pending='' @ nat_str (mx_pending_requests s) @
        '' queue='' @ nat_str (mx_queue_depth s) @ '' restarts='' @ nat_str (unat (mx_restarts s))] @
     (case mx_child_pid s of Some pid \<Rightarrow> [''pid='' @ nat_str (unat pid)] | None \<Rightarrow> []) @
     (case failure_reason (mx_server_status s) of Some reason \<Rightarrow> [''reason='' @ reason] | None \<Rightarrow> []))"

section \<open>Reading status files\<close>

text \<open>An error is its chain of contexts, outermost first.\<close>

record mux_env =
  me_var :: "string \<Rightarrow> string option"
  me_fs :: dir_view
  me_is_file :: "string \<Rightarrow> bool"
  me_os_error :: "string \<Rightarrow> string"
  me_parse :: "string \<Rightarrow> json option"
  me_json_error :: "string \<Rightarrow> string"

definition from_json :: "mux_env \<Rightarrow> string \<Rightarrow> string list + mux_status_snapshot" where
  "from_json env raw = (case Option.bind (me_parse env raw) de_mux_status_snapshot of
     Some s \<Rightarrow> Inr s | None \<Rightarrow> Inl [''failed to parse rust-mux status JSON'', me_json_error env raw])"

definition safe_status_file :: "mux_env \<Rightarrow> string \<Rightarrow> string list + string" where
  "safe_status_file env p =
     (if extension p \<noteq> Some ''json'' then Inl [''refusing non-json rust-mux status file '' @ p]
      else case dv_kind (me_fs env) p of
        None \<Rightarrow> Inl [''failed to inspect rust-mux status file '' @ p, me_os_error env p]
      | Some k \<Rightarrow>
          if k \<noteq> PlainFile then Inl [''refusing unsafe rust-mux status file '' @ p]
          else (case dv_canonicalize (me_fs env) p of
              None \<Rightarrow> Inl [''failed to canonicalize rust-mux status file '' @ p, me_os_error env p]
            | Some c \<Rightarrow> Inr c))"

definition read_status :: "mux_env \<Rightarrow> string \<Rightarrow> string list + mux_status_snapshot" where
  "read_status env p0 =
     (case safe_status_file env p0 of
        Inl e \<Rightarrow> Inl e
      | Inr p \<Rightarrow> (case dv_read (me_fs env) p of
          None \<Rightarrow> Inl [''failed to read rust-mux status file '' @ p, me_os_error env p]
        | Some raw \<Rightarrow> map_sum (Cons (''rust-mux status file '' @ p)) id (from_json env raw)))"

definition default_mux_status_root :: "mux_env \<Rightarrow> string option" where
  "default_mux_status_root env = (case me_var env ''HOME'' of
     None \<Rightarrow> None | Some h \<Rightarrow> if h = [] then None else Some (path_join h ''.rmcp_servers/rust_mux''))"

text \<open>\<open>seen.insert(path)\<close> followed by \<open>out.push(path)\<close>: \<open>seen\<close> holds the paths of \<open>out\<close>, and paths are equal
  when their components are.\<close>

definition push_unseen :: "string \<Rightarrow> string list \<Rightarrow> string list" where
  "push_unseen p out = (if components p \<in> set (map components out) then out else out @ [p])"

definition status_dir_files :: "mux_env \<Rightarrow> string \<Rightarrow> string list" where
  "status_dir_files env root = (case dv_read_dir (me_fs env) root of
     None \<Rightarrow> []
   | Some entries \<Rightarrow> sort_by cmp_path
       (filter (\<lambda>e. dv_kind (me_fs env) e = Some PlainFile \<and> extension e = Some ''json'') entries))"

definition status_overrides :: "mux_env \<Rightarrow> string list" where
  "status_overrides env = (case me_var env ''VIBECRAFTED_MUX_STATUS_PATHS'' of
     None \<Rightarrow> [] | Some raw \<Rightarrow> if raw = [] then [] else filter (\<lambda>s. s \<noteq> []) (split_char (CHR '':'') raw))"

definition discover_status_files :: "mux_env \<Rightarrow> string list" where
  "discover_status_files env =
     (let out = fold push_unseen (status_overrides env) [] in
      case default_mux_status_root env of
        None \<Rightarrow> out
      | Some root \<Rightarrow>
          (let flat = path_join root ''status.json'';
               out1 = (if me_is_file env flat then push_unseen flat out else out)
           in fold push_unseen (status_dir_files env root) out1))"

definition read_all_known_snapshots :: "mux_env \<Rightarrow> (string \<times> (string list + mux_status_snapshot)) list" where
  "read_all_known_snapshots env = map (\<lambda>p. (p, read_status env p)) (discover_status_files env)"

datatype mux_summary_state = Healthy mux_status_snapshot | Unhealthy mux_status_snapshot | Unreadable string

record mux_summary =
  mu_path :: string
  mu_display_name :: string
  mu_state :: mux_summary_state

definition from_path_and_result :: "string \<Rightarrow> string list + mux_status_snapshot \<Rightarrow> mux_summary" where
  "from_path_and_result p r =
     (case r of
        Inr s \<Rightarrow> \<lparr>mu_path = p, mu_display_name = mx_service_name s,
          mu_state = (if mux_is_healthy (mx_server_status s) then Healthy s else Unhealthy s)\<rparr>
      | Inl chain \<Rightarrow> \<lparr>mu_path = p, mu_display_name = (case file_stem p of Some n \<Rightarrow> n | None \<Rightarrow> p),
          mu_state = Unreadable (join '': '' chain)\<rparr>)"

definition summary_is_healthy :: "mux_summary \<Rightarrow> bool" where
  "summary_is_healthy m = (case mu_state m of Healthy _ \<Rightarrow> True | _ \<Rightarrow> False)"

definition summary_line :: "mux_summary \<Rightarrow> string" where
  "summary_line m = (case mu_state m of
     Healthy s \<Rightarrow> mux_snapshot_line s
   | Unhealthy s \<Rightarrow> mux_snapshot_line s
   | Unreadable e \<Rightarrow> mu_display_name m @ '': unreadable ('' @ e @ '')'')"

definition current_summaries :: "mux_env \<Rightarrow> mux_summary list" where
  "current_summaries env = map (\<lambda>(p, r). from_path_and_result p r) (read_all_known_snapshots env)"

section \<open>The subscriber\<close>

text \<open>One turn of the loop is one attempt to connect: it is refused, or a session follows, whose
  subscription is written or not and which then delivers lines until it ends.\<close>

datatype attempt = Refused | Accepted bool "string list"

datatype subscriber_state = SubConnected | SubReconnecting | SubPolling | SubFailed

record subscriber =
  su_state :: subscriber_state
  su_attempts :: nat
  su_backoff :: duration
  su_events :: "ipc_event list"
  su_sleeps :: "duration list"

definition subscriber_start :: subscriber where
  "subscriber_start = \<lparr>su_state = SubReconnecting, su_attempts = 0, su_backoff = from_secs 1,
     su_events = [], su_sleeps = []\<rparr>"

definition subscriber_turn :: "(string \<Rightarrow> ipc_event option) \<Rightarrow> attempt \<Rightarrow> subscriber \<Rightarrow> subscriber" where
  "subscriber_turn decode a s =
     (let s0 = s\<lparr>su_state := SubReconnecting\<rparr> in
      case a of
        Accepted written ls \<Rightarrow> s0\<lparr>su_attempts := 0, su_backoff := from_secs 1, su_state := SubConnected,
          su_events := su_events s @ (if written then List.map_filter decode ls else [])\<rparr>
      | Refused \<Rightarrow>
          (let s1 = s0\<lparr>su_attempts := Suc (su_attempts s)\<rparr> in
           if 10 \<le> su_attempts s1 then s1\<lparr>su_state := SubPolling\<rparr>
           else s1\<lparr>su_sleeps := su_sleeps s @ [su_backoff s],
                   su_backoff := min (2 * su_backoff s) (from_secs 30)\<rparr>))"

text \<open>The loop over the outcomes that the attempts meet; after the \<open>break\<close> there is no further attempt.\<close>

fun subscriber_run :: "(string \<Rightarrow> ipc_event option) \<Rightarrow> attempt list \<Rightarrow> subscriber \<Rightarrow> subscriber" where
  "subscriber_run decode [] s = s"
| "subscriber_run decode (a # as) s =
     (let s1 = subscriber_turn decode a s in
      if su_state s1 = SubPolling then s1 else subscriber_run decode as s1)"

end
