(* ===== verification/Mux_Report.thy ===== *)
theory Mux_Report
  imports Mux_Status Host_Cli Op_Mux
begin

text \<open>
  How the daemon's status leaves the process (\<open>mux-agent/src/runtime/status.rs\<close>): the status file, written
  to a temporary name and renamed, the status socket, which answers every connection with one line of
  JSON, and the table of \<open>daemon-status\<close>.  What a write does before it fails, and the printing and parsing
  of JSON text, are parameters.
\<close>

section \<open>The status file\<close>

text \<open>What the operating system does to one call: the directory is there, the temporary file opens, the
  data is written up to some character or completely (\<open>None\<close>), the rename succeeds.\<close>

record write_outcome =
  wo_mkdir :: bool
  wo_create :: bool
  wo_torn :: "nat option"
  wo_rename :: bool

type_synonym file_store = "string \<Rightarrow> string option"

definition write_status_file ::
  "(status_snapshot \<Rightarrow> string) \<Rightarrow> write_outcome \<Rightarrow> string \<Rightarrow> status_snapshot \<Rightarrow> file_store \<Rightarrow> (string + unit) \<times> file_store" where
  "write_status_file pretty out p snap fl =
     (if path_parent p \<noteq> None \<and> \<not> wo_mkdir out
      then (Inl (''failed to create status dir '' @ the (path_parent p)), fl)
      else
        (let tmp = with_extension p ''tmp''; data = pretty snap in
         if \<not> wo_create out then (Inl (''failed to write status tmp '' @ tmp), fl)
         else case wo_torn out of
           Some k \<Rightarrow> (Inl (''failed to write status tmp '' @ tmp), fl(tmp \<mapsto> take k data))
         | None \<Rightarrow> if wo_rename out then (Inr (), (fl(tmp := None))(p \<mapsto> data))
             else (Inl (''failed to atomically replace status '' @ p), fl(tmp \<mapsto> data))))"

text \<open>The writer task: the initial snapshot and every later one it sees; errors are only logged.\<close>

definition spawn_status_writer ::
  "(status_snapshot \<Rightarrow> string) \<Rightarrow> string \<Rightarrow> (write_outcome \<times> status_snapshot) list \<Rightarrow> file_store \<Rightarrow> file_store" where
  "spawn_status_writer pretty p seen fl = fold (\<lambda>(out, s) fl. snd (write_status_file pretty out p s fl)) seen fl"

section \<open>The status socket\<close>

definition en_server_row :: "multi_server_status \<Rightarrow> json" where
  "en_server_row s = JObj (obj_of
     [(''name'', JStr (mss_name s)), (''level'', en_status_level (mss_level s)), (''status_text'', JStr (mss_status_text s)),
      (''connected_clients'', en_usize (mss_connected_clients s)), (''active_clients'', en_usize (mss_active_clients s)),
      (''max_active_clients'', en_usize (mss_max_active_clients s)), (''pending_requests'', en_usize (mss_pending_requests s)),
      (''restarts'', en_u64 (mss_restarts s)), (''uptime_ms'', en_u64 (mss_uptime_ms s)), (''in_backoff'', JBool (mss_in_backoff s)),
      (''heartbeat_latency_ms'', en_option en_u64 (mss_heartbeat_latency_ms s))])"

definition level_variant :: "string \<Rightarrow> status_level option" where
  "level_variant n = (if n = ''Ok'' then Some LevelOk else if n = ''Warn'' then Some LevelWarn
     else if n = ''Error'' then Some LevelError else if n = ''Lazy'' then Some LevelLazy else None)"

definition de_status_level :: "json \<Rightarrow> status_level option" where
  "de_status_level v = (case v of JStr n \<Rightarrow> level_variant n
     | JObj [(n, JNull)] \<Rightarrow> level_variant n | _ \<Rightarrow> None)"

definition de_server_row :: "json \<Rightarrow> multi_server_status option" where
  "de_server_row v =
     Option.bind (de_field as_str v ''name'') (\<lambda>name.
     Option.bind (de_field de_status_level v ''level'') (\<lambda>level.
     Option.bind (de_field as_str v ''status_text'') (\<lambda>status_text.
     Option.bind (de_field de_usize v ''connected_clients'') (\<lambda>connected.
     Option.bind (de_field de_usize v ''active_clients'') (\<lambda>active.
     Option.bind (de_field de_usize v ''max_active_clients'') (\<lambda>max_active.
     Option.bind (de_field de_usize v ''pending_requests'') (\<lambda>pending.
     Option.bind (de_field de_u64 v ''restarts'') (\<lambda>restarts.
     Option.bind (de_field de_u64 v ''uptime_ms'') (\<lambda>uptime.
     Option.bind (de_field de_bool v ''in_backoff'') (\<lambda>backoff.
     Option.bind (de_default de_u64 v ''heartbeat_latency_ms'') (\<lambda>latency.
       Some \<lparr>mss_name = name, mss_level = level, mss_status_text = status_text, mss_connected_clients = connected,
         mss_active_clients = active, mss_max_active_clients = max_active, mss_pending_requests = pending,
         mss_restarts = restarts, mss_uptime_ms = uptime, mss_in_backoff = backoff,
         mss_heartbeat_latency_ms = latency\<rparr>)))))))))))"

definition en_daemon_status :: "daemon_status \<Rightarrow> json" where
  "en_daemon_status d = JObj (obj_of
     [(''version'', JStr (ds_version d)), (''uptime_ms'', en_u64 (ds_uptime_ms d)), (''uptime'', JStr (ds_uptime d)),
      (''server_count'', en_usize (ds_server_count d)), (''running_count'', en_usize (ds_running_count d)),
      (''error_count'', en_usize (ds_error_count d)), (''servers'', JArr (map en_server_row (ds_servers d)))])"

fun de_list :: "(json \<Rightarrow> 'a option) \<Rightarrow> json \<Rightarrow> 'a list option" where
  "de_list dec (JArr vs) = those (map dec vs)"
| "de_list dec _ = None"

definition de_daemon_status :: "json \<Rightarrow> daemon_status option" where
  "de_daemon_status v =
     Option.bind (de_field as_str v ''version'') (\<lambda>version.
     Option.bind (de_field de_u64 v ''uptime_ms'') (\<lambda>uptime_ms.
     Option.bind (de_field as_str v ''uptime'') (\<lambda>uptime.
     Option.bind (de_field de_usize v ''server_count'') (\<lambda>count.
     Option.bind (de_field de_usize v ''running_count'') (\<lambda>running.
     Option.bind (de_field de_usize v ''error_count'') (\<lambda>errors.
     Option.bind (de_field (de_list de_server_row) v ''servers'') (\<lambda>servers.
       Some \<lparr>ds_version = version, ds_uptime_ms = uptime_ms, ds_uptime = uptime, ds_server_count = count,
         ds_running_count = running, ds_error_count = errors, ds_servers = servers\<rparr>)))))))"

definition handle_status_connection :: "(json \<Rightarrow> string) \<Rightarrow> string \<Rightarrow> instant \<Rightarrow> status_state \<Rightarrow> string" where
  "handle_status_connection print version now s = print (en_daemon_status (collect_status version now s)) @ [nl]"

definition read_line :: "string \<Rightarrow> string" where
  "read_line data = (let l = takeWhile (\<lambda>c. c \<noteq> nl) data in if length l < length data then l @ [nl] else l)"

text \<open>The bytes a connection delivers, or nothing when no one listens.\<close>

definition query_status :: "(string \<Rightarrow> json option) \<Rightarrow> string option \<Rightarrow> string + daemon_status" where
  "query_status parse conn = (case conn of
     None \<Rightarrow> Inl ''connection refused''
   | Some data \<Rightarrow> (case Option.bind (parse (read_line data)) de_daemon_status of
       None \<Rightarrow> Inl ''invalid status'' | Some d \<Rightarrow> Inr d))"

section \<open>The table\<close>

definition pad_end :: "nat \<Rightarrow> string \<Rightarrow> string" where
  "pad_end n s = s @ replicate (n - length s) (CHR '' '')"

definition pad_start :: "nat \<Rightarrow> string \<Rightarrow> string" where
  "pad_start n s = replicate (n - length s) (CHR '' '') @ s"

definition pad_both :: "nat \<Rightarrow> string \<Rightarrow> string" where
  "pad_both n s = (let gap = n - length s in replicate (gap div 2) (CHR '' '') @ s @ replicate (gap - gap div 2) (CHR '' ''))"

definition table_row :: "string \<Rightarrow> string \<Rightarrow> string \<Rightarrow> string \<Rightarrow> string \<Rightarrow> string \<Rightarrow> string" where
  "table_row a b c d e f = pad_end 20 a @ '' '' @ pad_both 8 b @ '' '' @ pad_start 8 c @ '' '' @ pad_start 8 d @ '' '' @
     pad_start 10 e @ '' '' @ pad_start 10 f"

definition server_table_row :: "(status_level \<Rightarrow> char) \<Rightarrow> multi_server_status \<Rightarrow> string" where
  "server_table_row icon s = table_row (mss_name s) (icon (mss_level s) # '' '' @ short_status (mss_status_text s))
     (nat_str (mss_active_clients s) @ ''/'' @ nat_str (mss_max_active_clients s)) (nat_str (mss_pending_requests s))
     (nat_str (unat (mss_restarts s)))
     (case mss_heartbeat_latency_ms s of Some ms \<Rightarrow> nat_str (unat ms) @ ''ms'' | None \<Rightarrow> ''-'')"

text \<open>The line and the signs of the levels are not ASCII; they are parameters.\<close>

definition print_status_table :: "char \<Rightarrow> (status_level \<Rightarrow> char) \<Rightarrow> daemon_status \<Rightarrow> string list" where
  "print_status_table bar icon d =
     [''rust-mux v'' @ ds_version d @ '' | uptime: '' @ ds_uptime d, replicate 72 bar,
      table_row ''Server'' ''State'' ''Clients'' ''Pending'' ''Restarts'' ''Heartbeat'', replicate 72 bar] @
     map (server_table_row icon) (ds_servers d) @
     [replicate 72 bar, ''Total: '' @ nat_str (ds_server_count d) @ '' servers ('' @ nat_str (ds_running_count d) @
        '' running, '' @ nat_str (ds_error_count d) @ '' errors)'']"

section \<open>The file is whole\<close>

definition written :: "string \<Rightarrow> write_outcome \<Rightarrow> bool" where
  "written p out \<longleftrightarrow> (path_parent p \<noteq> None \<longrightarrow> wo_mkdir out) \<and> wo_create out \<and> wo_torn out = None \<and> wo_rename out"

lemma write_status_file_at:
  assumes "with_extension p ''tmp'' \<noteq> p"
  shows "snd (write_status_file pretty out p s fl) p = (if written p out then Some (pretty s) else fl p)"
  using assms by (auto simp: write_status_file_def written_def Let_def split: option.split)

text \<open>C22: the status file is never half written.  Unless its name ends in \<open>.tmp\<close>, whatever fails in whichever
  call, the file holds what it held before the daemon started or the complete text of a snapshot: of the last
  one whose directory, temporary file and rename all worked.\<close>

theorem status_file_whole:
  assumes "with_extension p ''tmp'' \<noteq> p"
  shows "spawn_status_writer pretty p seen fl p =
    (case rev (filter (\<lambda>(out, s). written p out) seen) of [] \<Rightarrow> fl p | (out, s) # _ \<Rightarrow> Some (pretty s))"
proof (induction seen rule: rev_induct)
  case (snoc x seen)
  obtain out s where x: "x = (out, s)" by (cases x)
  from snoc show ?case
    by (simp add: spawn_status_writer_def x write_status_file_at [OF assms])
qed (simp add: spawn_status_writer_def)

text \<open>Under a name that ends in \<open>.tmp\<close> the temporary file is the file itself, and a reader can see half a text.\<close>

theorem status_file_torn:
  assumes "with_extension p ''tmp'' = p" and "path_parent p \<noteq> None \<longrightarrow> wo_mkdir out" and "wo_create out" and "wo_torn out = Some k"
  shows "spawn_status_writer pretty p [(out, s)] fl p = Some (take k (pretty s))"
  using assms by (auto simp: spawn_status_writer_def write_status_file_def Let_def)

theorem status_file_whole_witness:
  "spawn_status_writer (\<lambda>s. ''['' @ ss_service_name s @ '']'') ''/s/mux.json''
     [(\<lparr>wo_mkdir = True, wo_create = True, wo_torn = None, wo_rename = True\<rparr>, snapshot_for_state 0 (mux_state_new example_config) 0),
      (\<lparr>wo_mkdir = True, wo_create = True, wo_torn = Some 1, wo_rename = True\<rparr>, snapshot_for_state 1 (mux_state_new example_config) 0)]
     Map.empty ''/s/mux.json'' = Some (''['' @ mc_service_name example_config @ '']'')"
proof -
  have ne: "with_extension ''/s/mux.json'' ''tmp'' \<noteq> ''/s/mux.json''" by code_simp
  have name: "ss_service_name (snapshot_for_state 0 (mux_state_new example_config) 0) = mc_service_name example_config" by code_simp
  show ?thesis unfolding status_file_whole [OF ne] by (simp add: written_def name)
qed

section \<open>The socket answers\<close>

definition row_ok :: "multi_server_status \<Rightarrow> bool" where
  "row_ok s \<longleftrightarrow> mss_connected_clients s < 2 ^ 64 \<and> mss_active_clients s < 2 ^ 64 \<and> mss_max_active_clients s < 2 ^ 64 \<and>
     mss_pending_requests s < 2 ^ 64"

definition daemon_ok :: "daemon_status \<Rightarrow> bool" where
  "daemon_ok d \<longleftrightarrow> ds_server_count d < 2 ^ 64 \<and> ds_running_count d < 2 ^ 64 \<and> ds_error_count d < 2 ^ 64 \<and>
     (\<forall>s \<in> set (ds_servers d). row_ok s)"

interpretation level_codec: codec en_status_level de_status_level "\<lambda>_. True"
proof
  fix x show "de_status_level (en_status_level x) = Some x" by (cases x) (simp_all add: de_status_level_def level_variant_def)
qed

interpretation opt_u64_codec: codec "en_option en_u64" "de_option de_u64" "pred_option (\<lambda>_. True)"
  by (rule codec_option) (unfold_locales, simp add: en_u64_def en_usize_def)

lemma those_map_Some: "(\<And>x. x \<in> set xs \<Longrightarrow> dec (enc x) = Some x) \<Longrightarrow> those (map (\<lambda>x. dec (enc x)) xs) = Some xs"
  by (induction xs) simp_all

lemma codec_list: "codec enc dec ok \<Longrightarrow> codec (\<lambda>xs. JArr (map enc xs)) (de_list dec) (list_all ok)"
  by (simp add: codec_def comp_def list_all_iff those_map_Some)

interpretation row_codec: codec en_server_row de_server_row row_ok
proof
  fix x assume "row_ok x"
  then show "de_server_row (en_server_row x) = Some x"
    by (simp add: opt_u64_codec.dec_enc pred_option_def de_server_row_def en_server_row_def de_field_def de_default_def jget_def obj_of_def map_of_obj_insert codec_simps level_codec.dec_enc row_ok_def)
qed

interpretation daemon_codec: codec en_daemon_status de_daemon_status daemon_ok
proof
  fix x assume "daemon_ok x"
  then show "de_daemon_status (en_daemon_status x) = Some x"
    using codec.dec_enc [OF codec_list [OF row_codec.codec_axioms], of "ds_servers x"]
    by (simp add: de_daemon_status_def en_daemon_status_def de_field_def jget_def obj_of_def map_of_obj_insert codec_simps daemon_ok_def list_all_iff)
qed

lemma read_line_whole: "nl \<notin> set l \<Longrightarrow> read_line (l @ [nl]) = l @ [nl]"
proof -
  assume "nl \<notin> set l"
  then have "takeWhile (\<lambda>c. c \<noteq> nl) (l @ [nl]) = l" by (simp add: takeWhile_append)
  then show ?thesis by (simp add: read_line_def)
qed

text \<open>C23: the status socket tells the truth.  If printed JSON is one line and is read back, what a client of the
  status socket gets is the daemon's status at that moment, every row and count of it.\<close>

theorem status_socket_roundtrip:
  assumes ok: "daemon_ok (collect_status version now s)"
    and line: "nl \<notin> set (print (en_daemon_status (collect_status version now s)))"
    and reads: "parse (print (en_daemon_status (collect_status version now s)) @ [nl]) = Some (en_daemon_status (collect_status version now s))"
  shows "query_status parse (Some (handle_status_connection print version now s)) = Inr (collect_status version now s)"
  by (simp add: query_status_def handle_status_connection_def read_line_whole [OF line] reads daemon_codec.dec_enc [OF ok])

theorem status_socket_roundtrip_witness:
  "let s = fold register_server [example_ref ''b'' StRunning, example_ref ''a'' (StFailed ''x'')] (status_state_new 0);
       d = collect_status ''0.1'' 5 s
   in query_status (\<lambda>l. if l = ''{}'' @ [nl] then Some (en_daemon_status d) else None)
        (Some (handle_status_connection (\<lambda>_. ''{}'') ''0.1'' 5 s)) = Inr d \<and> map mss_name (ds_servers d) = [''a'', ''b'']"
proof -
  let ?s = "fold register_server [example_ref ''b'' StRunning, example_ref ''a'' (StFailed ''x'')] (status_state_new 0)"
  have ok: "daemon_ok (collect_status ''0.1'' 5 ?s)" by code_simp
  have names: "map mss_name (ds_servers (collect_status ''0.1'' 5 ?s)) = [''a'', ''b'']" by code_simp
  have line: "nl \<notin> set ((\<lambda>_. ''{}'') (en_daemon_status (collect_status ''0.1'' 5 ?s)))" by code_simp
  show ?thesis unfolding Let_def by (rule conjI, rule status_socket_roundtrip [OF ok]) (use line names in simp_all)
qed

text \<open>The cells of the table keep their columns: a row is 69 characters wide when its name and numbers fit, and
  the state always fits.\<close>

theorem table_row_width:
  assumes "mss_status_text s = snd (fst (classify_status hb st))" and "length (mss_name s) \<le> 20"
    and "length (nat_str (mss_active_clients s) @ ''/'' @ nat_str (mss_max_active_clients s)) \<le> 8"
    and "length (nat_str (mss_pending_requests s)) \<le> 8" and "length (nat_str (unat (mss_restarts s))) \<le> 10"
    and "\<forall>ms. mss_heartbeat_latency_ms s = Some ms \<longrightarrow> length (nat_str (unat ms)) \<le> 8"
  shows "length (server_table_row icon s) = 69"
proof -
  have "length (short_status (mss_status_text s)) \<le> 5" unfolding assms(1) short_status_label by (cases st) simp_all
  with assms(2-) show ?thesis
    by (auto simp: server_table_row_def table_row_def pad_end_def pad_start_def pad_both_def Let_def split: option.split)
qed

end
