(* ===== verification/Mux_Main.thy ===== *)
theory Mux_Main
  imports Mux_Report Mux_Embed
begin

text \<open>
  Starting the daemon: the command line of \<open>mux-agent/src/bin/rust-mux.rs\<close>, the sockets a daemon binds and
  removes (\<open>runtime/mod.rs\<close>, \<open>ipc/server.rs\<close>), and the entry points of \<open>lib.rs\<close> that run or look at daemons.
  The parser of the command line, the parsers of configuration files and the operating system's answers are
  parameters.
\<close>

section \<open>Sockets\<close>

text \<open>What is at a path: nothing, a file no one listens behind, or the socket of listener \<open>i\<close>.\<close>

datatype sock_node = NoNode | DeadNode | Served nat

type_synonym sock_world = "string \<Rightarrow> sock_node"

text \<open>\<open>so_loc\<close> is the file a path leads to; the others say whether a call on it is permitted.\<close>

record sock_os =
  so_loc :: "string \<Rightarrow> string"
  so_mkdir :: "string \<Rightarrow> bool"
  so_unlink :: "string \<Rightarrow> bool"
  so_bind :: "string \<Rightarrow> bool"

definition unlink_node :: "sock_os \<Rightarrow> string \<Rightarrow> sock_world \<Rightarrow> sock_world" where
  "unlink_node os p w = (if so_unlink os p then w(so_loc os p := NoNode) else w)"

definition bind_node :: "sock_os \<Rightarrow> nat \<Rightarrow> string \<Rightarrow> sock_world \<Rightarrow> sock_world option" where
  "bind_node os i p w = (if w (so_loc os p) = NoNode \<and> so_bind os p then Some (w(so_loc os p := Served i)) else None)"

definition connects :: "sock_os \<Rightarrow> string \<Rightarrow> sock_world \<Rightarrow> bool" where
  "connects os p w \<longleftrightarrow> (case w (so_loc os p) of Served i \<Rightarrow> True | _ \<Rightarrow> False)"

text \<open>The first lines of \<open>run_mux_internal_with_status\<close>, and its last: the file at the path is removed, whoever
  owns it.\<close>

definition mux_bind :: "sock_os \<Rightarrow> nat \<Rightarrow> string \<Rightarrow> sock_world \<Rightarrow> (string + unit) \<times> sock_world" where
  "mux_bind os i p w =
     (if (case path_parent p of Some d \<Rightarrow> \<not> so_mkdir os d | None \<Rightarrow> False) then (Inl ''failed to create socket parent dir'', w)
      else (let w1 = unlink_node os p w in
        case bind_node os i p w1 of Some w2 \<Rightarrow> (Inr (), w2) | None \<Rightarrow> (Inl (''failed to bind socket '' @ p), w1)))"

definition mux_unbind :: "sock_os \<Rightarrow> string \<Rightarrow> sock_world \<Rightarrow> sock_world" where
  "mux_unbind os p w = unlink_node os p w"

definition control_socket :: "string option \<Rightarrow> string" where
  "control_socket home = path_join (path_join (path_join (case home of Some h \<Rightarrow> h | None \<Rightarrow> ''/tmp'') ''.rust-mux'') ''ipc'') ''control.sock''"

definition control_bind :: "sock_os \<Rightarrow> string option \<Rightarrow> nat \<Rightarrow> sock_world \<Rightarrow> (string + unit) \<times> sock_world" where
  "control_bind os home i w =
     (let p = control_socket home; w1 = (if w (so_loc os p) \<noteq> NoNode then unlink_node os p w else w) in
      case bind_node os i p w1 of Some w2 \<Rightarrow> (Inr (), w2)
      | None \<Rightarrow> (Inl (''Failed to bind to IPC control socket at '' @ p), w1))"

text \<open>Daemon \<open>i\<close> of a process runs with the \<open>i\<close>th parameters.  Its own socket, its control socket (in a task of
  its own) and its end are separate events.\<close>

datatype sock_event = MuxUp nat | ControlUp nat | MuxDown nat

fun sock_step :: "sock_os \<Rightarrow> string option \<Rightarrow> resolved_params list \<Rightarrow> sock_event \<Rightarrow> sock_world \<Rightarrow> sock_world" where
  "sock_step os home ps (MuxUp i) w = (if i < length ps then snd (mux_bind os i (rp_socket (ps ! i)) w) else w)"
| "sock_step os home ps (ControlUp i) w = snd (control_bind os home i w)"
| "sock_step os home ps (MuxDown i) w = (if i < length ps then mux_unbind os (rp_socket (ps ! i)) w else w)"

text \<open>The tasks of \<open>run_mux_multi\<close>: how each ended is only logged.\<close>

datatype task_end = EndOk | EndErr string | EndPanic string

fun end_log :: "string \<Rightarrow> task_end \<Rightarrow> string list" where
  "end_log name EndOk = [''DEBUG stopped service='' @ name]"
| "end_log name (EndErr e) = [''ERROR error service='' @ name @ '' error='' @ e]"
| "end_log name (EndPanic e) = [''ERROR panic service='' @ name @ '' error='' @ e]"

definition run_mux_multi ::
  "sock_os \<Rightarrow> string option \<Rightarrow> resolved_params list \<Rightarrow> sock_event list \<Rightarrow> task_end list \<Rightarrow> sock_world \<Rightarrow>
   (string + unit) \<times> string list \<times> sock_world" where
  "run_mux_multi os home ps es ends w =
     (Inr (), concat (map2 end_log (map rp_service_name ps) ends), fold (sock_step os home ps) es w)"

section \<open>Looking at daemons\<close>

definition health_check :: "sock_os \<Rightarrow> resolved_params \<Rightarrow> sock_world \<Rightarrow> string + unit" where
  "health_check os p w = (if connects os (rp_socket p) w then Inr () else Inl (''failed to connect to '' @ rp_socket p))"

definition lib_check_health :: "sock_os \<Rightarrow> string \<Rightarrow> sock_world \<Rightarrow> string + unit" where
  "lib_check_health os socket w = health_check os \<lparr>rp_socket = socket, rp_cmd = [], rp_args = [], rp_cwd = None,
     rp_max_clients = 1, rp_tray_enabled = False, rp_log_level = ''error'', rp_service_name = ''health-check'',
     rp_lazy_start = False, rp_max_request_bytes = 0, rp_request_timeout = from_secs 5, rp_restart_backoff = from_secs 1,
     rp_restart_backoff_max = from_secs 1, rp_max_restarts = 0, rp_status_file = None, rp_env = None,
     rp_heartbeat_interval = from_secs 30, rp_heartbeat_timeout = from_secs 30, rp_heartbeat_max_failures = 3,
     rp_heartbeat_enabled = False\<rparr> w"

definition service_state :: "sock_os \<Rightarrow> string \<Rightarrow> sock_world \<Rightarrow> string" where
  "service_state os p w = (if w (so_loc os p) \<noteq> NoNode
     then (if connects os p w then ''RUNNING'' else ''STALE (socket exists but not responding)'') else ''STOPPED'')"

definition service_status_line :: "sock_os \<Rightarrow> string option \<Rightarrow> sock_world \<Rightarrow> string \<Rightarrow> server_config \<Rightarrow> string" where
  "service_status_line os home w name svc = (case sc_socket svc of
     None \<Rightarrow> ''  '' @ name @ '': [no socket configured]''
   | Some raw \<Rightarrow> (let p = expand_path home raw in ''  '' @ name @ '': '' @ service_state os p w @ '' ('' @ p @ '')''))"

definition status_all :: "sock_os \<Rightarrow> string option \<Rightarrow> config \<Rightarrow> sock_world \<Rightarrow> string list" where
  "status_all os home cfg w = [''Service Status:'', replicate 60 (CHR ''-'')] @
     map (\<lambda>(name, svc). service_status_line os home w name svc) cfg @ [replicate 60 (CHR ''-'')]"

text \<open>What \<open>restart_single\<close> says about the answer it reads.\<close>

definition restart_report :: "string \<Rightarrow> string \<Rightarrow> string" where
  "restart_report name response =
     (if str_contains response ''error'' then ''Restart failed: '' @ trim response
      else ''Restart initiated for service '' @ [char_of (39::nat)] @ name @ [char_of (39::nat)])"

section \<open>The command line\<close>

record run_cli =
  rc_opts :: cli_options
  rc_config :: "string option"
  rc_show_status :: bool
  rc_restart_service :: "string option"

record wizard_args =
  wa_config :: "string option"
  wa_dry_run :: bool
  wa_strategy :: "strategy option"
  wa_import_configs :: "string list"

datatype cli_command =
    CmdWizard wizard_args
  | CmdScan scan_args
  | CmdRewire rewire_args
  | CmdProxy string
  | CmdHostStatus status_args
  | CmdHealth run_cli
  | CmdDaemonStatus "string option" bool
  | CmdDashboard "string option"

text \<open>What the process goes on to do.\<close>

datatype main_action =
    ActCommand cli_command
  | ActShowStatus config
  | ActRestart config string
  | ActMulti "resolved_params list"
  | ActSingle resolved_params

definition config_path_of :: "string option \<Rightarrow> run_cli \<Rightarrow> string" where
  "config_path_of home cli = (case rc_config cli of Some p \<Rightarrow> p | None \<Rightarrow> expand_path home ''~/.codex/mcp.json'')"

definition is_multi_mode :: "run_cli \<Rightarrow> config option \<Rightarrow> bool" where
  "is_multi_mode cli cfg \<longleftrightarrow> cfg \<noteq> None \<and> co_service (rc_opts cli) = None \<and>
     (co_only (rc_opts cli) \<noteq> None \<or> co_except (rc_opts cli) \<noteq> None \<or> co_socket (rc_opts cli) = None)"

definition start_action :: "string option \<Rightarrow> (string \<Rightarrow> bool) \<Rightarrow> run_cli \<Rightarrow> config option \<Rightarrow> string + main_action" where
  "start_action home level_ok cli cfg =
     (if is_multi_mode cli cfg
      then (case resolve_params_multi home (rc_opts cli) (the cfg) of
          Inl e \<Rightarrow> Inl e
        | Inr ps \<Rightarrow> if ps = [] then Inl ''no services to start (check --only/--except filters)''
            else if \<not> level_ok (co_log_level (rc_opts cli)) then Inl (''invalid log level: '' @ co_log_level (rc_opts cli))
            else Inr (ActMulti ps))
      else (case resolve_params home (rc_opts cli) cfg of
          Inl e \<Rightarrow> Inl e
        | Inr p \<Rightarrow> if \<not> level_ok (rp_log_level p) then Inl (''invalid log level: '' @ rp_log_level p) else Inr (ActSingle p)))"

definition async_main ::
  "string option \<Rightarrow> (string \<Rightarrow> string + config option) \<Rightarrow> (string \<Rightarrow> bool) \<Rightarrow> cli_command option \<Rightarrow> run_cli \<Rightarrow> string + main_action" where
  "async_main home load level_ok cmd cli = (case cmd of
     Some c \<Rightarrow> Inr (ActCommand c)
   | None \<Rightarrow> (case load (config_path_of home cli) of
       Inl e \<Rightarrow> Inl e
     | Inr cfg \<Rightarrow>
         if rc_show_status cli
         then (case cfg of None \<Rightarrow> Inl ''--show-status requires a config file (use --config)'' | Some c \<Rightarrow> Inr (ActShowStatus c))
         else (case rc_restart_service cli of
             Some name \<Rightarrow> (case cfg of
                 None \<Rightarrow> Inl ''--restart-service requires a config file (use --config)''
               | Some c \<Rightarrow> Inr (ActRestart c name))
           | None \<Rightarrow> start_action home level_ok cli cfg)))"

definition run_health ::
  "sock_os \<Rightarrow> string option \<Rightarrow> (string \<Rightarrow> string + config option) \<Rightarrow> run_cli \<Rightarrow> sock_world \<Rightarrow> string + string" where
  "run_health os home load cli w = (case load (config_path_of home cli) of
     Inl e \<Rightarrow> Inl e
   | Inr cfg \<Rightarrow> (case resolve_params home (rc_opts cli) cfg of
       Inl e \<Rightarrow> Inl e
     | Inr p \<Rightarrow> (case health_check os p w of Inl e \<Rightarrow> Inl e | Inr _ \<Rightarrow> Inr (''OK: connected to '' @ rp_socket p))))"

definition DEFAULT_STATUS_SOCKET :: string where
  "DEFAULT_STATUS_SOCKET = ''/tmp/rust-mux.status.sock''"

text \<open>The binary imports the \<open>print_status_table\<close> of \<open>lib.rs\<close>, a placeholder.\<close>

definition print_status_placeholder :: "daemon_status \<Rightarrow> string list" where
  "print_status_placeholder d = []"

definition run_daemon_status ::
  "(daemon_status \<Rightarrow> string) \<Rightarrow> string option \<Rightarrow> bool \<Rightarrow> (string \<Rightarrow> string + daemon_status) \<Rightarrow> string + string list" where
  "run_daemon_status pretty socket js query =
     (let p = (case socket of Some p \<Rightarrow> p | None \<Rightarrow> DEFAULT_STATUS_SOCKET) in
      case query p of
        Inl e \<Rightarrow> Inl (''failed to connect to mux daemon at '' @ p @ '': '' @ e @ '' (is rust-mux running?)'')
      | Inr d \<Rightarrow> Inr (if js then [pretty d] else print_status_placeholder d))"

section \<open>A process of several daemons\<close>

definition may_bind :: "sock_os \<Rightarrow> string \<Rightarrow> bool" where
  "may_bind os p \<longleftrightarrow> so_unlink os p \<and> so_bind os p \<and> (case path_parent p of Some d \<Rightarrow> so_mkdir os d | None \<Rightarrow> True)"

lemma mux_bind_may: "may_bind os p \<Longrightarrow> mux_bind os i p w = (Inr (), w(so_loc os p := Served i))"
  by (auto simp: may_bind_def mux_bind_def bind_node_def unlink_node_def split: option.splits)

lemma mux_bind_other: "l \<noteq> so_loc os p \<Longrightarrow> snd (mux_bind os i p w) l = w l"
  by (auto simp: mux_bind_def bind_node_def unlink_node_def Let_def split: option.splits)

lemma control_bind_other: "l \<noteq> so_loc os (control_socket home) \<Longrightarrow> snd (control_bind os home i w) l = w l"
  by (auto simp: control_bind_def bind_node_def unlink_node_def Let_def split: option.splits)

text \<open>A set of parameters whose sockets do not collide, with one another or with the control socket.\<close>

definition apart :: "sock_os \<Rightarrow> string option \<Rightarrow> resolved_params list \<Rightarrow> bool" where
  "apart os home ps \<longleftrightarrow> distinct (map (\<lambda>p. so_loc os (rp_socket p)) ps) \<and>
     (\<forall>p \<in> set ps. may_bind os (rp_socket p) \<and> so_loc os (rp_socket p) \<noteq> so_loc os (control_socket home))"

fun goes_up :: "sock_event \<Rightarrow> bool" where
  "goes_up (MuxDown i) = False"
| "goes_up _ = True"

lemma up_step_at:
  assumes "apart os home ps" and "i < length ps" and "goes_up e"
  shows "sock_step os home ps e w (so_loc os (rp_socket (ps ! i))) =
    (if e = MuxUp i then Served i else w (so_loc os (rp_socket (ps ! i))))"
proof (cases e)
  case (MuxUp j)
  have "so_loc os (rp_socket (ps ! i)) \<noteq> so_loc os (rp_socket (ps ! j))" if "j < length ps" "j \<noteq> i"
    using assms(1,2) that by (simp add: apart_def distinct_conv_nth)
  moreover have "may_bind os (rp_socket (ps ! i))" using assms(1,2) by (simp add: apart_def)
  ultimately show ?thesis using MuxUp assms(2) by (cases "j = i") (simp_all add: mux_bind_may mux_bind_other)
next
  case (ControlUp j)
  have "so_loc os (rp_socket (ps ! i)) \<noteq> so_loc os (control_socket home)" using assms(1,2) by (simp add: apart_def)
  with ControlUp show ?thesis by (simp add: control_bind_other)
qed (use assms(3) in simp)

lemma ups_serve:
  assumes "apart os home ps" and "i < length ps" and "list_all goes_up es" and "MuxUp i \<in> set es"
  shows "fold (sock_step os home ps) es w (so_loc os (rp_socket (ps ! i))) = Served i"
  using assms(3,4)
proof (induction es rule: rev_induct)
  case (snoc e es)
  then have e: "goes_up e" by simp
  from snoc show ?case by (auto simp: up_step_at [OF assms(1,2) e])
qed simp

lemma resolve_with_target:
  assumes "resolve_with home cli svc = Inr p"
  shows "Some (rp_socket p) = opt_or (co_socket cli) (map_option (expand_path home) (Option.bind svc sc_socket))"
    and "Some (rp_cmd p) = opt_or (co_cmd cli) (Option.bind svc sc_cmd)"
proof -
  obtain s c where "opt_or (co_socket cli) (map_option (expand_path home) (Option.bind svc sc_socket)) = Some s"
    "opt_or (co_cmd cli) (Option.bind svc sc_cmd) = Some c"
    using assms by (force simp: resolve_with_def split: option.splits)
  moreover from this assms have "rp_socket p = s" "rp_cmd p = c" by (auto simp: resolve_with_def)
  ultimately show "Some (rp_socket p) = opt_or (co_socket cli) (map_option (expand_path home) (Option.bind svc sc_socket))"
    and "Some (rp_cmd p) = opt_or (co_cmd cli) (Option.bind svc sc_cmd)" by simp_all
qed

lemma multi_resolves:
  assumes "resolve_params_multi home cli cfg = Inr ps" and "co_socket cli = None"
    and "hm_get cfg name = Some svc" and "service_selected cli name"
  obtains i raw where "i < length ps" and "sc_socket svc = Some raw" and "rp_socket (ps ! i) = expand_path home raw"
    and "Some (rp_cmd (ps ! i)) = opt_or (co_cmd cli) (sc_cmd svc)"
proof -
  note all = resolve_names_ok [OF assms(1) [unfolded resolve_params_multi_def]]
  have "name \<in> set (map fst cfg)" using assms(3) by (force dest: map_of_SomeD)
  then have "name \<in> set (filter (service_selected cli) (map fst cfg))" using assms(4) by simp
  then obtain i where i: "i < length ps" and at: "filter (service_selected cli) (map fst cfg) ! i = name"
    using all by (metis in_set_conv_nth)
  have "resolve_params home (single_cli cli name) (Some cfg) = Inr (ps ! i)"
    using list_all2_nthD2 [OF conjunct2 [OF all] i] unfolding at .
  then have "resolve_with home (single_cli cli name) (Some svc) = Inr (ps ! i)"
    using assms(3) by (simp add: resolve_params_def single_cli_def)
  then have "\<exists>raw. sc_socket svc = Some raw \<and> rp_socket (ps ! i) = expand_path home raw \<and>
      Some (rp_cmd (ps ! i)) = opt_or (co_cmd cli) (sc_cmd svc)"
  proof -
    assume "resolve_with home (single_cli cli name) (Some svc) = Inr (ps ! i)"
    from resolve_with_target [OF this] show ?thesis
      using assms(2) by (cases "sc_socket svc") (simp_all add: single_cli_def opt_or_def)
  qed
  with i that show ?thesis by blast
qed

lemma multi_action:
  assumes "async_main home load level_ok None cli = Inr (ActMulti ps)" and "load (config_path_of home cli) = Inr cfg"
  shows "resolve_params_multi home (rc_opts cli) (the cfg) = Inr ps \<and> cfg \<noteq> None"
  using assms by (auto simp: async_main_def start_action_def is_multi_mode_def split: option.splits if_splits sum.splits)

text \<open>C17: in multi-service mode every selected service comes up at its own socket.  Take a configuration whose
  sockets do not collide and no socket on the command line.  However the tasks of the daemons are interleaved,
  once all are up each selected service of the configuration is served, at the socket the configuration names,
  by the daemon that runs that service's command, and \<open>--show-status\<close> reports it as running.\<close>

theorem multi_start_reachable:
  assumes main: "async_main home load level_ok None cli = Inr (ActMulti ps)"
    and cfg: "load (config_path_of home cli) = Inr (Some cfg)" and none: "co_socket (rc_opts cli) = None"
    and apart: "apart os home ps" and up: "list_all goes_up es" "MuxUp ` {..<length ps} \<subseteq> set es"
    and svc: "hm_get cfg name = Some svc" "service_selected (rc_opts cli) name"
    and w': "w' = fold (sock_step os home ps) es w"
  shows "\<exists>i raw. i < length ps \<and> sc_socket svc = Some raw \<and> w' (so_loc os (expand_path home raw)) = Served i \<and>
    Some (rp_cmd (ps ! i)) = opt_or (co_cmd (rc_opts cli)) (sc_cmd svc) \<and>
    ''  '' @ name @ '': RUNNING ('' @ expand_path home raw @ '')'' \<in> set (status_all os home cfg w')"
proof -
  have "resolve_params_multi home (rc_opts cli) cfg = Inr ps" using multi_action [OF main cfg] by simp
  from multi_resolves [OF this none svc] obtain i raw where i: "i < length ps" and raw: "sc_socket svc = Some raw"
    and at: "rp_socket (ps ! i) = expand_path home raw" and cmd: "Some (rp_cmd (ps ! i)) = opt_or (co_cmd (rc_opts cli)) (sc_cmd svc)" .
  have "MuxUp i \<in> set es" using up(2) i by auto
  from ups_serve [OF apart i up(1) this] at have served: "w' (so_loc os (expand_path home raw)) = Served i" by (simp add: w')
  then have "service_status_line os home w' name svc = ''  '' @ name @ '': RUNNING ('' @ expand_path home raw @ '')''"
    by (simp add: service_status_line_def raw service_state_def connects_def)
  moreover have "(name, svc) \<in> set cfg" using svc(1) by (simp add: map_of_SomeD)
  ultimately have "''  '' @ name @ '': RUNNING ('' @ expand_path home raw @ '')'' \<in> set (status_all os home cfg w')"
    by (force simp: status_all_def)
  with i raw served cmd show ?thesis by blast
qed

section \<open>Paths that collide\<close>

text \<open>a daemon that takes over a socket loses it when its predecessor stops.  A second daemon on the same path
  replaces the first without an error; when the first one ends it removes the file at the path, which is the
  second one's, and the second one, still running, can no longer be reached.\<close>

theorem displaced_daemon_vanishes:
  assumes "may_bind os p" and "w1 = snd (mux_bind os i p w)"
  shows "fst (mux_bind os j p w1) = Inr () \<and> connects os p (snd (mux_bind os j p w1)) \<and>
    \<not> connects os p (mux_unbind os p (snd (mux_bind os j p w1)))"
proof -
  have "so_unlink os p" using assms(1) by (simp add: may_bind_def)
  then show ?thesis by (simp add: assms(2) mux_bind_may [OF assms(1)] connects_def mux_unbind_def unlink_node_def)
qed

text \<open>All daemons of a process use one control socket: the last to bind it answers there, for its own service only.\<close>

theorem last_control_wins:
  assumes "so_unlink os (control_socket home)" and "so_bind os (control_socket home)"
    and "apart os home ps" and "set es \<subseteq> range MuxUp"
  shows "fold (sock_step os home ps) (ControlUp j # es) w (so_loc os (control_socket home)) = Served j"
proof -
  have "sock_step os home ps (MuxUp i) w (so_loc os (control_socket home)) = w (so_loc os (control_socket home))" for i w
  proof (cases "i < length ps")
    case True
    then have "so_loc os (control_socket home) \<noteq> so_loc os (rp_socket (ps ! i))" using assms(3) by (metis apart_def nth_mem)
    with True show ?thesis by (simp add: mux_bind_other)
  qed simp
  with assms(4) have "fold (sock_step os home ps) es w (so_loc os (control_socket home)) = w (so_loc os (control_socket home))" for w
    by (induction es arbitrary: w) (auto simp del: sock_step.simps)
  moreover have "snd (control_bind os home j w) (so_loc os (control_socket home)) = Served j"
    using assms(1,2) by (simp add: control_bind_def bind_node_def unlink_node_def Let_def)
  ultimately show ?thesis by simp
qed

text \<open>No daemon serves the status socket.  Whatever a process of daemons does, \<open>daemon-status\<close> and the dashboard find no
  one at the default status socket, unless a service was given that very path.\<close>

theorem status_socket_never_served:
  assumes "\<forall>p \<in> set ps. so_loc os (rp_socket p) \<noteq> so_loc os DEFAULT_STATUS_SOCKET"
    and "so_loc os (control_socket home) \<noteq> so_loc os DEFAULT_STATUS_SOCKET" and "\<not> connects os DEFAULT_STATUS_SOCKET w"
  shows "\<not> connects os DEFAULT_STATUS_SOCKET (fold (sock_step os home ps) es w)"
proof -
  have step: "sock_step os home ps e w (so_loc os DEFAULT_STATUS_SOCKET) = w (so_loc os DEFAULT_STATUS_SOCKET)" for e w
  proof (cases e)
    case (MuxUp i)
    then show ?thesis using assms(1) by (simp add: mux_bind_other eq_commute)
  next
    case (ControlUp i)
    then show ?thesis using assms(2) by (simp add: control_bind_other eq_commute)
  next
    case (MuxDown i)
    then show ?thesis using assms(1) by (simp add: mux_unbind_def unlink_node_def eq_commute)
  qed
  have "fold (sock_step os home ps) es w (so_loc os DEFAULT_STATUS_SOCKET) = w (so_loc os DEFAULT_STATUS_SOCKET)"
    by (induction es arbitrary: w) (simp_all add: step)
  with assms(3) show ?thesis by (simp add: connects_def)
qed

section \<open>One daemon\<close>

text \<open>C30: the health check looks where the daemon listens.  If a command line starts one daemon and its socket is
  bound, \<open>health\<close> with the same options connects; and once the daemon has ended, it reports the failure.\<close>

theorem health_finds_daemon:
  assumes main: "async_main home load level_ok None cli = Inr (ActSingle p)" and bound: "mux_bind os i (rp_socket p) w = (Inr (), w')"
    and unlink: "so_unlink os (rp_socket p)"
  shows "run_health os home load cli w' = Inr (''OK: connected to '' @ rp_socket p) \<and>
    run_health os home load cli (mux_unbind os (rp_socket p) w') = Inl (''failed to connect to '' @ rp_socket p)"
proof -
  from main obtain cfg where "load (config_path_of home cli) = Inr cfg" "resolve_params home (rc_opts cli) cfg = Inr p"
    by (auto simp: async_main_def start_action_def split: option.splits if_splits sum.splits)
  moreover have "connects os (rp_socket p) w'"
    using bound by (auto simp: mux_bind_def bind_node_def connects_def Let_def split: option.splits if_splits)
  ultimately show ?thesis
    using unlink by (simp add: run_health_def health_check_def mux_unbind_def unlink_node_def connects_def)
qed

text \<open>an unrelated configuration file gets in the way.  As soon as a configuration can be read, also the default
  one no option mentions, a command line that names socket and command itself but no service is refused, and
  so is every health check without a service.\<close>

theorem explicit_socket_refused:
  assumes "load (config_path_of home cli) = Inr (Some cfg)" and "co_service (rc_opts cli) = None"
    and "co_socket (rc_opts cli) = Some s" and "co_only (rc_opts cli) = None" and "co_except (rc_opts cli) = None"
    and "\<not> rc_show_status cli" and "rc_restart_service cli = None"
  shows "async_main home load level_ok None cli = Inl ''--service is required when using --config'' \<and>
    run_health os home load cli w = Inl ''--service is required when using --config''"
  using assms by (simp add: async_main_def start_action_def is_multi_mode_def resolve_params_def run_health_def)

section \<open>Examples\<close>

definition example_sock_os :: sock_os where
  "example_sock_os = \<lparr>so_loc = (\<lambda>p. p), so_mkdir = (\<lambda>_. True), so_unlink = (\<lambda>_. True), so_bind = (\<lambda>_. True)\<rparr>"

definition example_multi_config :: config where
  "example_multi_config = [(''a'', example_service ''~/a.sock''), (''b'', example_service ''/s/b.sock'')]"

definition example_load :: "string \<Rightarrow> string + config option" where
  "example_load p = Inr (if p = ''/h/.codex/mcp.json'' then Some example_multi_config else None)"

definition example_run_cli :: "string option \<Rightarrow> string option \<Rightarrow> run_cli" where
  "example_run_cli socket config = \<lparr>rc_opts = example_cli\<lparr>co_socket := socket\<rparr>, rc_config = config,
     rc_show_status = False, rc_restart_service = None\<rparr>"

definition example_multi_params :: "resolved_params list" where
  "example_multi_params = (case async_main (Some ''/h'') example_load (\<lambda>_. True) None (example_run_cli None None) of
     Inr (ActMulti ps) \<Rightarrow> ps | _ \<Rightarrow> [])"

theorem multi_start_reachable_witness:
  "\<exists>i. fold (sock_step example_sock_os (Some ''/h'') example_multi_params) [MuxUp 1, ControlUp 1, MuxUp 0, ControlUp 0]
       (\<lambda>_. DeadNode) ''/h/a.sock'' = Served i \<and>
     ''  a: RUNNING (/h/a.sock)'' \<in> set (status_all example_sock_os (Some ''/h'') example_multi_config
       (fold (sock_step example_sock_os (Some ''/h'') example_multi_params) [MuxUp 1, ControlUp 1, MuxUp 0, ControlUp 0] (\<lambda>_. DeadNode)))"
proof -
  have main: "async_main (Some ''/h'') example_load (\<lambda>_. True) None (example_run_cli None None) = Inr (ActMulti example_multi_params)"
    by code_simp
  have cfg: "example_load (config_path_of (Some ''/h'') (example_run_cli None None)) = Inr (Some example_multi_config)" by code_simp
  have none: "co_socket (rc_opts (example_run_cli None None)) = None" by code_simp
  have apart: "apart example_sock_os (Some ''/h'') example_multi_params" by code_simp
  have up: "list_all goes_up [MuxUp 1, ControlUp 1, MuxUp 0, ControlUp 0]" by simp
  have "length example_multi_params = 2" by code_simp
  then have all: "MuxUp ` {..<length example_multi_params} \<subseteq> set [MuxUp 1, ControlUp 1, MuxUp 0, ControlUp 0]"
    by (auto simp: less_2_cases_iff)
  have svc: "hm_get example_multi_config ''a'' = Some (example_service ''~/a.sock'')" by code_simp
  have sel: "service_selected (rc_opts (example_run_cli None None)) ''a''" by code_simp
  have raw: "sc_socket (example_service ''~/a.sock'') = Some ''~/a.sock''" by code_simp
  have at: "expand_path (Some ''/h'') ''~/a.sock'' = ''/h/a.sock''" by code_simp
  have loc: "so_loc example_sock_os p = p" for p by (simp add: example_sock_os_def)
  from multi_start_reachable [OF main cfg none apart up all svc sel refl, of "\<lambda>_. DeadNode"] show ?thesis
    unfolding raw option.inject by (elim exE conjE) (drule sym, simp only: at loc append.simps, blast)
qed

theorem displaced_daemon_vanishes_witness:
  "\<not> connects example_sock_os ''/s/a.sock'' (mux_unbind example_sock_os ''/s/a.sock''
     (snd (mux_bind example_sock_os 1 ''/s/a.sock'' (snd (mux_bind example_sock_os 0 ''/s/a.sock'' (\<lambda>_. NoNode))))))"
proof -
  have "may_bind example_sock_os ''/s/a.sock''" by code_simp
  from displaced_daemon_vanishes [OF this refl] show ?thesis by blast
qed

definition example_single_params :: resolved_params where
  "example_single_params = (case async_main (Some ''/h'') (\<lambda>_. Inr None) (\<lambda>_. True) None
       (example_run_cli (Some ''/s/a.sock'') None\<lparr>rc_opts := (example_cli\<lparr>co_socket := Some ''/s/a.sock'', co_cmd := Some ''npx''\<rparr>)\<rparr>) of
     Inr (ActSingle p) \<Rightarrow> p | _ \<Rightarrow> hd [])"

theorem health_finds_daemon_witness:
  "run_health example_sock_os (Some ''/h'') (\<lambda>_. Inr None)
     (example_run_cli (Some ''/s/a.sock'') None\<lparr>rc_opts := (example_cli\<lparr>co_socket := Some ''/s/a.sock'', co_cmd := Some ''npx''\<rparr>)\<rparr>)
     (snd (mux_bind example_sock_os 0 ''/s/a.sock'' (\<lambda>_. DeadNode))) = Inr ''OK: connected to /s/a.sock''"
proof -
  let ?cli = "example_run_cli (Some ''/s/a.sock'') None\<lparr>rc_opts := (example_cli\<lparr>co_socket := Some ''/s/a.sock'', co_cmd := Some ''npx''\<rparr>)\<rparr>"
  have main: "async_main (Some ''/h'') (\<lambda>_. Inr None) (\<lambda>_. True) None ?cli = Inr (ActSingle example_single_params)" by code_simp
  have at: "rp_socket example_single_params = ''/s/a.sock''" by code_simp
  have "fst (mux_bind example_sock_os 0 ''/s/a.sock'' (\<lambda>_. DeadNode)) = Inr ()" by code_simp
  then have bound: "mux_bind example_sock_os 0 (rp_socket example_single_params) (\<lambda>_. DeadNode) =
      (Inr (), snd (mux_bind example_sock_os 0 ''/s/a.sock'' (\<lambda>_. DeadNode)))" unfolding at by (metis prod.collapse)
  have unlink: "so_unlink example_sock_os (rp_socket example_single_params)" by (simp add: example_sock_os_def)
  from health_finds_daemon [OF main bound unlink] show ?thesis by (simp add: at)
qed

theorem explicit_socket_refused_witness:
  "async_main (Some ''/h'') example_load (\<lambda>_. True) None (example_run_cli (Some ''/s/x.sock'') None) =
     Inl ''--service is required when using --config''"
proof -
  let ?cli = "example_run_cli (Some ''/s/x.sock'') None"
  have "example_load (config_path_of (Some ''/h'') ?cli) = Inr (Some example_multi_config)" "co_service (rc_opts ?cli) = None"
    "co_socket (rc_opts ?cli) = Some ''/s/x.sock''" "co_only (rc_opts ?cli) = None" "co_except (rc_opts ?cli) = None"
    "\<not> rc_show_status ?cli" "rc_restart_service ?cli = None" by code_simp+
  from explicit_socket_refused [where load = example_load and home = "Some ''/h''", OF this] show ?thesis by blast
qed

end
