(* ===== verification/Host_Screens.thy ===== *)
theory Host_Screens
  imports Mux_Report
begin

text \<open>
  The screens of the setup wizard (\<open>mux-agent/src/wizard/ui.rs\<close>): what the operator reads before and after
  acting.  A screen is its title, its panels with their lines, and its status bar; where text is coloured by
  what it says the colour is a function of its own.  Sizes, borders and wrapping belong to the terminal
  library and are left out.  Characters outside ASCII are their UTF-8 bytes.
\<close>

section \<open>Frame\<close>

record panel =
  pn_title :: string
  pn_lines :: "string list"

record screen =
  sn_title :: string
  sn_panels :: "panel list"
  sn_status :: string

fun step_info :: "wizard_step \<Rightarrow> string" where
  "step_info DiscoverySources = ''Step 1/5: Discovery Sources''"
| "step_info ServerReview = ''Step 2/5: Server Review''"
| "step_info StrategyChoice = ''Step 3/5: Strategy Choice''"
| "step_info SummaryConfirm = ''Step 4/5: Summary & Confirm''"
| "step_info ResultAndTray = ''Step 5/5: Result & Tray Daemon''"

datatype hue = HueYellow | HueBlue | HueGreen | HueRed | HueMagenta | HueCyan | HueDarkGray

fun kind_color :: "host_kind \<Rightarrow> hue" where
  "kind_color Claude = HueYellow"
| "kind_color ClaudeDesktop = HueYellow"
| "kind_color Codex = HueBlue"
| "kind_color Junie = HueGreen"
| "kind_color Gemini = HueRed"
| "kind_color Cursor = HueMagenta"
| "kind_color VSCode = HueCyan"
| "kind_color JetBrains = HueGreen"
| "kind_color Custom = HueDarkGray"
| "kind_color host_kind.Unknown = HueDarkGray"

fun source_status_color :: "source_status \<Rightarrow> hue" where
  "source_status_color (SourceOk n) = HueGreen"
| "source_status_color SourceEmpty = HueDarkGray"
| "source_status_color (InvalidFormat d) = HueRed"
| "source_status_color Missing = HueDarkGray"

fun service_color :: "service_source \<Rightarrow> hue" where
  "service_color (SrcClient kind p) = kind_color kind"
| "service_color (SrcDefault label p) = HueCyan"
| "service_color SrcRunning = HueMagenta"

definition play_sign :: string where "play_sign = [CHR 0xE2, CHR 0x96, CHR 0xB6]"
definition rule_sign :: string where "rule_sign = [CHR 0xE2, CHR 0x94, CHR 0x80]"
definition dot_sign :: string where "dot_sign = [CHR 0xC2, CHR 0xB7]"

definition checkbox :: "bool \<Rightarrow> string" where
  "checkbox selected = (if selected then ''[x] '' else ''[ ] '')"

section \<open>Step 1\<close>

definition source_row :: "nat \<Rightarrow> nat \<Rightarrow> source_entry \<Rightarrow> string" where
  "source_row selected i src = (if i = selected then '' '' @ play_sign @ '' '' else ''   '') @ checkbox (so_selected src) @
     ''['' @ pad_end 14 (display_name (hf_kind (so_host_file src))) @ ''] '' @ hf_path (so_host_file src) @ ''  '' @
     status_short_label (so_status src)"

definition step1_sources :: "wizard \<Rightarrow> panel" where
  "step1_sources app = \<lparr>pn_title = ''Sources ['' @ nat_str (length (filter so_selected (wz_sources app))) @ ''/'' @
       nat_str (length (wz_sources app)) @ '']'',
     pn_lines = map (\<lambda>(i, src). source_row (wz_selected_source app) i src) (enumerate 0 (wz_sources app))\<rparr>"

definition step1_custom :: "wizard \<Rightarrow> panel" where
  "step1_custom app =
     (let c = wz_custom_path app in
      \<lparr>pn_title = ''Custom path'',
       pn_lines = [''Add custom path'', [], ''> '' @ (if cp_buffer c = [] then ''<empty>'' else cp_buffer c) @ (if cp_editing c then ''_'' else [])] @
         (case cp_status c of Some s \<Rightarrow> [[], s] | None \<Rightarrow> []) @
         [[], ''Keys'', ''  Up/Down  navigate sources'', ''  Space    toggle selection'', ''  i        edit custom path'',
          ''  Enter    add custom path'', ''  n        next step'', ''  q        quit'']\<rparr>)"

section \<open>Step 2\<close>

text \<open>A row of the review is the head of a group or a server: highlighted, ticked, its name and process.\<close>

datatype review_row = GroupRow string | ServerRow bool bool string "u32 option"

fun review_rows :: "nat \<Rightarrow> nat \<Rightarrow> service_source option \<Rightarrow> service_entry list \<Rightarrow> review_row list" where
  "review_rows selected i current [] = []"
| "review_rows selected i current (svc # svcs) =
     (if current = Some (sy_source svc) then [] else [GroupRow (source_label (sy_source svc))]) @
     ServerRow (i = selected) (sy_selected svc) (sy_name svc) (sy_pid svc) #
     review_rows selected (Suc i) (Some (sy_source svc)) svcs"

fun row_text :: "review_row \<Rightarrow> string" where
  "row_text (GroupRow label) = rule_sign @ '' '' @ label @ '' ''"
| "row_text (ServerRow highlighted selected name pid) = (if highlighted then play_sign @ '' '' else ''  '') @ checkbox selected @ name @
     (case pid of Some p \<Rightarrow> '' (pid '' @ nat_str (unat p) @ '')'' | None \<Rightarrow> [])"

definition step2_rows :: "wizard \<Rightarrow> review_row list" where
  "step2_rows app = review_rows (wz_selected_service app) 0 None (wz_services app)"

definition step2_list :: "wizard \<Rightarrow> panel" where
  "step2_list app = \<lparr>pn_title = ''Servers ['' @ nat_str (length (filter sy_selected (wz_services app))) @ ''/'' @
       nat_str (length (wz_services app)) @ '']'',
     pn_lines = (if step2_rows app = [] then [''No servers discovered. Go back (p) and add sources.'']
       else map row_text (step2_rows app))\<rparr>"

definition step2_review :: "wizard \<Rightarrow> panel" where
  "step2_review app = \<lparr>pn_title = ''Review'',
     pn_lines = [''Summary'', [], ''  Total entries  : '' @ nat_str (length (wz_services app)),
       ''  Unique names   : '' @ nat_str (length (remdups (map sy_name (wz_services app)))),
       ''  Sources scanned: '' @ nat_str (length (filter so_selected (wz_sources app))), [], ''Keys'', ''  Up/Down  navigate'',
       ''  Space    toggle selection'', ''  n        next step'', ''  p        previous step'', ''  q        quit''] @
       (if wz_services app = [] then [[], ''No services discovered from selected sources.''] else [])\<rparr>"

section \<open>Step 3\<close>

definition strategy_choices :: "(strategy \<times> string \<times> string) list" where
  "strategy_choices =
     [(Unified, ''Unified config'',
       ''Write one ~/.config/mux/{config.toml,mcp.json,mcp.toml} with every selected server. Recommended.''),
      (PerClient, ''Per-client configs'',
       ''Write a separate file per client kind (claude.json, codex.toml, junie.json, ...) under ~/.config/mux/.''),
      (AutoRewire, ''[DANGER] Auto-rewire existing client configs'',
       ''Backup-first preview-first rewrite of your real client configs to route through rust-mux-proxy.'')]"

definition step3_strategy :: "wizard \<Rightarrow> panel" where
  "step3_strategy app = \<lparr>pn_title = ''Strategy'',
     pn_lines = [''How do you want to use mux?'', []] @
       concat (map (\<lambda>(i, choice, label, description).
         [''  '' @ (if choice = wz_strategy app then ''('' @ bullet @ '')'' else ''( )'') @ '' '' @ nat_str (i + 1) @ ''. '' @ label,
          ''       '' @ description, []]) (enumerate 0 strategy_choices)) @
       [''Up/Down to choose, Enter or n to continue, p to go back, q to quit.'']\<rparr>"

section \<open>Step 4\<close>

fun strategy_label :: "strategy \<Rightarrow> string" where
  "strategy_label Unified = ''Unified''"
| "strategy_label PerClient = ''Per-client configs''"
| "strategy_label AutoRewire = ''[DANGER] Auto-rewire client configs''"

definition selected_per_client_output_kinds :: "wizard \<Rightarrow> host_kind list" where
  "selected_per_client_output_kinds app = remdups_adj (sort_key as_label
     (List.map_filter (\<lambda>svc. case sy_source svc of SrcClient kind p \<Rightarrow> Some kind | _ \<Rightarrow> None) (filter sy_selected (wz_services app))))"

definition outputs_indent :: string where "outputs_indent = ''             ''"

definition strategy_outputs :: "string option \<Rightarrow> wizard \<Rightarrow> string list" where
  "strategy_outputs home app =
     (let mux_dir = default_mux_dir home in
      case wz_strategy app of
        Unified \<Rightarrow> [''  Outputs  : '' @ mux_dir @ ''/config.toml'', outputs_indent @ mux_dir @ ''/mcp.json'',
          outputs_indent @ mux_dir @ ''/mcp.toml'']
      | PerClient \<Rightarrow> (''  Outputs  : '' @ mux_dir @ ''/config.toml (daemon truth)'') #
          map (\<lambda>kind. outputs_indent @ mux_dir @ ''/'' @ as_label kind @ ''.'' @ (if kind = Codex then ''toml'' else ''json''))
            (selected_per_client_output_kinds app)
      | AutoRewire \<Rightarrow>
          (let usable = filter source_usable (wz_sources app);
               ineligible = filter (\<lambda>s. \<not> hf_eligible_for_danger (so_host_file s)) usable
           in [[], ''  Will rewrite (with .bak per file):''] @
             map (\<lambda>s. ''    '' @ bullet @ '' '' @ hf_path (so_host_file s))
               (filter (\<lambda>s. hf_eligible_for_danger (so_host_file s)) usable) @
             (if ineligible = [] then []
              else [[], ''  Skipped (no strict-config flag for danger flow):''] @
                map (\<lambda>s. ''    '' @ dot_sign @ '' '' @ hf_path (so_host_file s) @ '' ('' @ display_name (hf_kind (so_host_file s)) @ '')'')
                  ineligible)))"

definition step4_summary :: "string option \<Rightarrow> wizard \<Rightarrow> panel" where
  "step4_summary home app = \<lparr>pn_title = ''Summary'',
     pn_lines = [''About to:'', [], ''  Strategy : '' @ strategy_label (wz_strategy app)] @ strategy_outputs home app @
       [[], ''  Sockets  : '' @ default_socket_dir (default_mux_dir home),
        ''  Servers  : '' @ nat_str (length (filter sy_selected (wz_services app))) @ '' selected''] @
       (if wz_dry_run app then [[], ''  DRY-RUN: no files will be modified.''] else [])\<rparr>"

definition choice_line :: "bool \<Rightarrow> string \<Rightarrow> string" where
  "choice_line selected label = ''  '' @ (if selected then play_sign else '' '') @ '' '' @ label"

definition step4_actions :: "wizard \<Rightarrow> panel" where
  "step4_actions app = \<lparr>pn_title = ''Action'',
     pn_lines = [''Choose action'', []] @
       map (\<lambda>(action, label). choice_line (action = wz_summary_action app) label)
         [(Confirm, ''Confirm''), (GoBack, ''Back''), (Cancel, ''Cancel'')] @ [[], ''Up/Down: choose, Enter: do it'']\<rparr>"

section \<open>Step 5\<close>

definition step5_result :: "wizard \<Rightarrow> panel" where
  "step5_result app = \<lparr>pn_title = ''Result'',
     pn_lines = [''Result'', []] @ (case wz_strategy_result app of
       Some result \<Rightarrow> str_lines result | None \<Rightarrow> [''(no result captured '' @ mdash @ '' see status bar)''])\<rparr>"

definition step5_tray :: "wizard \<Rightarrow> panel" where
  "step5_tray app = \<lparr>pn_title = ''Action'',
     pn_lines = [''Tray daemon'', [], ''Run a multi-service tray monitor'', ''for the sockets you just configured?'', []] @
       map (\<lambda>(action, label). choice_line (action = wz_tray_choice app) label)
         [(StartNow, ''Start tray daemon now''), (NoTray, ''No, exit'')] @ [[], ''Up/Down: choose, Enter: confirm'']\<rparr>"

section \<open>The whole screen\<close>

definition step_panels :: "string option \<Rightarrow> wizard \<Rightarrow> panel list" where
  "step_panels home app = (case wz_step app of
     DiscoverySources \<Rightarrow> [step1_sources app, step1_custom app]
   | ServerReview \<Rightarrow> [step2_list app, step2_review app]
   | StrategyChoice \<Rightarrow> [step3_strategy app]
   | SummaryConfirm \<Rightarrow> [step4_summary home app, step4_actions app]
   | ResultAndTray \<Rightarrow> [step5_result app, step5_tray app])"

definition draw_ui :: "string option \<Rightarrow> wizard \<Rightarrow> screen" where
  "draw_ui home app = \<lparr>sn_title = ''rust-mux wizard '' @ mdash @ '' '' @ step_info (wz_step app), sn_panels = step_panels home app,
     sn_status = wz_message app @ (if wz_dry_run app then '' | DRY-RUN'' else [])\<rparr>"

section \<open>The highlighted row is the one that is toggled\<close>

fun flip_row :: "review_row \<Rightarrow> review_row" where
  "flip_row (ServerRow True selected name pid) = ServerRow True (\<not> selected) name pid"
| "flip_row r = r"

fun is_server :: "review_row \<Rightarrow> bool" where
  "is_server (ServerRow h s n p) = True"
| "is_server (GroupRow l) = False"

lemma review_rows_past: "selected < i \<Longrightarrow> map flip_row (review_rows selected i current svcs) = review_rows selected i current svcs"
  by (induction selected i current svcs rule: review_rows.induct) simp_all

lemma review_rows_flip:
  assumes "i \<le> selected" and "selected < i + length svcs"
  shows "review_rows selected i current (svcs[selected - i := (svcs ! (selected - i))\<lparr>sy_selected := \<not> sy_selected (svcs ! (selected - i))\<rparr>]) =
    map flip_row (review_rows selected i current svcs)"
  using assms
proof (induction svcs arbitrary: i current)
  case (Cons svc svcs)
  show ?case
  proof (cases "i = selected")
    case True
    then show ?thesis by (simp add: review_rows_past)
  next
    case False
    with Cons.prems have "selected - i = Suc (selected - Suc i)" "Suc i \<le> selected" "selected < Suc i + length svcs" by simp_all
    with Cons.IH [of "Suc i" "Some (sy_source svc)"] False show ?thesis by simp
  qed
qed simp

lemma review_rows_servers:
  "filter is_server (review_rows selected i current svcs) =
     map (\<lambda>(j, svc). ServerRow (j = selected) (sy_selected svc) (sy_name svc) (sy_pid svc)) (enumerate i svcs)"
  by (induction selected i current svcs rule: review_rows.induct) simp_all

text \<open>the review is what it shows.  In every state the wizard can reach, the list of step 2 has one row for each
  server, in order, with its tick; and the space bar changes the tick of the highlighted row and nothing else
  on the list.\<close>

theorem review_shows_selection:
  assumes "wizard_reach dry app" and "wz_services app \<noteq> []"
  shows "filter is_server (step2_rows app) = map (\<lambda>(i, svc). ServerRow (i = wz_selected_service app) (sy_selected svc)
      (sy_name svc) (sy_pid svc)) (enumerate 0 (wz_services app)) \<and>
    step2_rows (toggle_service app) = map flip_row (step2_rows app) \<and>
    wz_selected_service app < length (wz_services app)"
proof -
  have sel: "wz_selected_service app < length (wz_services app)"
    using reach_ok [OF assms(1)] assms(2) by (auto simp: wizard_ok_def)
  then have "min (wz_selected_service app) (length (wz_services app) - 1) = wz_selected_service app" by simp
  then have "step2_rows (toggle_service app) = map flip_row (step2_rows app)"
    using review_rows_flip [of 0 "wz_selected_service app" "wz_services app" None] sel
    by (simp add: step2_rows_def toggle_service_def update_step2_message_def Let_def)
  with sel show ?thesis by (simp add: step2_rows_def review_rows_servers)
qed

section \<open>The summary says what will be written\<close>

lemma default_mux_dir_end: "default_mux_dir home \<noteq> [] \<and> last (default_mux_dir home) \<noteq> CHR ''/''"
  by (simp add: default_mux_dir_def expand_path_def path_join_def is_absolute_def split: option.split)

lemma in_mux_dir: "\<not> is_absolute name \<Longrightarrow> path_join (default_mux_dir home) name = default_mux_dir home @ ''/'' @ name"
  using default_mux_dir_end [of home] by (simp add: path_join_def)

text \<open>C16: no file is changed that the summary does not name.  For the unified files and for the rewrite, if running
  the strategy changes a file that existed, its path ends a line of the summary of step 4.\<close>

theorem summary_announces:
  assumes ok: "os_ok (xo_os x)" and st: "wz_strategy a \<noteq> PerClient" and run: "run_strategy (wz_strategy a) x a w = (res, w')"
    and q: "sw_files w q \<noteq> None" "sw_files w' q \<noteq> sw_files w q"
  shows "\<exists>p pre. q = os_loc (xo_os x) p \<and> pre @ p \<in> set (pn_lines (step4_summary (xo_home x) a))"
proof -
  have target: "strategy_target x a q" using run_strategy_targets [OF ok run] q by (auto simp: only_targets_def)
  show ?thesis
  proof (cases "wz_strategy a")
    case Unified
    with target obtain n where n: "n \<in> unified_names" "q = os_loc (xo_os x) (path_join (default_mux_dir (xo_home x)) n)"
      by (auto simp: strategy_target_def)
    then have "path_join (default_mux_dir (xo_home x)) n = default_mux_dir (xo_home x) @ ''/'' @ n"
      by (intro in_mux_dir) (auto simp: unified_names_def is_absolute_def starts_with_def)
    moreover have "(if n = ''config.toml'' then ''  Outputs  : '' else outputs_indent) @ default_mux_dir (xo_home x) @ ''/'' @ n
        \<in> set (strategy_outputs (xo_home x) a)"
      using n(1) Unified by (auto simp: strategy_outputs_def unified_names_def Let_def)
    ultimately show ?thesis using n(2) by (auto simp: step4_summary_def)
  next
    case AutoRewire
    with target obtain s where s: "s \<in> set (wz_sources a)" "source_usable s" "hf_eligible_for_danger (so_host_file s)"
      "q = os_loc (xo_os x) (hf_path (so_host_file s))"
      by (auto simp: strategy_target_def rewire_paths_def)
    then have "(''    '' @ bullet @ '' '') @ hf_path (so_host_file s) \<in> set (strategy_outputs (xo_home x) a)"
      using AutoRewire by (auto simp: strategy_outputs_def Let_def)
    then have "(''    '' @ bullet @ '' '') @ hf_path (so_host_file s) \<in> set (pn_lines (step4_summary (xo_home x) a))"
      by (simp add: step4_summary_def)
    with s(4) show ?thesis by blast
  qed (use st in simp)
qed

text \<open>The files of the per-client strategy are not predicted: a server two clients have is listed once, under the first,
  and only that client's file is announced, but the files of both are written.\<close>

definition shared_scans :: "scan_result list" where
  "shared_scans = [\<lparr>sr_host = example_host Claude, sr_services = [example_svc ''a'' ''x'']\<rparr>,
     \<lparr>sr_host = example_host Codex, sr_services = [example_svc ''a'' ''x'']\<rparr>]"

definition shared_review :: wizard where
  "shared_review = example_review\<lparr>wz_strategy := PerClient, wz_services := build_services_from_scans shared_scans\<rparr>"

theorem per_client_not_announced:
  "selected_per_client_output_kinds shared_review = [Claude] \<and>
   map pc_path (po_clients (build_per_client_outputs (map (\<lambda>s. s\<lparr>sr_services :=
       filter (filter_matches (filter_from_app shared_review)) (sr_services s)\<rparr>) shared_scans) ''/m'' ''rust-mux-proxy'' [])) =
     [''/m/claude.json'', ''/m/codex.toml'']"
  by code_simp

section \<open>Examples\<close>

theorem review_shows_selection_witness:
  "step2_rows (toggle_service example_review) = map flip_row (step2_rows example_review) \<and>
   map row_text (step2_rows example_review) = [rule_sign @ '' claude '', play_sign @ '' [x] memory'', rule_sign @ '' default '', ''  [x] vibecrafted-mcp'']"
proof -
  let ?a = "wizard_start example_wizard_env None [] None False"
  have "wizard_key example_wizard_env (KChar CHR ''n'') ?a = (False, example_review)"
    by (simp add: wizard_key_def wizard_start_def handle_step1_def refresh_step1_message_def example_review_def)
  then have reach: "wizard_reach False example_review" by (rule wizard_reach.key [OF wizard_reach.start])
  have ne: "wz_services example_review \<noteq> []" by code_simp
  have "map row_text (step2_rows example_review) = [rule_sign @ '' claude '', play_sign @ '' [x] memory'', rule_sign @ '' default '', ''  [x] vibecrafted-mcp'']" by code_simp
  with review_shows_selection [OF reach ne] show ?thesis by blast
qed

theorem summary_announces_witness:
  "\<exists>p pre. ''config.toml'' = os_loc (xo_os example_setup) p \<and> pre @ p \<in> set (pn_lines (step4_summary None example_review))"
proof -
  let ?w = "example_world\<lparr>sw_files := (sw_files example_world)(''config.toml'' \<mapsto> ''old'')\<rparr>"
  let ?r = "run_strategy (wz_strategy example_review) example_setup example_review ?w"
  have ok: "os_ok (xo_os example_setup)" using flat_os_ok by (simp add: example_setup_def)
  have st: "wz_strategy example_review \<noteq> PerClient" by code_simp
  have old: "sw_files ?w ''config.toml'' \<noteq> None" by simp
  have "sw_files (snd ?r) ''config.toml'' \<noteq> Some ''old''" by code_simp
  then have new: "sw_files (snd ?r) ''config.toml'' \<noteq> sw_files ?w ''config.toml''" by simp
  have home: "xo_home example_setup = None" by (simp add: example_setup_def)
  obtain res w' where run: "?r = (res, w')" by (metis surj_pair)
  have "sw_files w' ''config.toml'' \<noteq> sw_files ?w ''config.toml''" using new unfolding run by simp
  from summary_announces [OF ok st run old this] show ?thesis unfolding home .
qed

end
