(* ===== verification/Op_Watch.thy ===== *)
theory Op_Watch
  imports Op_Mux "HOL-Library.Sublist"
begin

text \<open>
  What the terminal operator sees of the daemon: the status files of every reachable daemon can be read
  and are judged by the status they carry, discovery lists each file once and in a fixed order, and
  the subscriber gives up after ten refusals in a row.
\<close>

section \<open>The mirror reads what the daemon writes\<close>

lemma jget_fields:
  assumes "distinct (map fst kvs)" and "(k, x) \<in> set kvs"
  shows "jget (JObj (obj_of kvs)) k = Some x"
proof -
  have "find (\<lambda>y. fst y = k) kvs = Some (k, x)" using find_distinct_key [OF assms] by simp
  then show ?thesis
    using obj_dict.get_fill_distinct [OF assms(1), of snd "[]" k] by (simp add: jget_def obj_of_def case_prod_unfold)
qed

lemma status_fields_distinct: "distinct (map fst (status_fields s))"
  by (simp add: status_fields_def)

lemma jget_status:
  "(k, x) \<in> set (status_fields s) \<Longrightarrow> jget (en_status_snapshot s) k = Some x"
  unfolding en_status_snapshot_def by (rule jget_fields [OF status_fields_distinct])

text \<open>The status as the mirror has it; two variants are missing there.\<close>

fun mirror_status :: "server_status \<Rightarrow> mux_server_status option" where
  "mirror_status StStarting = Some MxStarting"
| "mirror_status StRunning = Some MxRunning"
| "mirror_status StRestarting = Some MxRestarting"
| "mirror_status (StFailed reason) = Some (MxFailed reason)"
| "mirror_status StStopped = Some MxStopped"
| "mirror_status StLazy = None"
| "mirror_status StBackoff = None"

lemma de_en_server_status: "de_mux_server_status (en_server_status s) = mirror_status s"
  by (cases s) (simp_all add: de_mux_server_status_def unit_variant_def)

definition mirror :: "status_snapshot \<Rightarrow> mux_server_status \<Rightarrow> mux_status_snapshot" where
  "mirror s st = \<lparr>mx_service_name = ss_service_name s, mx_server_status = st, mx_restarts = ss_restarts s,
     mx_connected_clients = ss_connected_clients s, mx_active_clients = ss_active_clients s,
     mx_max_active_clients = ss_max_active_clients s, mx_pending_requests = ss_pending_requests s,
     mx_cached_initialize = ss_cached_initialize s, mx_initializing = ss_initializing s,
     mx_last_reset = ss_last_reset s, mx_queue_depth = ss_queue_depth s, mx_child_pid = ss_child_pid s,
     mx_max_request_bytes = ss_max_request_bytes s, mx_restart_backoff_ms = ss_restart_backoff_ms s,
     mx_restart_backoff_max_ms = ss_restart_backoff_max_ms s, mx_max_restarts = ss_max_restarts s\<rparr>"

text \<open>The counts of a snapshot fit a \<open>usize\<close>.\<close>

definition usize_fields :: "status_snapshot \<Rightarrow> bool" where
  "usize_fields s = list_all (\<lambda>n. n < 2 ^ 64) [ss_connected_clients s, ss_active_clients s,
     ss_max_active_clients s, ss_pending_requests s, ss_queue_depth s, ss_max_request_bytes s]"

lemma field_status:
  "(k, x) \<in> set (status_fields s) \<Longrightarrow> de_field dec (en_status_snapshot s) k = dec x"
  "(k, x) \<in> set (status_fields s) \<Longrightarrow> de_default dec (en_status_snapshot s) k = de_option dec x"
  by (simp_all add: de_field_def de_default_def jget_status)

lemma status_field_values:
  "de_field dec (en_status_snapshot s) ''service_name'' = dec (JStr (ss_service_name s))"
  "de_field dec2 (en_status_snapshot s) ''server_status'' = dec2 (en_server_status (ss_server_status s))"
  "de_field dec3 (en_status_snapshot s) ''restarts'' = dec3 (en_u64 (ss_restarts s))"
  "de_field dec4 (en_status_snapshot s) ''connected_clients'' = dec4 (en_usize (ss_connected_clients s))"
  "de_field dec4 (en_status_snapshot s) ''active_clients'' = dec4 (en_usize (ss_active_clients s))"
  "de_field dec4 (en_status_snapshot s) ''max_active_clients'' = dec4 (en_usize (ss_max_active_clients s))"
  "de_field dec4 (en_status_snapshot s) ''pending_requests'' = dec4 (en_usize (ss_pending_requests s))"
  "de_field dec5 (en_status_snapshot s) ''cached_initialize'' = dec5 (JBool (ss_cached_initialize s))"
  "de_field dec5 (en_status_snapshot s) ''initializing'' = dec5 (JBool (ss_initializing s))"
  "de_default dec (en_status_snapshot s) ''last_reset'' = de_option dec (en_option JStr (ss_last_reset s))"
  "de_field dec4 (en_status_snapshot s) ''queue_depth'' = dec4 (en_usize (ss_queue_depth s))"
  "de_default dec6 (en_status_snapshot s) ''child_pid'' = de_option dec6 (en_option en_u32 (ss_child_pid s))"
  "de_field dec4 (en_status_snapshot s) ''max_request_bytes'' = dec4 (en_usize (ss_max_request_bytes s))"
  "de_field dec3 (en_status_snapshot s) ''restart_backoff_ms'' = dec3 (en_u64 (ss_restart_backoff_ms s))"
  "de_field dec3 (en_status_snapshot s) ''restart_backoff_max_ms'' = dec3 (en_u64 (ss_restart_backoff_max_ms s))"
  "de_field dec3 (en_status_snapshot s) ''max_restarts'' = dec3 (en_u64 (ss_max_restarts s))"
  by (rule field_status, simp add: status_fields_def)+

text \<open>Complete description of what the mirror makes of a snapshot.\<close>

lemma de_en_snapshot:
  assumes "usize_fields s"
  shows "de_mux_status_snapshot (en_status_snapshot s) = map_option (mirror s) (mirror_status (ss_server_status s))"
proof -
  have opts: "de_option as_str (en_option JStr x) = Some x" "de_option de_u32 (en_option en_u32 y) = Some y" for x y
    by (rule opt_str_codec.dec_enc opt_u32_codec.dec_enc; simp add: option.pred_True)+
  show ?thesis
    using assms unfolding de_mux_status_snapshot_def status_field_values de_en_server_status usize_fields_def
    by (cases "mirror_status (ss_server_status s)") (simp_all add: codec_simps opts mirror_def)
qed

section \<open>The statuses a daemon has\<close>

definition ordinary :: "server_status \<Rightarrow> bool" where
  "ordinary s = (s \<noteq> StLazy \<and> s \<noteq> StBackoff)"

definition ordinary_world :: "mux_world \<Rightarrow> bool" where
  "ordinary_world w = (ordinary (ms_server_status (w_state w)) \<and> ordinary (ss_server_status (w_status w)))"

lemma ordinary_publish: "ordinary (ms_server_status (w_state w)) \<Longrightarrow> ordinary_world (publish_status now w)"
  by (simp add: ordinary_world_def publish_status_def snapshot_for_state_def Let_def)

lemma ordinary_state:
  "ordinary_world w \<Longrightarrow> ms_server_status st = ms_server_status (w_state w) \<Longrightarrow> ordinary_world (w\<lparr>w_state := st\<rparr>)"
  by (simp add: ordinary_world_def)

lemma ordinary_other_fields [simp]:
  "ordinary_world (w\<lparr>w_to_server := q\<rparr>) = ordinary_world w"
  "ordinary_world (w\<lparr>w_permits := n\<rparr>) = ordinary_world w"
  "ordinary_world (update_queue_depth w) = ordinary_world w"
  by (simp_all add: ordinary_world_def update_queue_depth_def)

lemma ordinary_worldD: "ordinary_world w \<Longrightarrow> ordinary (ms_server_status (w_state w))"
  by (simp add: ordinary_world_def)

lemma ordinary_publish_world: "ordinary_world w \<Longrightarrow> ordinary_world (publish_status now w)"
  by (rule ordinary_publish) (rule ordinary_worldD)

lemma status_kept [simp]:
  "ms_server_status (send_to c m st) = ms_server_status st"
  "ms_server_status (broadcast m st) = ms_server_status st"
  "ms_server_status (snd (register_client now st)) = ms_server_status st"
  "ms_server_status (unregister_client c st) = ms_server_status st"
  "ms_server_status (buffer_message c m st) = ms_server_status st"
  "ms_server_status (snd (complete_handshake c st)) = ms_server_status st"
  "ms_server_status (snd (add_pending now c i b st)) = ms_server_status st"
  by (simp_all add: send_to_def broadcast_def register_client_def unregister_client_def buffer_message_def
      complete_handshake_def mark_handshake_complete_def add_pending_def next_request_id_def Let_def split: option.split prod.split)

lemma status_cache [simp]: "ms_server_status (cache_initialize m st) = ms_server_status st"
  by (simp add: cache_initialize_def Let_def fold_send_to_pairs)

lemma ordinary_send:
  "chan_send m w = Some w' \<Longrightarrow> ordinary_world w' = ordinary_world w"
  "chan_try_send m w = Some w' \<Longrightarrow> ordinary_world w' = ordinary_world w"
  by (auto simp: chan_send_def chan_try_send_def split: if_splits)

lemma ordinary_enqueue:
  assumes "ordinary_world w"
  shows "ordinary_world (snd (enqueue_request now c l m b w))"
proof -
  obtain gid st where add: "add_pending now c l b (w_state w) = (gid, st)" by (cases "add_pending now c l b (w_state w)")
  then have "ms_server_status st = ms_server_status (w_state w)" using status_kept(7) [of now c l b "w_state w"] by simp
  with assms have w: "ordinary_world (w\<lparr>w_state := st\<rparr>)" by (simp add: ordinary_state)
  have "ordinary_world w'" if "chan_send (set_id m (JStr gid)) (w\<lparr>w_state := st\<rparr>) = Some w'" for w'
    using w ordinary_send(1) [OF that] by simp
  with w assms show ?thesis
    by (simp add: enqueue_request_def Let_def add ordinary_state ordinary_publish_world split: option.split)
qed

lemma ordinary_forward: "ordinary_world w \<Longrightarrow> ordinary_world (snd (forward_request now c m w))"
  by (simp add: forward_request_def ordinary_enqueue split: option.split)

lemma ordinary_flush: "ordinary_world w \<Longrightarrow> ordinary_world (flush_buffered now c ms w)"
  by (induction ms arbitrary: w) (simp_all add: ordinary_forward)

lemma ordinary_forward_initialized: "ordinary_world w \<Longrightarrow> ordinary_world (forward_initialized m w)"
  by (auto simp: forward_initialized_def Let_def ordinary_send ordinary_state split: option.split)

lemma ordinary_handle_initialized: "ordinary_world w \<Longrightarrow> ordinary_world (handle_initialized now c m w)"
proof -
  assume "ordinary_world w"
  then have "ordinary_world (forward_initialized m w)" by (rule ordinary_forward_initialized)
  then have "ordinary_world ((forward_initialized m w)\<lparr>w_state := snd (complete_handshake c (w_state (forward_initialized m w)))\<rparr>)"
    by (rule ordinary_state) simp
  then show ?thesis
    by (simp add: handle_initialized_def Let_def case_prod_unfold ordinary_publish_world ordinary_flush)
qed

lemma ordinary_initialize: "ordinary_world w \<Longrightarrow> ordinary_world (snd (handle_initialize now c l m w))"
  by (auto simp: handle_initialize_def Let_def ordinary_state intro!: ordinary_enqueue split: option.split)

lemma ordinary_frame: "ordinary_world w \<Longrightarrow> ordinary_world (client_frame enc_len now c m w)"
  by (auto simp: client_frame_def handle_client_message_def Let_def ordinary_state ordinary_handle_initialized
      ordinary_publish_world ordinary_send ordinary_initialize ordinary_forward split: option.split)

lemma ordinary_server_message: "ordinary_world w \<Longrightarrow> ordinary_world (snd (handle_server_message now m w))"
  by (auto simp: handle_server_message_def Let_def ordinary_state intro!: ordinary_publish
      dest: ordinary_worldD split: option.split)

lemma ordinary_reset: "ordinary_world w \<Longrightarrow> ordinary_world (reset_state now reason w)"
  unfolding reset_state_def Let_def fold_send_to_map fold_send_to_pairs
  by (rule ordinary_publish) (simp add: ordinary_worldD)

lemma ordinary_route: "ordinary_world w \<Longrightarrow> ordinary_world (snd (route_event now ev w))"
  by (auto simp: route_event_def ordinary_server_message ordinary_reset split: server_event.split option.split)

lemma ordinary_reap: "ordinary_world w \<Longrightarrow> ordinary_world (reap_timeouts now w)"
  unfolding reap_timeouts_def Let_def fold_send_to_map
  by (rule ordinary_publish) (simp add: ordinary_worldD)

lemma ordinary_disconnect: "ordinary_world w \<Longrightarrow> ordinary_world (client_disconnect now c w)"
  by (auto simp: client_disconnect_def intro!: ordinary_publish dest: ordinary_worldD)

lemma ordinary_leave:
  assumes "leave_write_loop now c (False, w) = Some (False, w')" and "ordinary_world w"
  shows "ordinary_world w'"
  using assms ordinary_worldD [OF assms(2)]
  by (cases c) (auto simp: leave_write_loop_def ordinary_def update_queue_depth_def
      intro!: ordinary_publish ordinary_state)

lemma ordinary_step:
  assumes "mux_step enc_len s e t" and "ordinary_world (sys_world s)"
  shows "ordinary_world (sys_world t)"
  using assms
proof (induction rule: mux_step.induct)
  case (connect now s cid w)
  then show ?case
    using ordinary_worldD [OF connect(2)]
    by (auto simp: client_connect_def register_client_def Let_def intro!: ordinary_publish split: if_splits)
next
  case (child_left now c s w)
  then show ?case by (simp add: ordinary_leave)
qed (auto simp: ordinary_frame handshake_tick_def client_writer_closed_def client_decode_error_def ordinary_route
  ordinary_reap ordinary_send ordinary_state mark_running_def cleanup_state_def update_queue_depth_def ordinary_def Let_def
  intro!: ordinary_publish ordinary_disconnect dest: ordinary_worldD)

lemma ordinary_reach: "mux_reach enc_len c es s \<Longrightarrow> ordinary_world (sys_world s)"
proof (induction rule: mux_reach.induct)
  case start
  show ?case by (simp add: ordinary_world_def ordinary_def sys_init_def mux_state_new_def snapshot_for_state_def)
next
  case (step es s e t)
  then show ?case by (simp add: ordinary_step)
qed

text \<open>C7: the operator can read every status file of the daemon.  Whatever has happened to the daemon, when
  the JSON reader gives back what the daemon has serialised from its published status, the operator
  reads all sixteen fields it mirrors with the values the daemon published, shows the service under
  its name, and calls it healthy exactly when the daemon is starting, running or restarting.  The two
  statuses the mirror does not know are never published.\<close>

theorem status_file_readable:
  assumes "mux_reach enc_len c es s" and "usize_fields (w_status (sys_world s))"
    and "me_parse env raw = Some (en_status_snapshot (w_status (sys_world s)))"
  shows "\<exists>st. mirror_status (ss_server_status (w_status (sys_world s))) = Some st \<and>
    from_json env raw = Inr (mirror (w_status (sys_world s)) st) \<and>
    mu_display_name (from_path_and_result p (from_json env raw)) = ss_service_name (w_status (sys_world s)) \<and>
    (summary_is_healthy (from_path_and_result p (from_json env raw)) \<longleftrightarrow>
      ss_server_status (w_status (sys_world s)) \<in> {StStarting, StRunning, StRestarting})"
proof -
  let ?w = "w_status (sys_world s)"
  have "ordinary (ss_server_status ?w)" using ordinary_reach [OF assms(1)] by (simp add: ordinary_world_def)
  then obtain st where st: "mirror_status (ss_server_status ?w) = Some st"
    by (cases "ss_server_status ?w") (simp_all add: ordinary_def)
  then have read: "from_json env raw = Inr (mirror ?w st)"
    using assms(3) de_en_snapshot [OF assms(2)] by (simp add: from_json_def)
  have "mux_is_healthy st \<longleftrightarrow> ss_server_status ?w \<in> {StStarting, StRunning, StRestarting}"
    using st by (cases "ss_server_status ?w") auto
  with st read show ?thesis
    by (simp add: from_path_and_result_def summary_is_healthy_def mirror_def)
qed

text \<open>The missing variants would make the file unreadable.\<close>

lemma status_file_unreadable:
  assumes "usize_fields s" and "me_parse env raw = Some (en_status_snapshot s)"
    and "ss_server_status s \<in> {StLazy, StBackoff}"
  shows "from_json env raw = Inl [''failed to parse rust-mux status JSON'', me_json_error env raw]"
  using assms(3,2) de_en_snapshot [OF assms(1)] by (auto simp: from_json_def)

definition example_running :: mux_sys where
  "example_running = the (mux_exec (\<lambda>_. 1) [(0, ChildStarted (Some 7))] (sys_init example_config))"

definition example_mux_env :: mux_env where
  "example_mux_env = \<lparr>me_var = (\<lambda>_. None), me_fs = example_dir, me_is_file = (\<lambda>_. False),
     me_os_error = (\<lambda>_. []), me_parse = (\<lambda>_. Some (en_status_snapshot (w_status (sys_world example_running)))),
     me_json_error = (\<lambda>_. [])\<rparr>"

theorem status_file_readable_witness:
  "summary_is_healthy (from_path_and_result ''/m.json'' (from_json example_mux_env ''{}''))"
proof -
  have "mux_exec (\<lambda>_. 1) [(0, ChildStarted (Some 7))] (sys_init example_config) \<noteq> None" by code_simp
  then have reach: "mux_reach (\<lambda>_. 1) example_config [(0, ChildStarted (Some 7))] example_running"
    by (auto simp: mux_reach_exec example_running_def)
  have size: "usize_fields (w_status (sys_world example_running))"
    and run: "ss_server_status (w_status (sys_world example_running)) = StRunning" by code_simp+
  have parse: "me_parse example_mux_env ''{}'' = Some (en_status_snapshot (w_status (sys_world example_running)))"
    by (simp add: example_mux_env_def)
  show ?thesis
    using status_file_readable [OF reach size parse, of "''/m.json''"] unfolding run by blast
qed

section \<open>Discovery\<close>

lemma push_unseen_props:
  "distinct (map components out) \<Longrightarrow> distinct (map components (push_unseen p out))"
  "components ` set (push_unseen p out) = insert (components p) (components ` set out)"
  "\<exists>extra. push_unseen p out = out @ extra \<and> extra \<in> {[], [p]}"
  by (auto simp: push_unseen_def)

lemma push_all_distinct: "distinct (map components out) \<Longrightarrow> distinct (map components (fold push_unseen ps out))"
  by (induction ps arbitrary: out) (simp_all add: push_unseen_props)

lemma push_all_components:
  "components ` set (fold push_unseen ps out) = components ` set ps \<union> components ` set out"
  by (induction ps arbitrary: out) (auto simp: push_unseen_props)

lemma push_all_append: "\<exists>extra. fold push_unseen ps out = out @ extra \<and> subseq extra ps"
proof (induction ps arbitrary: out)
  case (Cons p ps)
  show ?case
  proof (cases "components p \<in> set (map components out)")
    case True
    then have "push_unseen p out = out" by (simp add: push_unseen_def)
    with Cons [of out] show ?thesis by auto
  next
    case False
    then have "push_unseen p out = out @ [p]" by (simp add: push_unseen_def)
    moreover obtain extra where "fold push_unseen ps (out @ [p]) = (out @ [p]) @ extra" "subseq extra ps"
      using Cons [of "out @ [p]"] by blast
    ultimately show ?thesis by (intro exI [of _ "p # extra"]) simp
  qed
qed simp

lemma sorted_wrt_subseq: "subseq xs ys \<Longrightarrow> sorted_wrt P ys \<Longrightarrow> sorted_wrt P xs"
proof (induction rule: list_emb.induct)
  case (list_emb_Cons2 x y xs ys)
  then show ?case by (auto dest: list_emb_set)
qed auto

text \<open>Discovery of status files.  No file is listed twice, however its path is spelled; the paths of the
  environment variable come first and in their order, missing files included; after them come, in
  the order of their paths, the plain JSON files of the daemon's directory.  Nothing that was named or
  found is left out, and nothing else is listed.\<close>

theorem discovery_order:
  fixes env root
  defines "flat \<equiv> path_join root ''status.json''"
  assumes "default_mux_status_root env = Some root"
  shows "distinct (map components (discover_status_files env)) \<and>
    (\<exists>own first rest. discover_status_files env = own @ first @ rest \<and>
      subseq own (status_overrides env) \<and> components ` set own = components ` set (status_overrides env) \<and>
      first \<in> {[], [flat]} \<and> sorted_wrt (\<lambda>p q. cmp_path p q \<noteq> OGreater) rest) \<and>
    components ` set (discover_status_files env) = components ` (set (status_overrides env) \<union>
      (if me_is_file env flat then {flat} else {}) \<union> set (status_dir_files env root))"
proof -
  let ?own = "fold push_unseen (status_overrides env) []"
  let ?two = "if me_is_file env flat then push_unseen flat ?own else ?own"
  have eq: "discover_status_files env = fold push_unseen (status_dir_files env root) ?two"
    by (simp add: discover_status_files_def Let_def assms)
  have own: "subseq ?own (status_overrides env)"
    using push_all_append [of "status_overrides env" "[]"] by auto
  have own_set: "components ` set ?own = components ` set (status_overrides env)"
    using push_all_components [of "status_overrides env" "[]"] by simp
  have dist: "distinct (map components ?two)"
    using push_all_distinct [of "[]" "status_overrides env"] by (simp add: push_unseen_props)
  obtain first where first: "?two = ?own @ first" "first \<in> {[], [flat]}"
    using push_unseen_props(3) [of flat ?own] by (cases "me_is_file env flat") auto
  obtain rest where rest: "discover_status_files env = ?two @ rest" "subseq rest (status_dir_files env root)"
    using push_all_append [of "status_dir_files env root" ?two] unfolding eq by blast
  have "sorted_wrt (\<lambda>p q. cmp_path p q \<noteq> OGreater) (status_dir_files env root)"
    by (simp add: status_dir_files_def path_order.sorted_sort_by split: option.split)
  then have sorted: "sorted_wrt (\<lambda>p q. cmp_path p q \<noteq> OGreater) rest"
    by (rule sorted_wrt_subseq [OF rest(2)])
  have all: "components ` set (discover_status_files env) = components ` (set (status_overrides env) \<union>
      (if me_is_file env flat then {flat} else {}) \<union> set (status_dir_files env root))"
    unfolding eq push_all_components by (auto simp: push_unseen_props push_all_components)
  have "discover_status_files env = ?own @ first @ rest" using rest(1) first(1) by simp
  with own own_set first(2) sorted all push_all_distinct [OF dist, of "status_dir_files env root", folded eq]
  show ?thesis by blast
qed

definition example_status_env :: mux_env where
  "example_status_env = example_mux_env\<lparr>
     me_var := (\<lambda>n. if n = ''HOME'' then Some ''/h'' else if n = ''VIBECRAFTED_MUX_STATUS_PATHS'' then Some ''/x.json:/x.json'' else None),
     me_fs := example_dir\<lparr>dv_read_dir := (\<lambda>_. Some [''/s/runs/a.json'', ''/x.json'']), dv_kind := (\<lambda>_. Some PlainFile)\<rparr>\<rparr>"

theorem discovery_order_witness:
  "distinct (map components (discover_status_files example_status_env)) \<and>
   discover_status_files example_status_env = [''/x.json'', ''/s/runs/a.json'']"
proof -
  have root: "default_mux_status_root example_status_env = Some ''/h/.rmcp_servers/rust_mux''" by code_simp
  have "discover_status_files example_status_env = [''/x.json'', ''/s/runs/a.json'']" by code_simp
  then show ?thesis using discovery_order [OF root] by simp
qed

section \<open>The subscriber\<close>

lemma run_snoc:
  "subscriber_run decode (as @ [a]) s =
     (let s1 = subscriber_run decode as s in
      if as \<noteq> [] \<and> su_state s1 = SubPolling then s1 else subscriber_turn decode a s1)"
  by (induction as arbitrary: s) (auto simp: Let_def)

definition refusals :: "attempt list \<Rightarrow> nat" where
  "refusals as = length (takeWhile (\<lambda>a. a = Refused) (rev as))"

lemma refusals_simps [simp]:
  "refusals [] = 0"
  "refusals (as @ [a]) = (if a = Refused then Suc (refusals as) else 0)"
  by (simp_all add: refusals_def)

lemma refusals_block: "n \<le> refusals as \<longleftrightarrow> (\<exists>u. as = u @ replicate n Refused)"
proof (induction n arbitrary: as)
  case (Suc n)
  show ?case
  proof (cases as rule: rev_cases)
    case (snoc front a)
    have "replicate (Suc n) Refused = replicate n Refused @ [Refused]" by (simp add: replicate_append_same)
    with snoc Suc [of front] show ?thesis by auto
  qed simp
qed simp

text \<open>The delay after so many refusals.\<close>

definition backoff_after :: "nat \<Rightarrow> duration" where
  "backoff_after n = ((\<lambda>b. min (2 * b) (from_secs 30)) ^^ n) (from_secs 1)"

lemma block_snoc:
  "(\<exists>u v. as @ [a] = u @ replicate n Refused @ v) \<longleftrightarrow>
     (\<exists>u v. as = u @ replicate n Refused @ v) \<or> n \<le> refusals (as @ [a])"
  unfolding refusals_block
proof (intro iffI; elim disjE exE)
  fix u v assume eq: "as @ [a] = u @ replicate n Refused @ v"
  show "(\<exists>u v. as = u @ replicate n Refused @ v) \<or> (\<exists>u. as @ [a] = u @ replicate n Refused)"
  proof (cases v rule: rev_cases)
    case (snoc w b)
    then have "(as @ [a]) = (u @ replicate n Refused @ w) @ [b]" using eq by simp
    then show ?thesis by blast
  qed (use eq in auto)
next
  fix u v assume "as = u @ replicate n Refused @ v"
  then have "as @ [a] = u @ replicate n Refused @ (v @ [a])" by simp
  then show "\<exists>u v. as @ [a] = u @ replicate n Refused @ v" by blast
next
  fix u assume "as @ [a] = u @ replicate n Refused"
  then have "as @ [a] = u @ replicate n Refused @ []" by simp
  then show "\<exists>u v. as @ [a] = u @ replicate n Refused @ v" by blast
qed

lemma run_running:
  assumes "\<not> (\<exists>u v. as = u @ replicate 10 Refused @ v)"
  shows "su_state (subscriber_run decode as subscriber_start) \<noteq> SubPolling \<and>
    su_attempts (subscriber_run decode as subscriber_start) = refusals as \<and>
    su_backoff (subscriber_run decode as subscriber_start) = backoff_after (refusals as)"
  using assms
proof (induction as rule: rev_induct)
  case Nil
  show ?case by (simp add: subscriber_start_def backoff_after_def)
next
  case (snoc a as)
  then show ?case
    unfolding block_snoc by (cases a) (simp_all add: run_snoc subscriber_turn_def Let_def backoff_after_def)
qed

lemma run_stopped:
  assumes "\<exists>u v. as = u @ replicate 10 Refused @ v"
  shows "as \<noteq> [] \<and> su_state (subscriber_run decode as subscriber_start) = SubPolling"
  using assms
proof (induction as rule: rev_induct)
  case (snoc a as)
  show ?case
  proof (cases "\<exists>u v. as = u @ replicate 10 Refused @ v")
    case False
    with snoc.prems have "10 \<le> refusals (as @ [a])" unfolding block_snoc by blast
    with run_running [OF False, of decode] show ?thesis
      by (auto simp: run_snoc subscriber_turn_def Let_def split: if_splits)
  qed (use snoc.IH in \<open>simp add: run_snoc Let_def\<close>)
qed simp

text \<open>When the subscriber gives up.  It falls back to polling exactly when ten attempts in a row have been
  refused; until then every refusal is followed by a wait that starts at one second and doubles up to
  thirty, so that the ten refusals take 151 seconds of waiting; a connection that is made starts the
  count and the delay afresh.\<close>

theorem subscriber_gives_up:
  "(su_state (subscriber_run decode as subscriber_start) = SubPolling \<longleftrightarrow> (\<exists>u v. as = u @ replicate 10 Refused @ v)) \<and>
   map backoff_after [0..<9] = map from_secs [1, 2, 4, 8, 16, 30, 30, 30, 30] \<and>
   sum_list (su_sleeps (subscriber_run decode (replicate 10 Refused @ later) subscriber_start)) = from_secs 151"
proof (intro conjI)
  show "su_state (subscriber_run decode as subscriber_start) = SubPolling \<longleftrightarrow> (\<exists>u v. as = u @ replicate 10 Refused @ v)"
    using run_running run_stopped by blast
  show "map backoff_after [0..<9] = map from_secs [1, 2, 4, 8, 16, 30, 30, 30, 30]" by code_simp
  have "replicate 10 Refused = [Refused, Refused, Refused, Refused, Refused, Refused, Refused, Refused, Refused, Refused]"
    by code_simp
  then show "sum_list (su_sleeps (subscriber_run decode (replicate 10 Refused @ later) subscriber_start)) = from_secs 151"
    by (simp add: subscriber_turn_def subscriber_start_def Let_def from_secs_def)
qed

text \<open>A listener that accepts and closes is dialled again at once, however often it does so.\<close>

lemma subscriber_hot_loop:
  "su_state s \<noteq> SubPolling \<Longrightarrow>
   su_sleeps (subscriber_run decode (replicate n (Accepted b [])) s) = su_sleeps s \<and>
   su_state (subscriber_run decode (replicate n (Accepted b [])) s) \<noteq> SubPolling"
  by (induction n arbitrary: s) (auto simp: subscriber_turn_def Let_def)

end
