(* ===== verification/Op_Config.thy ===== *)
theory Op_Config
  imports Op_Launch
begin

text \<open>
  Command line and configuration of the terminal operator (\<open>tui-agent/src/config.rs\<close>).  Environment
  variables, the working directory, the build's manifest directory and the test for existing paths
  are inputs.
\<close>

section \<open>Options\<close>

record tui_options =
  to_state_root :: "string option"
  to_command_deck :: "string option"
  to_launch_root :: "string option"
  to_launch_runtime :: "launch_runtime option"
  to_terminal_binary :: "string option"
  to_tick_ms :: u64
  to_no_verify_gate :: bool

definition tui_options_default :: tui_options where
  "tui_options_default = \<lparr>to_state_root = None, to_command_deck = None, to_launch_root = None,
     to_launch_runtime = None, to_terminal_binary = None, to_tick_ms = 250, to_no_verify_gate = False\<rparr>"

record app_config =
  ac_state_root :: string
  ac_command_deck :: string
  ac_launch_root :: string
  ac_launch_runtime :: launch_runtime
  ac_terminal_binary :: string
  ac_tick_rate :: duration
  ac_no_verify_gate :: bool

section \<open>Arguments\<close>

text \<open>\<open>trim_start_matches(p)\<close>: every repetition of \<open>p\<close> at the front goes.\<close>

fun drop_prefixes :: "nat \<Rightarrow> string \<Rightarrow> string \<Rightarrow> string" where
  "drop_prefixes 0 p s = s"
| "drop_prefixes (Suc n) p s = (if starts_with s p then drop_prefixes n p (drop (length p) s) else s)"

definition trim_start_matches :: "string \<Rightarrow> string \<Rightarrow> string" where
  "trim_start_matches s p = drop_prefixes (length s) p s"

definition after_eq :: "string \<Rightarrow> string" where
  "after_eq s = tl (dropWhile (\<lambda>c. c \<noteq> CHR ''='') s)"

text \<open>\<open>parse::<u64>\<close> with the texts of \<open>ParseIntError\<close>.\<close>

definition parse_tick :: "string \<Rightarrow> string + u64" where
  "parse_tick s = (case parse_u64 s of
     Some w \<Rightarrow> Inr w
   | None \<Rightarrow> Inl (if s = [] then ''cannot parse integer from empty string''
       else if parse_nat (if hd s = CHR ''+'' then tl s else s) \<noteq> None
       then ''number too large to fit in target type'' else ''invalid digit found in string''))"

datatype cli_result = ShowHelp | Options tui_options

definition with_runtime :: "string \<Rightarrow> tui_options \<Rightarrow> string + tui_options" where
  "with_runtime v o' = map_sum id (\<lambda>r. o'\<lparr>to_launch_runtime := Some r\<rparr>) (runtime_from_str v)"

text \<open>The options that take their value from the next argument, with the text of their error.\<close>

definition value_option :: "string \<Rightarrow> (string \<times> (string \<Rightarrow> tui_options \<Rightarrow> string + tui_options)) option" where
  "value_option arg =
     (if arg = ''--state-root'' then Some (''--state-root'', \<lambda>v o'. Inr (o'\<lparr>to_state_root := Some v\<rparr>))
      else if arg = ''--deck'' \<or> arg = ''--command-deck'' then Some (''--deck'', \<lambda>v o'. Inr (o'\<lparr>to_command_deck := Some v\<rparr>))
      else if arg = ''--root'' then Some (''--root'', \<lambda>v o'. Inr (o'\<lparr>to_launch_root := Some v\<rparr>))
      else if arg = ''--runtime'' then Some (''--runtime'', with_runtime)
      else if arg = ''--terminal-binary'' \<or> arg = ''--zellij''
      then Some (''--terminal-binary'', \<lambda>v o'. Inr (o'\<lparr>to_terminal_binary := Some v\<rparr>))
      else if arg = ''--tick-ms''
      then Some (''--tick-ms'', \<lambda>v o'. map_sum id (\<lambda>ms. o'\<lparr>to_tick_ms := ms\<rparr>) (parse_tick v))
      else None)"

text \<open>Arguments that carry everything themselves.\<close>

definition inline_option :: "string \<Rightarrow> tui_options \<Rightarrow> (string + tui_options)" where
  "inline_option arg o' =
     (if starts_with arg ''--state-root='' then Inr (o'\<lparr>to_state_root := Some (trim_start_matches arg ''--state-root='')\<rparr>)
      else if starts_with arg ''--deck='' \<or> starts_with arg ''--command-deck=''
      then Inr (o'\<lparr>to_command_deck := Some (after_eq arg)\<rparr>)
      else if starts_with arg ''--root='' then Inr (o'\<lparr>to_launch_root := Some (trim_start_matches arg ''--root='')\<rparr>)
      else if starts_with arg ''--runtime='' then with_runtime (after_eq arg) o'
      else if starts_with arg ''--terminal-binary='' \<or> starts_with arg ''--zellij=''
      then Inr (o'\<lparr>to_terminal_binary := Some (after_eq arg)\<rparr>)
      else if arg = ''--no-verify-gate'' then Inr (o'\<lparr>to_no_verify_gate := True\<rparr>)
      else Inl (''unknown argument: '' @ arg))"

fun parse_loop :: "tui_options \<Rightarrow> string list \<Rightarrow> string + cli_result" where
  "parse_loop o' [] = Inr (Options o')"
| "parse_loop o' (arg # args) =
     (if arg = ''--help'' \<or> arg = ''-h'' then Inr ShowHelp
      else case value_option arg of
        Some (name, set_value) \<Rightarrow>
          (case args of
             [] \<Rightarrow> Inl (name @ '' requires a value'')
           | v # rest \<Rightarrow> (case set_value v o' of Inl e \<Rightarrow> Inl e | Inr o2 \<Rightarrow> parse_loop o2 rest))
      | None \<Rightarrow> (case inline_option arg o' of Inl e \<Rightarrow> Inl e | Inr o2 \<Rightarrow> parse_loop o2 args))"

definition parse_args :: "string list \<Rightarrow> string + cli_result" where
  "parse_args args = parse_loop tui_options_default args"

section \<open>Configuration\<close>

record tui_env =
  te_var :: "string \<Rightarrow> string option"
  te_exists :: "string \<Rightarrow> bool"
  te_manifest_dir :: string
  te_current_dir :: "string option"

definition nonempty_var :: "tui_env \<Rightarrow> string \<Rightarrow> string option" where
  "nonempty_var env name = (case te_var env name of Some [] \<Rightarrow> None | v \<Rightarrow> v)"

definition home_dir :: "tui_env \<Rightarrow> string" where
  "home_dir env = (case te_var env ''HOME'' of Some h \<Rightarrow> h | None \<Rightarrow> ''.'')"

definition default_vibecrafted_home :: "tui_env \<Rightarrow> string" where
  "default_vibecrafted_home env = (case nonempty_var env ''VIBECRAFTED_HOME'' of
     Some v \<Rightarrow> v | None \<Rightarrow> path_join (home_dir env) ''.vibecrafted'')"

definition default_state_root :: "tui_env \<Rightarrow> string" where
  "default_state_root env =
     (let home = default_vibecrafted_home env;
          candidates = map (path_join home) [''control_plane'', ''state/control-plane'', ''state'', ''control-plane'']
      in case find (te_exists env) candidates of Some c \<Rightarrow> c | None \<Rightarrow> path_join home ''control_plane'')"

definition default_command_deck :: "tui_env \<Rightarrow> string" where
  "default_command_deck env =
     (let repo = path_join (te_manifest_dir env) ''../scripts/vibecrafted''
      in if te_exists env repo then repo else ''vibecrafted'')"

definition default_terminal_binary :: "tui_env \<Rightarrow> string" where
  "default_terminal_binary env = (case nonempty_var env ''VIBECRAFTED_TERMINAL_BINARY'' of Some v \<Rightarrow> v | None \<Rightarrow> ''zellij'')"

definition default_launch_root :: "tui_env \<Rightarrow> string \<Rightarrow> string" where
  "default_launch_root env deck =
     (let fallback = (case te_current_dir env of Some d \<Rightarrow> d | None \<Rightarrow> ''.'') in
      case nonempty_var env ''VIBECRAFTED_ROOT'' of
        Some v \<Rightarrow> v
      | None \<Rightarrow>
          if file_name deck = Some ''vibecrafted'' \<and> Option.bind (path_parent deck) file_name = Some ''scripts''
          then (case Option.bind (path_parent deck) path_parent of Some root \<Rightarrow> root | None \<Rightarrow> fallback)
          else fallback)"

definition build_config :: "tui_env \<Rightarrow> tui_options \<Rightarrow> app_config" where
  "build_config env o' =
     (let deck = (case to_command_deck o' of Some d \<Rightarrow> d | None \<Rightarrow> default_command_deck env) in
      \<lparr>ac_state_root = (case to_state_root o' of Some r \<Rightarrow> r | None \<Rightarrow> default_state_root env),
       ac_command_deck = deck,
       ac_launch_root = (case to_launch_root o' of Some r \<Rightarrow> r | None \<Rightarrow> default_launch_root env deck),
       ac_launch_runtime = (case to_launch_runtime o' of Some r \<Rightarrow> r | None \<Rightarrow> runtime_default),
       ac_terminal_binary = (case to_terminal_binary o' of Some b \<Rightarrow> b | None \<Rightarrow> default_terminal_binary env),
       ac_tick_rate = from_millis (max (to_tick_ms o') 50),
       ac_no_verify_gate = to_no_verify_gate o'\<rparr>)"

section \<open>Writing options and reading them back\<close>

definition opt_arg :: "string \<Rightarrow> string option \<Rightarrow> string list" where
  "opt_arg flag v = (case v of Some x \<Rightarrow> [flag, x] | None \<Rightarrow> [])"

text \<open>The arguments that ask for given options.\<close>

definition option_args :: "tui_options \<Rightarrow> string list" where
  "option_args o' =
     opt_arg ''--state-root'' (to_state_root o') @ opt_arg ''--deck'' (to_command_deck o') @
     opt_arg ''--root'' (to_launch_root o') @
     opt_arg ''--runtime'' (map_option runtime_label (to_launch_runtime o')) @
     opt_arg ''--terminal-binary'' (to_terminal_binary o') @
     [''--tick-ms'', nat_str (unat (to_tick_ms o'))] @
     (if to_no_verify_gate o' then [''--no-verify-gate''] else [])"

lemma parse_tick_str: "parse_tick (nat_str (unat w)) = Inr w"
  by (simp add: parse_tick_def parse_u64_str)

lemma parse_opt_arg:
  assumes "flag \<noteq> ''--help''" "flag \<noteq> ''-h''" and "value_option flag = Some (name, f)"
    and "\<And>x. v = Some x \<Longrightarrow> f x o1 = Inr o2" and "v = None \<Longrightarrow> o2 = o1"
  shows "parse_loop o1 (opt_arg flag v @ rest) = parse_loop o2 rest"
  using assms by (cases v) (simp_all add: opt_arg_def)

lemma value_flags:
  "value_option ''--state-root'' = Some (''--state-root'', \<lambda>v o'. Inr (o'\<lparr>to_state_root := Some v\<rparr>))"
  "value_option ''--deck'' = Some (''--deck'', \<lambda>v o'. Inr (o'\<lparr>to_command_deck := Some v\<rparr>))"
  "value_option ''--root'' = Some (''--root'', \<lambda>v o'. Inr (o'\<lparr>to_launch_root := Some v\<rparr>))"
  "value_option ''--runtime'' = Some (''--runtime'', with_runtime)"
  "value_option ''--terminal-binary'' = Some (''--terminal-binary'', \<lambda>v o'. Inr (o'\<lparr>to_terminal_binary := Some v\<rparr>))"
  by (simp_all add: value_option_def)

text \<open>Every combination of options can be asked for.  For any options whatever, values that look like flags
  included, the arguments written for them are read back as exactly these options; the resulting
  configuration never refreshes faster than every fifty milliseconds.\<close>

theorem options_roundtrip:
  "parse_args (option_args o') = Inr (Options o') \<and> from_millis 50 \<le> ac_tick_rate (build_config env o')"
proof
  let ?d = tui_options_default
  let ?o1 = "?d\<lparr>to_state_root := to_state_root o'\<rparr>"
  let ?o2 = "?o1\<lparr>to_command_deck := to_command_deck o'\<rparr>"
  let ?o3 = "?o2\<lparr>to_launch_root := to_launch_root o'\<rparr>"
  let ?o4 = "?o3\<lparr>to_launch_runtime := to_launch_runtime o'\<rparr>"
  let ?o5 = "?o4\<lparr>to_terminal_binary := to_terminal_binary o'\<rparr>"
  let ?o6 = "?o5\<lparr>to_tick_ms := to_tick_ms o'\<rparr>"
  have 1: "parse_loop ?d (opt_arg ''--state-root'' (to_state_root o') @ rest) = parse_loop ?o1 rest" for rest
    by (rule parse_opt_arg [OF _ _ value_flags(1)]) (simp_all add: tui_options_default_def)
  have 2: "parse_loop ?o1 (opt_arg ''--deck'' (to_command_deck o') @ rest) = parse_loop ?o2 rest" for rest
    by (rule parse_opt_arg [OF _ _ value_flags(2)]) (simp_all add: tui_options_default_def)
  have 3: "parse_loop ?o2 (opt_arg ''--root'' (to_launch_root o') @ rest) = parse_loop ?o3 rest" for rest
    by (rule parse_opt_arg [OF _ _ value_flags(3)]) (simp_all add: tui_options_default_def)
  have 4: "parse_loop ?o3 (opt_arg ''--runtime'' (map_option runtime_label (to_launch_runtime o')) @ rest) = parse_loop ?o4 rest" for rest
    by (rule parse_opt_arg [OF _ _ value_flags(4)])
      (auto simp: tui_options_default_def with_runtime_def runtime_roundtrip)
  have 5: "parse_loop ?o4 (opt_arg ''--terminal-binary'' (to_terminal_binary o') @ rest) = parse_loop ?o5 rest" for rest
    by (rule parse_opt_arg [OF _ _ value_flags(5)]) (simp_all add: tui_options_default_def)
  have 6: "parse_loop ?o5 (''--tick-ms'' # nat_str (unat (to_tick_ms o')) # rest) = parse_loop ?o6 rest" for rest
    by (simp add: value_option_def parse_tick_str)
  have 7: "parse_loop ?o6 (if to_no_verify_gate o' then [''--no-verify-gate''] else []) = Inr (Options o')"
    by (simp add: value_option_def inline_option_def starts_with_def tui_options_default_def)
  show "parse_args (option_args o') = Inr (Options o')"
    unfolding parse_args_def option_args_def 1 2 3 4 5 using 6 7 by simp
  have "(50 :: u64) \<le> max (to_tick_ms o') 50" by simp
  then show "from_millis 50 \<le> ac_tick_rate (build_config env o')"
    by (simp add: build_config_def Let_def from_millis_def word_le_nat_alt)
qed

end
