(* ===== verification/Op_Skills.thy ===== *)
theory Op_Skills
  imports Op_Launch
begin

text \<open>
  The catalogue of skills of the terminal operator (\<open>tui-agent/src/skills_catalog.rs\<close>) and the command
  that launches one.  \<open>command_token\<close> is partial in the source (\<open>expect\<close>); here the panic is \<open>None\<close>.
\<close>

section \<open>Agents and entries\<close>

datatype skill_agent = Claude | Codex | Gemini | AnyAgent

fun agent_label :: "skill_agent \<Rightarrow> string" where
  "agent_label Claude = ''claude''"
| "agent_label Codex = ''codex''"
| "agent_label Gemini = ''gemini''"
| "agent_label AnyAgent = ''any''"

definition from_cli_token :: "string \<Rightarrow> skill_agent" where
  "from_cli_token raw =
     (if raw = ''claude'' then Claude else if raw = ''gemini'' then Gemini
      else if raw = ''codex'' then Codex else AnyAgent)"

fun resolved_cli_token :: "skill_agent \<Rightarrow> skill_agent \<Rightarrow> string" where
  "resolved_cli_token Claude _ = ''claude''"
| "resolved_cli_token Codex _ = ''codex''"
| "resolved_cli_token Gemini _ = ''gemini''"
| "resolved_cli_token AnyAgent Claude = ''claude''"
| "resolved_cli_token AnyAgent Gemini = ''gemini''"
| "resolved_cli_token AnyAgent _ = ''codex''"

datatype skill_payload = PayloadPrompt string | PayloadFile string | NoPayload

datatype skill_payload_kind = PayloadOptional | PromptOrFile | PayloadNone

record skill_entry =
  se_slug :: string
  se_display :: string
  se_one_line :: string
  se_default_agent :: skill_agent
  se_accepts :: skill_payload_kind

definition skill_entry_of :: "string \<Rightarrow> string \<Rightarrow> string \<Rightarrow> skill_agent \<Rightarrow> skill_payload_kind \<Rightarrow> skill_entry" where
  "skill_entry_of slug display one_line agent accepts = \<lparr>se_slug = slug, se_display = display,
     se_one_line = one_line, se_default_agent = agent, se_accepts = accepts\<rparr>"

definition strip_prefix :: "string \<Rightarrow> string \<Rightarrow> string option" where
  "strip_prefix s p = (if starts_with s p then Some (drop (length p) s) else None)"

definition command_token :: "skill_entry \<Rightarrow> string option" where
  "command_token e = strip_prefix (se_slug e) ''vc-''"

definition emphasized :: "skill_entry \<Rightarrow> bool" where
  "emphasized e = (se_slug e = ''vc-polarize'')"

definition CATALOG :: "skill_entry list" where
  "CATALOG = [
     skill_entry_of ''vc-init'' ''Init'' ''Technical due diligence'' AnyAgent PayloadOptional,
     skill_entry_of ''vc-workflow'' ''Workflow'' ''Examine, research, implement'' AnyAgent PromptOrFile,
     skill_entry_of ''vc-research'' ''Research'' ''Standalone research pass'' AnyAgent PromptOrFile,
     skill_entry_of ''vc-review'' ''Review'' ''Bounded review pipeline'' AnyAgent PromptOrFile,
     skill_entry_of ''vc-marbles'' ''Marbles'' ''Truth convergence loop'' AnyAgent PromptOrFile,
     skill_entry_of ''vc-polarize'' ''Polarize'' ''One sharp truth after marbles'' Codex PromptOrFile,
     skill_entry_of ''vc-dou'' ''DoU'' ''Definition of Undone audit'' AnyAgent PromptOrFile,
     skill_entry_of ''vc-hydrate'' ''Hydrate'' ''Package and GTM hydration'' AnyAgent PromptOrFile,
     skill_entry_of ''vc-decorate'' ''Decorate'' ''Late-stage visual finish'' AnyAgent PromptOrFile,
     skill_entry_of ''vc-release'' ''Release'' ''Outward ship path'' AnyAgent PromptOrFile,
     skill_entry_of ''vc-ownership'' ''Ownership'' ''Full-spectrum ownership mode'' AnyAgent PromptOrFile,
     skill_entry_of ''vc-partner'' ''Partner'' ''Executive debugging partner'' AnyAgent PromptOrFile,
     skill_entry_of ''vc-followup'' ''Followup'' ''Post-implementation audit'' AnyAgent PromptOrFile,
     skill_entry_of ''vc-prune'' ''Prune'' ''Repository curation'' AnyAgent PromptOrFile,
     skill_entry_of ''vc-intents'' ''Intents'' ''Intent-to-runtime truth audit'' AnyAgent PromptOrFile,
     skill_entry_of ''vc-scaffold'' ''Scaffold'' ''Founder-first architecture plan'' AnyAgent PromptOrFile,
     skill_entry_of ''vc-implement'' ''Implement'' ''End-to-end implementation'' AnyAgent PromptOrFile,
     skill_entry_of ''vc-justdo'' ''JustDo'' ''Implement alias'' AnyAgent PromptOrFile,
     skill_entry_of ''vc-delegate'' ''Delegate'' ''Bounded native delegation'' AnyAgent PromptOrFile,
     skill_entry_of ''vc-agents'' ''Agents'' ''External agent fleet entry'' AnyAgent PromptOrFile]"

definition catalog_entry :: "string \<Rightarrow> skill_entry option" where
  "catalog_entry slug = find (\<lambda>e. se_slug e = slug) CATALOG"

section \<open>The launch command\<close>

definition build_skill_launch_command ::
  "string \<Rightarrow> string \<Rightarrow> skill_agent \<Rightarrow> skill_agent \<Rightarrow> skill_payload \<Rightarrow> (string \<times> string) list \<Rightarrow> launch_command" where
  "build_skill_launch_command deck skill agent fallback payload env =
     \<lparr>lc_program = deck,
      lc_args = [case strip_prefix skill ''vc-'' of Some s \<Rightarrow> s | None \<Rightarrow> skill, resolved_cli_token agent fallback] @
        (case payload of
           PayloadPrompt p \<Rightarrow> if trim p \<noteq> [] then [''--prompt'', p] else []
         | PayloadFile path \<Rightarrow> [''--file'', path]
         | NoPayload \<Rightarrow> []),
      lc_env = env\<rparr>"

section \<open>Properties\<close>

text \<open>Every entry can be named on the command line: the prefix the source expects is there.\<close>

lemma command_token_Some: "\<forall>e \<in> set CATALOG. command_token e = Some (drop 3 (se_slug e)) \<and> drop 3 (se_slug e) \<noteq> []"
  by code_simp

lemma catalog_distinct: "distinct (map se_slug CATALOG)"
  by code_simp

lemma catalog_entry_slug: "e \<in> set CATALOG \<Longrightarrow> catalog_entry (se_slug e) = Some e"
  unfolding catalog_entry_def by (rule find_distinct_key [OF catalog_distinct])

lemma resolved_token_known: "resolved_cli_token a f \<in> {''claude'', ''codex'', ''gemini''}"
  by (cases a; cases f) simp_all

lemma resolved_token_roundtrip:
  "from_cli_token (resolved_cli_token a f) = (if a \<noteq> AnyAgent then a else if f = AnyAgent then Codex else f)"
  by (cases a; cases f) (simp_all add: from_cli_token_def)

text \<open>The two arguments in front of the payload are never flags, whoever the agent is.\<close>

lemma skill_token_not_flag: "\<forall>e \<in> set CATALOG. drop 3 (se_slug e) \<noteq> ''--session''"
  by code_simp

text \<open>launching a skill.  Every entry of the catalogue is found again under its slug and has a command
  word, so the panic in \<open>command_token\<close> is unreachable; the command that launches it starts with this
  word and the name of one of the three agents, carries a prompt exactly when it is not blank, and
  whatever prompt or path is given, even one that looks like a flag, no session is read out of the
  command: it is never taken for a zellij session to be waited for.\<close>

theorem skill_launch:
  fixes deck agent fallback payload env
  defines "c \<equiv> \<lambda>e. build_skill_launch_command deck (se_slug e) agent fallback payload env"
  assumes "e \<in> set CATALOG"
  shows "catalog_entry (se_slug e) = Some e \<and>
    (\<exists>w. command_token e = Some w \<and> take 2 (lc_args (c e)) = [w, resolved_cli_token agent fallback]) \<and>
    from_cli_token (lc_args (c e) ! 1) \<noteq> AnyAgent \<and>
    drop 2 (lc_args (c e)) =
      (case payload of PayloadPrompt p \<Rightarrow> if trim p = [] then [] else [''--prompt'', p]
        | PayloadFile f \<Rightarrow> [''--file'', f] | NoPayload \<Rightarrow> []) \<and>
    probe_of (c e) = None"
proof -
  from assms command_token_Some have tok: "command_token e = Some (drop 3 (se_slug e))" by blast
  then have strip: "strip_prefix (se_slug e) ''vc-'' = Some (drop 3 (se_slug e))"
    by (simp add: command_token_def)
  have ns: "drop 3 (se_slug e) \<noteq> ''--session''" using assms skill_token_not_flag by blast
  have rs: "resolved_cli_token agent fallback \<noteq> ''--session''"
    by (cases agent; cases fallback) simp_all
  have agent: "from_cli_token (resolved_cli_token agent fallback) \<noteq> AnyAgent"
    by (simp add: resolved_token_roundtrip)
  have "flag_value ''--session'' (lc_args (c e)) = None"
    using ns rs by (simp add: c_def build_skill_launch_command_def strip split: skill_payload.split)
  then show ?thesis
    using catalog_entry_slug [OF assms(2)] tok agent
    by (simp add: c_def build_skill_launch_command_def strip probe_of_def split: skill_payload.split)
qed

theorem skill_launch_witness:
  "catalog_entry ''vc-prune'' = Some (CATALOG ! 13) \<and>
   probe_of (build_skill_launch_command ''vc'' ''vc-prune'' AnyAgent Gemini (PayloadPrompt ''--session'') []) = None"
proof -
  have in_cat: "CATALOG ! 13 \<in> set CATALOG" and slug: "se_slug (CATALOG ! 13) = ''vc-prune''" by code_simp+
  show ?thesis
    using skill_launch [OF in_cat, where deck = "''vc''" and agent = AnyAgent and fallback = Gemini
      and payload = "PayloadPrompt ''--session''" and env = "[]"]
    unfolding slug by blast
qed

end
