(* ===== verification/Op_Polarize.thy ===== *)
theory Op_Polarize
  imports Op_Runs Op_Decode
begin

text \<open>
  Polarize intents of the terminal operator (\<open>tui-agent/src/polarize.rs\<close>): prism payloads are looked for
  below the artifacts, read, and shown newest first.  The file system is the view of the run loader
  with the modification times beside it; the JSON text reader is a parameter.
\<close>

type_synonym u8 = "8 word"

section \<open>Bands\<close>

datatype polarize_band = Abort | Memo | Pass | Doctrine

definition from_score :: "u8 \<Rightarrow> polarize_band" where
  "from_score score = (if score \<le> 4 then Abort else if score \<le> 8 then Memo else if score \<le> 12 then Pass else Doctrine)"

fun band_label :: "polarize_band \<Rightarrow> string" where
  "band_label Abort = ''abort''"
| "band_label Memo = ''memo''"
| "band_label Pass = ''pass''"
| "band_label Doctrine = ''doctrine''"

fun recommended_action :: "polarize_band \<Rightarrow> string" where
  "recommended_action Abort = ''abort before agent dispatch''"
| "recommended_action Memo = ''memo only''"
| "recommended_action Pass = ''full polarize pass''"
| "recommended_action Doctrine = ''doctrine pass with regression contract''"

definition parse_band :: "string \<Rightarrow> polarize_band option" where
  "parse_band raw =
     (let s = to_ascii_lowercase (trim raw) in
      if s = ''abort'' then Some Abort else if s = ''memo'' then Some Memo
      else if s = ''pass'' then Some Pass else if s = ''doctrine'' then Some Doctrine else None)"

record polarize_intent =
  pi_band :: polarize_band
  pi_score :: u8
  pi_run_id :: string
  pi_prism_path :: string

definition intent_summary_line :: "polarize_intent \<Rightarrow> string" where
  "intent_summary_line i = band_label (pi_band i) @ '' score '' @ nat_str (unat (pi_score i)) @ '' run '' @
     pi_run_id i @ '' -> '' @ recommended_action (pi_band i) @ '' ('' @ pi_prism_path i @ '')''"

section \<open>Payloads\<close>

record prism_payload =
  pp_total_score :: "u64 option"
  pp_score :: "u64 option"
  pp_run_id :: "string option"
  pp_band :: "string option"
  pp_band_action :: "string option"

text \<open>The reader derived for \<open>PrismPayload\<close>: every field has a default, the value must be an
  object (the form as an array of fields, which nothing writes, is left out).\<close>

definition de_prism_payload :: "json \<Rightarrow> prism_payload option" where
  "de_prism_payload v =
     (case v of JObj _ \<Rightarrow>
        Option.bind (de_default de_u64 v ''total_score'') (\<lambda>total.
        Option.bind (de_default de_u64 v ''score'') (\<lambda>score.
        Option.bind (de_default as_str v ''run_id'') (\<lambda>run.
        Option.bind (de_default as_str v ''band'') (\<lambda>band.
        Option.bind (de_default as_str v ''band_action'') (\<lambda>action.
          Some \<lparr>pp_total_score = total, pp_score = score, pp_run_id = run, pp_band = band, pp_band_action = action\<rparr>)))))
      | _ \<Rightarrow> None)"

definition is_polarize_prism :: "string \<Rightarrow> bool" where
  "is_polarize_prism p = (Option.bind (Option.bind (path_parent p) path_parent) file_name = Some ''polarize'')"

definition safe_prism_file :: "dir_view \<Rightarrow> string \<Rightarrow> string + string" where
  "safe_prism_file fs p =
     (if file_name p \<noteq> Some ''prism.json'' then Inl (''refusing non-prism payload '' @ p)
      else case dv_kind fs p of
        None \<Rightarrow> Inl (''failed to inspect prism payload '' @ p)
      | Some k \<Rightarrow>
          if k \<noteq> PlainFile then Inl (''refusing unsafe prism payload '' @ p)
          else (case dv_canonicalize fs p of
              None \<Rightarrow> Inl (''failed to canonicalize prism payload '' @ p)
            | Some c \<Rightarrow> if is_polarize_prism c then Inr c else Inl (''refusing non-polarize prism payload '' @ c)))"

definition or_else :: "'a option \<Rightarrow> 'a option \<Rightarrow> 'a option" where
  "or_else a b = (case a of None \<Rightarrow> b | _ \<Rightarrow> a)"

definition payload_score :: "prism_payload \<Rightarrow> u8" where
  "payload_score p = of_nat (unat (min (case or_else (pp_total_score p) (pp_score p) of Some s \<Rightarrow> s | None \<Rightarrow> 0) 15))"

definition payload_band :: "prism_payload \<Rightarrow> polarize_band" where
  "payload_band p = (case or_else (Option.bind (pp_band_action p) parse_band) (Option.bind (pp_band p) parse_band) of
     Some b \<Rightarrow> b | None \<Rightarrow> from_score (payload_score p))"

definition payload_run_id :: "string \<Rightarrow> prism_payload \<Rightarrow> string" where
  "payload_run_id path p =
     (case or_else (case pp_run_id p of Some r \<Rightarrow> if trim r \<noteq> [] then Some r else None | None \<Rightarrow> None)
        (Option.bind (path_parent path) file_name) of
      Some r \<Rightarrow> r | None \<Rightarrow> ''unknown'')"

definition read_intent :: "(string \<Rightarrow> json option) \<Rightarrow> dir_view \<Rightarrow> string \<Rightarrow> string + polarize_intent" where
  "read_intent parse fs p0 =
     (case safe_prism_file fs p0 of
        Inl e \<Rightarrow> Inl e
      | Inr p \<Rightarrow> (case dv_read fs p of
          None \<Rightarrow> Inl (''failed to read prism payload '' @ p)
        | Some text \<Rightarrow> (case Option.bind (parse text) de_prism_payload of
            None \<Rightarrow> Inl (''failed to parse prism payload '' @ p)
          | Some payload \<Rightarrow> Inr \<lparr>pi_band = payload_band payload, pi_score = payload_score payload,
              pi_run_id = payload_run_id p payload, pi_prism_path = p\<rparr>)))"

definition prism_preview_lines :: "dir_view \<Rightarrow> string \<Rightarrow> string + string list" where
  "prism_preview_lines fs p0 =
     (case safe_prism_file fs p0 of
        Inl e \<Rightarrow> Inl e
      | Inr p \<Rightarrow> (case dv_read fs p of
          None \<Rightarrow> Inl (''failed to read prism payload '' @ p)
        | Some text \<Rightarrow> Inr (take 400 (str_lines text) @
            (if 400 < length (str_lines text) then [''[truncated after 400 lines]''] else []))))"

section \<open>Discovery\<close>

definition is_plain_dir :: "dir_view \<Rightarrow> string \<Rightarrow> bool" where
  "is_plain_dir fs p = (dv_kind fs p = Some PlainDir)"

function collect_prisms :: "dir_view \<Rightarrow> string \<Rightarrow> nat \<Rightarrow> string list" where
  "collect_prisms fs p depth =
     (if 6 < depth \<or> \<not> is_plain_dir fs p then []
      else case dv_read_dir fs p of
        None \<Rightarrow> []
      | Some entries \<Rightarrow> concat (map (\<lambda>e.
          if file_name e = Some ''prism.json'' then (case safe_prism_file fs e of Inr c \<Rightarrow> [c] | Inl _ \<Rightarrow> [])
          else if is_plain_dir fs e then collect_prisms fs e (depth + 1) else []) entries))"
  by pat_completeness auto
termination by (relation "measure (\<lambda>(fs, p, depth). 7 - depth)") auto

declare collect_prisms.simps [simp del]

definition discover_prism_files :: "dir_view \<Rightarrow> string \<Rightarrow> string list" where
  "discover_prism_files fs home = sort_by cmp_path (collect_prisms fs (path_join home ''artifacts'') 0)"

text \<open>Modification times, and the start of the epoch where there is none.\<close>

definition mtime :: "(string \<Rightarrow> int option) \<Rightarrow> string \<Rightarrow> int" where
  "mtime modified p = (case modified p of Some t \<Rightarrow> t | None \<Rightarrow> 0)"

definition compare_rows :: "int \<times> polarize_intent \<Rightarrow> int \<times> polarize_intent \<Rightarrow> ord_result" where
  "compare_rows l r = then_with (cmp_of (fst r) (fst l)) (cmp_of (pi_run_id (snd r)) (pi_run_id (snd l)))"

definition intent_rows ::
  "(string \<Rightarrow> json option) \<Rightarrow> (string \<Rightarrow> int option) \<Rightarrow> dir_view \<Rightarrow> string \<Rightarrow> (int \<times> polarize_intent) list" where
  "intent_rows parse modified fs home =
     List.map_filter (\<lambda>p. case read_intent parse fs p of Inr i \<Rightarrow> Some (mtime modified p, i) | Inl _ \<Rightarrow> None)
       (discover_prism_files fs home)"

definition current_intents_from_home ::
  "(string \<Rightarrow> json option) \<Rightarrow> (string \<Rightarrow> int option) \<Rightarrow> dir_view \<Rightarrow> string \<Rightarrow> polarize_intent list" where
  "current_intents_from_home parse modified fs home = map snd (sort_by compare_rows (intent_rows parse modified fs home))"

definition current_intents ::
  "(string \<Rightarrow> json option) \<Rightarrow> (string \<Rightarrow> int option) \<Rightarrow> dir_view \<Rightarrow> string \<Rightarrow> polarize_intent list" where
  "current_intents parse modified fs home = take 8 (current_intents_from_home parse modified fs home)"

section \<open>What is found\<close>

text \<open>The reference for the search: directories reached by a number of steps from one directory to an
  entry of it, neither through links nor through an entry with the name of a payload.\<close>

inductive reached :: "dir_view \<Rightarrow> string \<Rightarrow> nat \<Rightarrow> string \<Rightarrow> bool" for fs where
  here: "is_plain_dir fs p \<Longrightarrow> reached fs p 0 p"
| down: "\<lbrakk>is_plain_dir fs p; dv_read_dir fs p = Some es; e \<in> set es; file_name e \<noteq> Some ''prism.json'';
    reached fs e n d\<rbrakk> \<Longrightarrow> reached fs p (Suc n) d"

inductive_cases reached_0E: "reached fs p 0 d"
inductive_cases reached_SucE: "reached fs p (Suc n) d"

lemma reached_dirs: "reached fs p n d \<Longrightarrow> is_plain_dir fs p \<and> is_plain_dir fs d"
  by (induction rule: reached.induct) auto

definition prism_in :: "dir_view \<Rightarrow> string \<Rightarrow> string \<Rightarrow> bool" where
  "prism_in fs d f = (\<exists>es e. dv_read_dir fs d = Some es \<and> e \<in> set es \<and>
     file_name e = Some ''prism.json'' \<and> safe_prism_file fs e = Inr f)"

lemma safe_prism_file_Inr:
  "safe_prism_file fs p = Inr c \<Longrightarrow> file_name p = Some ''prism.json'' \<and> dv_kind fs p = Some PlainFile \<and>
     dv_canonicalize fs p = Some c \<and> is_polarize_prism c"
  by (simp add: safe_prism_file_def split: if_splits option.splits)

lemma found_iff: "f \<in> set (case safe_prism_file fs e of Inr c \<Rightarrow> [c] | Inl _ \<Rightarrow> []) \<longleftrightarrow> safe_prism_file fs e = Inr f"
  by (auto split: sum.split)

lemma in_entries:
  "f \<in> set (case m of None \<Rightarrow> [] | Some es \<Rightarrow> concat (map g es)) \<longleftrightarrow> (\<exists>es e. m = Some es \<and> e \<in> set es \<and> f \<in> set (g e))"
  by (auto split: option.split)

lemma collect_prisms_step:
  "f \<in> set (collect_prisms fs p depth) \<longleftrightarrow> depth \<le> 6 \<and> is_plain_dir fs p \<and>
     (prism_in fs p f \<or> (\<exists>es e. dv_read_dir fs p = Some es \<and> e \<in> set es \<and>
       file_name e \<noteq> Some ''prism.json'' \<and> is_plain_dir fs e \<and> f \<in> set (collect_prisms fs e (Suc depth))))"
proof (cases "depth \<le> 6 \<and> is_plain_dir fs p")
  case True
  let ?part = "\<lambda>e. if file_name e = Some ''prism.json'' then (case safe_prism_file fs e of Inr c \<Rightarrow> [c] | Inl _ \<Rightarrow> [])
          else if is_plain_dir fs e then collect_prisms fs e (depth + 1) else []"
  have part: "f \<in> set (?part e) \<longleftrightarrow> file_name e = Some ''prism.json'' \<and> safe_prism_file fs e = Inr f \<or>
      file_name e \<noteq> Some ''prism.json'' \<and> is_plain_dir fs e \<and> f \<in> set (collect_prisms fs e (Suc depth))" for e
    by (simp add: found_iff eq_commute)
  have eq: "collect_prisms fs p depth =
      (case dv_read_dir fs p of None \<Rightarrow> [] | Some entries \<Rightarrow> concat (map ?part entries))"
    using True by (subst collect_prisms.simps) simp
  show ?thesis unfolding eq in_entries part prism_in_def using True by blast
qed (subst collect_prisms.simps, auto)

lemma collect_prisms_reached:
  "f \<in> set (collect_prisms fs p depth) \<longleftrightarrow> (\<exists>n d. depth + n \<le> 6 \<and> reached fs p n d \<and> prism_in fs d f)"
proof (induction fs p depth rule: collect_prisms.induct)
  case (1 fs p depth)
  have IH: "f \<in> set (collect_prisms fs e (Suc depth)) \<longleftrightarrow>
      (\<exists>n d. Suc depth + n \<le> 6 \<and> reached fs e n d \<and> prism_in fs d f)"
    if "depth \<le> 6" "is_plain_dir fs p" "dv_read_dir fs p = Some es" "e \<in> set es"
      "file_name e \<noteq> Some ''prism.json''" "is_plain_dir fs e" for es e
    using 1 that by auto
  show ?case (is "?l \<longleftrightarrow> ?r")
  proof
    assume ?l
    then consider "depth \<le> 6" "is_plain_dir fs p" "prism_in fs p f"
      | es e where "depth \<le> 6" "is_plain_dir fs p" "dv_read_dir fs p = Some es" "e \<in> set es"
          "file_name e \<noteq> Some ''prism.json''" "is_plain_dir fs e" "f \<in> set (collect_prisms fs e (Suc depth))"
      unfolding collect_prisms_step [of f fs p depth] by blast
    then show ?r
    proof cases
      case 1
      then show ?thesis by (intro exI [of _ 0] exI [of _ p]) (simp add: reached.here)
    next
      case 2
      then obtain n d where "Suc depth + n \<le> 6" "reached fs e n d" "prism_in fs d f" using IH by blast
      with 2 show ?thesis by (intro exI [of _ "Suc n"] exI [of _ d]) (auto intro: reached.down)
    qed
  next
    assume ?r
    then obtain n d where n: "depth + n \<le> 6" "reached fs p n d" "prism_in fs d f" by blast
    show ?l
    proof (cases n)
      case 0
      with n show ?thesis unfolding collect_prisms_step [of f fs p depth] by (auto elim: reached_0E)
    next
      case (Suc m)
      with n obtain es e where e: "is_plain_dir fs p" "dv_read_dir fs p = Some es" "e \<in> set es"
        "file_name e \<noteq> Some ''prism.json''" "reached fs e m d" by (auto elim: reached_SucE)
      then have "f \<in> set (collect_prisms fs e (Suc depth))"
        using IH [of es e] n Suc reached_dirs [OF e(5)] by auto
      with e n show ?thesis unfolding collect_prisms_step [of f fs p depth] using reached_dirs [OF e(5)] by auto
    qed
  qed
qed

text \<open>C25: the search for payloads equals its reference.  The recursive walk returns on every file system,
  one whose directories contain each other included, and finds exactly the payloads that lie in a
  directory reached from the artifacts in at most six steps without following a link; each is a
  regular file two levels below a directory named \<open>polarize\<close>.\<close>

theorem discover_equiv:
  "set (discover_prism_files fs home) =
     {f. \<exists>n d. n \<le> 6 \<and> reached fs (path_join home ''artifacts'') n d \<and> prism_in fs d f} \<and>
   list_all is_polarize_prism (discover_prism_files fs home)"
proof
  show eq: "set (discover_prism_files fs home) =
     {f. \<exists>n d. n \<le> 6 \<and> reached fs (path_join home ''artifacts'') n d \<and> prism_in fs d f}"
    unfolding discover_prism_files_def using collect_prisms_reached [of _ fs "path_join home ''artifacts''" 0] by auto
  show "list_all is_polarize_prism (discover_prism_files fs home)"
    unfolding list_all_iff eq
    by (auto simp: prism_in_def dest: safe_prism_file_Inr)
qed

section \<open>What is shown\<close>

lemma payload_score_nat:
  "unat (payload_score p) = min (case or_else (pp_total_score p) (pp_score p) of Some s \<Rightarrow> unat s | None \<Rightarrow> 0) 15"
proof -
  have small: "unat (of_nat n :: u8) = n" if "n \<le> 15" for n
    using that by (simp add: unsigned_of_nat take_bit_nat_eq_self)
  have le: "unat (min s 15) = min (unat s) 15" for s :: u64
    by (simp add: min_def word_le_nat_alt)
  have "unat (of_nat (unat (min s 15)) :: u8) = min (unat s) 15" for s :: u64
    by (simp only: le small [OF min.cobounded2])
  from this [of "case or_else (pp_total_score p) (pp_score p) of Some s \<Rightarrow> s | None \<Rightarrow> 0"]
  show ?thesis unfolding payload_score_def by (simp split: option.split)
qed

interpretation intent_order: comparison compare_rows
  unfolding compare_rows_def
  by (intro comparison_then comparison_rev [OF comparison_key [OF comparison_cmp_of]])

lemma intent_rows_props:
  assumes "(t, i) \<in> set (intent_rows parse modified fs home)"
  shows "unat (pi_score i) \<le> 15" and "\<exists>p \<in> set (discover_prism_files fs home). t = mtime modified p \<and> read_intent parse fs p = Inr i"
proof -
  from assms obtain p where p: "p \<in> set (discover_prism_files fs home)" "read_intent parse fs p = Inr i" "t = mtime modified p"
    by (auto simp: intent_rows_def map_filter_def split: sum.splits)
  then show "\<exists>p \<in> set (discover_prism_files fs home). t = mtime modified p \<and> read_intent parse fs p = Inr i" by blast
  from p(2) obtain q where "pi_score i = payload_score q"
    by (auto simp: read_intent_def split: sum.splits option.splits)
  then show "unat (pi_score i) \<le> 15" by (simp add: payload_score_nat)
qed

text \<open>The intents on the board.  At most eight are shown; each was read from a payload that was found,
  and its score lies between 0 and 15 however large the number in the payload is; they stand in order
  of falling modification time, and no payload that was left out is newer than one that is shown.\<close>

theorem intents_shown:
  fixes parse modified fs home
  defines "rows \<equiv> sort_by compare_rows (intent_rows parse modified fs home)"
  shows "current_intents parse modified fs home = map snd (take 8 rows) \<and>
    length (current_intents parse modified fs home) \<le> 8 \<and>
    sorted_wrt (\<lambda>l r. r \<le> l) (map fst rows) \<and>
    (\<forall>(t, i) \<in> set (take 8 rows). unat (pi_score i) \<le> 15 \<and>
      (\<exists>p \<in> set (discover_prism_files fs home). t = mtime modified p \<and> read_intent parse fs p = Inr i) \<and>
      (\<forall>(t', i') \<in> set (drop 8 rows). t' \<le> t))"
proof (intro conjI)
  show "current_intents parse modified fs home = map snd (take 8 rows)"
    by (simp add: current_intents_def current_intents_from_home_def rows_def take_map)
  show "length (current_intents parse modified fs home) \<le> 8" by (simp add: current_intents_def)
  have le: "fst y \<le> fst x" if "compare_rows x y \<noteq> OGreater" for x y
    using that by (auto simp: compare_rows_def then_with_eq)
  show "sorted_wrt (\<lambda>l r. r \<le> l) (map fst rows)"
    unfolding sorted_wrt_map rows_def
    by (rule sorted_wrt_mono_rel [OF _ intent_order.sorted_sort_by]) (rule le)
  show "\<forall>(t, i) \<in> set (take 8 rows). unat (pi_score i) \<le> 15 \<and>
      (\<exists>p \<in> set (discover_prism_files fs home). t = mtime modified p \<and> read_intent parse fs p = Inr i) \<and>
      (\<forall>(t', i') \<in> set (drop 8 rows). t' \<le> t)"
  proof clarify
    fix t i assume ti: "(t, i) \<in> set (take 8 rows)"
    then have "(t, i) \<in> set (intent_rows parse modified fs home)"
      using set_take_subset [of 8 rows] by (auto simp: rows_def)
    moreover have "\<forall>(t', i') \<in> set (drop 8 rows). t' \<le> t"
      using le [OF intent_order.sort_by_take [OF ti [unfolded rows_def]]] unfolding rows_def by fastforce
    ultimately show "unat (pi_score i) \<le> 15 \<and>
      (\<exists>p \<in> set (discover_prism_files fs home). t = mtime modified p \<and> read_intent parse fs p = Inr i) \<and>
      (\<forall>(t', i') \<in> set (drop 8 rows). t' \<le> t)"
      using intent_rows_props [of t i parse modified fs home] by blast
  qed
qed

definition example_prisms :: dir_view where
  "example_prisms = \<lparr>dv_exists = (\<lambda>_. True),
     dv_kind = (\<lambda>p. if p = ''/h/artifacts/polarize/r1/prism.json'' then Some PlainFile else Some PlainDir),
     dv_canonicalize = Some,
     dv_read_dir = (\<lambda>p. if p = ''/h/artifacts'' then Some [''/h/artifacts/polarize'']
       else if p = ''/h/artifacts/polarize'' then Some [''/h/artifacts/polarize/r1'']
       else if p = ''/h/artifacts/polarize/r1'' then Some [''/h/artifacts/polarize/r1/prism.json'', ''/h/artifacts'']
       else None),
     dv_read = (\<lambda>_. Some ''{}'')\<rparr>"

text \<open>A directory that contains its own ancestor: the payload is found on each of two rounds.\<close>

theorem intents_shown_witness:
  "map pi_run_id (current_intents (\<lambda>_. Some (JObj [(''score'', JInt 99)])) (\<lambda>_. Some 7) example_prisms ''/h'') = [''r1'', ''r1''] \<and>
   (\<forall>i \<in> set (current_intents (\<lambda>_. Some (JObj [(''score'', JInt 99)])) (\<lambda>_. Some 7) example_prisms ''/h''). unat (pi_score i) \<le> 15)"
proof -
  let ?rows = "sort_by compare_rows (intent_rows (\<lambda>_. Some (JObj [(''score'', JInt 99)])) (\<lambda>_. Some 7) example_prisms ''/h'')"
  have "map (\<lambda>x. pi_run_id (snd x)) (take 8 ?rows) = [''r1'', ''r1'']" by code_simp
  then show ?thesis
    using intents_shown [of "\<lambda>_. Some (JObj [(''score'', JInt 99)])" "\<lambda>_. Some 7" example_prisms "''/h''"]
    by (auto simp: comp_def)
qed

end
