(* ===== verification/Op_Wait.thy ===== *)
theory Op_Wait
  imports Op_Launch Mux_Ipc
begin

text \<open>
  How the operator starts a launch: the verification gate that asks the mux daemon first
  (\<open>pre_launch_verify\<close> of \<open>tui-agent/src/launch.rs\<close>), the wait for an interactive launch and the errors
  it reports (\<open>wait_for_interactive_launch\<close>, \<open>suspend_and_run\<close>, \<open>LaunchRunError\<close> of \<open>tui-agent/src/lib.rs\<close>).
  One turn of the wait sees a time, the output of the probe and the state of the child process; the
  child's end, the terminal's mode switches and the socket are inputs.
\<close>

section \<open>The verification gate\<close>

datatype verify_halt = Drift "non_mux_entry list" | VerifyTimeout

text \<open>\<open>reply\<close> is the line read, or \<open>None\<close> when reading failed or timed out.\<close>

definition pre_launch_verify ::
  "(string \<Rightarrow> control_response option) \<Rightarrow> bool \<Rightarrow> bool \<Rightarrow> string option \<Rightarrow> verify_halt + unit" where
  "pre_launch_verify parse connected written reply =
     (if \<not> connected then Inr ()
      else if \<not> written then Inl VerifyTimeout
      else case reply of
        None \<Rightarrow> Inl VerifyTimeout
      | Some [] \<Rightarrow> Inl VerifyTimeout
      | Some line \<Rightarrow> (case parse line of
          Some (RespVerify res) \<Rightarrow> if \<not> vr_ok res then Inl (Drift (vr_non_mux_servers res)) else Inr ()
        | _ \<Rightarrow> Inr ()))"

section \<open>Errors\<close>

record exec_error =
  ee_message :: string
  ee_stderr :: string
  ee_probe_error :: "string option"
  ee_probe_error_at_deadline :: "string option"

datatype launch_run_error = Exec exec_error | ClientDrift verify_halt

definition exec_err :: "string \<Rightarrow> string \<Rightarrow> string option \<Rightarrow> launch_run_error" where
  "exec_err msg err pe = Exec \<lparr>ee_message = msg, ee_stderr = err, ee_probe_error = pe,
     ee_probe_error_at_deadline = None\<rparr>"

definition launch_error :: "string \<Rightarrow> launch_run_error" where
  "launch_error msg = exec_err msg [] None"

fun detail_lines :: "launch_run_error \<Rightarrow> string \<Rightarrow> string list" where
  "detail_lines (Exec e) summary =
     [''command: '' @ summary, ''error: '' @ ee_message e] @
     (case ee_probe_error e of Some pe \<Rightarrow> [''readiness probe: '' @ pe] | None \<Rightarrow> []) @
     (case ee_probe_error_at_deadline e of Some pe \<Rightarrow> [''readiness timeout probe: '' @ pe] | None \<Rightarrow> []) @
     (if trim (ee_stderr e) \<noteq> [] then [[], ''stderr:''] @ str_lines (ee_stderr e) else [])"
| "detail_lines (ClientDrift halt) summary =
     [''Client drift detected. Dispatch halted.'', ''Non-mux servers found:''] @
     (case halt of
        Drift servers \<Rightarrow> map (\<lambda>e. ''  '' @ nm_client e @ '' ('' @ nm_path e @ '':'' @ nat_str (nm_line e) @ '')'') servers
      | VerifyTimeout \<Rightarrow> [''  Timeout waiting for verify response from rust-mux.'']) @
     [[], ''Press F to auto-fix (spawns rust-mux wizard).'']"

section \<open>Waiting for an interactive launch\<close>

definition READINESS_DEADLINE :: duration where
  "READINESS_DEADLINE = from_secs 2"

definition poll_interval :: duration where
  "poll_interval = from_millis 100"

datatype child_poll = ChildRunning | ChildGone | PollError string

record child_output =
  chd_success :: bool
  chd_status :: string
  chd_stderr :: string

text \<open>The two ways to block on the child.  \<open>ce_output\<close> is what \<open>wait_with_output\<close> returns, \<open>None\<close> when it never
  does: the child goes on, or a process it started keeps the pipe of its errors open.  \<open>ce_reaped\<close> tells
  whether \<open>wait\<close> returns once the child was killed.\<close>

record child_end =
  ce_output :: "(string + child_output) option"
  ce_reaped :: bool

record wait_turn =
  wt_now :: instant
  wt_probe :: "string + probe_output"
  wt_child :: child_poll

text \<open>\<open>launch process failed\<close>: the child's output could not be collected.\<close>

definition collect_output ::
  "string + child_output \<Rightarrow> string option \<Rightarrow> launch_run_error + child_output" where
  "collect_output final pe = (case final of
     Inl err \<Rightarrow> Inl (exec_err (''launch process failed: '' @ err) [] pe) | Inr out \<Rightarrow> Inr out)"

definition deadline_error :: "string \<Rightarrow> string option \<Rightarrow> launch_run_error" where
  "deadline_error session pe = Exec \<lparr>
     ee_message = ''zellij session '' @ [sq] @ session @ [sq] @ '' did not appear within the 2000ms readiness window'',
     ee_stderr = [], ee_probe_error = pe,
     ee_probe_error_at_deadline = map_option (\<lambda>e. ''killed after 2000ms, last probe error: '' @ e) pe\<rparr>"

text \<open>The result with a flag that tells whether the child was killed; \<open>None\<close> when the wait has not returned, because
  it has had too few turns or because it blocks on the child.\<close>

fun wait_loop ::
  "readiness_probe \<Rightarrow> instant \<Rightarrow> child_end \<Rightarrow> string option \<Rightarrow> wait_turn list \<Rightarrow>
   ((launch_run_error + child_output) \<times> bool) option" where
  "wait_loop p deadline final pe [] = None"
| "wait_loop p deadline final pe (t # ts) =
     (if deadline \<le> wt_now t
      then if ce_reaped final then Some (Inl (deadline_error (rp_session_name p) pe), True) else None
      else let seen = is_session_visible p (wt_probe t);
               pe' = (case seen of Inl e \<Rightarrow> (if pe = None then Some e else pe) | Inr _ \<Rightarrow> pe)
           in if seen = Inr True then map_option (\<lambda>ended. (collect_output ended pe', False)) (ce_output final)
              else case wt_child t of
                ChildGone \<Rightarrow> map_option (\<lambda>ended. (case collect_output ended pe' of
                    Inl err \<Rightarrow> Inl err
                  | Inr out \<Rightarrow> if chd_success out
                      then Inl (exec_err (''zellij session '' @ [sq] @ rp_session_name p @ [sq] @
                        '' exited before the readiness probe saw it'') (chd_stderr out) pe')
                      else Inr out, False)) (ce_output final)
              | PollError e \<Rightarrow> Some (Inl (exec_err (''failed to inspect launch child: '' @ e) [] pe'), False)
              | ChildRunning \<Rightarrow> wait_loop p deadline final pe' ts)"

definition wait_for_interactive_launch ::
  "launch_command \<Rightarrow> instant \<Rightarrow> child_end \<Rightarrow> wait_turn list \<Rightarrow>
   ((launch_run_error + child_output) \<times> bool) option" where
  "wait_for_interactive_launch c start final ts =
     (case probe_of c of
        None \<Rightarrow> map_option (\<lambda>ended. (collect_output ended None, False)) (ce_output final)
      | Some p \<Rightarrow> wait_loop p (start + READINESS_DEADLINE) final None ts)"

text \<open>The terminal's answers to the four mode switches, and the result of spawning.\<close>

record terminal_modes =
  tm_raw_off :: "string option"
  tm_leave :: "string option"
  tm_enter :: "string option"
  tm_raw_on :: "string option"

definition suspend_and_run ::
  "terminal_modes \<Rightarrow> launch_command \<Rightarrow> string + unit \<Rightarrow> instant \<Rightarrow> child_end \<Rightarrow> wait_turn list \<Rightarrow>
   (launch_run_error + unit) option" where
  "suspend_and_run tm c spawned start final ts =
     (case tm_raw_off tm of Some e \<Rightarrow> Some (Inl (launch_error (''failed to disable raw mode before launch: '' @ e)))
      | None \<Rightarrow>
      (case tm_leave tm of Some e \<Rightarrow> Some (Inl (launch_error e))
      | None \<Rightarrow>
        map_option (\<lambda>(launch_result, killed).
          (case tm_enter tm of Some e \<Rightarrow> Inl (launch_error (''failed to restore alternate screen: '' @ e))
           | None \<Rightarrow>
           (case tm_raw_on tm of Some e \<Rightarrow> Inl (launch_error (''failed to re-enable raw mode after launch: '' @ e))
            | None \<Rightarrow>
            (case launch_result of Inl err \<Rightarrow> Inl err
             | Inr out \<Rightarrow> if chd_success out then Inr ()
                 else Inl (exec_err (''command exited with '' @ chd_status out) (chd_stderr out) None)))))
        (case spawned of
           Inl e \<Rightarrow> Some (Inl (launch_error (''failed to spawn launch command: '' @ e)), False)
         | Inr () \<Rightarrow> wait_for_interactive_launch c start final ts)))"

section \<open>Properties of the wait\<close>

text \<open>Where the wait collects the child's output: in a turn before the deadline that sees the session or the end of
  the child, all turns before it having seen the child run and no session.\<close>

definition nothing_yet :: "readiness_probe \<Rightarrow> instant \<Rightarrow> wait_turn \<Rightarrow> bool" where
  "nothing_yet p deadline t \<longleftrightarrow> wt_now t < deadline \<and> is_session_visible p (wt_probe t) \<noteq> Inr True \<and> wt_child t = ChildRunning"

definition collects :: "readiness_probe \<Rightarrow> instant \<Rightarrow> wait_turn \<Rightarrow> bool" where
  "collects p deadline t \<longleftrightarrow> wt_now t < deadline \<and>
     (is_session_visible p (wt_probe t) = Inr True \<or> wt_child t = ChildGone)"

definition collects_output :: "readiness_probe \<Rightarrow> instant \<Rightarrow> wait_turn list \<Rightarrow> bool" where
  "collects_output p deadline ts = (case dropWhile (nothing_yet p deadline) ts of [] \<Rightarrow> False | t # _ \<Rightarrow> collects p deadline t)"

lemma wait_loop_blocks_iff:
  assumes "t \<in> set ts" and "deadline \<le> wt_now t" and "ce_reaped final"
  shows "wait_loop p deadline final pe ts = None \<longleftrightarrow> ce_output final = None \<and> collects_output p deadline ts"
  using assms
proof (induction ts arbitrary: pe)
  case (Cons u ts)
  show ?case
  proof (cases "nothing_yet p deadline u")
    case True
    with Cons.prems have "t \<in> set ts" by (auto simp: nothing_yet_def)
    from Cons.IH [OF this Cons.prems(2,3)] True show ?thesis
      by (auto simp: nothing_yet_def collects_output_def Let_def)
  next
    case False
    with Cons.prems(3) show ?thesis
      by (auto simp: collects_output_def collects_def nothing_yet_def Let_def split: child_poll.splits)
  qed
qed simp

lemma wait_loop_killed:
  assumes "t \<in> set ts" and "deadline \<le> wt_now t" and "ce_reaped final"
    and "\<forall>t \<in> set ts. wt_now t < deadline \<longrightarrow> nothing_yet p deadline t"
  shows "\<exists>err. wait_loop p deadline final pe ts = Some (Inl err, True)"
  using assms by (induction ts arbitrary: pe) (auto simp: Let_def nothing_yet_def)

text \<open>The turns of a wait that was given time: the loop sleeps a tenth of a second in each.\<close>

definition patient :: "instant \<Rightarrow> wait_turn list \<Rightarrow> bool" where
  "patient start ts = (20 < length ts \<and> (\<forall>i < length ts. start + i * poll_interval \<le> wt_now (ts ! i)))"

definition child_ends :: "child_end \<Rightarrow> bool" where
  "child_ends final = (ce_output final \<noteq> None \<and> ce_reaped final)"

lemma patient_past_deadline:
  assumes "patient start ts"
  shows "\<exists>t \<in> set ts. start + READINESS_DEADLINE \<le> wt_now t"
proof -
  from assms have long: "20 < length ts" by (simp add: patient_def)
  with assms have "start + 20 * poll_interval \<le> wt_now (ts ! 20)" unfolding patient_def by blast
  then have "start + READINESS_DEADLINE \<le> wt_now (ts ! 20)"
    by (simp add: READINESS_DEADLINE_def poll_interval_def from_secs_def from_millis_def)
  with nth_mem [OF long] show ?thesis by blast
qed

lemma wait_blocks_iff:
  assumes "patient start ts" and "ce_reaped final"
  shows "wait_for_interactive_launch c start final ts = None \<longleftrightarrow> ce_output final = None \<and>
    (case probe_of c of None \<Rightarrow> True | Some p \<Rightarrow> collects_output p (start + READINESS_DEADLINE) ts)"
proof (cases "probe_of c")
  case (Some p)
  obtain t where "t \<in> set ts" "start + READINESS_DEADLINE \<le> wt_now t"
    using patient_past_deadline [OF assms(1)] by blast
  from wait_loop_blocks_iff [OF this assms(2)] Some show ?thesis by (simp add: wait_for_interactive_launch_def)
qed (simp add: wait_for_interactive_launch_def)

lemma unseen_session_killed:
  assumes "probe_of c = Some p" and "patient start ts" and "ce_reaped final"
    and "\<forall>t \<in> set ts. wt_now t < start + READINESS_DEADLINE \<longrightarrow>
      is_session_visible p (wt_probe t) \<noteq> Inr True \<and> wt_child t = ChildRunning"
  shows "\<exists>err. wait_for_interactive_launch c start final ts = Some (Inl err, True)"
proof -
  obtain t where "t \<in> set ts" "start + READINESS_DEADLINE \<le> wt_now t"
    using patient_past_deadline [OF assms(2)] by blast
  from wait_loop_killed [OF this assms(3), of p None] assms(1,4) show ?thesis
    by (simp add: wait_for_interactive_launch_def nothing_yet_def)
qed

lemma wait_returns:
  assumes "patient start ts" and "child_ends final"
  shows "\<exists>r. wait_for_interactive_launch c start final ts = Some r"
  using wait_blocks_iff [of start ts final c] assms by (auto simp: child_ends_def)

lemma suspend_and_run_returns:
  assumes "patient start ts" and "child_ends final"
  shows "\<exists>r. suspend_and_run tm c spawned start final ts = Some r"
proof -
  obtain r where r: "wait_for_interactive_launch c start final ts = Some r" using wait_returns [OF assms] by blast
  let ?launched = "case spawned of
           Inl e \<Rightarrow> Some (Inl (launch_error (''failed to spawn launch command: '' @ e)), False)
         | Inr () \<Rightarrow> wait_for_interactive_launch c start final ts"
  have "?launched \<noteq> None" using r by (simp split: sum.split unit.split del: not_None_eq)
  then obtain q where q: "?launched = Some q" by blast
  show ?thesis unfolding suspend_and_run_def q by (cases "tm_raw_off tm"; cases "tm_leave tm") simp_all
qed

text \<open>C19: when the wait for a launch ends.  The loop sleeps a tenth of a second in each turn, so the times of its
  turns grow by at least that much, and a killed child can be waited for.  Then 21 turns decide: the
  wait does not return exactly if the child never delivers its output and the wait blocks on that, which
  it does only for a command without a session, or in a turn before the deadline that sees the session or
  the end of the child.  A child that goes on running while its session is not seen in two seconds is killed and
  reported, whether or not it would ever have ended.\<close>

theorem launch_wait_ends:
  assumes times: "\<forall>i < length ts. start + i * poll_interval \<le> wt_now (ts ! i)" and long: "20 < length ts"
    and reaped: "ce_reaped final"
  shows "(wait_for_interactive_launch c start final ts = None \<longleftrightarrow> ce_output final = None \<and>
      (case probe_of c of None \<Rightarrow> True | Some p \<Rightarrow> collects_output p (start + READINESS_DEADLINE) ts)) \<and>
    (\<forall>p. probe_of c = Some p \<and> (\<forall>t \<in> set ts. wt_now t < start + READINESS_DEADLINE \<longrightarrow>
        is_session_visible p (wt_probe t) \<noteq> Inr True \<and> wt_child t = ChildRunning) \<longrightarrow>
      (\<exists>err. wait_for_interactive_launch c start final ts = Some (Inl err, True)))"
proof -
  have "patient start ts" by (simp add: patient_def assms)
  with wait_blocks_iff unseen_session_killed reaped show ?thesis by blast
qed

definition idle_turn :: "nat \<Rightarrow> wait_turn" where
  "idle_turn i = \<lparr>wt_now = i * 100000000, wt_probe = Inl ''no zellij'', wt_child = ChildRunning\<rparr>"

definition hanging_child :: child_end where
  "hanging_child = \<lparr>ce_output = None, ce_reaped = True\<rparr>"

theorem launch_wait_ends_witness:
  "\<exists>err. wait_for_interactive_launch (build_launch_command example_os ''deck'' example_request) 0
     hanging_child (map idle_turn [0..<21]) = Some (Inl err, True)"
proof -
  let ?c = "build_launch_command example_os ''deck'' example_request" and ?ts = "map idle_turn [0..<21]"
  have times: "\<forall>i < length ?ts. 0 + i * poll_interval \<le> wt_now (?ts ! i)"
    by (simp add: idle_turn_def poll_interval_def from_millis_def del: upt_Suc)
  have long: "20 < length ?ts" by simp
  have reaped: "ce_reaped hanging_child" by (simp add: hanging_child_def)
  obtain p where "probe_of ?c = Some p"
    by (auto simp: probe_of_def build_launch_command_def build_terminal_launch_command_def example_request_def)
  moreover have "\<forall>t \<in> set ?ts. is_session_visible p (wt_probe t) \<noteq> Inr True \<and> wt_child t = ChildRunning"
    by (simp add: idle_turn_def is_session_visible_def)
  ultimately show ?thesis using launch_wait_ends [OF times long reaped, of ?c] by blast
qed

lemma collect_output_Inr: "collect_output ended pe = Inr out \<longleftrightarrow> ended = Inr out"
  by (cases ended) (simp_all add: collect_output_def)

lemma collect_output_gone:
  "(case collect_output ended pe of Inl err \<Rightarrow> Inl err | Inr out \<Rightarrow> if chd_success out then Inl (f out) else Inr out) = Inr out' \<Longrightarrow>
   \<not> chd_success out'"
  by (auto split: sum.splits if_splits)

lemma wait_loop_success:
  assumes "wait_loop p deadline final pe ts = Some (Inr out, killed)" and "chd_success out"
  shows "\<not> killed \<and> ce_output final = Some (Inr out) \<and>
    (\<exists>t \<in> set ts. wt_now t < deadline \<and> is_session_visible p (wt_probe t) = Inr True)"
  using assms
proof (induction ts arbitrary: pe)
  case (Cons t ts)
  then show ?case
    by (auto simp: Let_def collect_output_Inr dest!: collect_output_gone split: if_splits child_poll.splits)
qed simp

text \<open>C18: no false success.  When a launch with a session name is reported as successful, the child ended with
  success and the session had been seen in a listing within two seconds of the start.\<close>

theorem no_false_success:
  assumes p: "probe_of c = Some p"
    and ok: "suspend_and_run tm c spawned start final ts = Some (Inr ())"
  shows "(\<exists>out. ce_output final = Some (Inr out) \<and> chd_success out) \<and>
    (\<exists>t \<in> set ts. wt_now t < start + READINESS_DEADLINE \<and> is_session_visible p (wt_probe t) = Inr True)"
proof -
  obtain out killed where "wait_loop p (start + READINESS_DEADLINE) final None ts = Some (Inr out, killed)"
    and "chd_success out"
    using ok p by (auto simp: suspend_and_run_def wait_for_interactive_launch_def
        split: option.splits sum.splits if_splits unit.splits)
  from wait_loop_success [OF this] \<open>chd_success out\<close> show ?thesis by blast
qed

definition calm_terminal :: terminal_modes where
  "calm_terminal = \<lparr>tm_raw_off = None, tm_leave = None, tm_enter = None, tm_raw_on = None\<rparr>"

definition listing :: "string \<Rightarrow> string + probe_output" where
  "listing s = Inr \<lparr>po_success = True, po_status = ''exit status: 0'', po_stdout = s, po_stderr = []\<rparr>"

definition good_end :: child_output where
  "good_end = \<lparr>chd_success = True, chd_status = ''exit status: 0'', chd_stderr = []\<rparr>"

theorem no_false_success_witness:
  "\<exists>t \<in> set [\<lparr>wt_now = 5, wt_probe = listing ''vc-op-workflow-00001'', wt_child = ChildRunning\<rparr>].
     wt_now t < 0 + READINESS_DEADLINE"
proof -
  let ?c = "build_launch_command example_os ''deck'' example_request"
  let ?ts = "[\<lparr>wt_now = 5, wt_probe = listing ''vc-op-workflow-00001'', wt_child = ChildRunning\<rparr>]"
  have "suspend_and_run calm_terminal ?c (Inr ()) 0 \<lparr>ce_output = Some (Inr good_end), ce_reaped = True\<rparr> ?ts = Some (Inr ())" by code_simp
  moreover obtain p where "probe_of ?c = Some p"
    by (auto simp: probe_of_def build_launch_command_def build_terminal_launch_command_def example_request_def)
  ultimately show ?thesis using no_false_success by blast
qed

text \<open>What is reported is the first error of the probe, also in the text that calls it the last one.\<close>

lemma deadline_reports_first_error:
  assumes "ts = map (\<lambda>o'. \<lparr>wt_now = 0, wt_probe = Inr o', wt_child = ChildRunning\<rparr>) outs @ [late]"
    and "0 < deadline" and "deadline \<le> wt_now late" and reaped: "ce_reaped final"
    and "\<forall>o' \<in> set outs. \<not> po_success o' \<and> trim (po_stderr o') \<noteq> []"
  shows "\<exists>e. wait_loop p deadline final (Some first) ts = Some (Inl (Exec e), True) \<and>
    ee_probe_error_at_deadline e = Some (''killed after 2000ms, last probe error: '' @ first)"
  using assms(5) unfolding assms(1)
  by (induction outs) (use assms(2-4) in \<open>auto simp: deadline_error_def is_session_visible_def Let_def\<close>)

section \<open>The gate and the daemon\<close>

lemma non_mux_of_empty:
  "non_mux_of k scan = [] \<longleftrightarrow>
     (as_label (hf_kind (sr_host scan)) = as_label k \<longrightarrow> (\<forall>srv \<in> set (sr_services scan). runs_mux srv))"
  by (simp add: non_mux_of_def filter_empty_conv)

lemma handle_verify_clean:
  "handle_verify scans kind = Inr (RespVerify res) \<Longrightarrow>
   vr_ok res \<longleftrightarrow> (\<forall>k scan srv. verified_kind kind = Some k \<longrightarrow> scan \<in> set scans \<longrightarrow>
     as_label (hf_kind (sr_host scan)) = as_label k \<longrightarrow> srv \<in> set (sr_services scan) \<longrightarrow> runs_mux srv)"
  by (cases "verified_kind kind") (auto simp: handle_verify_def Let_def non_mux_of_empty)

text \<open>the gate and the daemon agree.  When the daemon's answer to \<open>Verify\<close> reaches the operator, the
  launch is let through exactly if every server in the configuration of that client runs through the
  mux; otherwise it is halted with the entries that do not.\<close>

theorem gate_lets_through_iff:
  assumes ans: "handle_command env (Verify kind) = Inr resp"
    and serde: "parse (print resp @ [nl]) = Some resp"
  shows "(pre_launch_verify parse True True (Some (print resp @ [nl])) = Inr () \<longleftrightarrow>
      (\<forall>k scan srv. verified_kind kind = Some k \<longrightarrow> scan \<in> set (ie_scans env) \<longrightarrow>
        as_label (hf_kind (sr_host scan)) = as_label k \<longrightarrow> srv \<in> set (sr_services scan) \<longrightarrow> runs_mux srv)) \<and>
    pre_launch_verify parse True True (Some (print resp @ [nl])) \<noteq> Inl VerifyTimeout"
proof -
  obtain res where r: "resp = RespVerify res" "handle_verify (ie_scans env) kind = Inr (RespVerify res)"
    using ans by (auto simp: handle_verify_def Let_def split: option.splits)
  obtain c cs where line: "print resp @ [nl] = c # cs" by (cases "print resp @ [nl]") simp_all
  have "pre_launch_verify parse True True (Some (print resp @ [nl])) =
      (if \<not> vr_ok res then Inl (Drift (vr_non_mux_servers res)) else Inr ())"
    using serde r(1) unfolding line by (simp add: pre_launch_verify_def)
  with handle_verify_clean [OF r(2)] show ?thesis by simp
qed

theorem gate_lets_through_iff_witness:
  "pre_launch_verify (\<lambda>_. Some (RespVerify \<lparr>vr_ok = True, vr_non_mux_servers = []\<rparr>)) True True
     (Some (''{}'' @ [nl])) = Inr ()"
proof -
  have "handle_command example_env (Verify KindClaude) = Inr (RespVerify \<lparr>vr_ok = True, vr_non_mux_servers = []\<rparr>)"
    by (simp add: example_env_def handle_verify_def)
  from gate_lets_through_iff [OF this, of "\<lambda>_. Some (RespVerify \<lparr>vr_ok = True, vr_non_mux_servers = []\<rparr>)" "\<lambda>_. ''{}''"]
  show ?thesis by (simp add: example_env_def)
qed

end
