(* ===== verification/Op_App.thy ===== *)
theory Op_App
  imports Op_Config Op_Skills Op_Polarize Op_Mux Op_Wait
begin

text \<open>
  The state of the terminal operator and its operations (\<open>tui-agent/src/app.rs\<close>).  Where the source
  indexes an array or runs a \<open>while\<close> loop the operation is an option: \<open>None\<close> is a panic, or a loop that
  does not end.  What an operation reads of the outside is the record \<open>op_env\<close>.  The handle of the
  subscriber task is not part of the record; its loop is in \<open>Op_Mux\<close>.
\<close>

section \<open>Tabs, focus, scope\<close>

datatype app_tab = Monitor | Dispatch | Controls

fun tab_label :: "app_tab \<Rightarrow> string" where
  "tab_label Monitor = ''Monitor''"
| "tab_label Dispatch = ''Dispatch''"
| "tab_label Controls = ''Controls''"

definition tab_from_index :: "nat \<Rightarrow> app_tab" where
  "tab_from_index i = (let k = i mod 3 in if k = 0 then Monitor else if k = 1 then Dispatch else Controls)"

fun tab_index :: "app_tab \<Rightarrow> nat" where
  "tab_index Monitor = 0"
| "tab_index Dispatch = 1"
| "tab_index Controls = 2"

datatype dispatch_focus = FocusKind | FocusAgent | FocusRuntime | FocusPrompt

definition focus_from_index :: "nat \<Rightarrow> dispatch_focus" where
  "focus_from_index i = (let k = i mod 4 in
     if k = 0 then FocusKind else if k = 1 then FocusAgent else if k = 2 then FocusRuntime else FocusPrompt)"

datatype launch_focus = Browse | EditPrompt | Help | Search | ErrorView | Artifact

datatype queue_scope = ScopeLive | ScopeHistory | ScopeAll

fun scope_label :: "queue_scope \<Rightarrow> string" where
  "scope_label ScopeLive = ''live''"
| "scope_label ScopeHistory = ''history''"
| "scope_label ScopeAll = ''all''"

fun scope_title :: "queue_scope \<Rightarrow> string" where
  "scope_title ScopeLive = ''Live queue''"
| "scope_title ScopeHistory = ''History''"
| "scope_title ScopeAll = ''All runs''"

fun scope_next :: "queue_scope \<Rightarrow> queue_scope" where
  "scope_next ScopeLive = ScopeHistory"
| "scope_next ScopeHistory = ScopeAll"
| "scope_next ScopeAll = ScopeLive"

section \<open>Deep actions\<close>

datatype deep_action =
    AttachSession string
  | ResumeSession string string
  | OpenReport string
  | OpenTranscript string
  | OpenRoot string
  | MuxHealth string
  | MuxRestart string
  | MuxVerifyClient client_kind
  | MuxFixClientDrift client_kind
  | ShowIntent polarize_band u8 string string
  | SkillLaunch string skill_agent skill_payload

fun payload_label :: "skill_payload \<Rightarrow> string" where
  "payload_label (PayloadPrompt p) = (if trim p \<noteq> [] then ''prompt'' else ''no payload'')"
| "payload_label (PayloadFile _) = ''file''"
| "payload_label NoPayload = ''no payload''"

fun action_label :: "deep_action \<Rightarrow> string" where
  "action_label (AttachSession s) = ''Attach operator session: vibecrafted dashboard attach '' @ s"
| "action_label (ResumeSession a s) = ''Resume agent session: vibecrafted resume '' @ a @ '' --session '' @ s"
| "action_label (OpenReport p) = ''Open latest report: '' @ p"
| "action_label (OpenTranscript p) = ''Open latest transcript: '' @ p"
| "action_label (OpenRoot p) = ''Open run root: '' @ p"
| "action_label (MuxHealth s) = ''Health-check MCP daemon: rust-mux health --service '' @ s"
| "action_label (MuxRestart s) = ''Restart MCP daemon: rust-mux restart --service '' @ s"
| "action_label (MuxVerifyClient _) = ''Verify client routing through mux''"
| "action_label (MuxFixClientDrift _) = ''Fix client drift: rust-mux wizard --strategy auto-rewire''"
| "action_label (ShowIntent b sc r p) = ''Inspect polarize intent: '' @ band_label b @ '' score '' @
     nat_str (unat sc) @ '' run '' @ r @ '' -> '' @ p"
| "action_label (SkillLaunch s a p) = ''Launch skill: vibecrafted '' @ trim_start_matches s ''vc-'' @ '' '' @
     agent_label a @ '' ('' @ payload_label p @ '')''"

section \<open>The application\<close>

record app =
  ap_config :: app_config
  ap_state :: control_plane_state
  ap_runs :: "rendered_run list"
  ap_selected :: nat
  ap_active_tab :: nat
  ap_launch_kind :: launch_kind
  ap_launch_agent :: nat
  ap_launch_prompt :: string
  ap_launch_runtime :: launch_runtime
  ap_dispatch_selected :: nat
  ap_focus :: launch_focus
  ap_status_line :: string
  ap_launch_history :: "string list"
  ap_deep_selected :: nat
  ap_queue_scope :: queue_scope
  ap_search_query :: string
  ap_error_title :: string
  ap_error_lines :: "string list"
  ap_artifact_title :: string
  ap_artifact_lines :: "string list"
  ap_mux_summaries :: "mux_summary list"
  ap_polarize_intents :: "polarize_intent list"

text \<open>The outside: the readers, the clock, the file system, the environment.\<close>

record op_env =
  oe_parsers :: parsers
  oe_cal :: calendar
  oe_now :: int
  oe_fs :: dir_view
  oe_mux :: mux_env
  oe_modified :: "string \<Rightarrow> int option"
  oe_tui :: tui_env
  oe_os :: launch_os

fun default_prompt :: "launch_kind \<Rightarrow> string" where
  "default_prompt Workflow = ''Plan and implement the task I am looking at now.''"
| "default_prompt Research = ''Research the task I am looking at now and report the ground truth.''"
| "default_prompt Review = ''Review the selected surface and call out concrete risks.''"
| "default_prompt Marbles = ''Run a convergence loop on the selected surface until the lies are exposed.''"

definition agents :: "string list" where
  "agents = [''claude'', ''codex'', ''gemini'']"

section \<open>Filters\<close>

definition is_live_run :: "run_kind \<Rightarrow> bool" where
  "is_live_run k = (k = Active \<or> k = Stalled \<or> k = Paused)"

definition searched_fields :: "run_snapshot \<Rightarrow> string option list" where
  "searched_fields s = [Some (rn_run_id s), rn_session_id s, rn_agent s, rn_skill s, rn_mode s, rn_state s,
     rn_status s, rn_root s, rn_latest_report s, rn_latest_transcript s]"

definition run_matches_query :: "rendered_run \<Rightarrow> string \<Rightarrow> bool" where
  "run_matches_query run query =
     list_ex (\<lambda>f. case f of Some v \<Rightarrow> str_contains (to_ascii_lowercase v) query | None \<Rightarrow> False)
       (searched_fields (rr_snapshot run))"

definition apply_run_filters :: "queue_scope \<Rightarrow> string \<Rightarrow> rendered_run list \<Rightarrow> rendered_run list" where
  "apply_run_filters scope search runs =
     (let scoped = (case scope of
            ScopeLive \<Rightarrow> filter (\<lambda>r. is_live_run (rr_kind r)) runs
          | ScopeHistory \<Rightarrow> filter (\<lambda>r. \<not> is_live_run (rr_kind r)) runs
          | ScopeAll \<Rightarrow> runs);
          query = to_ascii_lowercase (trim search)
      in if query \<noteq> [] then filter (\<lambda>r. run_matches_query r query) scoped else scoped)"

section \<open>Selection and actions\<close>

definition selected_run :: "app \<Rightarrow> rendered_run option" where
  "selected_run a = (if ap_selected a < length (ap_runs a) then Some (ap_runs a ! ap_selected a) else None)"

definition selected_agent :: "app \<Rightarrow> string option" where
  "selected_agent a = (if ap_launch_agent a < length agents then Some (agents ! ap_launch_agent a) else None)"

definition resolve_skill_agent :: "skill_agent \<Rightarrow> string \<Rightarrow> skill_agent" where
  "resolve_skill_agent d selected = (case d of AnyAgent \<Rightarrow> from_cli_token selected | concrete \<Rightarrow> concrete)"

definition nonempty :: "string option \<Rightarrow> string option" where
  "nonempty v = (case v of Some x \<Rightarrow> if x = [] then None else Some x | None \<Rightarrow> None)"

definition run_actions :: "run_snapshot \<Rightarrow> deep_action list" where
  "run_actions s =
     (case nonempty (rn_operator_session s) of Some x \<Rightarrow> [AttachSession x] | None \<Rightarrow> []) @
     (case (nonempty (rn_agent s), nonempty (rn_session_id s)) of
        (Some ag, Some se) \<Rightarrow> [ResumeSession ag se] | _ \<Rightarrow> []) @
     (case nonempty (rn_latest_report s) of Some x \<Rightarrow> [OpenReport x] | None \<Rightarrow> []) @
     (case nonempty (rn_latest_transcript s) of Some x \<Rightarrow> [OpenTranscript x] | None \<Rightarrow> []) @
     (case nonempty (rn_root s) of Some x \<Rightarrow> [OpenRoot x] | None \<Rightarrow> [])"

definition skill_action :: "string \<Rightarrow> string \<Rightarrow> skill_entry \<Rightarrow> deep_action" where
  "skill_action prompt selected e = SkillLaunch (se_slug e) (resolve_skill_agent (se_default_agent e) selected)
     (case se_accepts e of
        PayloadNone \<Rightarrow> NoPayload
      | _ \<Rightarrow> if trim prompt = [] then NoPayload else PayloadPrompt prompt)"

definition deep_actions :: "app \<Rightarrow> deep_action list option" where
  "deep_actions a = map_option (\<lambda>selected.
     (case selected_run a of Some r \<Rightarrow> run_actions (rr_snapshot r) | None \<Rightarrow> []) @
     map (\<lambda>m. MuxHealth (mu_display_name m)) (ap_mux_summaries a) @
     map (\<lambda>i. ShowIntent (pi_band i) (pi_score i) (pi_run_id i) (pi_prism_path i)) (ap_polarize_intents a) @
     map (skill_action (ap_launch_prompt a) selected) CATALOG) (selected_agent a)"

definition selected_deep_action :: "app \<Rightarrow> deep_action option option" where
  "selected_deep_action a = map_option (\<lambda>acts.
     if ap_deep_selected a < length acts then Some (acts ! ap_deep_selected a) else None) (deep_actions a)"

text \<open>The step both selections share: beyond an end it goes to the other end.\<close>

definition wrap_step :: "nat \<Rightarrow> nat \<Rightarrow> int \<Rightarrow> nat" where
  "wrap_step len i delta =
     (let j = int i + delta; j1 = (if j < 0 then int len - 1 else j) in nat (if int len \<le> j1 then 0 else j1))"

definition move_selection :: "int \<Rightarrow> app \<Rightarrow> app" where
  "move_selection delta a = (if ap_runs a = [] then a\<lparr>ap_selected := 0\<rparr>
     else a\<lparr>ap_selected := wrap_step (length (ap_runs a)) (ap_selected a) delta\<rparr>)"

definition move_deep_selection :: "int \<Rightarrow> app \<Rightarrow> app option" where
  "move_deep_selection delta a = map_option (\<lambda>acts. if acts = [] then a\<lparr>ap_deep_selected := 0\<rparr>
     else a\<lparr>ap_deep_selected := wrap_step (length acts) (ap_deep_selected a) delta\<rparr>) (deep_actions a)"

definition sync_selection :: "app \<Rightarrow> app option" where
  "sync_selection a =
     (let a1 = (if length (ap_runs a) \<le> ap_selected a \<and> ap_runs a \<noteq> []
                then a\<lparr>ap_selected := length (ap_runs a) - 1\<rparr> else a)
      in map_option (\<lambda>acts. if acts = [] then a1\<lparr>ap_deep_selected := 0\<rparr>
           else if length acts \<le> ap_deep_selected a1 then a1\<lparr>ap_deep_selected := length acts - 1\<rparr> else a1)
         (deep_actions a1))"

section \<open>Refreshing\<close>

definition control_plane :: "op_env \<Rightarrow> string \<Rightarrow> control_plane_state" where
  "control_plane env root = (case load_state (oe_parsers env) (oe_fs env) root of
     Inr st \<Rightarrow> st | Inl _ \<Rightarrow> cp_empty root)"

definition refresh_mux :: "op_env \<Rightarrow> app \<Rightarrow> app" where
  "refresh_mux env a = a\<lparr>ap_mux_summaries := current_summaries ((oe_mux env)\<lparr>me_fs := oe_fs env\<rparr>)\<rparr>"

definition refresh_polarize :: "op_env \<Rightarrow> app \<Rightarrow> app" where
  "refresh_polarize env a = a\<lparr>ap_polarize_intents := current_intents (ps_json (oe_parsers env)) (oe_modified env)
     (oe_fs env) (default_vibecrafted_home (oe_tui env))\<rparr>"

definition refresh :: "op_env \<Rightarrow> app \<Rightarrow> app option" where
  "refresh env a =
     (let st = control_plane env (ac_state_root (ap_config a));
          runs = apply_run_filters (ap_queue_scope a) (ap_search_query a) (render_runs (oe_cal env) (oe_now env) st)
      in map_option (\<lambda>a1. refresh_polarize env (refresh_mux env a1))
           (sync_selection (a\<lparr>ap_state := st, ap_runs := runs\<rparr>)))"

definition app_new :: "op_env \<Rightarrow> app_config \<Rightarrow> app option" where
  "app_new env c =
     (let st = control_plane env (ac_state_root c);
          a = \<lparr>ap_config = c, ap_state = st,
            ap_runs = apply_run_filters ScopeLive [] (render_runs (oe_cal env) (oe_now env) st),
            ap_selected = 0, ap_active_tab = tab_index Monitor, ap_launch_kind = Workflow, ap_launch_agent = 0,
            ap_launch_prompt = default_prompt Workflow, ap_launch_runtime = ac_launch_runtime c,
            ap_dispatch_selected = 0, ap_focus = Browse, ap_status_line = [], ap_launch_history = [],
            ap_deep_selected = 0, ap_queue_scope = ScopeLive, ap_search_query = [], ap_error_title = [],
            ap_error_lines = [], ap_artifact_title = [], ap_artifact_lines = [], ap_mux_summaries = [],
            ap_polarize_intents = []\<rparr>
      in map_option (\<lambda>a1. refresh_polarize env (refresh_mux env a1)) (sync_selection a))"

definition handle_ipc_event :: "op_env \<Rightarrow> ipc_event \<Rightarrow> app \<Rightarrow> app" where
  "handle_ipc_event env ev a = refresh_mux env a"

definition append_status :: "string \<Rightarrow> app \<Rightarrow> app" where
  "append_status s a = a\<lparr>ap_status_line := s\<rparr>"

definition toggle_filter :: "op_env \<Rightarrow> app \<Rightarrow> app option" where
  "toggle_filter env a = map_option (\<lambda>a1. append_status (''queue scope: '' @ scope_label (ap_queue_scope a1) @ '' ('' @
       nat_str (length (ap_runs a1)) @ '' runs visible)'') a1)
     (refresh env (a\<lparr>ap_queue_scope := scope_next (ap_queue_scope a)\<rparr>))"

definition set_search_query :: "op_env \<Rightarrow> string \<Rightarrow> app \<Rightarrow> app option" where
  "set_search_query env q a = refresh env (a\<lparr>ap_search_query := q\<rparr>)"

definition clear_search :: "op_env \<Rightarrow> app \<Rightarrow> app option" where
  "clear_search env a = (if ap_search_query a \<noteq> []
     then map_option (append_status ''search cleared'') (refresh env (a\<lparr>ap_search_query := []\<rparr>)) else Some a)"

section \<open>Tabs and the dispatch form\<close>

definition active_tab :: "app \<Rightarrow> app_tab" where
  "active_tab a = tab_from_index (ap_active_tab a)"

definition next_tab :: "app \<Rightarrow> app" where
  "next_tab a = a\<lparr>ap_active_tab := (ap_active_tab a + 1) mod 3, ap_focus := Browse\<rparr>"

definition previous_tab :: "app \<Rightarrow> app" where
  "previous_tab a = a\<lparr>ap_active_tab := (if ap_active_tab a = 0 then 2 else ap_active_tab a - 1), ap_focus := Browse\<rparr>"

definition set_active_tab :: "app_tab \<Rightarrow> app \<Rightarrow> app" where
  "set_active_tab t a = a\<lparr>ap_active_tab := tab_index t, ap_focus := Browse\<rparr>"

definition set_launch_kind :: "launch_kind \<Rightarrow> app \<Rightarrow> app" where
  "set_launch_kind k a = a\<lparr>ap_launch_kind := k, ap_launch_prompt := default_prompt k,
     ap_active_tab := tab_index Dispatch, ap_dispatch_selected := 0, ap_focus := Browse\<rparr>"

text \<open>\<open>while index < 0 { index += len; }\<close>\<close>

partial_function (option) raise_index :: "int \<Rightarrow> int \<Rightarrow> int option" where
  "raise_index len i = (if i < 0 then raise_index len (i + len) else Some i)"

definition shifted :: "'a list \<Rightarrow> nat \<Rightarrow> int \<Rightarrow> nat option" where
  "shifted xs i delta = map_option (\<lambda>j. nat (j mod int (length xs))) (raise_index (int (length xs)) (int i + delta))"

definition position_or :: "'a list \<Rightarrow> 'a \<Rightarrow> nat \<Rightarrow> nat" where
  "position_or xs x d = (case find (\<lambda>i. xs ! i = x) [0..<length xs] of Some i \<Rightarrow> i | None \<Rightarrow> d)"

definition shift_agent :: "int \<Rightarrow> app \<Rightarrow> app option" where
  "shift_agent delta a = map_option (\<lambda>i. a\<lparr>ap_launch_agent := i\<rparr>) (shifted agents (ap_launch_agent a) delta)"

definition shift_runtime :: "int \<Rightarrow> app \<Rightarrow> app option" where
  "shift_runtime delta a =
     (let runtimes = [Headless, Terminal, Visible] in
      map_option (\<lambda>i. a\<lparr>ap_launch_runtime := runtimes ! i\<rparr>)
        (shifted runtimes (position_or runtimes (ap_launch_runtime a) 1) delta))"

definition shift_launch_kind :: "int \<Rightarrow> app \<Rightarrow> app option" where
  "shift_launch_kind delta a =
     (let kinds = [Workflow, Research, Review, Marbles] in
      map_option (\<lambda>i. a\<lparr>ap_launch_kind := kinds ! i, ap_launch_prompt := default_prompt (kinds ! i)\<rparr>)
        (shifted kinds (position_or kinds (ap_launch_kind a) 0) delta))"

definition cycle_agent :: "app \<Rightarrow> app option" where
  "cycle_agent a = shift_agent 1 a"

definition cycle_runtime :: "app \<Rightarrow> app option" where
  "cycle_runtime a = shift_runtime 1 a"

definition dispatch_focus_of :: "app \<Rightarrow> dispatch_focus" where
  "dispatch_focus_of a = focus_from_index (ap_dispatch_selected a)"

definition move_dispatch_selection :: "int \<Rightarrow> app \<Rightarrow> app option" where
  "move_dispatch_selection delta a = map_option (\<lambda>i. a\<lparr>ap_dispatch_selected := i\<rparr>)
     (shifted [FocusKind, FocusAgent, FocusRuntime, FocusPrompt] (ap_dispatch_selected a) delta)"

definition adjust_dispatch_selection :: "int \<Rightarrow> app \<Rightarrow> app option" where
  "adjust_dispatch_selection delta a = (case dispatch_focus_of a of
     FocusKind \<Rightarrow> shift_launch_kind delta a
   | FocusAgent \<Rightarrow> shift_agent delta a
   | FocusRuntime \<Rightarrow> shift_runtime delta a
   | FocusPrompt \<Rightarrow> Some (a\<lparr>ap_focus := EditPrompt\<rparr>))"

section \<open>Launching\<close>

definition launch_env :: "op_env \<Rightarrow> app \<Rightarrow> (string \<times> string) list" where
  "launch_env env a =
     [(''VIBECRAFTED_ROOT'', ac_launch_root (ap_config a)),
      (''VIBECRAFT_OPERATOR_STATE_ROOT'', ac_state_root (ap_config a))] @
     (case nonempty (lo_zellij_config_dir (oe_os env)) of Some d \<Rightarrow> [(''ZELLIJ_CONFIG_DIR'', d)] | None \<Rightarrow> [])"

definition pad5 :: "nat \<Rightarrow> string" where
  "pad5 n = replicate (5 - length (nat_str n)) (CHR ''0'') @ nat_str n"

definition default_session_name :: "op_env \<Rightarrow> launch_kind \<Rightarrow> string" where
  "default_session_name env k = ''vc-op-'' @ kind_label k @ ''-'' @ pad5 (nat (max 0 (oe_now env) div 1000000) mod 100000)"

definition launch_request_of :: "op_env \<Rightarrow> app \<Rightarrow> launch_request option" where
  "launch_request_of env a = map_option (\<lambda>agent.
     \<lparr>lr_kind = ap_launch_kind a, lr_agent = agent, lr_prompt = ap_launch_prompt a,
      lr_runtime = ap_launch_runtime a, lr_root = Some (ac_launch_root (ap_config a)),
      lr_terminal_binary = Some (ac_terminal_binary (ap_config a)), lr_env = launch_env env a,
      lr_count = Some 3, lr_depth = Some 3,
      lr_session_name = (if ap_launch_runtime a = Headless then None
        else Some (default_session_name env (ap_launch_kind a)))\<rparr>) (selected_agent a)"

definition launch_command_of :: "op_env \<Rightarrow> app \<Rightarrow> launch_command option" where
  "launch_command_of env a =
     map_option (build_launch_command (oe_os env) (ac_command_deck (ap_config a))) (launch_request_of env a)"

definition show_error :: "string \<Rightarrow> string list \<Rightarrow> app \<Rightarrow> app" where
  "show_error title ls a = a\<lparr>ap_error_title := title,
     ap_error_lines := (if ls = [] then [''No error detail was captured.''] else ls),
     ap_status_line := title, ap_focus := ErrorView\<rparr>"

definition prompt_size :: "string \<Rightarrow> string" where
  "prompt_size p = nat_str (length p) @ '' chars across '' @ nat_str (max (length (str_lines p)) 1) @ '' line(s)''"

definition finish_prompt_edit :: "app \<Rightarrow> app" where
  "finish_prompt_edit a = append_status (''prompt updated: '' @ prompt_size (ap_launch_prompt a)) (a\<lparr>ap_focus := Browse\<rparr>)"

definition push_launch_history :: "string \<Rightarrow> app \<Rightarrow> app" where
  "push_launch_history e a =
     (let h = ap_launch_history a @ [e] in a\<lparr>ap_launch_history := (if 6 < length h then drop (length h - 6) h else h)\<rparr>)"

end
