(* ===== verification/Op_Lines.thy ===== *)
theory Op_Lines
  imports Op_App
begin

text \<open>
  What the terminal operator shows and opens (\<open>tui-agent/src/app.rs\<close>): the lines of its panels, the
  artifacts of a run, the archive markers, the clipboard.  Characters outside ASCII are their UTF-8
  bytes; the counts of characters are those of ASCII text.
\<close>

section \<open>Panels\<close>

definition play_mark :: string where
  "play_mark = [CHR 0xE2, CHR 0x96, CHR 0xB6]"

definition mux_status_lines :: "app \<Rightarrow> string list" where
  "mux_status_lines a =
     (let total = length (ap_mux_summaries a);
          unhealthy = length (filter (\<lambda>m. \<not> summary_is_healthy m) (ap_mux_summaries a)) in
      if ap_mux_summaries a = [] then []
      else (if unhealthy = 0 then ''MCP daemons ('' @ nat_str total @ '' healthy):''
            else ''MCP daemons ('' @ nat_str unhealthy @ ''/'' @ nat_str total @ '' need attention):'') #
        map (\<lambda>m. (if summary_is_healthy m then ''  '' @ [CHR 0xE2, CHR 0x80, CHR 0xA2] @ '' '' else ''  ! '') @ summary_line m)
          (ap_mux_summaries a))"

fun polarize_marker :: "polarize_band \<Rightarrow> string" where
  "polarize_marker Abort = ''!''"
| "polarize_marker Memo = ''-''"
| "polarize_marker Pass = ''>''"
| "polarize_marker Doctrine = ''*''"

definition polarize_status_lines :: "app \<Rightarrow> string list" where
  "polarize_status_lines a =
     (let doctrine = length (filter (\<lambda>i. pi_band i = Doctrine) (ap_polarize_intents a)) in
      if ap_polarize_intents a = [] then []
      else (if doctrine = 0 then ''Polarize intents ('' @ nat_str (length (ap_polarize_intents a)) @ ''):''
            else ''Polarize intents ('' @ nat_str doctrine @ '' doctrine):'') #
        map (\<lambda>i. ''  '' @ polarize_marker (pi_band i) @ '' '' @ intent_summary_line i) (ap_polarize_intents a))"

definition status_summary :: "app \<Rightarrow> string" where
  "status_summary a =
     (if ap_runs a = [] then ''no '' @ scope_label (ap_queue_scope a) @ '' runs loaded''
      else join '' | '' ((''runs: '' @ nat_str (length (ap_runs a))) #
        List.map_filter (\<lambda>label. let n = length (filter (\<lambda>r. run_label (rr_kind r) = label) (ap_runs a)) in
            if 0 < n then Some (label @ '' '' @ nat_str n) else None)
          [''active'', ''stalled'', ''failed'', ''paused'', ''recent'', ''completed'', ''unknown'']))"

definition or_text :: "string option \<Rightarrow> string \<Rightarrow> string" where
  "or_text v d = (case v of Some x \<Rightarrow> x | None \<Rightarrow> d)"

definition opt_line :: "string \<Rightarrow> string option \<Rightarrow> string list" where
  "opt_line label v = (case v of Some x \<Rightarrow> [label @ x] | None \<Rightarrow> [])"

definition run_detail_lines :: "app \<Rightarrow> string list" where
  "run_detail_lines a =
     (case selected_run a of
        None \<Rightarrow>
          [''No runs found in the control-plane state directory yet.'', [], ''Start here:'',
           ''1 -> Workflow for the normal path'', ''2 -> Research swarm if the surface is still unclear'',
           ''3 -> Review if something already exists and needs truth'',
           ''4 -> Marbles when the system works but still drifts'', [],
           ''Use a / v / e / Enter in the launch panel below.'', ''Press ? for the in-app operator guide.'', [],
           ''State root: '' @ ac_state_root (ap_config a), ''Launch root: '' @ ac_launch_root (ap_config a)]
      | Some run \<Rightarrow> (let s = rr_snapshot run in
          [''run_id: '' @ rn_run_id s, ''status: '' @ run_label (rr_kind run) @ '' ('' @ display_state s @ '')'',
           ''agent: '' @ or_text (rn_agent s) ''unknown'', ''skill: '' @ or_text (rn_skill s) ''unknown'',
           ''mode: '' @ or_text (rn_mode s) ''unknown'', ''age: '' @ rr_age_label run,
           ''operator_session: '' @ or_text (rn_operator_session s) ''none''] @
          opt_line ''session_id: '' (rn_session_id s) @ opt_line ''root: '' (rn_root s) @
          opt_line ''latest_report: '' (rn_latest_report s) @ opt_line ''latest_transcript: '' (rn_latest_transcript s) @
          opt_line ''last_error: '' (rn_last_error s) @
          (case rn_operator_session s of
             Some x \<Rightarrow> [[], ''Attach hint: vibecrafted dashboard attach '' @ x, ''Zellij hint: zellij attach '' @ x]
           | None \<Rightarrow> []) @
          opt_line ''Resume hint: vibecrafted resume '' (rn_agent s) @
          [[], ''State root: '' @ ac_state_root (ap_config a)]))"

definition event_lines :: "app \<Rightarrow> string list" where
  "event_lines a = (case selected_run a of
     None \<Rightarrow> []
   | Some run \<Rightarrow> if rr_recent_events run = [] then [''No recent events for this run.'']
       else map (\<lambda>e. ev_ts e @ '' '' @ or_text (ev_message e) (ev_kind e)) (rr_recent_events run))"

definition one_line_prompt :: "string \<Rightarrow> string" where
  "one_line_prompt p = (let c = join '' '' (split_whitespace p) in if 96 < length c then take 93 c @ ''...'' else c)"

definition dispatch_line :: "bool \<Rightarrow> string \<Rightarrow> string" where
  "dispatch_line selected content = (if selected then play_mark @ '' '' @ content else ''  '' @ content)"

definition prompt_lines :: "op_env \<Rightarrow> app \<Rightarrow> string list option" where
  "prompt_lines env a =
     Option.bind (launch_command_of env a) (\<lambda>command.
     Option.bind (selected_agent a) (\<lambda>agent.
       Some ([dispatch_line (dispatch_focus_of a = FocusKind) (''mission: '' @ human_title (ap_launch_kind a) @ ''  '' @
            human_description (ap_launch_kind a)),
          dispatch_line (dispatch_focus_of a = FocusAgent) (''agent: '' @ agent),
          dispatch_line (dispatch_focus_of a = FocusRuntime) (''runtime: '' @ runtime_label (ap_launch_runtime a)),
          dispatch_line (dispatch_focus_of a = FocusPrompt) (''prompt: '' @ one_line_prompt (ap_launch_prompt a)), [],
          ''Arrows: '' @ [CHR 0xE2, CHR 0x86, CHR 0x91] @ ''/'' @ [CHR 0xE2, CHR 0x86, CHR 0x93] @ '' choose field  '' @ [CHR 0xE2, CHR 0x86, CHR 0x90] @ ''/'' @ [CHR 0xE2, CHR 0x86, CHR 0x92] @ '' change field  Enter launch'',
          ''Shortcuts: 1-4 mission  a agent  v runtime  e edit prompt  / search'', [],
          ''root: '' @ ac_launch_root (ap_config a), ''command: '' @ command_line command] @
         (if ap_launch_history a = [] then [] else [[], ''last launch: '' @ last (ap_launch_history a)]))))"

definition help_lines :: "string list" where
  "help_lines =
     [''Operator guide'',
      [],
      ''This console is the human front door into Vibecrafted control-plane state.'',
      ''Browse runs on the left, inspect truth on the right, and launch new work below.'',
      [],
      ''Quick start'',
      ''1 Workflow  -> normal path for most tasks'',
      ''2 Research  -> send a research swarm first'',
      ''3 Review    -> audit an existing surface'',
      ''4 Marbles   -> convergence loop for fragile systems'',
      [],
      ''Tabs'',
      ''Tab / Shift+Tab switch between Monitor, Dispatch, and Controls.'',
      ''Monitor keeps the live board. Dispatch shapes the next run. Controls opens attach/report actions.'',
      [],
      ''Keys'',
      [CHR 0xE2, CHR 0x86, CHR 0x91] @ ''/'' @ [CHR 0xE2, CHR 0x86, CHR 0x93] @ '' or j/k  navigate inside the active tab'',
      ''a           cycle launch agent'',
      ''v           cycle runtime (terminal / visible / headless)'',
      ''e           edit launch prompt'',
      ''Ctrl+S/Esc  save prompt edits; Enter inserts a prompt newline'',
      ''Enter       launch selected action'',
      ''d           selected-run deep controls'',
      ''y           copy resume/report/run identity to clipboard'',
      ''f           cycle queue scope: live, history, all'',
      ''/           search runs by id, agent, skill, status, path'',
      ''x           archive selected run from the operator view'',
      ''r           refresh control-plane state'',
      ''?           close this guide'',
      ''q / Esc     quit'',
      [],
      ''Operator rule'',
      ''Use this to decide and launch. Let worker agents execute; do not overload the shell as your only dashboard.'']"

definition active_run_count :: "app \<Rightarrow> nat" where
  "active_run_count a = length (filter (\<lambda>r. rr_kind r = Active \<or> rr_kind r = Stalled) (ap_runs a))"

definition tab_labels :: "app \<Rightarrow> string list option" where
  "tab_labels a =
     Option.bind (selected_agent a) (\<lambda>agent.
     Option.bind (deep_actions a) (\<lambda>acts.
       Some [''Monitor '' @ scope_label (ap_queue_scope a) @ '' '' @ nat_str (length (ap_runs a)) @
               (if ap_search_query a = [] then [] else ''?''),
             ''Dispatch '' @ kind_label (ap_launch_kind a) @ ''/'' @ agent,
             ''Controls '' @ nat_str (length acts)]))"

definition deep_control_lines :: "app \<Rightarrow> string list option" where
  "deep_control_lines a = map_option (\<lambda>acts.
     if acts = [] then [''Deep controls'', ''No attach/resume/report actions are available for the selected run.'',
       ''Pick another run or launch a fresh one below.'']
     else [''Deep controls'', ''Enter runs the selected action. Esc returns to browse.'', []] @
       map (\<lambda>(i, act). (if active_tab a = Controls \<and> i = ap_deep_selected a then play_mark else '' '') @ '' '' @
           action_label act) (enumerate 0 acts)) (deep_actions a)"

definition prompt_edit_lines :: "app \<Rightarrow> string list" where
  "prompt_edit_lines a = [''Prompt editor'', prompt_size (ap_launch_prompt a), []] @
     (if ap_launch_prompt a = [] then [''Type the worker prompt here.''] else str_lines (ap_launch_prompt a)) @
     [[], ''Enter inserts newline. Ctrl+S or Esc saves.'']"

definition app_error_lines :: "app \<Rightarrow> string list" where
  "app_error_lines a = [ap_error_title a, []] @ ap_error_lines a"

definition app_artifact_lines :: "app \<Rightarrow> string list" where
  "app_artifact_lines a = [ap_artifact_title a, []] @ ap_artifact_lines a"

section \<open>Artifacts\<close>

definition safe_artifact_path :: "dir_view \<Rightarrow> string \<Rightarrow> string option \<Rightarrow> string + string" where
  "safe_artifact_path fs p run_root =
     (case dv_kind fs p of
        None \<Rightarrow> Inl ''symlink_metadata''
      | Some Symlink \<Rightarrow> Inl (''refusing to open symlinked artifact: '' @ p)
      | Some _ \<Rightarrow> (case dv_canonicalize fs p of
          None \<Rightarrow> Inl ''canonicalize''
        | Some canonical \<Rightarrow> (case run_root of
            None \<Rightarrow> Inl ''selected run has no root; refusing artifact path''
          | Some r \<Rightarrow>
              if trim r = [] then Inl ''selected run has no root; refusing artifact path''
              else (case dv_canonicalize fs r of
                  None \<Rightarrow> Inl ''canonicalize''
                | Some root \<Rightarrow> if path_starts_with canonical root then Inr canonical
                    else Inl (''refusing artifact outside selected run root: '' @ canonical)))))"

definition dir_row :: "dir_view \<Rightarrow> string \<Rightarrow> string option" where
  "dir_row fs e = map_option (\<lambda>k. (case file_name e of Some n \<Rightarrow> n | None \<Rightarrow> []) @ (if k = PlainDir then ''/'' else []))
     (dv_kind fs e)"

definition artifact_lines :: "dir_view \<Rightarrow> string \<Rightarrow> string option \<Rightarrow> string + string list" where
  "artifact_lines fs p0 run_root =
     (case safe_artifact_path fs p0 run_root of
        Inl e \<Rightarrow> Inl e
      | Inr p \<Rightarrow>
          if dv_kind fs p = Some PlainDir
          then (case Option.bind (dv_read_dir fs p) (\<lambda>es. those (map (dir_row fs) es)) of
                  None \<Rightarrow> Inl ''read_dir''
                | Some rows \<Rightarrow> Inr (if rows = [] then [''(empty directory)''] else sort rows))
          else (case dv_read fs p of
                  None \<Rightarrow> Inl ''read_to_string''
                | Some text \<Rightarrow> Inr (take 400 (str_lines text) @
                    (if 400 < length (str_lines text) then [''[truncated after 400 lines]''] else []))))"

fun artifact_of :: "deep_action \<Rightarrow> (string \<times> string) option" where
  "artifact_of (OpenReport p) = Some (''Report'', p)"
| "artifact_of (OpenTranscript p) = Some (''Transcript'', p)"
| "artifact_of (OpenRoot p) = Some (''Run root'', p)"
| "artifact_of _ = None"

text \<open>The title is set before the file is read, and stays when reading fails.\<close>

definition open_artifact :: "op_env \<Rightarrow> deep_action \<Rightarrow> app \<Rightarrow> (string + unit) \<times> app" where
  "open_artifact env act a =
     (case artifact_of act of
        None \<Rightarrow> (Inr (), a)
      | Some (title, p) \<Rightarrow>
          (let a1 = a\<lparr>ap_artifact_title := title @ '': '' @ p\<rparr> in
           case artifact_lines (oe_fs env) p (Option.bind (selected_run a) (\<lambda>r. rn_root (rr_snapshot r))) of
             Inl e \<Rightarrow> (Inl e, a1)
           | Inr ls \<Rightarrow> (Inr (), append_status (''opened '' @ p @ '' in operator viewer'')
               (a1\<lparr>ap_artifact_lines := ls, ap_focus := Artifact\<rparr>))))"

definition open_polarize_intent :: "op_env \<Rightarrow> deep_action \<Rightarrow> app \<Rightarrow> (string + unit) \<times> app" where
  "open_polarize_intent env act a =
     (case act of
        ShowIntent band score run_id p \<Rightarrow>
          (let a1 = a\<lparr>ap_artifact_title := ''Polarize prism: '' @ band_label band @ '' score '' @ nat_str (unat score) @
                 '' run '' @ run_id\<rparr> in
           case prism_preview_lines (oe_fs env) p of
             Inl e \<Rightarrow> (Inl e, a1)
           | Inr ls \<Rightarrow> (Inr (), append_status (''opened polarize prism '' @ p)
               (a1\<lparr>ap_artifact_lines := ls, ap_focus := Artifact\<rparr>)))
      | _ \<Rightarrow> (Inr (), a))"

section \<open>Archiving and copying\<close>

definition safe_marker_name :: "string \<Rightarrow> string" where
  "safe_marker_name run_id = map (\<lambda>c. if is_alnum c \<or> c \<in> set ''-_.'' then c else CHR ''_'') run_id"

definition archive_marker :: "string \<Rightarrow> string \<Rightarrow> json" where
  "archive_marker run_id at = JObj (obj_of [(''run_id'', JStr run_id), (''archived_by'', JStr ''vc-operator''),
     (''archived_at'', JStr at)])"

definition marker_path :: "app \<Rightarrow> string \<Rightarrow> string" where
  "marker_path a run_id = path_join (path_join (ac_state_root (ap_config a)) ''runs/.archived'')
     (safe_marker_name run_id @ ''.json'')"

text \<open>\<open>write\<close> creates the directory and writes the file: an error, or the file system after it; the
  operation returns with it.\<close>

definition archive_selected_run ::
  "(string \<Rightarrow> json \<Rightarrow> dir_view \<Rightarrow> string + dir_view) \<Rightarrow> string \<Rightarrow> op_env \<Rightarrow> app \<Rightarrow> (string + dir_view \<times> app) option" where
  "archive_selected_run write at env a =
     (case selected_run a of
        None \<Rightarrow> Some (Inr (oe_fs env, append_status ''No run selected to archive.'' a))
      | Some run \<Rightarrow>
          (let run_id = rn_run_id (rr_snapshot run) in
           case write (marker_path a run_id) (archive_marker run_id at) (oe_fs env) of
             Inl e \<Rightarrow> Some (Inl e)
           | Inr fs \<Rightarrow> map_option (\<lambda>a1. Inr (fs, append_status (''archived run from operator view: '' @ run_id) a1))
               (refresh (env\<lparr>oe_fs := fs\<rparr>) a)))"

definition clipboard_payload :: "app \<Rightarrow> string option" where
  "clipboard_payload a = map_option (\<lambda>run. let s = rr_snapshot run in
     case (rn_agent s, rn_session_id s) of
       (Some ag, Some se) \<Rightarrow> ''vibecrafted resume '' @ ag @ '' --session '' @ se
     | _ \<Rightarrow> (case rn_latest_report s of Some r \<Rightarrow> r | None \<Rightarrow> rn_run_id s)) (selected_run a)"

definition copy_selected_run_to_clipboard :: "(string \<Rightarrow> string option) \<Rightarrow> app \<Rightarrow> (string + unit) \<times> app" where
  "copy_selected_run_to_clipboard set_text a =
     (case clipboard_payload a of
        None \<Rightarrow> (Inr (), append_status ''No selected run to copy.'' a)
      | Some p \<Rightarrow> (case set_text p of
          Some e \<Rightarrow> (Inl e, a) | None \<Rightarrow> (Inr (), append_status (''copied to clipboard: '' @ p) a)))"

end
