(* ===== verification/Op_Keys.thy ===== *)
theory Op_Keys
  imports Op_Lines
begin

text \<open>
  Keys and the main loop of the terminal operator (\<open>tui-agent/src/lib.rs\<close>).  One key gives an error that
  ends the program, or a step: whether to quit, the file system after it, the application, and the
  commands that were started.  \<open>None\<close> is a panic, an endless loop, or a launch that is still waited
  for.  The answers of the outside to what the keys do are the record \<open>op_outside\<close>.
\<close>

section \<open>The outside\<close>

record op_outside =
  ou_write :: "string \<Rightarrow> json \<Rightarrow> dir_view \<Rightarrow> string + dir_view"
  ou_time :: string
  ou_set_text :: "string \<Rightarrow> string option"
  ou_connected :: bool
  ou_written :: bool
  ou_reply :: "client_kind \<Rightarrow> string option"
  ou_response :: "string \<Rightarrow> control_response option"
  ou_detached :: "launch_command \<Rightarrow> string + nat"
  ou_modes :: terminal_modes
  ou_spawned :: "launch_command \<Rightarrow> string + unit"
  ou_start :: instant
  ou_final :: "launch_command \<Rightarrow> child_end"
  ou_turns :: "launch_command \<Rightarrow> wait_turn list"
  ou_after :: "launch_command \<Rightarrow> dir_view \<Rightarrow> dir_view"

record key_step =
  ks_quit :: bool
  ks_fs :: dir_view
  ks_app :: app
  ks_started :: "launch_command list"

type_synonym key_out = "(string + key_step) option"

definition stay_with :: "dir_view \<Rightarrow> launch_command list \<Rightarrow> app \<Rightarrow> key_out" where
  "stay_with fs cs a = Some (Inr \<lparr>ks_quit = False, ks_fs = fs, ks_app = a, ks_started = cs\<rparr>)"

abbreviation stay :: "op_env \<Rightarrow> app \<Rightarrow> key_out" where
  "stay env a \<equiv> stay_with (oe_fs env) [] a"

definition stay_opt :: "op_env \<Rightarrow> app option \<Rightarrow> key_out" where
  "stay_opt env r = Option.bind r (\<lambda>a. stay env a)"

definition run_command :: "op_outside \<Rightarrow> launch_command \<Rightarrow> (launch_run_error + unit) option" where
  "run_command ou c = suspend_and_run (ou_modes ou) c (ou_spawned ou c) (ou_start ou) (ou_final ou c) (ou_turns ou c)"

section \<open>Launching\<close>

definition client_kind_of :: "string \<Rightarrow> client_kind" where
  "client_kind_of agent = (if agent = ''claude'' then KindClaude else if agent = ''codex'' then KindCodex
     else if agent = ''gemini'' then KindGemini else if agent = ''junie'' then KindJunie else KindGeneric agent)"

definition verify_gate :: "op_outside \<Rightarrow> app \<Rightarrow> string \<Rightarrow> verify_halt + unit" where
  "verify_gate ou a agent =
     (if \<not> ac_no_verify_gate (ap_config a) \<and> ap_launch_runtime a \<noteq> Headless
      then pre_launch_verify (ou_response ou) (ou_connected ou) (ou_written ou) (ou_reply ou (client_kind_of agent))
      else Inr ())"

definition launched :: "op_outside \<Rightarrow> launch_command \<Rightarrow> app \<Rightarrow> app option" where
  "launched ou c a =
     (let summary = command_line c in
      if ap_launch_runtime a = Headless
      then Some (case ou_detached ou c of
          Inr pid \<Rightarrow> append_status (''spawned pid '' @ nat_str pid @ '': '' @ summary) (push_launch_history summary a)
        | Inl e \<Rightarrow> show_error ''launch failed before spawn'' [summary, e] a)
      else map_option (\<lambda>r. case r of
          Inl err \<Rightarrow> show_error ''launch failed'' (detail_lines err summary) a
        | Inr () \<Rightarrow> append_status (''launched: '' @ summary) (push_launch_history summary a)) (run_command ou c))"

definition launch_selected :: "op_outside \<Rightarrow> op_env \<Rightarrow> app \<Rightarrow> key_out" where
  "launch_selected ou env a =
     Option.bind (selected_agent a) (\<lambda>agent.
       case verify_gate ou a agent of
         Inl halt \<Rightarrow> stay env (show_error ''launch failed: client drift'' (detail_lines (ClientDrift halt) []) a)
       | Inr () \<Rightarrow>
           Option.bind (launch_command_of env a) (\<lambda>c.
           Option.bind (launched ou c a) (\<lambda>a1.
             let fs = ou_after ou c (oe_fs env) in
             Option.bind (refresh (env\<lparr>oe_fs := fs\<rparr>) a1) (stay_with fs [c]))))"

section \<open>Deep controls\<close>

text \<open>\<open>unreachable!\<close> is \<open>None\<close>.\<close>

definition deep_control_command :: "op_env \<Rightarrow> app \<Rightarrow> deep_action \<Rightarrow> launch_command option" where
  "deep_control_command env a act =
     (case act of
        AttachSession session \<Rightarrow> Some \<lparr>lc_program = ac_command_deck (ap_config a),
          lc_args = [''dashboard'', ''attach'', session], lc_env = []\<rparr>
      | ResumeSession agent session \<Rightarrow> Some \<lparr>lc_program = ac_command_deck (ap_config a),
          lc_args = [''resume'', agent, ''--session'', session], lc_env = []\<rparr>
      | MuxHealth service \<Rightarrow> Some \<lparr>lc_program = ''rust-mux'', lc_args = [''health'', ''--service'', service], lc_env = []\<rparr>
      | SkillLaunch skill agent payload \<Rightarrow> map_option (\<lambda>selected.
          build_skill_launch_command (ac_command_deck (ap_config a)) skill agent (from_cli_token selected) payload
            (launch_env env a)) (selected_agent a)
      | _ \<Rightarrow> None)"

fun is_intent :: "deep_action \<Rightarrow> bool" where
  "is_intent (ShowIntent _ _ _ _) = True"
| "is_intent _ = False"

definition run_selected_deep_control :: "op_outside \<Rightarrow> op_env \<Rightarrow> app \<Rightarrow> key_out" where
  "run_selected_deep_control ou env a =
     Option.bind (selected_deep_action a) (\<lambda>sel.
     case sel of
       None \<Rightarrow> stay env ((append_status ''No deep action is available for the selected run.'' a)\<lparr>ap_focus := Browse\<rparr>)
     | Some act \<Rightarrow>
         if artifact_of act \<noteq> None
         then (case open_artifact env act a of
                 (Inl e, a1) \<Rightarrow> stay env (show_error ''artifact open failed'' [e] a1)
               | (Inr (), a1) \<Rightarrow> stay env a1)
         else if is_intent act
         then (case open_polarize_intent env act a of
                 (Inl e, a1) \<Rightarrow> stay env (show_error ''polarize prism open failed'' [e] a1)
               | (Inr (), a1) \<Rightarrow> stay env a1)
         else
           Option.bind (deep_control_command env a act) (\<lambda>c.
           Option.bind (run_command ou c) (\<lambda>r.
             let summary = command_line c;
                 a1 = (case r of
                     Inl err \<Rightarrow> show_error ''action failed'' (detail_lines err summary) a
                   | Inr () \<Rightarrow> (append_status (''ran: '' @ summary) (push_launch_history summary a))\<lparr>ap_focus := Browse\<rparr>);
                 fs = ou_after ou c (oe_fs env)
             in Option.bind (refresh (env\<lparr>oe_fs := fs\<rparr>) a1) (stay_with fs [c]))))"

section \<open>Keys\<close>

record key_event =
  ke_code :: key_code
  ke_control :: bool

definition key_edit :: "op_env \<Rightarrow> key_event \<Rightarrow> app \<Rightarrow> key_out" where
  "key_edit env k a =
     (case ke_code k of
        KEsc \<Rightarrow> stay env (finish_prompt_edit a)
      | KEnter \<Rightarrow> stay env (a\<lparr>ap_launch_prompt := ap_launch_prompt a @ [nl]\<rparr>)
      | KBackspace \<Rightarrow> stay env (a\<lparr>ap_launch_prompt := butlast (ap_launch_prompt a)\<rparr>)
      | KChar c \<Rightarrow>
          if c = CHR ''?'' then stay env (a\<lparr>ap_focus := Help\<rparr>)
          else if c = CHR ''s'' \<and> ke_control k then stay env (finish_prompt_edit a)
          else if \<not> ke_control k then stay env (a\<lparr>ap_launch_prompt := ap_launch_prompt a @ [c]\<rparr>)
          else stay env a
      | _ \<Rightarrow> stay env a)"

definition key_search :: "op_env \<Rightarrow> key_event \<Rightarrow> app \<Rightarrow> key_out" where
  "key_search env k a =
     (if ke_code k = KEsc \<or> ke_code k = KEnter
      then stay env (append_status (if ap_search_query a = [] then ''search closed''
          else ''search: '' @ ap_search_query a @ '' ('' @ nat_str (length (ap_runs a)) @ '' runs visible)'')
        (a\<lparr>ap_focus := Browse\<rparr>))
      else if ke_code k = KBackspace then stay_opt env (set_search_query env (butlast (ap_search_query a)) a)
      else case ke_code k of
        KChar c \<Rightarrow> if \<not> ke_control k then stay_opt env (set_search_query env (ap_search_query a @ [c]) a) else stay env a
      | _ \<Rightarrow> stay env a)"

definition auto_rewire :: "string \<Rightarrow> launch_command" where
  "auto_rewire agent = \<lparr>lc_program = ''zellij'',
     lc_args = [''run'', ''--name'', ''auto-rewire'', ''--'', ''rust-mux'', ''wizard'', ''--strategy'', ''auto-rewire'', agent],
     lc_env = []\<rparr>"

definition drift_shown :: "app \<Rightarrow> bool" where
  "drift_shown a = list_ex (\<lambda>l. str_contains l ''Client drift detected'') (ap_error_lines a)"

definition key_error :: "op_env \<Rightarrow> key_event \<Rightarrow> app \<Rightarrow> key_out" where
  "key_error env k a =
     (if (ke_code k = KChar (CHR ''f'') \<or> ke_code k = KChar (CHR ''F'')) \<and> drift_shown a
      then Option.bind (selected_agent a) (\<lambda>agent. stay_with (oe_fs env) [auto_rewire agent] (a\<lparr>ap_focus := Browse\<rparr>))
      else if ke_code k \<in> {KEsc, KEnter, KChar (CHR ''q'')} then stay env (a\<lparr>ap_focus := Browse\<rparr>)
      else stay env a)"

definition key_artifact :: "op_env \<Rightarrow> key_event \<Rightarrow> app \<Rightarrow> key_out" where
  "key_artifact env k a =
     (if ke_code k \<in> {KEsc, KEnter, KChar (CHR ''q'')} then stay env (a\<lparr>ap_focus := Browse\<rparr>) else stay env a)"

definition key_help :: "op_env \<Rightarrow> key_event \<Rightarrow> app \<Rightarrow> key_out" where
  "key_help env k a =
     (if ke_code k \<in> {KChar (CHR ''?''), KEsc, KEnter} then stay env (a\<lparr>ap_focus := Browse\<rparr>) else stay env a)"

definition key_vertical :: "int \<Rightarrow> op_env \<Rightarrow> app \<Rightarrow> key_out" where
  "key_vertical d env a = (case active_tab a of
     Monitor \<Rightarrow> stay env (move_selection d a)
   | Dispatch \<Rightarrow> stay_opt env (move_dispatch_selection d a)
   | Controls \<Rightarrow> stay_opt env (move_deep_selection d a))"

definition key_horizontal :: "int \<Rightarrow> op_env \<Rightarrow> app \<Rightarrow> key_out" where
  "key_horizontal d env a = (case active_tab a of
     Monitor \<Rightarrow> stay env a
   | Dispatch \<Rightarrow> stay_opt env (adjust_dispatch_selection d a)
   | Controls \<Rightarrow> stay env (move_selection d a))"

definition key_enter :: "op_outside \<Rightarrow> op_env \<Rightarrow> app \<Rightarrow> key_out" where
  "key_enter ou env a = (case active_tab a of
     Monitor \<Rightarrow> stay env (if selected_run a \<noteq> None then set_active_tab Controls a else a)
   | Dispatch \<Rightarrow> if dispatch_focus_of a = FocusPrompt then stay env (a\<lparr>ap_focus := EditPrompt\<rparr>) else launch_selected ou env a
   | Controls \<Rightarrow> run_selected_deep_control ou env a)"

text \<open>The letters, in the order of the source's arms; \<open>h\<close>, \<open>j\<close>, \<open>k\<close> and \<open>l\<close> stand for the arrows.\<close>

definition key_letter :: "op_outside \<Rightarrow> op_env \<Rightarrow> bool \<Rightarrow> char \<Rightarrow> app \<Rightarrow> key_out" where
  "key_letter ou env control c a =
     (if c = CHR ''?'' then stay env (a\<lparr>ap_focus := Help\<rparr>)
      else if c = CHR ''k'' then key_vertical (- 1) env a
      else if c = CHR ''j'' then key_vertical 1 env a
      else if c = CHR ''l'' \<and> control then stay_opt env (clear_search env a)
      else if c = CHR ''h'' then key_horizontal (- 1) env a
      else if c = CHR ''l'' then key_horizontal 1 env a
      else if c = CHR ''1'' then stay env (set_launch_kind Workflow a)
      else if c = CHR ''2'' then stay env (set_launch_kind Research a)
      else if c = CHR ''3'' then stay env (set_launch_kind Review a)
      else if c = CHR ''4'' then stay env (set_launch_kind Marbles a)
      else if c = CHR ''a'' then stay_opt env (cycle_agent ((set_active_tab Dispatch a)\<lparr>ap_dispatch_selected := 1\<rparr>))
      else if c = CHR ''v'' then stay_opt env (cycle_runtime ((set_active_tab Dispatch a)\<lparr>ap_dispatch_selected := 2\<rparr>))
      else if c = CHR ''f'' then stay_opt env (toggle_filter env a)
      else if c = CHR ''/'' then stay env (append_status ''search: type to filter runs, Enter/Esc closes, Ctrl+L clears''
          (a\<lparr>ap_focus := Search\<rparr>))
      else if c = CHR ''x'' then map_option (map_sum id (\<lambda>(fs, a1).
          \<lparr>ks_quit = False, ks_fs = fs, ks_app = a1, ks_started = []\<rparr>))
          (archive_selected_run (ou_write ou) (ou_time ou) env a)
      else if c = CHR ''y'' then stay env (case copy_selected_run_to_clipboard (ou_set_text ou) a of
          (Inl e, a1) \<Rightarrow> show_error ''clipboard failed'' [e] a1 | (Inr (), a1) \<Rightarrow> a1)
      else if c = CHR ''r'' then stay_opt env (refresh env a)
      else if c = CHR ''e'' then stay env ((set_active_tab Dispatch a)\<lparr>ap_dispatch_selected := 3, ap_focus := EditPrompt\<rparr>)
      else if c = CHR ''d'' then (let a1 = set_active_tab Controls a in
          Option.bind (deep_actions a1) (\<lambda>acts. stay env (append_status
            (if acts = [] then ''No operator actions are available.''
             else ''Controls ready: '' @ [CHR 0xE2, CHR 0x86, CHR 0x91] @ ''/'' @ [CHR 0xE2, CHR 0x86, CHR 0x93] @
               '' select action, Enter runs it.'') a1)))
      else stay env a)"

definition quit :: "op_env \<Rightarrow> app \<Rightarrow> key_out" where
  "quit env a = Some (Inr \<lparr>ks_quit = True, ks_fs = oe_fs env, ks_app = a, ks_started = []\<rparr>)"

definition key_browse :: "op_outside \<Rightarrow> op_env \<Rightarrow> key_event \<Rightarrow> app \<Rightarrow> key_out" where
  "key_browse ou env k a =
     (case ke_code k of
        KEsc \<Rightarrow> quit env a
      | KTab \<Rightarrow> stay env (next_tab a)
      | KBackTab \<Rightarrow> stay env (previous_tab a)
      | KUp \<Rightarrow> key_vertical (- 1) env a
      | KDown \<Rightarrow> key_vertical 1 env a
      | KLeft \<Rightarrow> key_horizontal (- 1) env a
      | KRight \<Rightarrow> key_horizontal 1 env a
      | KEnter \<Rightarrow> key_enter ou env a
      | KChar c \<Rightarrow> if c = CHR ''q'' then quit env a else key_letter ou env (ke_control k) c a
      | _ \<Rightarrow> stay env a)"

definition handle_key :: "op_outside \<Rightarrow> op_env \<Rightarrow> key_event \<Rightarrow> app \<Rightarrow> key_out" where
  "handle_key ou env k a =
     (if ke_control k \<and> ke_code k = KChar (CHR ''c'') then quit env a
      else case ap_focus a of
        EditPrompt \<Rightarrow> key_edit env k a
      | Search \<Rightarrow> key_search env k a
      | ErrorView \<Rightarrow> key_error env k a
      | Artifact \<Rightarrow> key_artifact env k a
      | Browse \<Rightarrow> key_browse ou env k a
      | Help \<Rightarrow> key_help env k a)"

section \<open>The main loop\<close>

text \<open>One turn: perhaps a key, then whether the watcher saw a change, the subscriber's events, and whether a
  tick is due after them.  The environment of each part is what it sees of the outside.\<close>

record loop_input =
  li_key :: "key_event option"
  li_outside :: op_outside
  li_env :: op_env
  li_watched :: bool
  li_events :: "ipc_event list"
  li_after :: op_env
  li_tick :: bool

definition loop_rest :: "loop_input \<Rightarrow> app \<Rightarrow> app option" where
  "loop_rest i a =
     (let a1 = fold (handle_ipc_event (li_after i)) (li_events i) a in
      Option.bind (if li_watched i \<or> li_events i \<noteq> [] then refresh (li_after i) a1 else Some a1) (\<lambda>a2.
        if li_tick i then refresh (li_after i) a2 else Some a2))"

definition loop_turn :: "loop_input \<Rightarrow> app \<Rightarrow> (string + bool \<times> app) option" where
  "loop_turn i a =
     (case li_key i of
        None \<Rightarrow> map_option (\<lambda>a2. Inr (False, a2)) (loop_rest i a)
      | Some k \<Rightarrow> Option.bind (handle_key (li_outside i) (li_env i) k a) (\<lambda>r.
          case r of
            Inl e \<Rightarrow> Some (Inl e)
          | Inr s \<Rightarrow> if ks_quit s then Some (Inr (True, ks_app s))
              else map_option (\<lambda>a2. Inr (False, a2)) (loop_rest i (ks_app s))))"

fun app_loop :: "loop_input list \<Rightarrow> app \<Rightarrow> (string + bool \<times> app) option" where
  "app_loop [] a = Some (Inr (False, a))"
| "app_loop (i # is) a = Option.bind (loop_turn i a) (\<lambda>r.
     case r of Inr (False, a1) \<Rightarrow> app_loop is a1 | _ \<Rightarrow> Some r)"

text \<open>\<open>watch\<close> is the error of starting the watcher.\<close>

definition run_app :: "op_env \<Rightarrow> app_config \<Rightarrow> string option \<Rightarrow> loop_input list \<Rightarrow> (string + bool \<times> app) option" where
  "run_app env c watch is = Option.bind (app_new env c) (\<lambda>a. app_loop is
     (case watch of None \<Rightarrow> a | Some e \<Rightarrow> append_status (''watcher unavailable: '' @ e) a))"

end
