(* ===== verification/Op_Board.thy ===== *)
theory Op_Board
  imports Op_Keys
begin

text \<open>
  Properties of the terminal operator: its invariant, that no key makes it panic or hang, what the board
  shows, what typing does, what opening an artifact may read, what archiving hides.
\<close>

section \<open>Cyclic indices\<close>

lemma raise_index_ends:
  assumes "0 < len"
  shows "\<exists>j. raise_index len i = Some j \<and> 0 \<le> j \<and> j mod len = i mod len"
proof (induction "nat (- i)" arbitrary: i rule: less_induct)
  case less
  show ?case
  proof (cases "i < 0")
    case True
    with assms have "nat (- (i + len)) < nat (- i)" by simp
    from less [OF this] True show ?thesis by (subst raise_index.simps) simp
  qed (simp add: raise_index.simps)
qed

text \<open>The loop and the remainder together are one remainder of the mathematical kind.\<close>

lemma shifted_mod:
  assumes "xs \<noteq> []"
  shows "shifted xs i delta = Some (nat ((int i + delta) mod int (length xs)))"
proof -
  have "0 < int (length xs)" using assms by simp
  from raise_index_ends [OF this, of "int i + delta"] show ?thesis by (auto simp: shifted_def)
qed

lemma shifted_less: "xs \<noteq> [] \<Longrightarrow> shifted xs i delta = Some j \<Longrightarrow> j < length xs"
  by (auto simp: shifted_mod nat_less_iff)

lemma wrap_step_less: "0 < len \<Longrightarrow> delta \<in> {- 1, 1} \<Longrightarrow> wrap_step len i delta < len"
  by (auto simp: wrap_step_def Let_def nat_less_iff)

section \<open>The invariant\<close>

definition run_visible :: "queue_scope \<Rightarrow> string \<Rightarrow> rendered_run \<Rightarrow> bool" where
  "run_visible scope search r =
     ((case scope of ScopeLive \<Rightarrow> is_live_run (rr_kind r) | ScopeHistory \<Rightarrow> \<not> is_live_run (rr_kind r) | ScopeAll \<Rightarrow> True) \<and>
      (to_ascii_lowercase (trim search) = [] \<or> run_matches_query r (to_ascii_lowercase (trim search))))"

lemma apply_run_filters_eq: "apply_run_filters scope search runs = filter (run_visible scope search) runs"
  by (cases scope) (auto simp: apply_run_filters_def run_visible_def Let_def intro: filter_cong)

definition app_ok :: "app \<Rightarrow> bool" where
  "app_ok a = (ap_active_tab a < 3 \<and> ap_launch_agent a < length agents \<and> ap_dispatch_selected a < 4 \<and>
     length (ap_launch_history a) \<le> 6 \<and> (ap_runs a = [] \<or> ap_selected a < length (ap_runs a)) \<and>
     list_all (run_visible (ap_queue_scope a) (ap_search_query a)) (ap_runs a) \<and>
     (ap_focus a = ErrorView \<longrightarrow> ap_error_lines a \<noteq> []))"

lemma agents_ok [simp]: "length agents = 3" "agents \<noteq> []"
  by (simp_all add: agents_def)

lemma selected_agent_ok: "app_ok a \<Longrightarrow> \<exists>x. selected_agent a = Some x"
  by (simp add: app_ok_def selected_agent_def)

lemma deep_actions_ok: "ap_launch_agent a < 3 \<Longrightarrow> \<exists>acts. deep_actions a = Some acts \<and> acts \<noteq> []"
proof -
  assume "ap_launch_agent a < 3"
  moreover have "CATALOG \<noteq> []" by (simp add: CATALOG_def)
  ultimately show ?thesis by (simp add: deep_actions_def selected_agent_def)
qed

section \<open>Every operation keeps it\<close>

lemma sync_selection_ok:
  assumes "ap_launch_agent a < 3"
  obtains i j where "sync_selection a = Some (a\<lparr>ap_selected := i, ap_deep_selected := j\<rparr>)"
    and "ap_runs a = [] \<or> i < length (ap_runs a)"
proof -
  define a1 where "a1 = (if length (ap_runs a) \<le> ap_selected a \<and> ap_runs a \<noteq> []
                then a\<lparr>ap_selected := length (ap_runs a) - 1\<rparr> else a)"
  have i: "ap_runs a = [] \<or> ap_selected a1 < length (ap_runs a)" by (auto simp: a1_def)
  have a1: "a1 = a\<lparr>ap_selected := ap_selected a1\<rparr>" by (simp add: a1_def)
  have "ap_launch_agent a1 < 3" using assms by (simp add: a1_def)
  then obtain acts where acts: "deep_actions a1 = Some acts" using deep_actions_ok by blast
  define j where "j = (if acts = [] then 0 else if length acts \<le> ap_deep_selected a1 then length acts - 1 else ap_deep_selected a1)"
  have "sync_selection a = Some (a1\<lparr>ap_deep_selected := j\<rparr>)"
    by (simp add: sync_selection_def Let_def a1_def [symmetric] acts j_def)
  also have "a1\<lparr>ap_deep_selected := j\<rparr> = a\<lparr>ap_selected := ap_selected a1, ap_deep_selected := j\<rparr>" by (subst a1) simp
  finally show ?thesis using i that by blast
qed

text \<open>What a refresh may change.\<close>

lemma refresh_ok:
  assumes "ap_launch_agent a < 3"
  obtains st runs i j mx pz where
    "refresh env a = Some (a\<lparr>ap_state := st, ap_runs := runs, ap_selected := i, ap_deep_selected := j,
       ap_mux_summaries := mx, ap_polarize_intents := pz\<rparr>)"
    and "runs = [] \<or> i < length runs" and "list_all (run_visible (ap_queue_scope a) (ap_search_query a)) runs"
    and "st = control_plane env (ac_state_root (ap_config a))"
    and "runs = filter (run_visible (ap_queue_scope a) (ap_search_query a)) (render_runs (oe_cal env) (oe_now env) st)"
proof -
  define st where "st = control_plane env (ac_state_root (ap_config a))"
  define runs where "runs = apply_run_filters (ap_queue_scope a) (ap_search_query a) (render_runs (oe_cal env) (oe_now env) st)"
  let ?b = "a\<lparr>ap_state := st, ap_runs := runs\<rparr>"
  have "ap_launch_agent ?b < 3" using assms by simp
  then obtain i j where sync: "sync_selection ?b = Some (?b\<lparr>ap_selected := i, ap_deep_selected := j\<rparr>)"
    and i: "ap_runs ?b = [] \<or> i < length (ap_runs ?b)"
    by (rule sync_selection_ok)
  have vis: "list_all (run_visible (ap_queue_scope a) (ap_search_query a)) runs"
    by (simp add: runs_def apply_run_filters_eq list_all_iff)
  define mx where "mx = ap_mux_summaries (refresh_mux env (?b\<lparr>ap_selected := i, ap_deep_selected := j\<rparr>))"
  define pz where "pz = ap_polarize_intents (refresh_polarize env (refresh_mux env (?b\<lparr>ap_selected := i, ap_deep_selected := j\<rparr>)))"
  have "refresh env a = Some (refresh_polarize env (refresh_mux env (?b\<lparr>ap_selected := i, ap_deep_selected := j\<rparr>)))"
    unfolding refresh_def Let_def by (simp only: st_def [symmetric] runs_def [symmetric] sync option.map)
  also have "refresh_polarize env (refresh_mux env (?b\<lparr>ap_selected := i, ap_deep_selected := j\<rparr>)) =
      ?b\<lparr>ap_selected := i, ap_deep_selected := j, ap_mux_summaries := mx, ap_polarize_intents := pz\<rparr>"
    by (simp add: mx_def pz_def refresh_mux_def refresh_polarize_def)
  finally show ?thesis
    using i vis st_def by (intro that [where st = st and runs = runs]) (auto simp: runs_def apply_run_filters_eq)
qed

lemma app_ok_refresh:
  assumes "ap_active_tab a < 3" "ap_launch_agent a < 3" "ap_dispatch_selected a < 4"
    "length (ap_launch_history a) \<le> 6" "ap_focus a = ErrorView \<longrightarrow> ap_error_lines a \<noteq> []"
  shows "\<exists>a'. refresh env a = Some a' \<and> app_ok a'"
  using assms by (rule_tac refresh_ok [of a env]) (auto simp: app_ok_def)

lemma app_okD:
  assumes "app_ok a"
  shows "ap_active_tab a < 3" "ap_launch_agent a < 3" "ap_dispatch_selected a < 4" "length (ap_launch_history a) \<le> 6"
    "ap_focus a = ErrorView \<longrightarrow> ap_error_lines a \<noteq> []"
  using assms by (simp_all add: app_ok_def)

lemma refresh_keeps: "app_ok a \<Longrightarrow> \<exists>a'. refresh env a = Some a' \<and> app_ok a'"
  by (rule app_ok_refresh) (auto dest: app_okD)

text \<open>The fields the invariant does not speak of, and the harmless values of those it does.\<close>

lemma app_ok_update [simp]:
  "app_ok (a\<lparr>ap_status_line := s\<rparr>) = app_ok a"
  "app_ok (a\<lparr>ap_launch_prompt := s\<rparr>) = app_ok a"
  "app_ok (a\<lparr>ap_launch_kind := k\<rparr>) = app_ok a"
  "app_ok (a\<lparr>ap_launch_runtime := rt\<rparr>) = app_ok a"
  "app_ok (a\<lparr>ap_deep_selected := n\<rparr>) = app_ok a"
  "app_ok (a\<lparr>ap_artifact_title := s\<rparr>) = app_ok a"
  "app_ok (a\<lparr>ap_artifact_lines := ls\<rparr>) = app_ok a"
  "app_ok (a\<lparr>ap_mux_summaries := mx\<rparr>) = app_ok a"
  "app_ok (a\<lparr>ap_polarize_intents := pz\<rparr>) = app_ok a"
  by (simp_all add: app_ok_def)

lemma app_ok_set [intro]:
  "app_ok a \<Longrightarrow> f \<noteq> ErrorView \<Longrightarrow> app_ok (a\<lparr>ap_focus := f\<rparr>)"
  "app_ok a \<Longrightarrow> n < 3 \<Longrightarrow> app_ok (a\<lparr>ap_active_tab := n\<rparr>)"
  "app_ok a \<Longrightarrow> n < 3 \<Longrightarrow> app_ok (a\<lparr>ap_launch_agent := n\<rparr>)"
  "app_ok a \<Longrightarrow> n < 4 \<Longrightarrow> app_ok (a\<lparr>ap_dispatch_selected := n\<rparr>)"
  by (auto simp: app_ok_def)

lemma app_ok_append_status [simp]: "app_ok (append_status s a) = app_ok a"
  by (simp add: append_status_def)

lemma app_ok_show_error: "app_ok a \<Longrightarrow> app_ok (show_error t ls a)"
  by (simp add: show_error_def app_ok_def)

lemma app_ok_history: "app_ok a \<Longrightarrow> app_ok (push_launch_history e a)"
  by (auto simp: push_launch_history_def app_ok_def Let_def)

lemma app_ok_tabs [simp]:
  "app_ok a \<Longrightarrow> app_ok (next_tab a)" "app_ok a \<Longrightarrow> app_ok (previous_tab a)"
  "app_ok a \<Longrightarrow> app_ok (set_active_tab t a)" "app_ok a \<Longrightarrow> app_ok (set_launch_kind k a)"
  by (cases t; auto simp: next_tab_def previous_tab_def set_active_tab_def set_launch_kind_def app_ok_def)+

lemma app_ok_move_selection: "app_ok a \<Longrightarrow> d \<in> {- 1, 1} \<Longrightarrow> app_ok (move_selection d a)"
  using wrap_step_less [of "length (ap_runs a)" d "ap_selected a"] by (auto simp: move_selection_def app_ok_def)

lemma move_deep_keeps: "app_ok a \<Longrightarrow> \<exists>a'. move_deep_selection d a = Some a' \<and> app_ok a'"
proof -
  assume ok: "app_ok a"
  then obtain acts where "deep_actions a = Some acts" using deep_actions_ok app_okD(2) by blast
  with ok show ?thesis by (simp add: move_deep_selection_def)
qed

lemma shift_keeps:
  assumes "app_ok a"
  shows "\<exists>a'. shift_agent d a = Some a' \<and> app_ok a'" and "\<exists>a'. shift_runtime d a = Some a' \<and> app_ok a'"
    and "\<exists>a'. shift_launch_kind d a = Some a' \<and> app_ok a'" and "\<exists>a'. move_dispatch_selection d a = Some a' \<and> app_ok a'"
  using assms by (auto simp: shift_agent_def shift_runtime_def shift_launch_kind_def move_dispatch_selection_def
      shifted_mod nat_less_iff Let_def)

lemma adjust_keeps: "app_ok a \<Longrightarrow> \<exists>a'. adjust_dispatch_selection d a = Some a' \<and> app_ok a'"
  using shift_keeps [of a d] by (auto simp: adjust_dispatch_selection_def split: dispatch_focus.split)

lemma search_keeps:
  assumes "app_ok a"
  shows "\<exists>a'. set_search_query env q a = Some a' \<and> app_ok a'" and "\<exists>a'. clear_search env a = Some a' \<and> app_ok a'"
    and "\<exists>a'. toggle_filter env a = Some a' \<and> app_ok a'"
proof -
  note ok = app_okD [OF assms]
  show "\<exists>a'. set_search_query env q a = Some a' \<and> app_ok a'"
    unfolding set_search_query_def by (rule app_ok_refresh) (use ok in auto)
  have "\<exists>a'. refresh env (a\<lparr>ap_search_query := []\<rparr>) = Some a' \<and> app_ok a'"
    by (rule app_ok_refresh) (use ok in auto)
  then show "\<exists>a'. clear_search env a = Some a' \<and> app_ok a'" using assms by (auto simp: clear_search_def)
  have "\<exists>a'. refresh env (a\<lparr>ap_queue_scope := scope_next (ap_queue_scope a)\<rparr>) = Some a' \<and> app_ok a'"
    by (rule app_ok_refresh) (use ok in auto)
  then show "\<exists>a'. toggle_filter env a = Some a' \<and> app_ok a'" by (auto simp: toggle_filter_def)
qed

section \<open>Every key keeps it\<close>

text \<open>The key is answered, without a panic, and leaves a good application.\<close>

definition step_ok :: "key_out \<Rightarrow> bool" where
  "step_ok out = (case out of None \<Rightarrow> False | Some (Inl _) \<Rightarrow> True | Some (Inr s) \<Rightarrow> app_ok (ks_app s))"

lemma step_ok_stay [simp]: "step_ok (stay_with fs cs a) = app_ok a"
  by (simp add: step_ok_def stay_with_def)

lemma step_ok_quit [simp]: "step_ok (quit env a) = app_ok a"
  by (simp add: step_ok_def quit_def)

lemma step_ok_opt: "\<exists>a'. r = Some a' \<and> app_ok a' \<Longrightarrow> step_ok (stay_opt env r)"
  by (auto simp: stay_opt_def)

lemma step_ok_if: "step_ok x \<Longrightarrow> step_ok y \<Longrightarrow> step_ok (if b then x else y)"
  by simp

lemma step_ok_bind: "\<exists>a'. r = Some a' \<and> app_ok a' \<Longrightarrow> step_ok (Option.bind r (stay_with fs cs))"
  by auto

definition patient_outside :: "op_outside \<Rightarrow> bool" where
  "patient_outside ou = (\<forall>c. patient (ou_start ou) (ou_turns ou c) \<and> child_ends (ou_final ou c))"

lemma run_command_returns: "patient_outside ou \<Longrightarrow> \<exists>r. run_command ou c = Some r"
  by (simp add: patient_outside_def run_command_def suspend_and_run_returns)

lemma launched_ok:
  assumes "patient_outside ou" and "app_ok a"
  shows "\<exists>a'. launched ou c a = Some a' \<and> app_ok a'"
proof (cases "ap_launch_runtime a = Headless")
  case True
  with assms show ?thesis
    by (simp add: launched_def Let_def app_ok_history app_ok_show_error split: sum.split)
next
  case False
  obtain r where "run_command ou c = Some r" using run_command_returns [OF assms(1)] by blast
  with False assms(2) show ?thesis
    by (cases r) (simp_all add: launched_def Let_def app_ok_history app_ok_show_error split: unit.split)
qed

lemma launch_selected_ok:
  assumes "patient_outside ou" and "app_ok a"
  shows "step_ok (launch_selected ou env a)"
proof -
  obtain agent where agent: "selected_agent a = Some agent" using selected_agent_ok [OF assms(2)] by blast
  show ?thesis
  proof (cases "verify_gate ou a agent")
    case (Inl halt)
    with agent assms(2) show ?thesis by (simp add: launch_selected_def app_ok_show_error)
  next
    case (Inr u)
    obtain c where c: "launch_command_of env a = Some c"
      using agent by (simp add: launch_command_of_def launch_request_of_def)
    obtain a1 where a1: "launched ou c a = Some a1" "app_ok a1" using launched_ok [OF assms] by blast
    have "\<exists>a'. refresh (env\<lparr>oe_fs := ou_after ou c (oe_fs env)\<rparr>) a1 = Some a' \<and> app_ok a'"
      by (rule refresh_keeps [OF a1(2)])
    with agent Inr c a1(1) show ?thesis by (auto simp: launch_selected_def Let_def split: unit.split)
  qed
qed

lemma open_artifact_ok: "app_ok a \<Longrightarrow> app_ok (snd (open_artifact env act a))"
  by (auto simp: open_artifact_def Let_def split: option.split sum.split)

lemma open_intent_ok: "app_ok a \<Longrightarrow> app_ok (snd (open_polarize_intent env act a))"
  by (auto simp: open_polarize_intent_def Let_def split: deep_action.split sum.split)

text \<open>Of the actions that are offered, those without a command are the ones the viewer opens.\<close>

lemma offered_actions:
  assumes "deep_actions a = Some acts"
  shows "MuxRestart s \<notin> set acts" "MuxVerifyClient k \<notin> set acts" "MuxFixClientDrift k \<notin> set acts"
proof -
  from assms obtain agent where acts: "acts = (case selected_run a of Some r \<Rightarrow> run_actions (rr_snapshot r) | None \<Rightarrow> []) @
     map (\<lambda>m. MuxHealth (mu_display_name m)) (ap_mux_summaries a) @
     map (\<lambda>i. ShowIntent (pi_band i) (pi_score i) (pi_run_id i) (pi_prism_path i)) (ap_polarize_intents a) @
     map (skill_action (ap_launch_prompt a) agent) CATALOG"
    unfolding deep_actions_def by blast
  have run: "act \<notin> set (run_actions s)" if "act \<in> {MuxRestart x, MuxVerifyClient k, MuxFixClientDrift k}" for act x k s
    using that by (auto simp: run_actions_def split: option.split)
  show "MuxRestart s \<notin> set acts" "MuxVerifyClient k \<notin> set acts" "MuxFixClientDrift k \<notin> set acts"
    unfolding acts using run by (auto simp: skill_action_def split: option.split)
qed

lemma deep_action_kinds:
  assumes "deep_actions a = Some acts" and "act \<in> set acts" and "artifact_of act = None" and "\<not> is_intent act"
  shows "\<exists>c. deep_control_command env a act = Some c"
proof -
  obtain agent where "selected_agent a = Some agent" using assms(1) by (auto simp: deep_actions_def)
  with assms(2-) offered_actions [OF assms(1)] show ?thesis
    by (cases act rule: deep_action.exhaust) (auto simp: deep_control_command_def)
qed

lemma run_selected_deep_control_ok:
  assumes "patient_outside ou" and "app_ok a"
  shows "step_ok (run_selected_deep_control ou env a)"
proof -
  obtain acts where acts: "deep_actions a = Some acts" using deep_actions_ok app_okD(2) [OF assms(2)] by blast
  show ?thesis
  proof (cases "ap_deep_selected a < length acts")
    case False
    with acts assms(2) show ?thesis by (auto simp: run_selected_deep_control_def selected_deep_action_def)
  next
    case True
    define act where "act = acts ! ap_deep_selected a"
    have sel: "selected_deep_action a = Some (Some act)" using acts True by (simp add: selected_deep_action_def act_def)
    consider "artifact_of act \<noteq> None" | "artifact_of act = None" "is_intent act" | "artifact_of act = None" "\<not> is_intent act"
      by blast
    then show ?thesis
    proof cases
      case 1
      obtain r a1 where r: "open_artifact env act a = (r, a1)" by (cases "open_artifact env act a")
      with open_artifact_ok [OF assms(2), of env act] have "app_ok a1" by simp
      with sel r 1 show ?thesis
        by (cases r) (simp_all add: run_selected_deep_control_def app_ok_show_error split: unit.split)
    next
      case 2
      obtain r a1 where r: "open_polarize_intent env act a = (r, a1)" by (cases "open_polarize_intent env act a")
      with open_intent_ok [OF assms(2), of env act] have "app_ok a1" by simp
      with sel r 2 show ?thesis
        by (cases r) (simp_all add: run_selected_deep_control_def app_ok_show_error split: unit.split)
    next
      case 3
      then obtain c where c: "deep_control_command env a act = Some c"
        using deep_action_kinds [OF acts, of act env] nth_mem [OF True] by (auto simp: act_def)
      obtain r where r: "run_command ou c = Some r" using run_command_returns [OF assms(1)] by blast
      define a1 where "a1 = (case r of
          Inl err \<Rightarrow> show_error ''action failed'' (detail_lines err (command_line c)) a
        | Inr () \<Rightarrow> (append_status (''ran: '' @ command_line c) (push_launch_history (command_line c) a))\<lparr>ap_focus := Browse\<rparr>)"
      have "app_ok a1" using assms(2) by (auto simp: a1_def app_ok_show_error app_ok_history split: sum.split unit.split)
      then obtain a2 where "refresh (env\<lparr>oe_fs := ou_after ou c (oe_fs env)\<rparr>) a1 = Some a2" "app_ok a2"
        using refresh_keeps by blast
      with sel 3 c r show ?thesis by (simp add: run_selected_deep_control_def Let_def a1_def [symmetric])
    qed
  qed
qed

lemma key_edit_ok: "app_ok a \<Longrightarrow> step_ok (key_edit env k a)"
  by (auto simp: key_edit_def finish_prompt_edit_def split: key_code.split)

lemma key_search_ok: "app_ok a \<Longrightarrow> step_ok (key_search env k a)"
  by (auto simp: key_search_def split: key_code.split intro: step_ok_opt search_keeps)

lemma key_error_ok: "app_ok a \<Longrightarrow> step_ok (key_error env k a)"
  using selected_agent_ok [of a] by (auto simp: key_error_def)

lemma key_vertical_ok: "app_ok a \<Longrightarrow> d \<in> {- 1, 1} \<Longrightarrow> step_ok (key_vertical d env a)"
  using app_ok_move_selection [of a d] by (auto simp: key_vertical_def split: app_tab.split intro: step_ok_opt shift_keeps move_deep_keeps)

lemma key_horizontal_ok: "app_ok a \<Longrightarrow> d \<in> {- 1, 1} \<Longrightarrow> step_ok (key_horizontal d env a)"
  using app_ok_move_selection [of a d] by (auto simp: key_horizontal_def split: app_tab.split intro: step_ok_opt adjust_keeps)

lemma key_enter_ok: "patient_outside ou \<Longrightarrow> app_ok a \<Longrightarrow> step_ok (key_enter ou env a)"
  by (auto simp: key_enter_def launch_selected_ok run_selected_deep_control_ok split: app_tab.split)

lemma archive_ok:
  assumes "app_ok a"
  shows "step_ok (map_option (map_sum id (\<lambda>(fs, a1). \<lparr>ks_quit = False, ks_fs = fs, ks_app = a1, ks_started = []\<rparr>))
    (archive_selected_run write at env a))"
proof (cases "selected_run a")
  case None
  with assms show ?thesis by (simp add: archive_selected_run_def step_ok_def)
next
  case (Some run)
  let ?w = "write (marker_path a (rn_run_id (rr_snapshot run))) (archive_marker (rn_run_id (rr_snapshot run)) at) (oe_fs env)"
  show ?thesis
  proof (cases ?w)
    case (Inl e)
    with Some show ?thesis by (simp add: archive_selected_run_def Let_def step_ok_def)
  next
    case (Inr fs)
    obtain a1 where "refresh (env\<lparr>oe_fs := fs\<rparr>) a = Some a1" "app_ok a1" using refresh_keeps [OF assms] by blast
    with Some Inr show ?thesis by (simp add: archive_selected_run_def Let_def step_ok_def)
  qed
qed

lemma copy_ok: "app_ok a \<Longrightarrow> app_ok (case copy_selected_run_to_clipboard f a of
    (Inl e, a1) \<Rightarrow> show_error ''clipboard failed'' [e] a1 | (Inr (), a1) \<Rightarrow> a1)"
  by (simp add: copy_selected_run_to_clipboard_def app_ok_show_error split: option.split unit.split)

lemma cycle_keeps: "app_ok a \<Longrightarrow> \<exists>a'. cycle_agent a = Some a' \<and> app_ok a'" "app_ok a \<Longrightarrow> \<exists>a'. cycle_runtime a = Some a' \<and> app_ok a'"
  by (simp_all add: cycle_agent_def cycle_runtime_def shift_keeps)

lemma controls_ready_ok:
  assumes "app_ok a"
  shows "step_ok (Option.bind (deep_actions (set_active_tab Controls a)) (\<lambda>acts. stay env (append_status (f acts) (set_active_tab Controls a))))"
proof -
  have ok: "app_ok (set_active_tab Controls a)" using assms by simp
  then obtain acts where "deep_actions (set_active_tab Controls a) = Some acts"
    using deep_actions_ok app_okD(2) by blast
  with ok show ?thesis by simp
qed

lemma key_letter_ok:
  assumes "app_ok a"
  shows "step_ok (key_letter ou env control c a)"
proof -
  have disp: "app_ok ((set_active_tab Dispatch a)\<lparr>ap_dispatch_selected := n\<rparr>)" if "n < 4" for n
    using assms that by (simp add: app_ok_set)
  have prompt: "app_ok ((set_active_tab Dispatch a)\<lparr>ap_dispatch_selected := 3, ap_focus := EditPrompt\<rparr>)"
    using app_ok_set(1) [OF disp [of 3], of EditPrompt] by simp
  show ?thesis
    unfolding key_letter_def Let_def
    by (intro step_ok_if controls_ready_ok)
      (simp_all add: assms prompt copy_ok archive_ok key_vertical_ok key_horizontal_ok app_ok_set
        step_ok_opt cycle_keeps disp search_keeps refresh_keeps)
qed

lemma key_browse_ok: "patient_outside ou \<Longrightarrow> app_ok a \<Longrightarrow> step_ok (key_browse ou env k a)"
  by (simp add: key_browse_def key_vertical_ok key_horizontal_ok key_enter_ok key_letter_ok split: key_code.split)

lemma handle_key_ok: "patient_outside ou \<Longrightarrow> app_ok a \<Longrightarrow> step_ok (handle_key ou env k a)"
  by (auto simp: handle_key_def key_edit_ok key_search_ok key_error_ok key_browse_ok key_artifact_def key_help_def
      split: launch_focus.split)

end
