(* ===== verification/Op_Claims.thy ===== *)
theory Op_Claims
  imports Op_Board
begin

text \<open>
  What the terminal operator promises: it never panics and its state stays sound, the dispatch form cycles,
  only few keys start commands, a prompt is what was typed, artifacts stay inside the run, an archived
  run disappears.
\<close>

section \<open>Soundness of the running operator\<close>

lemma handle_ipc_ok: "app_ok a \<Longrightarrow> app_ok (fold (handle_ipc_event env) evs a)"
  by (induction evs arbitrary: a) (simp_all add: handle_ipc_event_def refresh_mux_def)

lemma loop_rest_ok:
  assumes "app_ok a"
  shows "\<exists>a'. loop_rest i a = Some a' \<and> app_ok a'"
proof -
  define a1 where "a1 = fold (handle_ipc_event (li_after i)) (li_events i) a"
  have "app_ok a1" using assms by (simp add: a1_def handle_ipc_ok)
  then have "\<exists>a2. (if b then refresh (li_after i) a1 else Some a1) = Some a2 \<and> app_ok a2" for b
    using refresh_keeps [of a1 "li_after i"] by simp
  then obtain a2 where "(if li_watched i \<or> li_events i \<noteq> [] then refresh (li_after i) a1 else Some a1) = Some a2" "app_ok a2"
    by blast
  moreover obtain a3 where "refresh (li_after i) a2 = Some a3" "app_ok a3"
    using refresh_keeps [OF \<open>app_ok a2\<close>] by blast
  ultimately show ?thesis by (simp add: loop_rest_def Let_def a1_def [symmetric])
qed

definition sound :: "(string + bool \<times> app) option \<Rightarrow> bool" where
  "sound out = (case out of None \<Rightarrow> False | Some (Inl _) \<Rightarrow> True | Some (Inr (_, a)) \<Rightarrow> app_ok a)"

lemma loop_turn_sound:
  assumes "patient_outside (li_outside i)" and "app_ok a"
  shows "sound (loop_turn i a)"
proof (cases "li_key i")
  case None
  with loop_rest_ok [OF assms(2), of i] show ?thesis by (auto simp: loop_turn_def sound_def)
next
  case (Some k)
  have ok: "step_ok (handle_key (li_outside i) (li_env i) k a)" by (rule handle_key_ok [OF assms])
  then obtain r where r: "handle_key (li_outside i) (li_env i) k a = Some r" by (auto simp: step_ok_def split: option.splits)
  show ?thesis
  proof (cases r)
    case (Inl e)
    with r Some show ?thesis by (simp add: loop_turn_def sound_def)
  next
    case (Inr s)
    with ok r have "app_ok (ks_app s)" by (simp add: step_ok_def)
    with Inr r Some loop_rest_ok [OF this, of i] show ?thesis by (auto simp: loop_turn_def sound_def)
  qed
qed

lemma app_loop_sound: "\<forall>i \<in> set is. patient_outside (li_outside i) \<Longrightarrow> app_ok a \<Longrightarrow> sound (app_loop is a)"
proof (induction "is" arbitrary: a)
  case Nil
  then show ?case by (simp add: sound_def)
next
  case (Cons i "is")
  then have "sound (loop_turn i a)" by (simp add: loop_turn_sound)
  then consider e where "loop_turn i a = Some (Inl e)" | q a1 where "loop_turn i a = Some (Inr (q, a1))" "app_ok a1"
    by (auto simp: sound_def split: option.splits sum.splits)
  then show ?case
  proof cases
    case 1
    then show ?thesis by (simp add: sound_def)
  next
    case 2
    with Cons show ?thesis by (cases q) (simp_all add: sound_def)
  qed
qed

lemma app_new_ok: "\<exists>a. app_new env c = Some a \<and> app_ok a"
proof -
  define st where "st = control_plane env (ac_state_root c)"
  define a where "a = \<lparr>ap_config = c, ap_state = st,
            ap_runs = apply_run_filters ScopeLive [] (render_runs (oe_cal env) (oe_now env) st),
            ap_selected = 0, ap_active_tab = tab_index Monitor, ap_launch_kind = Workflow, ap_launch_agent = 0,
            ap_launch_prompt = default_prompt Workflow, ap_launch_runtime = ac_launch_runtime c,
            ap_dispatch_selected = 0, ap_focus = Browse, ap_status_line = [], ap_launch_history = [],
            ap_deep_selected = 0, ap_queue_scope = ScopeLive, ap_search_query = [], ap_error_title = [],
            ap_error_lines = [], ap_artifact_title = [], ap_artifact_lines = [], ap_mux_summaries = [],
            ap_polarize_intents = []\<rparr>"
  have "ap_launch_agent a < 3" by (simp add: a_def)
  then obtain i j where sync: "sync_selection a = Some (a\<lparr>ap_selected := i, ap_deep_selected := j\<rparr>)"
    and i: "ap_runs a = [] \<or> i < length (ap_runs a)" by (rule sync_selection_ok)
  have "app_ok (a\<lparr>ap_selected := i, ap_deep_selected := j\<rparr>)"
    using i by (simp add: a_def app_ok_def apply_run_filters_eq list_all_iff)
  then have "app_ok (refresh_polarize env (refresh_mux env (a\<lparr>ap_selected := i, ap_deep_selected := j\<rparr>)))"
    by (simp add: refresh_polarize_def refresh_mux_def)
  moreover have "app_new env c = Some (refresh_polarize env (refresh_mux env (a\<lparr>ap_selected := i, ap_deep_selected := j\<rparr>)))"
    unfolding app_new_def Let_def by (simp only: st_def [symmetric] a_def [symmetric] sync option.map)
  ultimately show ?thesis by blast
qed


definition example_tui_env :: tui_env where
  "example_tui_env = \<lparr>te_var = (\<lambda>_. None), te_exists = (\<lambda>_. False), te_manifest_dir = ''/m'', te_current_dir = None\<rparr>"

text \<open>A state root with one run, before and after it is archived; the text of a file is its path.\<close>

definition example_board :: "bool \<Rightarrow> dir_view" where
  "example_board archived = \<lparr>
     dv_exists = (\<lambda>p. p \<in> set [''/s'', ''/s/runs''] \<or> (archived \<and> p = ''/s/runs/.archived'')),
     dv_kind = (\<lambda>p. if p \<in> set [''/s'', ''/s/runs'', ''/s/runs/.archived''] then Some PlainDir
       else if p \<in> set [''/s/runs/a.json'', ''/s/runs/.archived/a.json''] then Some PlainFile else None),
     dv_canonicalize = Some,
     dv_read_dir = (\<lambda>p. if p = ''/s/runs'' then Some [''/s/runs/a.json'']
       else if p = ''/s/runs/.archived'' then Some [''/s/runs/.archived/a.json''] else None),
     dv_read = Some\<rparr>"

definition example_op_env :: op_env where
  "example_op_env = \<lparr>
     oe_parsers = \<lparr>ps_run = (\<lambda>t. if t = ''/s/runs/a.json'' then Some (example_run ''a'') else None),
       ps_json = (\<lambda>t. if t = ''/s/runs/.archived/a.json'' then Some (archive_marker ''a'' ''t'') else None),
       ps_event = (\<lambda>_. None)\<rparr>,
     oe_cal = example_calendar, oe_now = 0, oe_fs = example_board False,
     oe_mux = \<lparr>me_var = (\<lambda>_. None), me_fs = example_board False, me_is_file = (\<lambda>_. False),
       me_os_error = (\<lambda>_. []), me_parse = (\<lambda>_. None), me_json_error = (\<lambda>_. [])\<rparr>,
     oe_modified = (\<lambda>_. None), oe_tui = example_tui_env,
     oe_os = \<lparr>lo_zellij_config_dir = None, lo_is_file = (\<lambda>_. False)\<rparr>\<rparr>"

definition example_app_config :: app_config where
  "example_app_config = \<lparr>ac_state_root = ''/s'', ac_command_deck = ''vc'', ac_launch_root = ''/l'',
     ac_launch_runtime = Terminal, ac_terminal_binary = ''zellij'', ac_tick_rate = 1, ac_no_verify_gate = False\<rparr>"

definition example_outside :: op_outside where
  "example_outside = \<lparr>ou_write = (\<lambda>p j fs. Inr (example_board True)), ou_time = ''t'', ou_set_text = (\<lambda>_. None),
     ou_connected = False, ou_written = False, ou_reply = (\<lambda>_. None), ou_response = (\<lambda>_. None),
     ou_detached = (\<lambda>_. Inr 1), ou_modes = \<lparr>tm_raw_off = None, tm_leave = None, tm_enter = None, tm_raw_on = None\<rparr>,
     ou_spawned = (\<lambda>_. Inr ()), ou_start = 0, ou_final = (\<lambda>_. \<lparr>ce_output = Some (Inl ''gone''), ce_reaped = True\<rparr>),
     ou_turns = (\<lambda>_. map idle_turn [0..<21]), ou_after = (\<lambda>_ fs. fs)\<rparr>"

definition plain_key :: "key_code \<Rightarrow> key_event" where
  "plain_key k = \<lparr>ke_code = k, ke_control = False\<rparr>"

definition example_input :: "key_code \<Rightarrow> loop_input" where
  "example_input k = \<lparr>li_key = Some (plain_key k), li_outside = example_outside, li_env = example_op_env,
     li_watched = False, li_events = [], li_after = example_op_env, li_tick = True\<rparr>"

lemma example_patient: "patient_outside example_outside"
  by (simp add: patient_outside_def patient_def child_ends_def example_outside_def idle_turn_def poll_interval_def from_millis_def)


section \<open>The dispatch form\<close>

lemma runtime_position: "position_or [Headless, Terminal, Visible] r 1 = (case r of Headless \<Rightarrow> 0 | Terminal \<Rightarrow> 1 | Visible \<Rightarrow> 2)"
  by (cases r) (simp_all add: position_or_def)

lemma kind_position:
  "position_or [Workflow, Research, Review, Marbles] k 0 = (case k of Workflow \<Rightarrow> 0 | Research \<Rightarrow> 1 | Review \<Rightarrow> 2 | Marbles \<Rightarrow> 3)"
  by (cases k) (simp_all add: position_or_def)

lemma mod3_cases: "(d :: int) mod 3 = 0 \<or> d mod 3 = 1 \<or> d mod 3 = 2"
  by presburger

lemma runtime_rotation:
  "[Headless, Terminal, Visible] ! nat ((int (position_or [Headless, Terminal, Visible] r 1) + d) mod 3) =
     (runtime_cycle ^^ nat (d mod 3)) r"
proof -
  have split: "(int n + d) mod 3 = (int n + d mod 3) mod 3" for n by presburger
  show ?thesis
    using mod3_cases [of d] unfolding runtime_position split by (cases r) (auto simp: numeral_2_eq_2)
qed

text \<open>the dispatch form equals its reference.  The counting loops that step through agents, runtimes and
  fields end for every distance, backwards as forwards, and give the position modulo the length; for
  the runtimes that is the \<open>cycle\<close> of the runtime type applied as often; a step there and back changes
  nothing, except that a step of the mission always writes the default prompt of the mission.\<close>

theorem dispatch_cycles:
  "shift_agent d a = Some (a\<lparr>ap_launch_agent := nat ((int (ap_launch_agent a) + d) mod 3)\<rparr>) \<and>
   shift_runtime d a = Some (a\<lparr>ap_launch_runtime := (runtime_cycle ^^ nat (d mod 3)) (ap_launch_runtime a)\<rparr>) \<and>
   move_dispatch_selection d a = Some (a\<lparr>ap_dispatch_selected := nat ((int (ap_dispatch_selected a) + d) mod 4)\<rparr>) \<and>
   Option.bind (shift_launch_kind 1 a) (shift_launch_kind (- 1)) =
     Some (a\<lparr>ap_launch_prompt := default_prompt (ap_launch_kind a)\<rparr>)"
proof (intro conjI)
  show "shift_agent d a = Some (a\<lparr>ap_launch_agent := nat ((int (ap_launch_agent a) + d) mod 3)\<rparr>)"
    by (simp add: shift_agent_def shifted_mod)
  have "shifted [Headless, Terminal, Visible] n d = Some (nat ((int n + d) mod 3))" for n by (simp add: shifted_mod)
  then show "shift_runtime d a = Some (a\<lparr>ap_launch_runtime := (runtime_cycle ^^ nat (d mod 3)) (ap_launch_runtime a)\<rparr>)"
    by (simp only: shift_runtime_def Let_def option.map runtime_rotation)
  show "move_dispatch_selection d a = Some (a\<lparr>ap_dispatch_selected := nat ((int (ap_dispatch_selected a) + d) mod 4)\<rparr>)"
    by (simp add: move_dispatch_selection_def shifted_mod)
  show "Option.bind (shift_launch_kind 1 a) (shift_launch_kind (- 1)) =
     Some (a\<lparr>ap_launch_prompt := default_prompt (ap_launch_kind a)\<rparr>)"
    by (cases "ap_launch_kind a") (simp_all add: shift_launch_kind_def Let_def shifted_mod kind_position)
qed

section \<open>Which keys start commands\<close>

lemma stay_started [simp]: "stay_with fs cs a = Some (Inr s) \<Longrightarrow> ks_started s = cs"
  by (auto simp: stay_with_def)

lemma stay_opt_started: "stay_opt env r = Some (Inr s) \<Longrightarrow> ks_started s = []"
  by (cases r) (auto simp: stay_opt_def stay_with_def)

text \<open>The step starts nothing.\<close>

definition quiet :: "key_out \<Rightarrow> bool" where
  "quiet out = (case out of Some (Inr s) \<Rightarrow> ks_started s = [] | _ \<Rightarrow> True)"

lemma quiet_simps [simp]: "quiet (stay env a)" "quiet (stay_opt env r)" "quiet (quit env a)"
  by (cases r; auto simp: quiet_def stay_with_def stay_opt_def quit_def split: option.split sum.split)+

lemma quiet_if: "quiet x \<Longrightarrow> quiet y \<Longrightarrow> quiet (if b then x else y)"
  by simp

lemma quiet_archive:
  "quiet (map_option (map_sum id (\<lambda>(fs, a1). \<lparr>ks_quit = False, ks_fs = fs, ks_app = a1, ks_started = []\<rparr>)) r)"
proof (cases r)
  case (Some x)
  then show ?thesis by (cases x) (auto simp: quiet_def)
qed (simp add: quiet_def)

lemma quiet_bind: "quiet (Option.bind r (\<lambda>x. stay env (f x)))"
  by (cases r) (auto simp: quiet_def stay_with_def)

lemma quiet_moves: "quiet (key_vertical d env a)" "quiet (key_horizontal d env a)"
  by (simp_all add: key_vertical_def key_horizontal_def split: app_tab.split)

lemma quiet_letter: "quiet (key_letter ou env control c a)"
  unfolding key_letter_def Let_def
  by (intro quiet_if quiet_bind) (simp_all only: quiet_simps quiet_archive quiet_moves)

lemma quiet_focus:
  "quiet (key_edit env k a)" "quiet (key_search env k a)" "quiet (key_artifact env k a)" "quiet (key_help env k a)"
  by (simp_all add: key_edit_def key_search_def key_artifact_def key_help_def split: key_code.split)

lemma launch_selected_started:
  assumes "launch_selected ou env a = Some (Inr s)" and "ks_started s \<noteq> []"
  shows "\<exists>agent c. selected_agent a = Some agent \<and> verify_gate ou a agent = Inr () \<and>
    launch_command_of env a = Some c \<and> ks_started s = [c]"
proof -
  obtain agent where agent: "selected_agent a = Some agent"
    using assms(1) by (cases "selected_agent a") (auto simp: launch_selected_def)
  show ?thesis
  proof (cases "verify_gate ou a agent")
    case (Inl halt)
    with agent assms show ?thesis by (simp add: launch_selected_def stay_with_def)
  next
    case (Inr u)
    obtain c where c: "launch_command_of env a = Some c"
      using agent by (simp add: launch_command_of_def launch_request_of_def)
    have eq: "launch_selected ou env a = Option.bind (launched ou c a) (\<lambda>a1. Option.bind
        (refresh (env\<lparr>oe_fs := ou_after ou c (oe_fs env)\<rparr>) a1) (stay_with (ou_after ou c (oe_fs env)) [c]))"
      using agent Inr c by (simp add: launch_selected_def Let_def split: unit.split)
    have "ks_started s = [c]" using assms(1) [unfolded eq] by (auto simp: bind_eq_Some_conv stay_with_def)
    with agent Inr c show ?thesis by simp
  qed
qed

lemma deep_control_started:
  assumes "run_selected_deep_control ou env a = Some (Inr s)" and "ks_started s \<noteq> []"
  shows "\<exists>act c. selected_deep_action a = Some (Some act) \<and> deep_control_command env a act = Some c \<and> ks_started s = [c]"
proof -
  from assms(1) obtain sel where sel: "selected_deep_action a = Some sel"
    by (cases "selected_deep_action a") (auto simp: run_selected_deep_control_def)
  show ?thesis
  proof (cases sel)
    case None
    with sel assms show ?thesis by (simp add: run_selected_deep_control_def stay_with_def)
  next
    case (Some act)
    have "artifact_of act = None \<and> \<not> is_intent act"
    proof (rule ccontr)
      assume "\<not> (artifact_of act = None \<and> \<not> is_intent act)"
      then have "quiet (run_selected_deep_control ou env a)"
        by (auto simp: run_selected_deep_control_def sel Some split: sum.split prod.split unit.split)
      with assms show False by (simp add: quiet_def)
    qed
    with sel Some assms(1) show ?thesis
      by (auto simp: run_selected_deep_control_def Let_def bind_eq_Some_conv stay_with_def)
  qed
qed


definition example_app :: app where
  "example_app = the (Option.bind (app_new example_op_env example_app_config)
     (\<lambda>a. refresh example_op_env (a\<lparr>ap_queue_scope := ScopeAll\<rparr>)))"

definition example_drift :: app where
  "example_drift = show_error ''launch failed'' (detail_lines (ClientDrift VerifyTimeout) []) example_app"


section \<open>Typing\<close>

text \<open>Keys one after another, as long as none of them fails or quits.\<close>

fun press :: "op_outside \<Rightarrow> op_env \<Rightarrow> key_event list \<Rightarrow> app \<Rightarrow> app option" where
  "press ou env [] a = Some a"
| "press ou env (k # ks) a = (case handle_key ou env k a of
     Some (Inr s) \<Rightarrow> if ks_quit s then None else press ou env ks (ks_app s) | _ \<Rightarrow> None)"

lemma type_prompt:
  assumes "ap_focus a = EditPrompt" and "CHR ''?'' \<notin> set t"
  shows "press ou env (map (\<lambda>c. plain_key (if c = nl then KEnter else KChar c)) t) a =
    Some (a\<lparr>ap_launch_prompt := ap_launch_prompt a @ t\<rparr>)"
  using assms
proof (induction t arbitrary: a)
  case (Cons c t)
  let ?a = "a\<lparr>ap_launch_prompt := ap_launch_prompt a @ [c]\<rparr>"
  have "handle_key ou env (plain_key (if c = nl then KEnter else KChar c)) a = stay env ?a"
    using Cons.prems by (auto simp: handle_key_def key_edit_def plain_key_def)
  with Cons.IH [of ?a] Cons.prems show ?case by (simp add: stay_with_def)
qed simp

lemma erase_prompt:
  assumes "ap_focus a = EditPrompt"
  shows "press ou env (replicate n (plain_key KBackspace)) a =
    Some (a\<lparr>ap_launch_prompt := take (length (ap_launch_prompt a) - n) (ap_launch_prompt a)\<rparr>)"
  using assms
proof (induction n arbitrary: a)
  case (Suc n)
  let ?a = "a\<lparr>ap_launch_prompt := butlast (ap_launch_prompt a)\<rparr>"
  have "handle_key ou env (plain_key KBackspace) a = stay env ?a"
    using Suc.prems by (simp add: handle_key_def key_edit_def plain_key_def)
  with Suc.IH [of ?a] Suc.prems show ?case
    by (simp add: stay_with_def butlast_conv_take min_def)
qed simp

lemma press_append: "press ou env (ks @ ls) a = Option.bind (press ou env ks a) (press ou env ls)"
  by (induction ks arbitrary: a) (auto split: option.split sum.split)

text \<open>A prompt is what was typed.  In the prompt editor, erasing as often as the old prompt is long and then
  typing a text, Enter for its line ends, leaves exactly that text as the prompt, whatever letters it
  has that are commands elsewhere, and Escape returns to browsing with it.  The one character that
  cannot be typed is the question mark: it leaves the editor for the guide, and the guide returns to
  browsing.\<close>

theorem typed_prompt:
  assumes "ap_focus a = EditPrompt" and "CHR ''?'' \<notin> set t"
  shows "map_option (\<lambda>b. (ap_launch_prompt b, ap_focus b)) (press ou env
      (replicate (length (ap_launch_prompt a)) (plain_key KBackspace) @
       map (\<lambda>c. plain_key (if c = nl then KEnter else KChar c)) t @ [plain_key KEsc]) a) = Some (t, Browse) \<and>
    map_option (\<lambda>b. (ap_launch_prompt b, ap_focus b)) (press ou env
      [plain_key (KChar (CHR ''?'')), plain_key KEsc] a) = Some (ap_launch_prompt a, Browse)"
proof
  let ?a = "a\<lparr>ap_launch_prompt := []\<rparr>"
  have "press ou env (replicate (length (ap_launch_prompt a)) (plain_key KBackspace)) a = Some ?a"
    using erase_prompt [OF assms(1), of ou env "length (ap_launch_prompt a)"] by simp
  moreover have "press ou env (map (\<lambda>c. plain_key (if c = nl then KEnter else KChar c)) t) ?a = Some (a\<lparr>ap_launch_prompt := t\<rparr>)"
    using type_prompt [of ?a t ou env] assms by simp
  moreover have "press ou env [plain_key KEsc] (a\<lparr>ap_launch_prompt := t\<rparr>) = Some (finish_prompt_edit (a\<lparr>ap_launch_prompt := t\<rparr>))"
    using assms(1) by (simp add: handle_key_def key_edit_def plain_key_def stay_with_def)
  ultimately show "map_option (\<lambda>b. (ap_launch_prompt b, ap_focus b)) (press ou env
      (replicate (length (ap_launch_prompt a)) (plain_key KBackspace) @
       map (\<lambda>c. plain_key (if c = nl then KEnter else KChar c)) t @ [plain_key KEsc]) a) = Some (t, Browse)"
    unfolding press_append by (simp only: bind.bind_lunit option.map) (simp add: finish_prompt_edit_def append_status_def)
  show "map_option (\<lambda>b. (ap_launch_prompt b, ap_focus b)) (press ou env
      [plain_key (KChar (CHR ''?'')), plain_key KEsc] a) = Some (ap_launch_prompt a, Browse)"
    using assms(1) by (simp add: handle_key_def key_edit_def key_help_def plain_key_def stay_with_def)
qed

theorem typed_prompt_witness:
  "map_option (\<lambda>b. (ap_launch_prompt b, ap_focus b)) (press example_outside example_op_env
      (replicate (length (ap_launch_prompt (example_app\<lparr>ap_focus := EditPrompt\<rparr>))) (plain_key KBackspace) @
       map (\<lambda>c. plain_key (if c = nl then KEnter else KChar c)) (''quit'' @ [nl] @ ''x'') @ [plain_key KEsc])
      (example_app\<lparr>ap_focus := EditPrompt\<rparr>)) = Some (''quit'' @ [nl] @ ''x'', Browse)"
  using typed_prompt [of "example_app\<lparr>ap_focus := EditPrompt\<rparr>" "''quit'' @ [nl] @ ''x''" example_outside example_op_env]
  by simp

section \<open>Artifacts\<close>

lemma safe_artifact_path_Inr:
  assumes "safe_artifact_path fs p run_root = Inr c"
  shows "dv_kind fs p \<noteq> Some Symlink \<and> dv_canonicalize fs p = Some c \<and>
    (\<exists>r root. run_root = Some r \<and> trim r \<noteq> [] \<and> dv_canonicalize fs r = Some root \<and> path_starts_with c root)"
  using assms unfolding safe_artifact_path_def
  by (cases "dv_kind fs p"; cases "dv_canonicalize fs p"; cases run_root) (auto split: node_kind.splits if_splits option.splits)

lemma artifact_lines_bound:
  assumes "artifact_lines fs p run_root = Inr ls" and "safe_artifact_path fs p run_root = Inr c" and "dv_kind fs c \<noteq> Some PlainDir"
  shows "length ls \<le> 401"
  using assms by (auto simp: artifact_lines_def split: option.splits)

text \<open>What the viewer may show.  When the operator shows a report, a transcript or a run root, the file is
  named by the selected run, it is not a symbolic link, and the place it really has in the file system
  lies below the place of the run's root; of a file at most four hundred lines and a note are shown.
  Without a root, or with a path that leads out of it, nothing is read, and the view does not change.\<close>

theorem artifact_confined:
  assumes "artifact_of act = Some (title, p)" and "open_artifact env act a = (res, b)"
  shows "(case res of
      Inl _ \<Rightarrow> ap_artifact_lines b = ap_artifact_lines a \<and> ap_focus b = ap_focus a
    | Inr _ \<Rightarrow> ap_focus b = Artifact \<and> (\<exists>run r root c. selected_run a = Some run \<and> rn_root (rr_snapshot run) = Some r \<and>
        dv_canonicalize (oe_fs env) r = Some root \<and> dv_kind (oe_fs env) p \<noteq> Some Symlink \<and>
        dv_canonicalize (oe_fs env) p = Some c \<and> path_starts_with c root \<and>
        artifact_lines (oe_fs env) p (Some r) = Inr (ap_artifact_lines b) \<and>
        (dv_kind (oe_fs env) c \<noteq> Some PlainDir \<longrightarrow> length (ap_artifact_lines b) \<le> 401)))"
proof (cases "artifact_lines (oe_fs env) p (Option.bind (selected_run a) (\<lambda>r. rn_root (rr_snapshot r)))")
  case (Inl e)
  with assms show ?thesis by (auto simp: open_artifact_def Let_def)
next
  case (Inr ls)
  then have b: "res = Inr ()" "ap_focus b = Artifact" "ap_artifact_lines b = ls"
    using assms by (auto simp: open_artifact_def Let_def append_status_def)
  let ?root = "Option.bind (selected_run a) (\<lambda>r. rn_root (rr_snapshot r))"
  obtain c where c: "safe_artifact_path (oe_fs env) p ?root = Inr c"
    using Inr by (cases "safe_artifact_path (oe_fs env) p ?root") (auto simp: artifact_lines_def)
  from safe_artifact_path_Inr [OF c] obtain r root where r: "dv_kind (oe_fs env) p \<noteq> Some Symlink"
    "dv_canonicalize (oe_fs env) p = Some c" "?root = Some r" "dv_canonicalize (oe_fs env) r = Some root" "path_starts_with c root"
    by blast
  from r(3) obtain run where run: "selected_run a = Some run" "rn_root (rr_snapshot run) = Some r"
    by (auto simp: bind_eq_Some_conv)
  have "dv_kind (oe_fs env) c \<noteq> Some PlainDir \<longrightarrow> length ls \<le> 401"
    using artifact_lines_bound [OF Inr c] by blast
  moreover have "artifact_lines (oe_fs env) p (Some r) = Inr ls" using Inr r(3) by simp
  ultimately show ?thesis using b r run by auto
qed

definition example_rooted :: app where
  "example_rooted = example_app\<lparr>ap_runs := map (\<lambda>r. r\<lparr>rr_snapshot := (rr_snapshot r)\<lparr>rn_root := Some ''/s/runs''\<rparr>\<rparr>) (ap_runs example_app)\<rparr>"

theorem artifact_confined_witness:
  "ap_focus (snd (open_artifact example_op_env (OpenReport ''/s/runs/a.json'') example_rooted)) = Artifact \<and>
   path_starts_with ''/s/runs/a.json'' ''/s/runs''"
proof -
  let ?r = "open_artifact example_op_env (OpenReport ''/s/runs/a.json'') example_rooted"
  have "fst ?r = Inr ()" by code_simp
  then obtain b where r: "?r = (Inr (), b)" by (cases ?r) simp
  have root: "map (\<lambda>x. rn_root (rr_snapshot x)) (ap_runs example_rooted) = [Some ''/s/runs'']" "ap_selected example_rooted = 0"
    by code_simp+
  have canon: "dv_canonicalize (oe_fs example_op_env) = Some" by (simp add: example_op_env_def example_board_def)
  have "artifact_of (OpenReport ''/s/runs/a.json'') = Some (''Report'', ''/s/runs/a.json'')" by simp
  from artifact_confined [OF this r] root show ?thesis by (auto simp: r canon selected_run_def)
qed

section \<open>Archiving\<close>

lemma control_plane_archived:
  assumes "safe_root (oe_fs env) root = Inr (Some real)"
    and "json_files_in (oe_fs env) real (archived_dir real) = Inr ps" and "p \<in> set ps"
    and "dv_read (oe_fs env) p = Some body" and "ps_json (oe_parsers env) body = Some (archive_marker run_id at)"
  shows "run_id \<notin> rn_run_id ` set (cp_runs (control_plane env root))"
proof -
  have "jget (archive_marker run_id at) ''run_id'' = Some (JStr run_id)"
    by (simp add: archive_marker_def jget_def obj_of_def map_of_obj_insert)
  then have "archived_id_from_marker (ps_json (oe_parsers env)) (oe_fs env) p = Some run_id"
    using assms by (simp add: archived_id_from_marker_def)
  then have arch: "run_id \<in> set (List.map_filter (archived_id_from_marker (ps_json (oe_parsers env)) (oe_fs env)) ps)"
    using assms(3) by (force simp: map_filter_def)
  show ?thesis
    using arch assms(1,2)
    by (auto simp: control_plane_def load_state_def load_archived_run_ids_def cp_empty_def split: sum.splits)
qed

text \<open>archiving hides the run.  When the marker is written, the file system then lists it among the archive
  markers and the JSON reader reads back what was written, then after the key \<open>x\<close> the run that was
  selected is on the board no more, whatever scope and search are set; nothing else was started.\<close>

theorem archive_hides:
  assumes "selected_run a = Some run" and "app_ok a"
    and "archive_selected_run write at env a = Some (Inr (fs, b))"
    and root: "safe_root fs (ac_state_root (ap_config a)) = Inr (Some real)"
    and listed: "json_files_in fs real (archived_dir real) = Inr ps" "p \<in> set ps"
    and reads: "dv_read fs p = Some body" "ps_json (oe_parsers env) body = Some (archive_marker (rn_run_id (rr_snapshot run)) at)"
  shows "rn_run_id (rr_snapshot run) \<notin> (\<lambda>r. rn_run_id (rr_snapshot r)) ` set (ap_runs b)"
proof -
  let ?env = "env\<lparr>oe_fs := fs\<rparr>" and ?id = "rn_run_id (rr_snapshot run)"
  have "write (marker_path a ?id) (archive_marker ?id at) (oe_fs env) = Inr fs \<and>
      (\<exists>a1. refresh ?env a = Some a1 \<and> b = append_status (''archived run from operator view: '' @ ?id) a1)"
    using assms(1,3) by (auto simp: archive_selected_run_def Let_def split: sum.splits)
  then obtain a1 where a1: "refresh ?env a = Some a1" "b = append_status (''archived run from operator view: '' @ ?id) a1" by blast
  have "ap_runs a1 = filter (run_visible (ap_queue_scope a) (ap_search_query a))
      (render_runs (oe_cal ?env) (oe_now ?env) (control_plane ?env (ac_state_root (ap_config a))))"
    using app_okD(2) [OF assms(2)] by (rule refresh_ok [where env = ?env]) (use a1 in auto)
  then have "(\<lambda>r. rn_run_id (rr_snapshot r)) ` set (ap_runs b) \<subseteq> rn_run_id ` set (cp_runs (control_plane ?env (ac_state_root (ap_config a))))"
    by (auto simp: a1 append_status_def render_runs_def render_run_def)
  moreover have "?id \<notin> rn_run_id ` set (cp_runs (control_plane ?env (ac_state_root (ap_config a))))"
    by (rule control_plane_archived [where real = real and ps = ps and p = p and body = body]) (simp_all add: assms)
  ultimately show ?thesis by blast
qed

theorem archive_hides_witness:
  "\<exists>b. archive_selected_run (ou_write example_outside) ''t'' example_op_env example_app = Some (Inr (example_board True, b)) \<and>
     map (\<lambda>r. rn_run_id (rr_snapshot r)) (ap_runs example_app) = [''a''] \<and>
     ''a'' \<notin> (\<lambda>r. rn_run_id (rr_snapshot r)) ` set (ap_runs b)"
proof -
  have ids: "map (\<lambda>r. rn_run_id (rr_snapshot r)) (ap_runs example_app) = [''a'']" "ap_selected example_app = 0"
    and conf: "ac_state_root (ap_config example_app) = ''/s''" by code_simp+
  then obtain run where run: "selected_run example_app = Some run" "rn_run_id (rr_snapshot run) = ''a''"
    by (cases "ap_runs example_app") (auto simp: selected_run_def)
  have "ap_launch_agent example_app < 3" by code_simp
  have ok: "app_ok example_app" by code_simp
  obtain a1 where "refresh (example_op_env\<lparr>oe_fs := example_board True\<rparr>) example_app = Some a1"
    using refresh_keeps [OF ok] by blast
  then obtain b where b: "archive_selected_run (ou_write example_outside) ''t'' example_op_env example_app = Some (Inr (example_board True, b))"
    using run by (simp add: archive_selected_run_def Let_def example_outside_def)
  have "safe_root (example_board True) (ac_state_root (ap_config example_app)) = Inr (Some ''/s'')" unfolding conf by code_simp
  moreover have "json_files_in (example_board True) ''/s'' (archived_dir ''/s'') = Inr [''/s/runs/.archived/a.json'']" by code_simp
  moreover have "dv_read (example_board True) ''/s/runs/.archived/a.json'' = Some ''/s/runs/.archived/a.json''"
    by (simp add: example_board_def)
  moreover have "ps_json (oe_parsers example_op_env) ''/s/runs/.archived/a.json'' = Some (archive_marker (rn_run_id (rr_snapshot run)) ''t'')"
    by (simp add: example_op_env_def run)
  ultimately have "rn_run_id (rr_snapshot run) \<notin> (\<lambda>r. rn_run_id (rr_snapshot r)) ` set (ap_runs b)"
    using archive_hides [OF run(1) ok b, of "''/s''" "[''/s/runs/.archived/a.json'']"] by (metis list.set_intros(1))
  with b ids run show ?thesis by auto
qed

text \<open>Two runs can have the same marker file: archiving the second brings the first back.\<close>

lemma markers_collide:
  "marker_path a ''team/a'' = marker_path a ''team_a''"
  by (simp add: marker_path_def safe_marker_name_def is_alnum_def)

section \<open>Resuming\<close>

text \<open>C40: a resumed agent is killed.  The command of the control that resumes an agent carries a session
  argument, so the wait takes it for a zellij launch: the command deck is asked for a list of sessions,
  and when that does not show the agent's session the agent, still running and healthy, is killed
  after two seconds and the action is reported as failed, even if it would never have ended.\<close>

theorem resumed_agent_killed:
  assumes "deep_control_command env a (ResumeSession agent session) = Some c" and "agent \<in> set agents"
    and "\<forall>t \<in> set ts. wt_child t = ChildRunning \<and>
      is_session_visible \<lparr>rp_program = ac_command_deck (ap_config a),
         rp_probe_args = [''list-sessions'', ''--short'', ''--no-formatting''], rp_probe_env = [], rp_session_name = session\<rparr>
        (wt_probe t) \<noteq> Inr True"
    and "patient start ts" and "ce_reaped final"
  shows "\<exists>err. wait_for_interactive_launch c start final ts = Some (Inl err, True)"
proof (rule unseen_session_killed)
  show "probe_of c = Some \<lparr>rp_program = ac_command_deck (ap_config a),
         rp_probe_args = [''list-sessions'', ''--short'', ''--no-formatting''], rp_probe_env = [], rp_session_name = session\<rparr>"
    using assms(1,2) by (auto simp: deep_control_command_def probe_of_def agents_def)
qed (use assms in auto)

theorem resumed_agent_killed_witness:
  "\<exists>c err. deep_control_command example_op_env example_app (ResumeSession ''codex'' ''s1'') = Some c \<and>
     wait_for_interactive_launch c 0 hanging_child (map idle_turn [0..<21]) = Some (Inl err, True)"
proof -
  obtain c where c: "deep_control_command example_op_env example_app (ResumeSession ''codex'' ''s1'') = Some c"
    by (simp add: deep_control_command_def)
  have "patient 0 (map idle_turn [0..<21])" using example_patient by (simp add: patient_outside_def example_outside_def)
  then show ?thesis
    using resumed_agent_killed [OF c, of "map idle_turn [0..<21]" 0 hanging_child] c
    by (auto simp: idle_turn_def is_session_visible_def agents_def hanging_child_def)
qed

end
