(* ===== verification/Op_Screen.thy ===== *)
theory Op_Screen
  imports Op_Claims "HOL-Library.Monad_Syntax"
begin

text \<open>
  What the terminal operator draws (\<open>tui-agent/src/ui.rs\<close>).  A screen is its header, its tabs, the panels of the
  active tab in the order they are drawn, its footer and the overlay of the focus; a panel is its area, its title and
  the lines handed to its widget.  The areas come from the layout solver of the terminal library, a parameter of which the code
  relies on one thing: it returns as many areas as it is given constraints.  Taking an area by its index panics when there are
  fewer, and so does the addition of two 16-bit numbers in a build that checks for overflow; as in the
  application, \<open>None\<close> is a panic.  Colours that depend on the state are functions of their own.  Borders, wrapping and
  clipping are the terminal library's.  Characters outside ASCII are their UTF-8 bytes.
\<close>

section \<open>Layout\<close>

type_synonym u16 = "16 word"

record rect =
  rc_x :: u16
  rc_y :: u16
  rc_width :: u16
  rc_height :: u16

datatype direction = Horizontal | Vertical

datatype constraint = FixedLength nat | MinLength nat | Percentage nat | Ratio nat nat

record canvas =
  cv_area :: rect
  cv_split :: "direction \<Rightarrow> constraint list \<Rightarrow> rect \<Rightarrow> rect list"
  cv_checks :: bool

definition canvas_ok :: "canvas \<Rightarrow> bool" where
  "canvas_ok cv \<longleftrightarrow> (\<forall>d cs area. length (cv_split cv d cs area) = length cs)"

text \<open>Indexing.\<close>

definition nth_area :: "rect list \<Rightarrow> nat \<Rightarrow> rect option" where
  "nth_area rs i = (if i < length rs then Some (rs ! i) else None)"

definition add_u16 :: "canvas \<Rightarrow> u16 \<Rightarrow> u16 \<Rightarrow> u16 option" where
  "add_u16 cv x y = (if cv_checks cv \<and> 2 ^ 16 \<le> unat x + unat y then None else Some (x + y))"

section \<open>Frame\<close>

record op_panel =
  opn_area :: rect
  opn_title :: string
  opn_lines :: "string list"

record op_screen =
  osc_header :: "op_panel list"
  osc_tabs_area :: rect
  osc_tabs :: "string list"
  osc_tab :: nat
  osc_panels :: "op_panel list"
  osc_footer :: "op_panel list"
  osc_overlay :: "op_panel option"

datatype tint = TintGreen | TintYellow | TintRed | TintBlue | TintMagenta | TintGray

text \<open>A paragraph with a border and a title, and one without.\<close>

definition titled :: "rect \<Rightarrow> string \<Rightarrow> string list \<Rightarrow> op_panel" where
  "titled area title ls = \<lparr>opn_area = area, opn_title = title, opn_lines = ls\<rparr>"

definition plain_line :: "rect \<Rightarrow> string \<Rightarrow> op_panel" where
  "plain_line area l = titled area [] [l]"

definition up_down :: string where
  "up_down = [CHR 0xE2, CHR 0x86, CHR 0x91] @ ''/'' @ [CHR 0xE2, CHR 0x86, CHR 0x93]"

definition left_right :: string where
  "left_right = [CHR 0xE2, CHR 0x86, CHR 0x90] @ ''/'' @ [CHR 0xE2, CHR 0x86, CHR 0x92]"

definition draw_header :: "canvas \<Rightarrow> rect \<Rightarrow> app \<Rightarrow> op_panel list option" where
  "draw_header cv area a = do {
     let rows = cv_split cv Vertical [FixedLength 1, FixedLength 1] area;
     r0 \<leftarrow> nth_area rows 0;
     r1 \<leftarrow> nth_area rows 1;
     Some [plain_line r0 (''Vibecrafted Operator Console  '' @ status_summary a),
       plain_line r1 (''mission root: '' @ ac_launch_root (ap_config a) @ ''  |  active runs: '' @ nat_str (active_run_count a) @
         ''  |  scope: '' @ scope_label (ap_queue_scope a) @ ''  |  focus: '' @ tab_label (active_tab a))] }"

text \<open>The hint for the keys: the arms in their order.\<close>

definition nav_hint :: "app \<Rightarrow> string" where
  "nav_hint a =
     (if active_tab a = Monitor then ''Monitor: '' @ up_down @ '' runs  / search  f scope  x archive  d controls  ? help''
      else if active_tab a = Dispatch \<and> ap_focus a = EditPrompt then ''Dispatch edit: type prompt  Enter newline  Ctrl+S/Esc save''
      else if ap_focus a = ErrorView then ''Error: Enter/Esc closes the failure details''
      else if ap_focus a = Artifact then ''Artifact viewer: Enter/Esc closes the native viewer''
      else if active_tab a = Dispatch
      then ''Dispatch: '' @ up_down @ '' field  '' @ left_right @ '' change  e edit prompt  Enter launch  1-4 presets''
      else ''Controls: '' @ up_down @ '' action  '' @ left_right @ '' run selection  Enter open  d jump here from Monitor'')"

definition draw_footer :: "canvas \<Rightarrow> rect \<Rightarrow> app \<Rightarrow> op_panel list option" where
  "draw_footer cv area a = do {
     let rows = cv_split cv Vertical [FixedLength 1, FixedLength 1, FixedLength 1] area;
     r0 \<leftarrow> nth_area rows 0;
     r1 \<leftarrow> nth_area rows 1;
     r2 \<leftarrow> nth_area rows 2;
     Some [plain_line r0 (nav_hint a),
       plain_line r1 ''Global: q quit  r refresh  a cycle agent  v cycle runtime  y copy  Ctrl+L clear search  ? help'',
       plain_line r2 (if ap_status_line a = [] then ''state root: '' @ ac_state_root (ap_config a) else ap_status_line a)] }"

section \<open>Panels\<close>

text \<open>\<open>(lines.len() as u16 + 2).clamp(3, cap)\<close>, or no panel at all.  The cast keeps the low 16 bits.\<close>

definition panel_height :: "canvas \<Rightarrow> nat \<Rightarrow> string list \<Rightarrow> nat option" where
  "panel_height cv cap ls = (if ls = [] then Some 0
     else map_option (\<lambda>h. min cap (max 3 (unat h))) (add_u16 cv (word_of_nat (length ls)) 2))"

fun status_style :: "run_kind \<Rightarrow> tint \<times> bool" where
  "status_style Active = (TintGreen, True)"
| "status_style Recent = (TintBlue, False)"
| "status_style Completed = (TintBlue, False)"
| "status_style Failed = (TintRed, True)"
| "status_style Stalled = (TintYellow, True)"
| "status_style Paused = (TintMagenta, False)"
| "status_style run_kind.Unknown = (TintGray, False)"

text \<open>A row of the run list: marked or not, the label, the detail behind it.\<close>

record run_row =
  rw_marked :: bool
  rw_label :: string
  rw_detail :: string

definition run_row_of :: "nat \<Rightarrow> nat \<Rightarrow> rendered_run \<Rightarrow> run_row" where
  "run_row_of selected i run = (let s = rr_snapshot run in
     \<lparr>rw_marked = (i = selected),
      rw_label = rn_run_id s @ '' '' @ run_label (rr_kind run) @ '' / '' @ or_text (rn_agent s) ''unknown'' @ '' / '' @
        or_text (rn_mode s) ''unknown'',
      rw_detail = rr_age_label run @ ''  '' @ or_text (rn_last_error s) []\<rparr>)"

definition run_row_text :: "run_row \<Rightarrow> string" where
  "run_row_text r = (if rw_marked r then play_mark @ '' '' else ''  '') @ rw_label r @ [nl] @ rw_detail r"

definition run_rows :: "app \<Rightarrow> run_row list" where
  "run_rows a = map (\<lambda>(i, run). run_row_of (ap_selected a) i run) (enumerate 0 (ap_runs a))"

definition runs_title :: "app \<Rightarrow> bool \<Rightarrow> string" where
  "runs_title a emphasize_live =
     (if emphasize_live \<and> ap_search_query a \<noteq> [] then scope_title (ap_queue_scope a) @ '' (/ '' @ ap_search_query a @ '')''
      else if emphasize_live then scope_title (ap_queue_scope a) else ''Runs'')"

definition draw_runs :: "rect \<Rightarrow> app \<Rightarrow> bool \<Rightarrow> op_panel" where
  "draw_runs area a emphasize_live = titled area (runs_title a emphasize_live)
     (if ap_runs a = [] then [''No run snapshots found.''] else map run_row_text (run_rows a))"

definition draw_detail :: "rect \<Rightarrow> app \<Rightarrow> string \<Rightarrow> op_panel" where
  "draw_detail area a title = titled area title (run_detail_lines a)"

definition draw_events :: "rect \<Rightarrow> app \<Rightarrow> string \<Rightarrow> op_panel" where
  "draw_events area a title = titled area title (event_lines a)"

definition mux_title :: "subscriber_state option \<Rightarrow> nat \<Rightarrow> string" where
  "mux_title state n = '' rust-mux ('' @ nat_str n @ '') '' @ (case state of
     Some SubConnected \<Rightarrow> ''[Connected] '' | Some SubReconnecting \<Rightarrow> ''[Reconnecting] '' | Some SubPolling \<Rightarrow> ''[Polling] ''
   | Some SubFailed \<Rightarrow> ''[Failed] '' | None \<Rightarrow> [])"

definition mux_title_color :: "subscriber_state option \<Rightarrow> string list \<Rightarrow> tint" where
  "mux_title_color state ls = (case state of
     Some SubConnected \<Rightarrow> TintGreen | Some SubReconnecting \<Rightarrow> TintYellow | Some SubPolling \<Rightarrow> TintYellow
   | Some SubFailed \<Rightarrow> TintRed
   | None \<Rightarrow> if list_ex (\<lambda>l. str_contains l ''! '') ls then TintRed else TintGreen)"

definition draw_mux_panel :: "rect \<Rightarrow> app \<Rightarrow> subscriber_state option \<Rightarrow> op_panel" where
  "draw_mux_panel area a state = titled area (mux_title state (length (ap_mux_summaries a))) (mux_status_lines a)"

text \<open>\<open>trim_start_matches\<close> removes the mark as often as it stands in front.\<close>

definition polarize_line :: "string \<Rightarrow> string" where
  "polarize_line raw = (if str_contains raw '' doctrine '' then ''* '' @ trim_start_matches raw ''  * ''
     else if str_contains raw '' pass '' then ''> '' @ trim_start_matches raw ''  > '' else raw)"

definition polarize_title_color :: "string list \<Rightarrow> tint" where
  "polarize_title_color ls = (if list_ex (\<lambda>l. str_contains l ''doctrine'') ls then TintMagenta else TintYellow)"

definition draw_polarize_panel :: "rect \<Rightarrow> app \<Rightarrow> op_panel" where
  "draw_polarize_panel area a = titled area ('' polarize ('' @ nat_str (length (ap_polarize_intents a)) @ '') '')
     (map polarize_line (polarize_status_lines a))"

definition draw_launch :: "op_env \<Rightarrow> rect \<Rightarrow> app \<Rightarrow> op_panel option" where
  "draw_launch env area a = map_option
     (titled area (if ap_focus a = EditPrompt then ''Dispatch deck (editing prompt)'' else ''Dispatch deck'')) (prompt_lines env a)"

definition draw_launch_history :: "rect \<Rightarrow> app \<Rightarrow> op_panel" where
  "draw_launch_history area a = titled area ''Launch trail''
     ((if ap_launch_history a = []
       then [''No launches from this session yet.'', [], ''Use Dispatch to stage a worker, then press Enter.'']
       else rev (ap_launch_history a)) @
      [[], ''selected run: '' @ (case selected_run a of Some run \<Rightarrow> rn_run_id (rr_snapshot run) | None \<Rightarrow> ''none'')])"

definition draw_deep_controls :: "rect \<Rightarrow> app \<Rightarrow> op_panel option" where
  "draw_deep_controls area a = map_option (titled area ''Control actions'') (deep_control_lines a)"

text \<open>Three cards side by side; cards without a column are not drawn.\<close>

definition draw_stat_strip :: "canvas \<Rightarrow> rect \<Rightarrow> (string \<times> string list) list \<Rightarrow> op_panel list" where
  "draw_stat_strip cv area cards = map (\<lambda>((title, ls), column). titled column title ls)
     (zip cards (cv_split cv Horizontal (replicate 3 (Ratio 1 3)) area))"

section \<open>Tabs\<close>

definition selection_card :: "app \<Rightarrow> string list" where
  "selection_card a = (case selected_run a of
     Some run \<Rightarrow> [rn_run_id (rr_snapshot run),
       run_label (rr_kind run) @ '' / '' @ or_text (rn_agent (rr_snapshot run)) ''unknown'']
   | None \<Rightarrow> [''No run selected'', ''Dispatch a worker to populate the board''])"

definition monitor_cards :: "app \<Rightarrow> (string \<times> string list) list" where
  "monitor_cards a =
     [(''Monitor pulse'', [nat_str (length (ap_runs a)) @ '' runs visible'', nat_str (active_run_count a) @ '' active or stalled'']),
      (''Selection'', selection_card a),
      (''Filter'', [scope_label (ap_queue_scope a) @ '' scope'',
        if ap_search_query a = [] then ''f cycles live/history/all'' else ''/ '' @ ap_search_query a])]"

text \<open>The panels of services and intents take a row each when they have lines; \<open>body_idx\<close> counts the rows taken.\<close>

definition draw_monitor :: "canvas \<Rightarrow> rect \<Rightarrow> app \<Rightarrow> subscriber_state option \<Rightarrow> op_panel list option" where
  "draw_monitor cv area a state = do {
     mux_height \<leftarrow> panel_height cv 10 (mux_status_lines a);
     polarize_height \<leftarrow> panel_height cv 9 (polarize_status_lines a);
     let rows = cv_split cv Vertical ([FixedLength 5] @
       (if mux_status_lines a = [] then [] else [FixedLength mux_height]) @
       (if polarize_status_lines a = [] then [] else [FixedLength polarize_height]) @ [MinLength 8]) area;
     r0 \<leftarrow> nth_area rows 0;
     (mux, idx1) \<leftarrow> (if mux_status_lines a = [] then Some ([], 1)
        else map_option (\<lambda>row. ([draw_mux_panel row a state], 2)) (nth_area rows 1));
     (polarize, body_idx) \<leftarrow> (if polarize_status_lines a = [] then Some ([], idx1)
        else map_option (\<lambda>row. ([draw_polarize_panel row a], idx1 + 1)) (nth_area rows idx1));
     last_row \<leftarrow> nth_area rows body_idx;
     let body = cv_split cv Horizontal [Percentage 36, Percentage 64] last_row;
     b0 \<leftarrow> nth_area body 0;
     b1 \<leftarrow> nth_area body 1;
     let right = cv_split cv Vertical [Percentage 62, Percentage 38] b1;
     d0 \<leftarrow> nth_area right 0;
     d1 \<leftarrow> nth_area right 1;
     Some (draw_stat_strip cv r0 (monitor_cards a) @ mux @ polarize @
       [draw_runs b0 a True, draw_detail d0 a ''Run dossier'', draw_events d1 a ''Recent timeline'']) }"

definition dispatch_cards :: "app \<Rightarrow> string \<Rightarrow> (string \<times> string list) list" where
  "dispatch_cards a agent =
     [(''Mission'', [human_title (ap_launch_kind a), human_description (ap_launch_kind a)]),
      (''Operator'', [''agent '' @ agent, ''runtime '' @ runtime_label (ap_launch_runtime a)]),
      (''Prompt'', [if ap_focus a = EditPrompt then ''Editing live prompt'' else ''Ready to launch'',
        nat_str (length (ap_launch_prompt a)) @ '' chars staged''])]"

definition playbook_lines :: "string list" where
  "playbook_lines = [''Dispatch posture'', [], ''Shape the next worker before you launch it.'',
     ''Use mission kind for intent, agent for style, runtime for surface.'',
     ''Prompt edit is the last mile: keep it sharp and bounded.'']"

definition draw_dispatch :: "op_env \<Rightarrow> canvas \<Rightarrow> rect \<Rightarrow> app \<Rightarrow> op_panel list option" where
  "draw_dispatch env cv area a = do {
     let rows = cv_split cv Vertical [FixedLength 5, MinLength 12] area;
     r0 \<leftarrow> nth_area rows 0;
     agent \<leftarrow> selected_agent a;
     r1 \<leftarrow> nth_area rows 1;
     let body = cv_split cv Horizontal [Percentage 60, Percentage 40] r1;
     b0 \<leftarrow> nth_area body 0;
     deck \<leftarrow> draw_launch env b0 a;
     b1 \<leftarrow> nth_area body 1;
     let right = cv_split cv Vertical [Percentage 44, Percentage 56] b1;
     d0 \<leftarrow> nth_area right 0;
     d1 \<leftarrow> nth_area right 1;
     Some (draw_stat_strip cv r0 (dispatch_cards a agent) @
       [deck, titled d0 ''Dispatch playbook'' playbook_lines, draw_launch_history d1 a]) }"

fun is_file_surface :: "deep_action \<Rightarrow> bool" where
  "is_file_surface (OpenReport p) = True"
| "is_file_surface (OpenTranscript p) = True"
| "is_file_surface (OpenRoot p) = True"
| "is_file_surface (ShowIntent b s r p) = True"
| "is_file_surface _ = False"

definition controls_cards :: "app \<Rightarrow> deep_action list \<Rightarrow> deep_action option \<Rightarrow> (string \<times> string list) list" where
  "controls_cards a acts chosen =
     [(''Run access'', case selected_run a of
         Some run \<Rightarrow> [rn_run_id (rr_snapshot run), display_state (rr_snapshot run)]
       | None \<Rightarrow> [''No run selected'', ''Monitor chooses the source run'']),
      (''Action deck'', [nat_str (length acts) @ '' actions available'',
         case chosen of Some act \<Rightarrow> action_label act | None \<Rightarrow> ''No action primed'']),
      (''Artifacts'', [nat_str (length (filter is_file_surface acts)) @ '' file surfaces'', ''reports / transcripts / roots''])]"

definition draw_controls :: "canvas \<Rightarrow> rect \<Rightarrow> app \<Rightarrow> op_panel list option" where
  "draw_controls cv area a = do {
     acts \<leftarrow> deep_actions a;
     chosen \<leftarrow> selected_deep_action a;
     let rows = cv_split cv Vertical [FixedLength 5, MinLength 12] area;
     r0 \<leftarrow> nth_area rows 0;
     r1 \<leftarrow> nth_area rows 1;
     let body = cv_split cv Horizontal [Percentage 46, Percentage 54] r1;
     b0 \<leftarrow> nth_area body 0;
     deck \<leftarrow> draw_deep_controls b0 a;
     b1 \<leftarrow> nth_area body 1;
     let right = cv_split cv Vertical [Percentage 60, Percentage 40] b1;
     d0 \<leftarrow> nth_area right 0;
     d1 \<leftarrow> nth_area right 1;
     Some (draw_stat_strip cv r0 (controls_cards a acts chosen) @
       [deck, draw_detail d0 a ''Artifact access'', draw_events d1 a ''Selected timeline'']) }"

definition draw_body :: "op_env \<Rightarrow> canvas \<Rightarrow> rect \<Rightarrow> app \<Rightarrow> subscriber_state option \<Rightarrow> op_panel list option" where
  "draw_body env cv area a state = (case active_tab a of
     Monitor \<Rightarrow> draw_monitor cv area a state | Dispatch \<Rightarrow> draw_dispatch env cv area a | Controls \<Rightarrow> draw_controls cv area a)"

section \<open>Overlays\<close>

definition middle_area :: "canvas \<Rightarrow> direction \<Rightarrow> nat \<Rightarrow> nat \<Rightarrow> rect \<Rightarrow> rect option" where
  "middle_area cv d side percent area = nth_area (cv_split cv d [Percentage side, Percentage percent, Percentage side] area) 1"

definition centered_rect :: "canvas \<Rightarrow> nat \<Rightarrow> nat \<Rightarrow> rect \<Rightarrow> rect option" where
  "centered_rect cv percent_x percent_y area =
     Option.bind (middle_area cv Vertical ((100 - percent_y) div 2) percent_y area)
       (middle_area cv Horizontal ((100 - percent_x) div 2) percent_x)"

definition search_lines :: "app \<Rightarrow> string list" where
  "search_lines a = [''/'' @ (if ap_search_query a = [] then ''type to filter runs'' else ap_search_query a), [],
     nat_str (length (ap_runs a)) @ '' runs visible in '' @ scope_label (ap_queue_scope a) @ '' scope'',
     ''Enter/Esc closes. Ctrl+L clears search from browse.'']"

text \<open>The size, the title and the lines of the overlay.\<close>

definition overlay_of :: "app \<Rightarrow> (nat \<times> nat \<times> string \<times> string list) option" where
  "overlay_of a = (case ap_focus a of
     Help \<Rightarrow> Some (72, 70, ''Help'', help_lines)
   | EditPrompt \<Rightarrow> Some (76, 60, ''Prompt editor'', prompt_edit_lines a)
   | Search \<Rightarrow> Some (64, 24, ''Run search'', search_lines a)
   | ErrorView \<Rightarrow> Some (76, 56, ''Launch error'', app_error_lines a)
   | Artifact \<Rightarrow> Some (82, 72, ''Artifact viewer'', app_artifact_lines a)
   | Browse \<Rightarrow> None)"

definition draw_overlay :: "canvas \<Rightarrow> app \<Rightarrow> op_panel option option" where
  "draw_overlay cv a = (case overlay_of a of
     None \<Rightarrow> Some None
   | Some (px, py, title, ls) \<Rightarrow> map_option (\<lambda>area. Some (titled area title ls)) (centered_rect cv px py (cv_area cv)))"

definition client_drift_overlay :: "canvas \<Rightarrow> rect \<Rightarrow> verify_halt \<Rightarrow> op_panel option" where
  "client_drift_overlay cv area halt = do {
     tall \<leftarrow> middle_area cv Vertical 20 60 area;
     box \<leftarrow> middle_area cv Horizontal 10 80 tall;
     Some (titled box '' Client Drift Detected ''
       ([''Dispatch halted because client configuration does not route through rust-mux.'', []] @
       (case halt of
          Drift servers \<Rightarrow> ''Non-mux servers found:'' #
            map (\<lambda>s. ''  '' @ nm_client s @ '' ('' @ nm_path s @ '':'' @ nat_str (nm_line s) @ '')'') servers
        | VerifyTimeout \<Rightarrow> [''Timeout waiting for verify response.'']) @
       [[], ''Press F to auto-fix (spawns wizard)'', ''Press Esc to cancel.''])) }"

definition draw_screen :: "op_env \<Rightarrow> canvas \<Rightarrow> subscriber_state option \<Rightarrow> app \<Rightarrow> op_screen option" where
  "draw_screen env cv state a = do {
     let layout = cv_split cv Vertical [FixedLength 2, FixedLength 3, MinLength 12, FixedLength 3] (cv_area cv);
     l0 \<leftarrow> nth_area layout 0;
     header \<leftarrow> draw_header cv l0 a;
     l1 \<leftarrow> nth_area layout 1;
     tabs \<leftarrow> tab_labels a;
     l2 \<leftarrow> nth_area layout 2;
     body \<leftarrow> draw_body env cv l2 a state;
     l3 \<leftarrow> nth_area layout 3;
     footer \<leftarrow> draw_footer cv l3 a;
     overlay \<leftarrow> draw_overlay cv a;
     Some \<lparr>osc_header = header, osc_tabs_area = l1, osc_tabs = tabs, osc_tab = ap_active_tab a, osc_panels = body,
       osc_footer = footer, osc_overlay = overlay\<rparr> }"

section \<open>Every state can be drawn\<close>

lemma app_ok_agent:
  assumes "app_ok a"
  obtains agent acts where "selected_agent a = Some agent" and "deep_actions a = Some acts" and "acts \<noteq> []"
proof -
  have "ap_launch_agent a < 3" using assms by (simp add: app_ok_def)
  from deep_actions_ok [OF this] selected_agent_ok [OF assms] that show ?thesis by blast
qed

text \<open>In a build that checks for overflow the number of lines of the two growing panels must fit 16 bits.\<close>

definition drawable :: "canvas \<Rightarrow> app \<Rightarrow> bool" where
  "drawable cv a \<longleftrightarrow> canvas_ok cv \<and>
     (cv_checks cv \<longrightarrow> length (ap_mux_summaries a) + 3 < 2 ^ 16 \<and> length (ap_polarize_intents a) + 3 < 2 ^ 16)"

lemma nth_area_split [simp]:
  "canvas_ok cv \<Longrightarrow> i < length cs \<Longrightarrow> nth_area (cv_split cv d cs area) i = Some (cv_split cv d cs area ! i)"
  by (simp add: nth_area_def canvas_ok_def)

lemma length_status_lines:
  "mux_status_lines a \<noteq> [] \<Longrightarrow> length (mux_status_lines a) = Suc (length (ap_mux_summaries a))"
  "polarize_status_lines a \<noteq> [] \<Longrightarrow> length (polarize_status_lines a) = Suc (length (ap_polarize_intents a))"
  by (auto simp: mux_status_lines_def polarize_status_lines_def Let_def)

lemma unat_u16: "n < 2 ^ 16 \<Longrightarrow> unat (word_of_nat n :: u16) = n"
  by (simp add: unsigned_of_nat take_bit_nat_eq_self)

lemma panel_height_total:
  assumes "cv_checks cv \<Longrightarrow> ls \<noteq> [] \<Longrightarrow> length ls + 2 < 2 ^ 16"
  shows "\<exists>h. panel_height cv cap ls = Some h"
proof (cases "cv_checks cv \<and> ls \<noteq> []")
  case True
  then have "unat (word_of_nat (length ls) :: u16) = length ls" using assms by (intro unat_u16) simp
  with True assms show ?thesis by (simp add: panel_height_def add_u16_def)
qed (auto simp: panel_height_def add_u16_def)

lemma middle_area_total: "canvas_ok cv \<Longrightarrow> \<exists>r. middle_area cv d side percent area = Some r"
  by (simp add: middle_area_def)

text \<open>The title and the lines of the overlay that is on the screen, and of the one the focus asks for.\<close>

abbreviation panel_text :: "op_panel \<Rightarrow> string \<times> string list" where
  "panel_text panel \<equiv> (opn_title panel, opn_lines panel)"

abbreviation overlay_text :: "app \<Rightarrow> (string \<times> string list) option" where
  "overlay_text a \<equiv> map_option (\<lambda>(px, py, title, ls). (title, ls)) (overlay_of a)"

lemma overlay_None: "overlay_of a = None \<longleftrightarrow> ap_focus a = Browse"
  by (cases "ap_focus a") (simp_all add: overlay_of_def)

lemma draw_overlay_total:
  assumes "canvas_ok cv"
  shows "\<exists>over. draw_overlay cv a = Some over \<and> map_option panel_text over = overlay_text a"
proof (cases "overlay_of a")
  case (Some x)
  obtain px py title ls where x: "x = (px, py, title, ls)" by (cases x)
  have "\<exists>r. centered_rect cv px py (cv_area cv) = Some r" using assms by (simp add: centered_rect_def middle_area_def)
  with Some x show ?thesis by (auto simp: draw_overlay_def titled_def)
qed (simp add: draw_overlay_def)

lemma strip_shows:
  assumes "canvas_ok cv" and "length cards \<le> 3" and "(title, ls) \<in> set cards"
  shows "\<exists>column. titled column title ls \<in> set (draw_stat_strip cv area cards)"
proof -
  let ?cols = "cv_split cv Horizontal (replicate 3 (Ratio 1 3)) area"
  obtain i where i: "i < length cards" "cards ! i = (title, ls)" using assms(3) by (auto simp: in_set_conv_nth)
  moreover have "length ?cols = 3" using assms(1) by (simp add: canvas_ok_def)
  ultimately have "((title, ls), ?cols ! i) \<in> set (zip cards ?cols)"
    using assms(2) by (auto simp: in_set_zip)
  then show ?thesis unfolding draw_stat_strip_def by force
qed

text \<open>What the body of a tab holds: its cards and its panels.\<close>

lemma draw_monitor_body:
  assumes "drawable cv a"
  shows "\<exists>body r0 b0 d0. draw_monitor cv area a state = Some body \<and> set (draw_stat_strip cv r0 (monitor_cards a)) \<subseteq> set body \<and>
    draw_runs b0 a True \<in> set body \<and> draw_detail d0 a ''Run dossier'' \<in> set body"
proof -
  have cv: "canvas_ok cv" using assms by (simp add: drawable_def)
  have "\<exists>h. panel_height cv 10 (mux_status_lines a) = Some h"
    by (rule panel_height_total) (use assms length_status_lines(1) in \<open>simp add: drawable_def\<close>)
  moreover have "\<exists>h. panel_height cv 9 (polarize_status_lines a) = Some h"
    by (rule panel_height_total) (use assms length_status_lines(2) in \<open>simp add: drawable_def\<close>)
  ultimately show ?thesis using cv by (auto simp: draw_monitor_def Let_def)
qed

lemma draw_dispatch_body:
  assumes "canvas_ok cv" and "selected_agent a = Some agent"
  shows "\<exists>body r0 d1. draw_dispatch env cv area a = Some body \<and>
    set (draw_stat_strip cv r0 (dispatch_cards a agent)) \<subseteq> set body \<and> draw_launch_history d1 a \<in> set body"
  using assms
  by (auto simp: draw_dispatch_def draw_launch_def prompt_lines_def launch_command_of_def launch_request_of_def Let_def)

lemma draw_controls_body:
  assumes "canvas_ok cv" and "deep_actions a = Some acts" and "selected_deep_action a = Some chosen"
    and "deep_control_lines a = Some ls"
  shows "\<exists>body r0 b0 d0. draw_controls cv area a = Some body \<and>
    set (draw_stat_strip cv r0 (controls_cards a acts chosen)) \<subseteq> set body \<and>
    titled b0 ''Control actions'' ls \<in> set body \<and> draw_detail d0 a ''Artifact access'' \<in> set body"
  using assms by (auto simp: draw_controls_def draw_deep_controls_def Let_def)

lemma play_mark_first [simp]: "\<not> starts_with (CHR '' '' # t) play_mark" "\<not> starts_with [] play_mark"
  by (simp_all add: starts_with_def play_mark_def)

lemma marked_rows:
  assumes "i < length (ap_runs a)"
  shows "starts_with (map run_row_text (run_rows a) ! i) play_mark \<longleftrightarrow> i = ap_selected a"
    and "starts_with (map run_row_text (run_rows a) ! i)
      ((if i = ap_selected a then play_mark @ '' '' else ''  '') @ rn_run_id (rr_snapshot (ap_runs a ! i)) @ '' '')"
  using assms
  by (auto simp: run_rows_def run_row_text_def run_row_of_def Let_def nth_enumerate_eq starts_with_iff [of _ "_ @ _"]
      starts_with_iff [of "play_mark @ _"])

lemma deck_lines:
  assumes "deep_control_lines a = Some ls" and "selected_deep_action a = Some (Some act)" and "active_tab a = Controls"
  shows "ls ! (3 + ap_deep_selected a) = play_mark @ '' '' @ action_label act \<and>
    (\<forall>i < length ls. starts_with (ls ! i) play_mark \<longleftrightarrow> i = 3 + ap_deep_selected a)"
proof -
  from assms(2) obtain acts where acts: "deep_actions a = Some acts" and sel: "ap_deep_selected a < length acts"
    and act: "acts ! ap_deep_selected a = act"
    by (auto simp: selected_deep_action_def split: if_splits)
  from sel have "acts \<noteq> []" by auto
  define line where "line i = (if i = ap_deep_selected a then play_mark else '' '') @ '' '' @ action_label (acts ! i)" for i
  have ls: "ls = [''Deep controls'', ''Enter runs the selected action. Esc returns to browse.'', []] @ map line [0..<length acts]"
    using assms(1,3) acts \<open>acts \<noteq> []\<close>
    by (auto simp: deep_control_lines_def line_def enumerate_eq_zip zip_eq_conv intro!: nth_equalityI)
  have "starts_with (line i) play_mark \<longleftrightarrow> i = ap_deep_selected a" for i by (simp add: line_def)
  moreover have "\<not> starts_with (''Deep controls'') play_mark" "\<not> starts_with ''Enter runs the selected action. Esc returns to browse.'' play_mark"
    by (simp_all add: starts_with_def play_mark_def)
  ultimately have "starts_with (ls ! i) play_mark \<longleftrightarrow> i = 3 + ap_deep_selected a" if "i < length ls" for i
    using that by (auto simp: ls nth_append nth_Cons numeral_3_eq_3 split: nat.splits)
  moreover have "ls ! (3 + ap_deep_selected a) = line (ap_deep_selected a)" using sel by (simp add: ls nth_append)
  ultimately show ?thesis by (simp add: line_def act)
qed

text \<open>Some panel has that title and such lines.\<close>

definition shows_panel :: "op_panel list \<Rightarrow> string \<Rightarrow> (string list \<Rightarrow> bool) \<Rightarrow> bool" where
  "shows_panel ps title P \<longleftrightarrow> (\<exists>panel \<in> set ps. opn_title panel = title \<and> P (opn_lines panel))"

lemma shows_panelI: "titled area title ls \<in> set ps \<Longrightarrow> P ls \<Longrightarrow> shows_panel ps title P"
  unfolding shows_panel_def by (rule bexI [of _ "titled area title ls"]) (simp_all add: titled_def)

lemma shows_card:
  assumes "canvas_ok cv" and "set (draw_stat_strip cv area cards) \<subseteq> set ps" and "length cards \<le> 3"
    and "(title, ls) \<in> set cards" and "P ls"
  shows "shows_panel ps title P"
  using strip_shows [OF assms(1,3,4), of area] assms(2,5) shows_panelI by blast

text \<open>What the operator has to see on each tab.\<close>

definition shows_position :: "app \<Rightarrow> op_panel list \<Rightarrow> bool" where
  "shows_position a ps = (case active_tab a of
     Monitor \<Rightarrow> (\<forall>run. selected_run a = Some run \<longrightarrow> (let i = rn_run_id (rr_snapshot run) in
       shows_panel ps ''Selection'' (\<lambda>ls. hd ls = i) \<and> shows_panel ps ''Run dossier'' (\<lambda>ls. hd ls = ''run_id: '' @ i) \<and>
       shows_panel ps (runs_title a True) (\<lambda>ls. length ls = length (ap_runs a) \<and>
         (\<forall>k < length ls. starts_with (ls ! k) play_mark \<longleftrightarrow> k = ap_selected a) \<and>
         starts_with (ls ! ap_selected a) (play_mark @ '' '' @ i @ '' ''))))
   | Dispatch \<Rightarrow> shows_panel ps ''Mission'' (\<lambda>ls. hd ls = human_title (ap_launch_kind a)) \<and>
       (\<exists>agent. selected_agent a = Some agent \<and> shows_panel ps ''Operator'' (\<lambda>ls. hd ls = ''agent '' @ agent)) \<and>
       (\<forall>run. selected_run a = Some run \<longrightarrow>
         shows_panel ps ''Launch trail'' (\<lambda>ls. last ls = ''selected run: '' @ rn_run_id (rr_snapshot run)))
   | Controls \<Rightarrow>
       (\<forall>run. selected_run a = Some run \<longrightarrow> (let i = rn_run_id (rr_snapshot run) in
         shows_panel ps ''Run access'' (\<lambda>ls. hd ls = i) \<and> shows_panel ps ''Artifact access'' (\<lambda>ls. hd ls = ''run_id: '' @ i))) \<and>
       (\<forall>act. selected_deep_action a = Some (Some act) \<longrightarrow>
         shows_panel ps ''Action deck'' (\<lambda>ls. last ls = action_label act) \<and>
         shows_panel ps ''Control actions'' (\<lambda>ls. ls ! (3 + ap_deep_selected a) = play_mark @ '' '' @ action_label act \<and>
           (\<forall>k < length ls. starts_with (ls ! k) play_mark \<longleftrightarrow> k = 3 + ap_deep_selected a))))"

lemma runs_shown:
  assumes run: "selected_run a = Some run" and ps: "draw_runs b0 a True \<in> set ps"
  shows "shows_panel ps (runs_title a True) (\<lambda>ls. length ls = length (ap_runs a) \<and>
    (\<forall>k < length ls. starts_with (ls ! k) play_mark \<longleftrightarrow> k = ap_selected a) \<and>
    starts_with (ls ! ap_selected a) (play_mark @ '' '' @ rn_run_id (rr_snapshot run) @ '' ''))"
proof (rule shows_panelI)
  have sel: "ap_selected a < length (ap_runs a)" "ap_runs a ! ap_selected a = run"
    using run by (auto simp: selected_run_def split: if_splits)
  then have ne: "ap_runs a \<noteq> []" "length (run_rows a) = length (ap_runs a)" by (auto simp: run_rows_def)
  then show "titled b0 (runs_title a True) (map run_row_text (run_rows a)) \<in> set ps" using ps by (simp add: draw_runs_def)
  show "length (map run_row_text (run_rows a)) = length (ap_runs a) \<and>
    (\<forall>k < length (map run_row_text (run_rows a)). starts_with (map run_row_text (run_rows a) ! k) play_mark \<longleftrightarrow> k = ap_selected a) \<and>
    starts_with (map run_row_text (run_rows a) ! ap_selected a) (play_mark @ '' '' @ rn_run_id (rr_snapshot run) @ '' '')"
    using marked_rows(1) [of _ a] marked_rows(2) [OF sel(1)] sel(2) ne(2) by (simp del: nth_map)
qed

lemma detail_shown:
  assumes "selected_run a = Some run" and "draw_detail d0 a title \<in> set ps"
  shows "shows_panel ps title (\<lambda>ls. hd ls = ''run_id: '' @ rn_run_id (rr_snapshot run))"
  by (rule shows_panelI [OF assms(2) [unfolded draw_detail_def]]) (simp add: run_detail_lines_def Let_def assms(1))

lemma monitor_shows:
  assumes dr: "drawable cv a" and tab: "active_tab a = Monitor"
  shows "\<exists>body. draw_monitor cv area a state = Some body \<and> shows_position a body"
proof -
  have cv: "canvas_ok cv" using dr by (simp add: drawable_def)
  obtain body r0 b0 d0 where body: "draw_monitor cv area a state = Some body"
    and cards: "set (draw_stat_strip cv r0 (monitor_cards a)) \<subseteq> set body"
    and panels: "draw_runs b0 a True \<in> set body" "draw_detail d0 a ''Run dossier'' \<in> set body"
    using draw_monitor_body [OF dr] by blast
  have "shows_panel body ''Selection'' (\<lambda>ls. hd ls = rn_run_id (rr_snapshot run))" if "selected_run a = Some run" for run
    by (rule shows_card [OF cv cards, where ls = "selection_card a"])
      (simp_all add: monitor_cards_def selection_card_def that)
  with body runs_shown [OF _ panels(1)] detail_shown [OF _ panels(2)] show ?thesis
    by (simp add: shows_position_def tab Let_def)
qed

lemma dispatch_shows:
  assumes cv: "canvas_ok cv" and tab: "active_tab a = Dispatch" and agent: "selected_agent a = Some agent"
  shows "\<exists>body. draw_dispatch env cv area a = Some body \<and> shows_position a body"
proof -
  obtain body r0 d1 where body: "draw_dispatch env cv area a = Some body"
    and cards: "set (draw_stat_strip cv r0 (dispatch_cards a agent)) \<subseteq> set body"
    and trail: "draw_launch_history d1 a \<in> set body"
    using draw_dispatch_body [OF cv agent] by blast
  have "shows_panel body ''Mission'' (\<lambda>ls. hd ls = human_title (ap_launch_kind a))"
    by (rule shows_card [OF cv cards, where ls = "[human_title (ap_launch_kind a), human_description (ap_launch_kind a)]"])
      (simp_all add: dispatch_cards_def)
  moreover have "shows_panel body ''Operator'' (\<lambda>ls. hd ls = ''agent '' @ agent)"
    by (rule shows_card [OF cv cards, where ls = "[''agent '' @ agent, ''runtime '' @ runtime_label (ap_launch_runtime a)]"])
      (simp_all add: dispatch_cards_def)
  moreover have "shows_panel body ''Launch trail'' (\<lambda>ls. last ls = ''selected run: '' @ rn_run_id (rr_snapshot run))"
    if "selected_run a = Some run" for run
    by (rule shows_panelI [OF trail [unfolded draw_launch_history_def]]) (simp add: that)
  ultimately show ?thesis using body by (simp add: shows_position_def tab agent)
qed

lemma controls_shows:
  assumes cv: "canvas_ok cv" and tab: "active_tab a = Controls" and acts: "deep_actions a = Some acts"
  shows "\<exists>body. draw_controls cv area a = Some body \<and> shows_position a body"
proof -
  obtain ls chosen where ls: "deep_control_lines a = Some ls" and chosen: "selected_deep_action a = Some chosen"
    using acts by (simp add: deep_control_lines_def selected_deep_action_def)
  obtain body r0 b0 d0 where body: "draw_controls cv area a = Some body"
    and cards: "set (draw_stat_strip cv r0 (controls_cards a acts chosen)) \<subseteq> set body"
    and panels: "titled b0 ''Control actions'' ls \<in> set body" "draw_detail d0 a ''Artifact access'' \<in> set body"
    using draw_controls_body [OF cv acts chosen ls] by blast
  have "shows_panel body ''Run access'' (\<lambda>ls. hd ls = rn_run_id (rr_snapshot run))" if "selected_run a = Some run" for run
    by (rule shows_card [OF cv cards, where ls = "[rn_run_id (rr_snapshot run), display_state (rr_snapshot run)]"])
      (simp_all add: controls_cards_def that)
  moreover have "shows_panel body ''Action deck'' (\<lambda>ls. last ls = action_label act)" if "chosen = Some act" for act
    by (rule shows_card [OF cv cards, where ls = "[nat_str (length acts) @ '' actions available'', action_label act]"])
      (simp_all add: controls_cards_def that)
  moreover have "shows_panel body ''Control actions'' (\<lambda>ls. ls ! (3 + ap_deep_selected a) = play_mark @ '' '' @ action_label act \<and>
      (\<forall>k < length ls. starts_with (ls ! k) play_mark \<longleftrightarrow> k = 3 + ap_deep_selected a))" if "chosen = Some act" for act
    by (rule shows_panelI [OF panels(1)]) (rule deck_lines [OF ls _ tab], simp add: chosen that)
  ultimately show ?thesis using body detail_shown [OF _ panels(2)] by (simp add: shows_position_def tab chosen Let_def)
qed

lemma draw_screen_of_body:
  assumes cv: "canvas_ok cv" and tabs: "tab_labels a = Some tabs"
    and body: "\<And>area. \<exists>body. draw_body env cv area a state = Some body \<and> P body"
  shows "\<exists>s. draw_screen env cv state a = Some s \<and> osc_tabs s = tabs \<and> osc_tab s = ap_active_tab a \<and>
    map_option panel_text (osc_overlay s) = overlay_text a \<and> P (osc_panels s)"
proof -
  let ?l = "cv_split cv Vertical [FixedLength 2, FixedLength 3, MinLength 12, FixedLength 3] (cv_area cv)"
  obtain over where over: "draw_overlay cv a = Some over" "map_option panel_text over = overlay_text a"
    using draw_overlay_total [OF cv, of a] by blast
  obtain ps where ps: "draw_body env cv (?l ! 2) a state = Some ps" "P ps" using body by blast
  with cv tabs over show ?thesis by (simp add: draw_screen_def draw_header_def draw_footer_def Let_def)
qed

text \<open>C11: the drawn screen shows where the operator stands.  Let the layout solver return an area for each constraint and,
  if the build checks for overflow, the services and the intents be fewer than \<open>2 ^ 16 - 3\<close>.  Then every state
  that satisfies the invariant is drawn without a panic, and with an overlay, that of the focus, exactly when the focus is not on browsing.  Among
  the panels of the screen, if a run is selected: the monitor names it on the selection card and in the dossier, and in its list
  of runs exactly the row of that run is marked; the dispatch tab names it on the launch trail; the control tab
  on the card and in the details.  The dispatch tab shows the mission and the agent of the next launch.  On the control
  tab exactly the line of the action that Enter runs is marked, and the card names the same action.\<close>

theorem screen_shows_selection:
  assumes ok: "app_ok a" and dr: "drawable cv a"
  shows "\<exists>s. draw_screen env cv state a = Some s \<and> osc_tab s < length (osc_tabs s) \<and>
    (osc_overlay s = None \<longleftrightarrow> ap_focus a = Browse) \<and> map_option panel_text (osc_overlay s) = overlay_text a \<and>
    shows_position a (osc_panels s)"
proof -
  have cv: "canvas_ok cv" using dr by (simp add: drawable_def)
  obtain agent acts where agent: "selected_agent a = Some agent" "deep_actions a = Some acts" using app_ok_agent [OF ok] .
  then obtain tabs where tabs: "tab_labels a = Some tabs" "length tabs = 3" by (simp add: tab_labels_def)
  have "\<exists>body. draw_body env cv area a state = Some body \<and> shows_position a body" for area
    using monitor_shows [OF dr] dispatch_shows [OF cv _ agent(1)] controls_shows [OF cv _ agent(2)]
    by (cases "active_tab a") (simp_all add: draw_body_def)
  from draw_screen_of_body [OF cv tabs(1) this] obtain s where
    s: "draw_screen env cv state a = Some s" "osc_tabs s = tabs" "osc_tab s = ap_active_tab a"
      "map_option panel_text (osc_overlay s) = overlay_text a" "shows_position a (osc_panels s)" by blast
  moreover have "osc_overlay s = None \<longleftrightarrow> ap_focus a = Browse" 
    using arg_cong [OF s(4), of "\<lambda>x. x = None"] overlay_None [of a] by simp
  moreover have "osc_tab s < length (osc_tabs s)" using s(2,3) tabs(2) ok by (simp add: app_ok_def)
  ultimately show ?thesis using s by (intro exI [of _ s] conjI)
qed

text \<open>The bound is needed: with 65533 status files, and a build that checks for overflow, drawing the monitor panics.\<close>

theorem too_many_services_panic:
  assumes "canvas_ok cv" and "cv_checks cv" and "active_tab a = Monitor" and "length (ap_mux_summaries a) = 65533"
  shows "draw_screen env cv state a = None"
proof -
  have ne: "mux_status_lines a \<noteq> []" using assms(4) by (auto simp: mux_status_lines_def Let_def)
  then have "length (mux_status_lines a) = 65534" using length_status_lines(1) assms(4) by simp
  then have "panel_height cv 10 (mux_status_lines a) = None"
    using ne assms(2) unat_u16 [of 65534] by (simp add: panel_height_def add_u16_def)
  then have "draw_body env cv area a state = None" for area by (simp add: draw_body_def draw_monitor_def assms(3))
  then show ?thesis by (cases "tab_labels a") (simp_all add: draw_screen_def draw_header_def Let_def assms(1))
qed

text \<open>A panel of services or intents is never higher than its cap, so it cannot take the run list's room, and as long as
  its lines are fewer than \<open>2 ^ 16 - 2\<close> and fit the cap it has a row for each of them and its border.\<close>

theorem panel_height_bounds:
  assumes "ls \<noteq> []" and "3 \<le> cap" and "panel_height cv cap ls = Some h"
  shows "3 \<le> h \<and> h \<le> cap \<and> (length ls + 2 < 2 ^ 16 \<longrightarrow> h = min cap (length ls + 2))"
proof -
  have sum: "(word_of_nat (length ls) + 2 :: u16) = word_of_nat (length ls + 2)" by simp
  have "unat (word_of_nat (length ls) + 2 :: u16) = length ls + 2" if "length ls + 2 < 2 ^ 16"
    unfolding sum by (rule unat_u16 [OF that])
  moreover have "3 \<le> length ls + 2" using assms(1) by (cases ls) simp_all
  ultimately show ?thesis using assms by (auto simp: panel_height_def add_u16_def split: if_splits)
qed

text \<open>On the monitor the hint of the tab hides those of the overlays: after a failed copy the error is shown and the
  footer still explains the run list.\<close>

theorem monitor_hint_hides_error:
  assumes "active_tab a = Monitor" and "set_text (the (clipboard_payload a)) = Some e" and "selected_run a \<noteq> None"
  shows "case copy_selected_run_to_clipboard set_text a of (Inl err, a1) \<Rightarrow>
      (let a2 = show_error ''clipboard failed'' [err] a1 in overlay_of a2 \<noteq> None \<and> nav_hint a2 = nav_hint a)
    | _ \<Rightarrow> False"
proof -
  obtain p where p: "clipboard_payload a = Some p" using assms(3) by (auto simp: clipboard_payload_def)
  with assms(1,2) show ?thesis
    by (simp add: copy_selected_run_to_clipboard_def show_error_def overlay_of_def nav_hint_def active_tab_def)
qed

text \<open>A canvas whose solver gives every part the whole area.\<close>

definition example_canvas :: canvas where
  "example_canvas = \<lparr>cv_area = \<lparr>rc_x = 0, rc_y = 0, rc_width = 120, rc_height = 40\<rparr>,
     cv_split = (\<lambda>d cs area. map (\<lambda>_. area) cs), cv_checks = True\<rparr>"

theorem screen_shows_selection_witness:
  "\<exists>s. draw_screen example_op_env example_canvas (Some SubPolling) example_app = Some s \<and>
     shows_panel (osc_panels s) ''Selection'' (\<lambda>ls. hd ls = ''a'')"
proof -
  have ok: "app_ok example_app" by code_simp
  have few: "length (ap_mux_summaries example_app) = 0" "length (ap_polarize_intents example_app) = 0" by code_simp+
  have dr: "drawable example_canvas example_app" by (simp only: drawable_def few) (simp add: canvas_ok_def example_canvas_def)
  have tab: "active_tab example_app = Monitor" by code_simp
  have "map_option (\<lambda>r. rn_run_id (rr_snapshot r)) (selected_run example_app) = Some ''a''" by code_simp
  then obtain run where run: "selected_run example_app = Some run" "rn_run_id (rr_snapshot run) = ''a''" by auto
  from screen_shows_selection [OF ok dr, of example_op_env "Some SubPolling"] tab run show ?thesis
    by (auto simp: shows_position_def Let_def)
qed

end
