(* ===== verification/Spec2Isabelle.thy ===== *)
theory Spec2Isabelle
  imports Mux_Accounting Mux_Heartbeat Mux_Embed Mux_Status Mux_Proxy Mux_Ipc Host_Danger Host_Gen Host_Cli Shell_Ffi Mux_Dash Mux_Main Host_Screens Op_Watch Op_Screen
begin

text \<open>
  A verification library for the four programs of this repository: the MCP multiplexer with its setup tools
  (\<open>src/mux-agent\<close>), the terminal operator that launches and watches agent runs (\<open>src/tui-agent\<close>), the menu bar
  agent (\<open>src/tray-agent\<close>) and the bindings of the desktop shell (\<open>src/shell-agent/ffi\<close>).

  \<^bold>\<open>The multiplexer.\<close>  The mux daemon lets many clients share one MCP server process.  Clients connect
  to a Unix socket; each connection is a task (\<open>runtime/client.rs\<close>) that rewrites request ids, keeps
  early messages back until the client has finished the initialize handshake, and hands requests to
  the server through a bounded channel.  A manager task (\<open>runtime/server.rs\<close>) runs the server process
  and restarts it with backoff, a router (\<open>runtime/mod.rs\<close>) carries answers back, a reaper ends
  requests that take too long, an inspector (\<open>runtime/heartbeat.rs\<close>) probes the server, and a control
  socket (\<open>ipc/\<close>) answers operators.  They share one state under a mutex (\<open>state.rs\<close>).  Around the
  daemon: its command line (\<open>bin/rust-mux.rs\<close>) and the entry points of \<open>lib.rs\<close>, the resolution of its
  configuration (\<open>config.rs\<close>), two proxies (\<open>runtime/proxy.rs\<close>, \<open>bin/rust-mux-proxy.rs\<close>), the status file, the
  status socket and its table (\<open>runtime/status.rs\<close>), dashboards (\<open>multi_tui.rs\<close>, \<open>tray.rs\<close>, \<open>tray_dashboard.rs\<close>),
  and the setup tools: commands that scan and rewire the configuration files of MCP clients (\<open>scan.rs\<close>),
  generation (\<open>mux_gen.rs\<close>) and rewriting with backups (\<open>danger.rs\<close>), and a wizard of five steps over all of
  them (\<open>wizard/\<close>).

  \<^bold>\<open>The operator.\<close>  A terminal program with one state (\<open>app.rs\<close>): an agent and a skill chosen with the
  keyboard, a prompt, the recent runs, a form for launches, polarize intents, and the status of the mux daemons it
  finds.  \<open>launch.rs\<close> builds the command line of a run, quotes it for the shell and waits for its metadata;
  \<open>state.rs\<close> reads and orders runs, \<open>config.rs\<close> the user's settings, \<open>skills_catalog.rs\<close> the skills,
  \<open>polarize.rs\<close> the reports, \<open>mux.rs\<close> the status files and the status socket of the daemons; \<open>lib.rs\<close> is the key
  dispatcher and the main loop, \<open>ui.rs\<close> draws.

  \<^bold>\<open>Agent and bindings.\<close>  The menu bar agent shows the daemon's status as an icon and a menu, sends commands to the
  control socket and subscribes to its events.  The bindings offer the same socket to the desktop shell.

  \<^bold>\<open>The theories of the multiplexer.\<close>

  \<^item> \<open>Mux_Prelude\<close>: words, durations in nanoseconds as naturals, \<open>HashMap\<close> as association lists
    without repeated keys, strings; the interfaces \<open>id_source\<close> (counters that hand out ids) and
    \<open>dictionary\<close> (maps filled entry by entry).
  \<^item> \<open>Mux_Json\<close>: \<open>serde_json::Value\<close> with sorted objects, \<open>set_id\<close>, \<open>error_response\<close>.
  \<^item> \<open>Mux_State\<close>: \<open>state.rs\<close>; \<open>MuxState\<close> is the record \<open>mux_state\<close>, each method a function on it; the
    state together with semaphore, status channel and server channel is \<open>mux_world\<close>.  The interface
    \<open>mailbox\<close> is what the senders of client messages rely on.
  \<^item> \<open>Mux_Client\<close>, \<open>Mux_Server\<close>: the handlers of \<open>runtime/client.rs\<close>, \<open>runtime/server.rs\<close>, the router
    and the reaper of \<open>runtime/mod.rs\<close>, as functions on \<open>mux_world\<close>.
  \<^item> \<open>Mux_Inv\<close>: the invariant of the state and its preservation by every operation.
  \<^item> \<open>Mux_Manager\<close>: \<open>server_manager\<close> with the mutex as a non-reentrant lock; what the operating system
    and the other tasks decide in one turn is a \<open>child_run\<close>.
  \<^item> \<open>Mux_Runtime\<close>: the composition; \<open>mux_step\<close> is one handler of one task, \<open>mux_reach\<close> any schedule,
    \<open>mux_exec\<close> its executable form.
  \<^item> \<open>Mux_Protocol\<close>, \<open>Mux_Lifecycle\<close>, \<open>Mux_Accounting\<close>: properties of handlers and of all schedules.
  \<^item> \<open>Mux_Heartbeat\<close>: the inspector as a step relation over the await points of its loop.
  \<^item> \<open>Mux_Ipc\<close>: commands, connections, subscriptions and admission on the control socket.
  \<^item> \<open>Mux_Path\<close>, \<open>Mux_Config\<close>, \<open>Mux_Embed\<close>: Unix paths, \<open>config.rs\<close>, the builder, and how parameters
    become the state and the manager of a daemon.
  \<^item> \<open>Mux_Status\<close>, \<open>Mux_Report\<close>: collecting the status; status file, status socket with the JSON form of the
    report, table.
  \<^item> \<open>Mux_Main\<close>: the command line, the sockets daemons bind and remove (\<open>sock_world\<close>, one event per step of
    a daemon's life), \<open>run_mux_multi\<close>, \<open>status_all\<close> and the health check.
  \<^item> \<open>Mux_Proxy\<close>: the message proxy and the byte proxy.  \<open>Mux_Dash\<close>: the terminal table and the tray menus.
  \<^item> \<open>Host_Scan\<close>, \<open>Host_Merge\<close>, \<open>Host_Danger\<close>, \<open>Host_Gen\<close>, \<open>Host_Out\<close>: scanning, merging, rewriting,
    generating, and the texts and files that come out, with the rollback commands read by a shell.
  \<^item> \<open>Host_Cli\<close>: the commands scan, rewire and status over a store of files.
  \<^item> \<open>Host_Services\<close>, \<open>Host_Wizard\<close>, \<open>Host_Setup\<close>, \<open>Host_Screens\<close>: the services the wizard finds, its state
    and keys, its strategies and whole runs over files, processes and printed text, and its screens.

  \<^bold>\<open>The theories of the operator.\<close>

  \<^item> \<open>Op_Order\<close>, \<open>Op_Text\<close>: the orders the operator sorts by, with their interface, and the string
    functions of the standard library it uses.
  \<^item> \<open>Op_Launch\<close>: the command line of a run and its quoting for the shell and for AppleScript; the
    interface \<open>quoting\<close> is what a quoting and its reader promise each other.
  \<^item> \<open>Op_Wait\<close>: waiting for the session of a launched run, with its deadline; a wait for the child may never return.
  \<^item> \<open>Op_Runs\<close>, \<open>Op_Config\<close>, \<open>Op_Skills\<close>, \<open>Op_Polarize\<close>: \<open>state.rs\<close>, \<open>config.rs\<close>, \<open>skills_catalog.rs\<close>,
    \<open>polarize.rs\<close>.
  \<^item> \<open>Op_Decode\<close>: reading the data types from JSON, with the interface \<open>codec\<close> for round trips.
  \<^item> \<open>Op_Mux\<close>, \<open>Op_Watch\<close>: the operator's view of the daemons, and its composition with the daemon:
    what the status file says after any schedule, discovery, the status subscriber.
  \<^item> \<open>Op_App\<close>, \<open>Op_Lines\<close>, \<open>Op_Keys\<close>: the state \<open>app\<close>, the form's lines, every key.  What the
    program reads from its surroundings is the record \<open>op_env\<close>, what it changes there \<open>op_outside\<close>.
  \<^item> \<open>Op_Board\<close>, \<open>Op_Claims\<close>: the invariant \<open>app_ok\<close> of the state and the properties of key sequences.
  \<^item> \<open>Op_Screen\<close>: what \<open>ui.rs\<close> draws of a state, panels with their areas and texts; the layout solver is a parameter, an
    index out of range or a checked overflow is a panic.

  \<^bold>\<open>The theories of agent and bindings.\<close>  \<open>Tray_Agent\<close>: menu, clicks and their effects, commands, subscription,
  event loop.  \<open>Tray_Icon\<close>: the painting of the icons on bytes.  \<open>Tray_Watch\<close>: the agent composed with all
  schedules of the daemon.  \<open>Shell_Ffi\<close>: the bindings over the daemon's own handlers.

  \<^bold>\<open>What is shown.\<close>  For the daemon: a request comes back to its client under its own id and no other
  client sees it; in every schedule a pending request is answered, stays pending, or its client is
  gone; before the handshake only \<open>initialize\<close> and notifications without an id pass, and every request kept back
  passes after it, in order; resets and timeouts answer exactly the requests they end; permits and connections
  add up; backoff doubles and restarts are bounded.  In multi-service mode every selected service comes up at
  its own socket in every interleaving, the health check looks where the daemon listens, the status file is never
  half written and the status socket's report is read back.  For the tools: resolution, merging, generation
  and rewriting keep what they must keep; a rewired file holds exactly its servers with a command, each
  reported as rewired; the rollback commands restore every rewritten file but one whose writing broke off.  Before a
  confirmed summary the wizard starts its two probes \<open>ps\<close> and \<open>pip\<close> and nothing else, and changes no file; its review lists
  every server and is what it shows, and what it changes was announced.  For the operator: from
  every state that satisfies the invariant every key is handled without a panic and keeps the
  invariant, and the state can be drawn, its panels naming the selected run; a prompt survives the shell
  unchanged; waiting for a launch ends within 21 turns unless it blocks on the output of a child it has reason to collect, and
  says when it failed; runs, markers and events come from inside the state directory only; what was written to a status file is read back; the
  searches and sorts agree with their specifications; artifacts outside the workspace are not opened.  For the
  agent and the bindings: each menu item runs its own action, the icon shows the status in the pixels of the
  mark and no index is out of range, the shell sees the daemon's own numbers.

  A number of theorems state what the code does where this differs from its comments or its purpose: the
  heartbeat never succeeds, the manager blocks itself at the restart limit, the initialize answer is
  not shared while it is pending, undecodable frames leak clients, a lagging subscriber goes deaf, the menu bar
  agent hears no event and gives up after ten connections, no one serves the status socket, a displaced daemon
  removes its successor's socket, all daemons of a process share one control socket, an unrelated configuration
  file makes an explicit command line fail, a rewire deletes servers reached by URL, a resumed agent is killed by
  the operator's own timeout, the proxy leaves with requests unanswered when the socket closes, a client file cut by a
  failed write is not restored, and others.

  \<^bold>\<open>Abstractions and bounds.\<close>  A handler is one atomic step: interleavings at the await points inside
  one handler are not modelled, only those between handlers, and for the inspector and the manager
  those inside their loops too.  Counters are words and wrap; theorems about fresh ids hold for
  schedules shorter than \<open>2 ^ 64 - 1\<close> steps, since each step issues at most one id.  The buffered
  channel to the server is a list whose tail beyond \<open>MAX_QUEUE\<close> are senders waiting for room.  Two
  loops of the tools have fuel: the search for a backup name stops after 1000 attempts in the code,
  so 1001 turns are enough, and the search for an unused service name needs at most one turn more
  than names are used.  In the operator \<open>None\<close> stands for a panic or a loop that does not end, and
  theorems say when it does not occur; in the wizard it stands for a loop that still waits for a key.  Parsers
  and printers of JSON, TOML and YAML, the file system, the outcome of each system call, the encoded length of a
  message, the clock, child processes, the broadcast channel's capacity and the decoding of pictures are
  parameters; the records \<open>wizard_env\<close>, \<open>setup_os\<close>, \<open>cli_os\<close>, \<open>sock_os\<close>, \<open>tray_env\<close> collect them.  Menu
  ids are an injective numbering.  Screens, menus and tables are their texts; characters outside ASCII are their
  UTF-8 bytes or parameters.  A write to a file can fail before the file is opened or after a prefix of the text.

  \<^bold>\<open>Not modelled.\<close>  Socket and process I/O with its framing, logging, the command line parsers of the clap library,
  the layout solver, styles and clipping of the terminal library, the menu and clipboard libraries, generated bindings; \<open>MuxHandle\<close>,
  which wraps a task of the runtime; \<open>main.rs\<close> of the mux, which is no build target, and the containers of
  \<open>common.rs\<close> and \<open>multi.rs\<close> that nothing uses.
\<close>

section \<open>From scanned services to a running daemon\<close>

text \<open>C33: the generated setup runs.  Take any server the generated client file offers.  The daemon started
  from the generated configuration for that name gets resolved parameters: its socket is the one the
  client's proxy is told to connect to (after expansion of the home directory), it runs the command,
  arguments and environment of a merged service of that name, and in every schedule it serves at
  most five connections at once.\<close>

theorem generated_setup_runs:
  fixes merged mux_dir proxy_cmd proxy_args
  defines "out \<equiv> build_mux_outputs merged mux_dir proxy_cmd proxy_args"
  assumes e: "hm_get (snd (mo_mcp_json out)) name = Some e"
    and cli: "co_service cli = Some name" "co_socket cli = None" "co_cmd cli = None" "co_args cli = []"
  shows "\<exists>svc p. svc \<in> set (mo_services merged) \<and> sv_name svc = name \<and>
    resolve_params home cli (Some (mo_config out)) = Inr p \<and>
    rp_socket p = expand_path home (last (cs_args e)) \<and>
    mg_cmd (manager_config_of p) = sv_command svc \<and> mg_args (manager_config_of p) = sv_args svc \<and>
    mg_env (manager_config_of p) = (case sv_env svc of Some v \<Rightarrow> v | None \<Rightarrow> []) \<and>
    (\<forall>enc_len es s. mux_reach enc_len (state_config_of p) es s \<longrightarrow>
      w_permits (sys_world s) + length (sys_conns s) = 5)"
proof -
  let ?dir = "default_socket_dir mux_dir"
  obtain svc where f: "find (\<lambda>s. sv_name s = name) (rev (mo_services merged)) = Some svc"
    and ev: "e = client_server_of ?dir proxy_cmd proxy_args svc"
    using e by (auto simp: out_def generated_maps)
  have svc: "svc \<in> set (mo_services merged)" "sv_name svc = name"
    using f by (auto simp: find_Some_iff) (metis length_rev nth_mem set_rev)
  have cfg: "hm_get (mo_config out) name = Some (manifest_entry ?dir svc)"
    by (simp add: out_def generated_maps f)
  obtain p where p: "resolve_with home cli (Some (manifest_entry ?dir svc)) = Inr p"
    using cli by (simp add: resolve_with_def opt_or_def manifest_entry_def)
  then have res: "resolve_params home cli (Some (mo_config out)) = Inr p"
    using cli cfg by (simp add: resolve_params_def)
  have "rp_socket p = expand_path home (service_socket ?dir svc)" "rp_cmd p = sv_command svc"
    "rp_args p = sv_args svc" "rp_env p = sv_env svc" "rp_max_clients p = 5"
    using p cli by (auto simp: resolve_with_def opt_or_def layered_def manifest_entry_def)
  then show ?thesis
    using svc res permits_reach [of _ "state_config_of p"]
    by (intro exI [of _ svc] exI [of _ p])
      (auto simp: ev client_server_of_def manager_config_of_def state_config_of_def permits_ok_def)
qed

theorem generated_setup_runs_witness:
  "\<exists>p. resolve_params None (example_cli\<lparr>co_socket := None, co_service := Some ''b''\<rparr>)
      (Some (mo_config (build_mux_outputs (merge_services example_scans) ''/m'' ''rust-mux-proxy'' []))) = Inr p \<and>
    rp_socket p = ''/m/sockets/b.sock'' \<and> mg_cmd (manager_config_of p) = ''w''"
proof -
  let ?out = "build_mux_outputs (merge_services example_scans) ''/m'' ''rust-mux-proxy'' []"
  have e: "hm_get (snd (mo_mcp_json ?out)) ''b'' = Some \<lparr>cs_command = ''rust-mux-proxy'',
      cs_args = [''--socket'', ''/m/sockets/b.sock''], cs_env = None\<rparr>" by code_simp
  have only: "\<forall>s \<in> set (mo_services (merge_services example_scans)). sv_name s = ''b'' \<longrightarrow> sv_command s = ''w''"
    by code_simp
  have ex: "expand_path None ''/m/sockets/b.sock'' = ''/m/sockets/b.sock''" by code_simp
  let ?cli = "example_cli\<lparr>co_socket := None, co_service := Some ''b''\<rparr>"
  have cli: "co_service ?cli = Some ''b''" "co_socket ?cli = None" "co_cmd ?cli = None" "co_args ?cli = []"
    by (simp_all add: example_cli_def)
  from generated_setup_runs [OF e cli, of None] show ?thesis
    using only by (elim exE conjE) (intro exI conjI, assumption, simp_all add: ex)
qed

end
